(* ===== verification/Prelude.thy ===== *)
theory Prelude
  imports Complex_Main "HOL-Library.Monad_Syntax"
begin

text \<open>
  Shared vocabulary of the development: the collections of simplification rules that the
  component theories fill, generic facts on lists, options and real arithmetic, and the
  conversions of C++ that several components use (the \<open>unsigned int\<close> cast of a double).
  A function that would dereference a null pointer, or whose behaviour is undefined in C++,
  returns \<open>None\<close>; every other outcome is \<open>Some\<close>.
\<close>

section \<open>Collections of rules\<close>

named_theorems pt_simps "observers of points"
named_theorems ext_simps "observers of extents"
named_theorems wf_intros "introduction rules for well-formedness"

section \<open>Conversions\<close>

text \<open>
  The conversion \<open>(unsigned int) d\<close> truncates; outside the range of a 32-bit unsigned
  integer C++ leaves it undefined.
\<close>

definition u32_of_real :: "real \<Rightarrow> nat option" where
  "u32_of_real d = (if -1 < d \<and> d < 2 ^ 32 then Some (nat \<lfloor>d\<rfloor>) else None)"

lemma u32_of_real_nonneg:
  "0 \<le> d \<Longrightarrow> d < 2 ^ 32 \<Longrightarrow> u32_of_real d = Some (nat \<lfloor>d\<rfloor>)"
  by (simp add: u32_of_real_def)

section \<open>Lists\<close>

text \<open>Folding a step that keeps a property keeps it over the whole list.\<close>

lemma foldl_invariant:
  assumes "P a" and "\<And>a x. P a \<Longrightarrow> x \<in> set xs \<Longrightarrow> P (f a x)"
  shows "P (foldl f a xs)"
  using assms by (induction xs arbitrary: a) auto

lemma foldl_mono_measure:
  fixes m :: "'a \<Rightarrow> 'c::preorder"
  assumes "\<And>a x. m a \<le> m (f a x)"
  shows "m a \<le> m (foldl f a xs)"
  using assms by (induction xs arbitrary: a) (auto intro: order_trans)

lemma Min_insert_min:
  "finite X \<Longrightarrow> Min (insert (min a b) X) = Min (insert a (insert (b :: 'a::linorder) X))"
  by (cases "X = {}") (simp_all add: min.assoc)

lemma Max_insert_max:
  "finite X \<Longrightarrow> Max (insert (max a b) X) = Max (insert a (insert (b :: 'a::linorder) X))"
  by (cases "X = {}") (simp_all add: max.assoc)

text \<open>A loop with an early exit on failure, over a predicate that may itself be undefined.\<close>

fun all_opt :: "('a \<Rightarrow> bool option) \<Rightarrow> 'a list \<Rightarrow> bool option" where
  "all_opt f [] = Some True"
| "all_opt f (x # xs) =
     (case f x of None \<Rightarrow> None | Some False \<Rightarrow> Some False | Some True \<Rightarrow> all_opt f xs)"

lemma all_opt_Some:
  "(\<And>x. x \<in> set xs \<Longrightarrow> f x = Some (g x)) \<Longrightarrow> all_opt f xs = Some (list_all g xs)"
  by (induction xs) (auto split: bool.splits)

definition and_opt :: "bool option \<Rightarrow> bool option \<Rightarrow> bool option" where
  "and_opt a b = (case a of None \<Rightarrow> None | Some False \<Rightarrow> Some False | Some True \<Rightarrow> b)"

lemma and_opt_Some [simp]: "and_opt (Some a) (Some b) = Some (a \<and> b)"
  by (cases a) (simp_all add: and_opt_def)

lemma and_opt_False [simp]: "and_opt (Some False) b = Some False"
  by (simp add: and_opt_def)

lemma and_opt_None [simp]: "and_opt None b = None"
  by (simp add: and_opt_def)

text \<open>The largest finite \<open>double\<close>, from which searches for a least value start.\<close>

definition dbl_max :: real where
  "dbl_max = (2 - 1 / 2 ^ 52) * 2 ^ 1023"

end
