(* ===== verification/Units.thy ===== *)
theory Units
  imports Prelude
begin

text \<open>
  \<^verbatim>\<open>src/osgGIS/Units.cpp\<close>: linear and angular units by their factor to a baseline (metres,
  degrees), conversion between units of one kind, and the two conversions between angular and
  linear displacement vectors. OSG's \<open>DegreesToRadians\<close> is an argument.
\<close>

datatype unit_type = TYPE_LINEAR | TYPE_ANGULAR

record units =
  unit_type :: unit_type
  to_baseline :: real

definition METERS :: units where "METERS = \<lparr>unit_type = TYPE_LINEAR, to_baseline = 1\<rparr>"
definition FEET :: units where "FEET = \<lparr>unit_type = TYPE_LINEAR, to_baseline = 0.3048\<rparr>"
definition KILOMETERS :: units where "KILOMETERS = \<lparr>unit_type = TYPE_LINEAR, to_baseline = 1000\<rparr>"
definition MILES :: units where "MILES = \<lparr>unit_type = TYPE_LINEAR, to_baseline = 1609.344\<rparr>"
definition DEGREES :: units where "DEGREES = \<lparr>unit_type = TYPE_ANGULAR, to_baseline = 1\<rparr>"
definition RADIANS :: units where "RADIANS = \<lparr>unit_type = TYPE_ANGULAR, to_baseline = 57.2957795\<rparr>"

text \<open>\<open>None\<close> is the result \<open>false\<close>, which leaves the output parameter alone.\<close>

definition convert :: "real \<Rightarrow> units \<Rightarrow> units \<Rightarrow> real option" where
  "convert v src dst =
     (if unit_type src \<noteq> unit_type dst then None
      else Some (v * to_baseline src / to_baseline dst))"

definition meters_in_one_deg_of_lat :: real where
  "meters_in_one_deg_of_lat = 111120"

definition convert_angular_to_linear_vector ::
  "(real \<Rightarrow> real) \<Rightarrow> real \<times> real \<Rightarrow> real \<times> real \<Rightarrow> units \<Rightarrow> units \<Rightarrow> real \<times> real" where
  "convert_angular_to_linear_vector deg2rad p0_in p1_in src dst =
     (let p0x = fst p0_in * to_baseline src; p0y = snd p0_in * to_baseline src;
          p1x = fst p1_in * to_baseline src; p1y = snd p1_in * to_baseline src;
          dx_m = (p1x - p0x) * meters_in_one_deg_of_lat * sin (deg2rad p0y);
          dy_m = (p1y - p0y) * meters_in_one_deg_of_lat
      in (dx_m / to_baseline dst, dy_m / to_baseline dst))"

definition convert_linear_to_angular_vector ::
  "(real \<Rightarrow> real) \<Rightarrow> real \<times> real \<Rightarrow> units \<Rightarrow> units \<Rightarrow> real \<times> real \<Rightarrow> real \<times> real" where
  "convert_linear_to_angular_vector deg2rad input_in src dst angular_p0 =
     (let ix = fst input_in * to_baseline src; iy = snd input_in * to_baseline src;
          dy_deg = iy / meters_in_one_deg_of_lat;
          y = snd angular_p0 + dy_deg;
          dx_deg = ix / (meters_in_one_deg_of_lat * cos (deg2rad y));
          x = fst angular_p0 + dx_deg
      in (x * to_baseline dst, y * to_baseline dst))"

definition is_angular :: "units \<Rightarrow> bool" where
  "is_angular u \<longleftrightarrow> unit_type u = TYPE_ANGULAR"

definition is_linear :: "units \<Rightarrow> bool" where
  "is_linear u \<longleftrightarrow> unit_type u = TYPE_LINEAR"

section \<open>Facts\<close>

lemma meters_nonzero [simp]: "meters_in_one_deg_of_lat \<noteq> 0"
  by (simp add: meters_in_one_deg_of_lat_def)

lemma convert_Some_iff: "(\<exists>w. convert v src dst = Some w) \<longleftrightarrow> unit_type src = unit_type dst"
  by (simp add: convert_def)

lemma convert_inverse:
  "to_baseline src \<noteq> 0 \<Longrightarrow> to_baseline dst \<noteq> 0 \<Longrightarrow> convert v src dst = Some w \<Longrightarrow>
     convert w dst src = Some v"
  by (auto simp: convert_def split: if_splits)

lemma convert_chain:
  "to_baseline b \<noteq> 0 \<Longrightarrow> convert v a b = Some w \<Longrightarrow> convert w b c = convert v a c"
  by (auto simp: convert_def split: if_splits)

text \<open>
  The vector conversions are not inverse to each other: one scales longitude by the sine of the
  latitude, the other by its cosine. On the equator a step to the east becomes no step at all.
\<close>

lemma angular_to_linear_equator:
  assumes "deg2rad 0 = 0"
  shows "convert_angular_to_linear_vector deg2rad (x0, 0) (x1, 0) DEGREES METERS = (0, 0)"
  using assms by (simp add: convert_angular_to_linear_vector_def Let_def DEGREES_def METERS_def)

lemma linear_to_angular_equator:
  assumes "deg2rad 0 = 0"
  shows "convert_linear_to_angular_vector deg2rad (meters_in_one_deg_of_lat, 0) METERS DEGREES (x0, 0) =
    (x0 + 1, 0)"
  using assms
  by (simp add: convert_linear_to_angular_vector_def Let_def DEGREES_def METERS_def
      meters_in_one_deg_of_lat_def)

text \<open>The north-south component does survive the round trip.\<close>

lemma north_roundtrip:
  "snd (convert_linear_to_angular_vector deg2rad
      (convert_angular_to_linear_vector deg2rad p0 p1 DEGREES METERS) METERS DEGREES p0) = snd p1"
  by (simp add: convert_linear_to_angular_vector_def convert_angular_to_linear_vector_def Let_def
      DEGREES_def METERS_def)

text \<open>East-west, what comes back is the step scaled by \<open>sin (latitude of p0) / cos (latitude of p1)\<close>.\<close>

lemma east_roundtrip:
  "fst (convert_linear_to_angular_vector deg2rad
      (convert_angular_to_linear_vector deg2rad p0 p1 DEGREES METERS) METERS DEGREES p0) =
   fst p0 + (fst p1 - fst p0) * sin (deg2rad (snd p0)) / cos (deg2rad (snd p1))"
  by (simp add: convert_linear_to_angular_vector_def convert_angular_to_linear_vector_def Let_def
      DEGREES_def METERS_def)

end
