(* ===== verification/Task_Manager.thy ===== *)
theory Task_Manager
  imports Prelude
begin

text \<open>
  \<^verbatim>\<open>src/osgGIS/TaskManager.cpp\<close> with the counting barrier of \<^verbatim>\<open>src/osgGIS/AutoResetBlock\<close>: a
  client thread queues tasks and polls; worker threads wait on a barrier, run the task they were
  given and raise their state. The client and the workers are programs with a counter each; one
  step is one access to shared data, so every interleaving of those accesses is a sequence of
  steps. Tasks are numbers. The fields \<open>executed\<close>, \<open>failed\<close> and \<open>crashed\<close> only record what happened:
  the tasks that ran, those put into their exception state, and a call through a null pointer.
\<close>

section \<open>State\<close>

datatype thread_state = STATE_READY | STATE_RUNNING | STATE_RESULT_READY | STATE_EXIT

text \<open>Where \<open>TaskThread::run\<close> is.\<close>

datatype worker_pc =
    W_INIT_TASK | W_INIT_STATE | W_BLOCK | W_CHECK_STATE | W_CHECK_TASK | W_SET_RUNNING | W_TASK
  | W_SET_RESULT | W_SIGNAL | W_QUIT | W_STOPPED

record task_thread =
  tstate :: thread_state
  ttask :: "nat option"
  run_signals :: nat
  wpc :: worker_pc

text \<open>Where the client is: idle, at thread \<open>i\<close> of \<open>update\<close>, or at thread \<open>i\<close> of the destructor.\<close>

datatype main_pc =
    M_IDLE | M_COLLECT nat | M_DISPATCH nat | M_CHECK nat nat | M_ASSIGN nat nat | M_WAKE nat
  | M_ORPHAN nat | M_DISPOSE nat | M_JOIN nat | M_DESTROYED

record task_manager =
  multi_threaded :: bool
  threads :: "task_thread list"
  pending_tasks :: "nat list"
  completed_tasks :: "nat list"
  num_running_tasks :: int
  activity_signals :: nat
  mpc :: main_pc
  executed :: "nat list"
  failed :: "nat list"
  crashed :: bool

definition thread_new :: task_thread where
  "thread_new = \<lparr>tstate = STATE_READY, ttask = None, run_signals = 0, wpc = W_INIT_TASK\<rparr>"

definition task_manager_new :: "int \<Rightarrow> task_manager" where
  "task_manager_new max_running_tasks =
     (let n = max 0 max_running_tasks in
      \<lparr>multi_threaded = n > 0, threads = replicate (nat n) thread_new, pending_tasks = [],
       completed_tasks = [], num_running_tasks = 0, activity_signals = 0, mpc = M_IDLE,
       executed = [], failed = [], crashed = False\<rparr>)"

section \<open>The worker\<close>

text \<open>
  One step of thread \<open>t\<close> of manager \<open>m\<close>; \<open>None\<close> when it is blocked or has ended.
\<close>

definition worker_step :: "task_manager \<Rightarrow> task_thread \<Rightarrow> (task_manager \<times> task_thread) option" where
  "worker_step m t =
     (case wpc t of
        W_INIT_TASK \<Rightarrow> Some (m, t\<lparr>ttask := None, wpc := W_INIT_STATE\<rparr>)
      | W_INIT_STATE \<Rightarrow> Some (m, t\<lparr>tstate := STATE_READY, wpc := W_BLOCK\<rparr>)
      | W_BLOCK \<Rightarrow>
          (if run_signals t > 0
           then Some (m, t\<lparr>run_signals := run_signals t - 1, wpc := W_CHECK_STATE\<rparr>) else None)
      | W_CHECK_STATE \<Rightarrow>
          Some (m, t\<lparr>wpc := if tstate t = STATE_READY then W_CHECK_TASK else W_SIGNAL\<rparr>)
      | W_CHECK_TASK \<Rightarrow> Some (m, t\<lparr>wpc := if ttask t \<noteq> None then W_SET_RUNNING else W_SIGNAL\<rparr>)
      | W_SET_RUNNING \<Rightarrow> Some (m, t\<lparr>tstate := STATE_RUNNING, wpc := W_TASK\<rparr>)
      | W_TASK \<Rightarrow>
          Some (case ttask t of
                  None \<Rightarrow> m\<lparr>crashed := True\<rparr>
                | Some k \<Rightarrow> m\<lparr>executed := executed m @ [k]\<rparr>, t\<lparr>wpc := W_SET_RESULT\<rparr>)
      | W_SET_RESULT \<Rightarrow> Some (m, t\<lparr>tstate := STATE_RESULT_READY, wpc := W_SIGNAL\<rparr>)
      | W_SIGNAL \<Rightarrow> Some (m\<lparr>activity_signals := activity_signals m + 1\<rparr>, t\<lparr>wpc := W_QUIT\<rparr>)
      | W_QUIT \<Rightarrow> Some (m, t\<lparr>wpc := if tstate t = STATE_EXIT then W_STOPPED else W_BLOCK\<rparr>)
      | W_STOPPED \<Rightarrow> None)"

section \<open>The client\<close>

definition set_thread :: "task_manager \<Rightarrow> nat \<Rightarrow> task_thread \<Rightarrow> task_manager" where
  "set_thread m i t = m\<lparr>threads := (threads m)[i := t]\<rparr>"

definition remove_task :: "task_thread \<Rightarrow> task_thread" where
  "remove_task t = t\<lparr>ttask := None, tstate := STATE_READY\<rparr>"

text \<open>
  One step of the client inside \<open>update\<close> or the destructor: collect a result, take a pending task
  for a ready thread, \<open>runTask\<close> in three steps (the check, the assignment, the signal), replace a
  thread that died, dispose and join. The join waits for the thread to stop.
\<close>

definition collect_step :: "task_manager \<Rightarrow> nat \<Rightarrow> task_manager" where
  "collect_step m i =
     (if i < length (threads m)
      then (let t = threads m ! i; m1 = m\<lparr>mpc := M_DISPATCH i\<rparr> in
            if tstate t = STATE_RESULT_READY
            then (case ttask t of
                    None \<Rightarrow> m1\<lparr>crashed := True\<rparr>
                  | Some k \<Rightarrow>
                      (set_thread m1 i (remove_task t))
                        \<lparr>completed_tasks := completed_tasks m @ [k],
                         num_running_tasks := num_running_tasks m - 1\<rparr>)
            else m1)
      else m\<lparr>mpc := M_IDLE\<rparr>)"

definition dispatch_step :: "task_manager \<Rightarrow> nat \<Rightarrow> task_manager" where
  "dispatch_step m i =
     (if tstate (threads m ! i) = STATE_READY
      then (case pending_tasks m of
              [] \<Rightarrow> m\<lparr>mpc := M_ORPHAN i\<rparr>
            | k # ks \<Rightarrow> m\<lparr>pending_tasks := ks, num_running_tasks := num_running_tasks m + 1,
                          mpc := M_CHECK i k\<rparr>)
      else m\<lparr>mpc := M_ORPHAN i\<rparr>)"

definition orphan_step :: "task_manager \<Rightarrow> nat \<Rightarrow> task_manager" where
  "orphan_step m i =
     (let t = threads m ! i; m1 = m\<lparr>mpc := M_COLLECT (i + 1)\<rparr> in
      if tstate t = STATE_RUNNING \<and> wpc t = W_STOPPED
      then (case ttask t of
              None \<Rightarrow> m1\<lparr>crashed := True\<rparr>
            | Some k \<Rightarrow>
                (set_thread m1 i ((remove_task t)\<lparr>wpc := W_INIT_TASK\<rparr>))
                  \<lparr>completed_tasks := completed_tasks m @ [k], failed := failed m @ [k],
                   num_running_tasks := num_running_tasks m - 1\<rparr>)
      else m1)"

text \<open>\<open>runTask\<close>: the check, the assignment, the signal.\<close>

definition run_task_check :: "task_manager \<Rightarrow> nat \<Rightarrow> nat \<Rightarrow> task_manager" where
  "run_task_check m i k =
     m\<lparr>mpc := if tstate (threads m ! i) = STATE_READY then M_ASSIGN i k else M_ORPHAN i\<rparr>"

definition run_task_assign :: "task_manager \<Rightarrow> nat \<Rightarrow> nat \<Rightarrow> task_manager" where
  "run_task_assign m i k =
     (set_thread m i ((threads m ! i)\<lparr>ttask := Some k\<rparr>))\<lparr>mpc := M_WAKE i\<rparr>"

definition run_task_wake :: "task_manager \<Rightarrow> nat \<Rightarrow> task_manager" where
  "run_task_wake m i =
     (set_thread m i ((threads m ! i)\<lparr>run_signals := run_signals (threads m ! i) + 1\<rparr>))
       \<lparr>mpc := M_ORPHAN i\<rparr>"

text \<open>The destructor: each thread in turn is told to exit and joined.\<close>

definition dispose_step :: "task_manager \<Rightarrow> nat \<Rightarrow> task_manager" where
  "dispose_step m i =
     (if i < length (threads m)
      then (set_thread m i ((threads m ! i)\<lparr>tstate := STATE_EXIT,
              run_signals := run_signals (threads m ! i) + 1\<rparr>))\<lparr>mpc := M_JOIN i\<rparr>
      else m\<lparr>mpc := M_DESTROYED\<rparr>)"

definition join_step :: "task_manager \<Rightarrow> nat \<Rightarrow> task_manager option" where
  "join_step m i =
     (if wpc (threads m ! i) = W_STOPPED then Some (m\<lparr>mpc := M_DISPOSE (i + 1)\<rparr>) else None)"

definition main_step :: "task_manager \<Rightarrow> task_manager option" where
  "main_step m =
     (case mpc m of
        M_IDLE \<Rightarrow> None
      | M_COLLECT i \<Rightarrow> Some (collect_step m i)
      | M_DISPATCH i \<Rightarrow> Some (dispatch_step m i)
      | M_CHECK i k \<Rightarrow> Some (run_task_check m i k)
      | M_ASSIGN i k \<Rightarrow> Some (run_task_assign m i k)
      | M_WAKE i \<Rightarrow> Some (run_task_wake m i)
      | M_ORPHAN i \<Rightarrow> Some (orphan_step m i)
      | M_DISPOSE i \<Rightarrow> Some (dispose_step m i)
      | M_JOIN i \<Rightarrow> join_step m i
      | M_DESTROYED \<Rightarrow> None)"

lemmas call_defs =
  run_task_check_def run_task_assign_def run_task_wake_def dispose_step_def join_step_def

section \<open>Calls\<close>

definition queue_task :: "task_manager \<Rightarrow> nat \<Rightarrow> task_manager" where
  "queue_task m k = m\<lparr>pending_tasks := pending_tasks m @ [k]\<rparr>"

definition cancel_pending_tasks :: "task_manager \<Rightarrow> task_manager" where
  "cancel_pending_tasks m = m\<lparr>pending_tasks := []\<rparr>"

definition get_num_tasks :: "task_manager \<Rightarrow> int" where
  "get_num_tasks m =
     int (length (pending_tasks m)) + num_running_tasks m + int (length (completed_tasks m))"

definition has_more_tasks :: "task_manager \<Rightarrow> bool" where
  "has_more_tasks m \<longleftrightarrow> get_num_tasks m > 0"

definition get_next_completed_task :: "task_manager \<Rightarrow> nat option \<times> task_manager" where
  "get_next_completed_task m =
     (case completed_tasks m of
        [] \<Rightarrow> (None, m)
      | k # ks \<Rightarrow> (Some k, m\<lparr>completed_tasks := ks\<rparr>))"

text \<open>\<open>update\<close> without threads runs the next task itself; with threads it starts at the first one.\<close>

definition update_single :: "task_manager \<Rightarrow> task_manager" where
  "update_single m =
     (case pending_tasks m of
        [] \<Rightarrow> m
      | k # ks \<Rightarrow> m\<lparr>pending_tasks := ks, executed := executed m @ [k],
                    completed_tasks := completed_tasks m @ [k]\<rparr>)"

definition wait_single :: "task_manager \<Rightarrow> bool \<times> task_manager" where
  "wait_single m =
     (let m1 = update_single m in
      (completed_tasks m1 \<noteq> [] \<or> has_more_tasks m1, m1))"

datatype action = Queue nat | Cancel | Take | Update | Await | Destroy | Main | Worker nat | Die nat

text \<open>
  A step of the whole system. The client makes a call when it is idle; \<open>Await\<close> consumes a signal
  of the activity barrier. A thread dies when its task brings it down.
\<close>

definition step :: "action \<Rightarrow> task_manager \<Rightarrow> task_manager option" where
  "step a m =
     (case a of
        Queue k \<Rightarrow> if mpc m = M_IDLE then Some (queue_task m k) else None
      | Cancel \<Rightarrow> if mpc m = M_IDLE then Some (cancel_pending_tasks m) else None
      | Take \<Rightarrow> if mpc m = M_IDLE then Some (snd (get_next_completed_task m)) else None
      | Update \<Rightarrow>
          if mpc m = M_IDLE
          then Some (if multi_threaded m then m\<lparr>mpc := M_COLLECT 0\<rparr> else update_single m) else None
      | Await \<Rightarrow>
          if mpc m = M_IDLE \<and> activity_signals m > 0
          then Some (m\<lparr>activity_signals := activity_signals m - 1\<rparr>) else None
      | Destroy \<Rightarrow> if mpc m = M_IDLE then Some (m\<lparr>mpc := M_DISPOSE 0\<rparr>) else None
      | Main \<Rightarrow> main_step m
      | Worker i \<Rightarrow>
          if i < length (threads m)
          then (case worker_step m (threads m ! i) of
                  None \<Rightarrow> None | Some (m1, t) \<Rightarrow> Some (set_thread m1 i t))
          else None
      | Die i \<Rightarrow>
          if i < length (threads m) \<and> wpc (threads m ! i) = W_TASK
          then Some (set_thread m i ((threads m ! i)\<lparr>wpc := W_STOPPED\<rparr>)) else None)"

fun exec :: "action list \<Rightarrow> task_manager \<Rightarrow> task_manager option" where
  "exec [] m = Some m"
| "exec (a # as) m = (case step a m of None \<Rightarrow> None | Some m1 \<Rightarrow> exec as m1)"

inductive reachable :: "int \<Rightarrow> task_manager \<Rightarrow> bool" for n where
  reachable_new: "reachable n (task_manager_new n)"
| reachable_step: "reachable n m \<Longrightarrow> step a m = Some m1 \<Longrightarrow> reachable n m1"

inductive_simps reachable_simps: "reachable n m"

lemma exec_reachable: "reachable n m \<Longrightarrow> exec as m = Some m1 \<Longrightarrow> reachable n m1"
  by (induction as m rule: exec.induct) (auto split: option.splits intro: reachable_step)

section \<open>Invariants\<close>

text \<open>
  What the state of a thread says about its task and its place in \<open>run\<close>: while it runs a task, or
  has a result, the task is there, and no result is ready before the thread has set it.
\<close>

definition thread_inv :: "task_thread \<Rightarrow> bool" where
  "thread_inv t \<longleftrightarrow>
     (wpc t \<in> {W_SET_RUNNING, W_TASK, W_SET_RESULT} \<longrightarrow> ttask t \<noteq> None) \<and>
     (tstate t = STATE_RUNNING \<longrightarrow> wpc t \<in> {W_TASK, W_SET_RESULT, W_STOPPED} \<and> ttask t \<noteq> None) \<and>
     (tstate t = STATE_RESULT_READY \<longrightarrow>
        wpc t \<in> {W_SIGNAL, W_QUIT, W_BLOCK, W_CHECK_STATE} \<and> ttask t \<noteq> None)"

text \<open>The thread the client is at.\<close>

definition at_thread :: "main_pc \<Rightarrow> nat option" where
  "at_thread p =
     (case p of
        M_DISPATCH i \<Rightarrow> Some i | M_CHECK i k \<Rightarrow> Some i | M_ASSIGN i k \<Rightarrow> Some i
      | M_WAKE i \<Rightarrow> Some i | M_ORPHAN i \<Rightarrow> Some i | M_JOIN i \<Rightarrow> Some i | _ \<Rightarrow> None)"

text \<open>The tasks in the hands of threads, and the one in the hands of the client.\<close>

definition in_flight :: "task_thread list \<Rightarrow> int" where
  "in_flight ts = sum_list (map (\<lambda>t. of_bool (ttask t \<noteq> None)) ts)"

definition in_hand :: "main_pc \<Rightarrow> int" where
  "in_hand p = (case p of M_CHECK i k \<Rightarrow> 1 | M_ASSIGN i k \<Rightarrow> 1 | _ \<Rightarrow> 0)"

definition manager_inv :: "task_manager \<Rightarrow> bool" where
  "manager_inv m \<longleftrightarrow>
     list_all thread_inv (threads m) \<and> \<not> crashed m \<and>
     (\<forall>i. at_thread (mpc m) = Some i \<longrightarrow> i < length (threads m)) \<and>
     in_flight (threads m) + in_hand (mpc m) \<le> num_running_tasks m"

lemma in_flight_update:
  "i < length ts \<Longrightarrow> in_flight (ts[i := t]) =
     in_flight ts - of_bool (ttask (ts ! i) \<noteq> None) + of_bool (ttask t \<noteq> None)"
  unfolding in_flight_def
proof (induction ts arbitrary: i)
  case (Cons u ts)
  then show ?case by (cases i) simp_all
qed simp

lemma in_flight_nonneg: "0 \<le> in_flight ts"
  unfolding in_flight_def by (rule sum_list_nonneg) auto

lemma threads_update_inv:
  "list_all thread_inv ts \<Longrightarrow> thread_inv t \<Longrightarrow> list_all thread_inv (ts[i := t])"
  using set_update_subset_insert [of ts i t] by (auto simp: list_all_iff)

lemma set_thread_simps [simp]:
  "threads (set_thread m i t) = (threads m)[i := t]" "mpc (set_thread m i t) = mpc m"
  "crashed (set_thread m i t) = crashed m" "pending_tasks (set_thread m i t) = pending_tasks m"
  "completed_tasks (set_thread m i t) = completed_tasks m"
  "num_running_tasks (set_thread m i t) = num_running_tasks m"
  "executed (set_thread m i t) = executed m"
  by (simp_all add: set_thread_def)

lemma worker_step_inv:
  assumes "thread_inv t" and "worker_step m t = Some (m1, t1)"
  shows "thread_inv t1 \<and> crashed m1 = crashed m \<and> threads m1 = threads m \<and> mpc m1 = mpc m \<and>
    num_running_tasks m1 = num_running_tasks m \<and> get_num_tasks m1 = get_num_tasks m \<and>
    (ttask t1 \<noteq> None \<longrightarrow> ttask t \<noteq> None)"
  using assms
  by (cases "wpc t") (auto simp: worker_step_def thread_inv_def get_num_tasks_def
      split: if_splits option.splits)

lemma manager_inv_thread: "manager_inv m \<Longrightarrow> i < length (threads m) \<Longrightarrow> thread_inv (threads m ! i)"
  by (simp add: manager_inv_def list_all_length)

lemma worker_inv:
  assumes "manager_inv m" and "i < length (threads m)"
    and "worker_step m (threads m ! i) = Some (m1, t)"
  shows "manager_inv (set_thread m1 i t) \<and> get_num_tasks (set_thread m1 i t) = get_num_tasks m"
proof -
  note w = worker_step_inv [OF manager_inv_thread [OF assms(1,2)] assms(3)]
  have le: "in_flight ((threads m)[i := t]) \<le> in_flight (threads m)"
    using w by (subst in_flight_update [OF assms(2)]) auto
  show ?thesis
    using assms(1) w le threads_update_inv [of "threads m" t i]
    by (simp add: manager_inv_def get_num_tasks_def)
qed

lemma collect_inv:
  assumes "manager_inv m" and "mpc m = M_COLLECT i"
  shows "manager_inv (collect_step m i) \<and> get_num_tasks (collect_step m i) = get_num_tasks m"
proof (cases "i < length (threads m)")
  case True
  note t = manager_inv_thread [OF assms(1) True]
  show ?thesis
  proof (cases "tstate (threads m ! i) = STATE_RESULT_READY")
    case ready: True
    with t obtain k where k: "ttask (threads m ! i) = Some k"
      and w: "wpc (threads m ! i) \<in> {W_SIGNAL, W_QUIT, W_BLOCK, W_CHECK_STATE}"
      by (auto simp: thread_inv_def)
    have "thread_inv (remove_task (threads m ! i))"
      using w by (auto simp: thread_inv_def remove_task_def)
    moreover have "ttask (remove_task (threads m ! i)) = None" by (simp add: remove_task_def)
    ultimately show ?thesis
      using assms threads_update_inv [of "threads m" "remove_task (threads m ! i)" i]
        in_flight_update [OF True, of "remove_task (threads m ! i)"]
      by (simp add: collect_step_def True ready k Let_def manager_inv_def get_num_tasks_def
          at_thread_def in_hand_def)
  next
    case False
    then show ?thesis
      using assms True by (simp add: collect_step_def Let_def manager_inv_def get_num_tasks_def
          at_thread_def in_hand_def)
  qed
next
  case False
  then show ?thesis
    using assms by (simp add: collect_step_def manager_inv_def get_num_tasks_def at_thread_def
        in_hand_def)
qed

lemma orphan_inv:
  assumes "manager_inv m" and "mpc m = M_ORPHAN i"
  shows "manager_inv (orphan_step m i) \<and> get_num_tasks (orphan_step m i) = get_num_tasks m"
proof -
  have i: "i < length (threads m)" using assms by (simp add: manager_inv_def at_thread_def)
  note t = manager_inv_thread [OF assms(1) i]
  show ?thesis
  proof (cases "tstate (threads m ! i) = STATE_RUNNING \<and> wpc (threads m ! i) = W_STOPPED")
    case True
    with t obtain k where k: "ttask (threads m ! i) = Some k" by (auto simp: thread_inv_def)
    let ?t = "(remove_task (threads m ! i))\<lparr>wpc := W_INIT_TASK\<rparr>"
    have "thread_inv ?t" "ttask ?t = None" by (simp_all add: thread_inv_def remove_task_def)
    then show ?thesis
      using assms True k threads_update_inv [of "threads m" ?t i] in_flight_update [OF i, of ?t]
      by (simp add: orphan_step_def Let_def manager_inv_def get_num_tasks_def at_thread_def
          in_hand_def)
  next
    case False
    then show ?thesis
      using assms by (auto simp: orphan_step_def Let_def manager_inv_def get_num_tasks_def
          at_thread_def in_hand_def)
  qed
qed

text \<open>Steps of the client that change a thread without touching its place.\<close>

lemma thread_inv_assign: "thread_inv t \<Longrightarrow> thread_inv (t\<lparr>ttask := Some k\<rparr>)"
  by (auto simp: thread_inv_def)

lemma thread_inv_signal: "thread_inv t \<Longrightarrow> thread_inv (t\<lparr>run_signals := n\<rparr>)"
  by (auto simp: thread_inv_def)

lemma thread_inv_exit: "thread_inv t \<Longrightarrow> thread_inv (t\<lparr>tstate := STATE_EXIT, run_signals := n\<rparr>)"
  by (auto simp: thread_inv_def)

lemma main_inv:
  assumes "manager_inv m" and "main_step m = Some m1"
  shows "manager_inv m1 \<and> get_num_tasks m1 = get_num_tasks m"
proof (cases "mpc m")
  case (M_COLLECT i)
  with assms collect_inv [of m i] show ?thesis by (simp add: main_step_def)
next
  case (M_ORPHAN i)
  with assms orphan_inv [of m i] show ?thesis by (simp add: main_step_def)
next
  case (M_DISPATCH i)
  with assms show ?thesis
    by (auto simp: main_step_def dispatch_step_def manager_inv_def get_num_tasks_def at_thread_def
        in_hand_def split: list.splits if_splits)
next
  case (M_CHECK i k)
  with assms show ?thesis
    by (auto simp: main_step_def call_defs manager_inv_def get_num_tasks_def at_thread_def in_hand_def
        split: if_splits)
next
  case (M_ASSIGN i k)
  have i: "i < length (threads m)" using assms M_ASSIGN by (simp add: manager_inv_def at_thread_def)
  let ?t = "(threads m ! i)\<lparr>ttask := Some k\<rparr>"
  have "in_flight ((threads m)[i := ?t]) \<le> in_flight (threads m) + 1"
    by (subst in_flight_update [OF i]) simp
  then show ?thesis
    using assms M_ASSIGN i
      threads_update_inv [OF _ thread_inv_assign [OF manager_inv_thread [OF assms(1) i]]]
    by (auto simp: main_step_def call_defs manager_inv_def get_num_tasks_def at_thread_def in_hand_def)
next
  case (M_WAKE i)
  have i: "i < length (threads m)" using assms M_WAKE by (simp add: manager_inv_def at_thread_def)
  show ?thesis
    using assms M_WAKE i
      threads_update_inv [OF _ thread_inv_signal [OF manager_inv_thread [OF assms(1) i]]]
    by (auto simp: main_step_def call_defs manager_inv_def get_num_tasks_def at_thread_def in_hand_def
        in_flight_update)
next
  case (M_DISPOSE i)
  show ?thesis
  proof (cases "i < length (threads m)")
    case True
    show ?thesis
      using assms M_DISPOSE True
        threads_update_inv [OF _ thread_inv_exit [OF manager_inv_thread [OF assms(1) True]]]
      by (auto simp: main_step_def call_defs manager_inv_def get_num_tasks_def at_thread_def in_hand_def
          in_flight_update)
  next
    case False
    with assms M_DISPOSE show ?thesis
      by (auto simp: main_step_def call_defs manager_inv_def get_num_tasks_def at_thread_def in_hand_def)
  qed
next
  case (M_JOIN i)
  with assms show ?thesis
    by (auto simp: main_step_def call_defs manager_inv_def get_num_tasks_def at_thread_def in_hand_def
        split: if_splits)
qed (use assms in \<open>simp_all add: main_step_def\<close>)

lemma manager_new_inv: "manager_inv (task_manager_new n)"
  by (simp add: manager_inv_def task_manager_new_def Let_def thread_new_def thread_inv_def
      list_all_iff at_thread_def in_hand_def in_flight_def sum_list_replicate)

text \<open>Every step keeps the invariant, and changes the count of tasks only when the client does.\<close>

definition count_change :: "action \<Rightarrow> task_manager \<Rightarrow> int" where
  "count_change a m =
     (case a of
        Queue k \<Rightarrow> 1
      | Cancel \<Rightarrow> - int (length (pending_tasks m))
      | Take \<Rightarrow> (if completed_tasks m = [] then 0 else -1)
      | _ \<Rightarrow> 0)"

lemma step_inv:
  assumes "manager_inv m" and "step a m = Some m1"
  shows "manager_inv m1 \<and> get_num_tasks m1 = get_num_tasks m + count_change a m"
proof (cases a)
  case Main
  with assms main_inv show ?thesis by (simp add: step_def count_change_def)
next
  case (Worker i)
  with assms worker_inv [OF assms(1)] show ?thesis
    by (auto simp: step_def count_change_def split: if_splits option.splits)
next
  case (Die i)
  then have i: "i < length (threads m)" and w: "wpc (threads m ! i) = W_TASK"
    and m1: "m1 = set_thread m i ((threads m ! i)\<lparr>wpc := W_STOPPED\<rparr>)"
    using assms(2) by (auto simp: step_def split: if_splits)
  have "thread_inv ((threads m ! i)\<lparr>wpc := W_STOPPED\<rparr>)"
    using manager_inv_thread [OF assms(1) i] w by (auto simp: thread_inv_def)
  then show ?thesis
    using assms(1) i threads_update_inv [of "threads m" "(threads m ! i)\<lparr>wpc := W_STOPPED\<rparr>" i]
    by (simp add: m1 Die manager_inv_def get_num_tasks_def count_change_def in_flight_update)
qed (use assms in \<open>auto simp: step_def count_change_def manager_inv_def get_num_tasks_def
    queue_task_def cancel_pending_tasks_def get_next_completed_task_def update_single_def
    at_thread_def in_hand_def split: if_splits list.splits\<close>)

lemma reachable_inv: "reachable n m \<Longrightarrow> manager_inv m"
  by (induction rule: reachable.induct) (auto simp: manager_new_inv dest: step_inv)

lemma reachable_running_nonneg: "reachable n m \<Longrightarrow> 0 \<le> num_running_tasks m"
  using reachable_inv [of n m] in_flight_nonneg [of "threads m"]
  by (auto simp: manager_inv_def in_hand_def split: main_pc.splits)

section \<open>Traces\<close>

text \<open>
  A whole \<open>update\<close> over one thread that is ready takes seven steps of the client. Before a worker
  that was given a task wakes up, its state is still \<open>STATE_READY\<close>: a second \<open>update\<close> gives it
  another task, and the first one is lost.
\<close>

definition update_one :: "action list" where
  "update_one = Update # replicate 7 Main"

definition start_worker :: "action list" where
  "start_worker = [Worker 0, Worker 0]"

definition run_worker :: "action list" where
  "run_worker = replicate 8 (Worker 0)"

definition lost_trace :: "action list" where
  "lost_trace = start_worker @ [Queue 1, Queue 2] @ update_one @ update_one @ run_worker @
     replicate 4 (Worker 0) @ (Update # replicate 4 Main) @ [Take]"

definition lost_state :: task_manager where
  "lost_state =
     \<lparr>multi_threaded = True,
      threads = [\<lparr>tstate = STATE_READY, ttask = None, run_signals = 0, wpc = W_BLOCK\<rparr>],
      pending_tasks = [], completed_tasks = [], num_running_tasks = 1, activity_signals = 2,
      mpc = M_IDLE, executed = [2], failed = [], crashed = False\<rparr>"

lemma lost_trace_exec: "exec lost_trace (task_manager_new 1) = Some lost_state"
  by code_simp

text \<open>
  The client checks that a thread is ready and then assigns the task: when the worker starts an
  earlier task in between, the new one is reported as completed though it never ran.
\<close>

definition unrun_trace :: "action list" where
  "unrun_trace = start_worker @ [Queue 1, Queue 2] @ update_one @ (Update # replicate 3 Main) @
     replicate 5 (Worker 0) @ replicate 4 Main @ replicate 7 (Worker 0) @ [Update, Main]"

lemma unrun_trace_exec:
  "map_option (\<lambda>m. (executed m, completed_tasks m)) (exec unrun_trace (task_manager_new 1)) =
     Some ([1], [2])"
  by code_simp

text \<open>
  A manager that is destroyed before its thread has started: the thread overwrites the exit state
  and waits for a signal, and the client waits for the thread.
\<close>

definition join_trace :: "action list" where
  "join_trace = [Destroy, Main] @ replicate 7 (Worker 0)"

definition join_state :: task_manager where
  "join_state =
     \<lparr>multi_threaded = True,
      threads = [\<lparr>tstate = STATE_READY, ttask = None, run_signals = 0, wpc = W_BLOCK\<rparr>],
      pending_tasks = [], completed_tasks = [], num_running_tasks = 0, activity_signals = 1,
      mpc = M_JOIN 0, executed = [], failed = [], crashed = False\<rparr>"

lemma join_trace_exec: "exec join_trace (task_manager_new 1) = Some join_state"
  by code_simp

lemma join_state_stuck: "step a join_state = None"
  by (cases a) (auto simp: step_def join_state_def main_step_def call_defs worker_step_def)

section \<open>Without threads\<close>

text \<open>The documented loop: wait, take the next completed task, until there are no more.\<close>

partial_function (option) drain_single ::
  "task_manager \<Rightarrow> nat list \<Rightarrow> (nat list \<times> task_manager) option" where
  "drain_single m taken =
     (case wait_single m of
        (again, m1) \<Rightarrow>
          if again
          then (case get_next_completed_task m1 of
                  (None, m2) \<Rightarrow> drain_single m2 taken
                | (Some k, m2) \<Rightarrow> drain_single m2 (taken @ [k]))
          else Some (taken, m1))"

lemma drain_single_step:
  assumes "num_running_tasks m = 0" and "completed_tasks m @ pending_tasks m = k # ks"
  shows "\<exists>m2. drain_single m taken = drain_single m2 (taken @ [k]) \<and> num_running_tasks m2 = 0 \<and>
    completed_tasks m2 @ pending_tasks m2 = ks \<and>
    executed m2 @ pending_tasks m2 = executed m @ pending_tasks m"
  by (subst drain_single.simps, cases "pending_tasks m"; cases "completed_tasks m")
    (use assms in \<open>auto simp: wait_single_def update_single_def Let_def
      get_next_completed_task_def\<close>)

lemma drain_single_runs:
  assumes "num_running_tasks m = 0"
  shows "\<exists>m1. drain_single m taken = Some (taken @ completed_tasks m @ pending_tasks m, m1) \<and>
    executed m1 = executed m @ pending_tasks m \<and> get_num_tasks m1 = 0"
  using assms
proof (induction "completed_tasks m @ pending_tasks m" arbitrary: m taken)
  case Nil
  then show ?case
    by (subst drain_single.simps)
      (simp add: wait_single_def update_single_def has_more_tasks_def get_num_tasks_def Let_def)
next
  case (Cons k ks)
  obtain m2 where m2: "drain_single m taken = drain_single m2 (taken @ [k])"
    "num_running_tasks m2 = 0" "completed_tasks m2 @ pending_tasks m2 = ks"
    "executed m2 @ pending_tasks m2 = executed m @ pending_tasks m"
    using drain_single_step [OF Cons.prems Cons.hyps(2) [symmetric]] by blast
  from Cons.hyps(1) [OF m2(3) [symmetric] m2(2), of "taken @ [k]"] m2 Cons.hyps(2) [symmetric]
  show ?case by auto
qed

end
