(* ===== verification/Geo_Point.thy ===== *)
theory Geo_Point
  imports Prelude
begin

text \<open>
  \<^verbatim>\<open>src/osgGIS/GeoPoint.cpp\<close>: a point is an OSG vector with a dimension and a reference to its
  spatial reference. Doubles are modelled by reals. A spatial reference is an object behind a
  virtual interface (\<^verbatim>\<open>src/osgGIS/SpatialReference\<close>), so the type of such objects is the type
  parameter \<open>'s\<close>, a null reference is \<open>None\<close>, and the two virtual methods the geometry
  code calls are the fields of a virtual table; equality of objects is equality of references.
\<close>

section \<open>Points\<close>

record 's geopoint =
  px :: real
  py :: real
  pz :: real
  dim :: nat
  spatial_ref :: "'s option"

record 's srs_vt =
  vt_transform :: "'s \<Rightarrow> 's geopoint \<Rightarrow> 's geopoint"
  vt_equivalent_to :: "'s \<Rightarrow> 's \<Rightarrow> bool"

text \<open>The default constructor; \<open>osg::Vec3d()\<close> is the zero vector.\<close>

definition geopoint_default :: "'s geopoint" where
  "geopoint_default = \<lparr>px = 0, py = 0, pz = 0, dim = 0, spatial_ref = None\<rparr>"

definition geopoint_invalid :: "'s geopoint" where
  "geopoint_invalid = geopoint_default"

definition geopoint_2d :: "real \<Rightarrow> real \<Rightarrow> 's option \<Rightarrow> 's geopoint" where
  "geopoint_2d x y s = \<lparr>px = x, py = y, pz = 0, dim = 2, spatial_ref = s\<rparr>"

definition geopoint_3d :: "real \<Rightarrow> real \<Rightarrow> real \<Rightarrow> 's option \<Rightarrow> 's geopoint" where
  "geopoint_3d x y z s = \<lparr>px = x, py = y, pz = z, dim = 3, spatial_ref = s\<rparr>"

definition point_valid :: "'s geopoint \<Rightarrow> bool" where
  "point_valid p \<longleftrightarrow> dim p > 0 \<and> spatial_ref p \<noteq> None"

text \<open>The static \<open>SpatialReference::equivalent\<close>, over possibly null references.\<close>

definition srs_equivalent :: "'s srs_vt \<Rightarrow> 's option \<Rightarrow> 's option \<Rightarrow> bool" where
  "srs_equivalent V lhs rhs =
     (if lhs = rhs then True
      else case (lhs, rhs) of
        (Some l, Some r) \<Rightarrow> vt_equivalent_to V l r
      | _ \<Rightarrow> False)"

definition point_eq :: "'s srs_vt \<Rightarrow> 's geopoint \<Rightarrow> 's geopoint \<Rightarrow> bool" where
  "point_eq V p q \<longleftrightarrow>
     point_valid p \<and> point_valid q \<and>
     srs_equivalent V (spatial_ref p) (spatial_ref q) \<and>
     dim p = dim q \<and> px p = px q \<and>
     (dim p < 2 \<or> py p = py q) \<and> (dim p < 3 \<or> pz p = pz q)"

definition set_dim :: "'s geopoint \<Rightarrow> int \<Rightarrow> 's geopoint" where
  "set_dim p d = (if d > 0 \<and> d \<le> 3 then p\<lparr>dim := nat d\<rparr> else p)"

text \<open>\<open>osg::Vec3d::set\<close>, which keeps the dimension and the spatial reference.\<close>

definition set_xyz :: "'s geopoint \<Rightarrow> real \<Rightarrow> real \<Rightarrow> real \<Rightarrow> 's geopoint" where
  "set_xyz p x y z = p\<lparr>px := x, py := y, pz := z\<rparr>"

definition apply_to :: "'s \<Rightarrow> 's geopoint \<Rightarrow> 's geopoint" where
  "apply_to s p = p\<lparr>spatial_ref := Some s\<rparr>"

definition list_is_closed :: "'s srs_vt \<Rightarrow> 's geopoint list \<Rightarrow> bool" where
  "list_is_closed V ps \<longleftrightarrow> 2 \<le> length ps \<and> point_eq V (hd ps) (last ps)"

section \<open>Facts on points\<close>

lemma geopoint_default_simps [simp, pt_simps]:
  "px geopoint_default = 0" "py geopoint_default = 0" "pz geopoint_default = 0"
  "dim geopoint_default = 0" "spatial_ref geopoint_default = None"
  by (simp_all add: geopoint_default_def)

lemma point_valid_default [simp]: "\<not> point_valid geopoint_default"
  by (simp add: point_valid_def)

lemma point_valid_invalid [simp]: "\<not> point_valid geopoint_invalid"
  by (simp add: geopoint_invalid_def)

lemma geopoint_2d_simps [simp, pt_simps]:
  "px (geopoint_2d x y s) = x" "py (geopoint_2d x y s) = y" "pz (geopoint_2d x y s) = 0"
  "dim (geopoint_2d x y s) = 2" "spatial_ref (geopoint_2d x y s) = s"
  by (simp_all add: geopoint_2d_def)

lemma geopoint_3d_simps [simp, pt_simps]:
  "px (geopoint_3d x y z s) = x" "py (geopoint_3d x y z s) = y" "pz (geopoint_3d x y z s) = z"
  "dim (geopoint_3d x y z s) = 3" "spatial_ref (geopoint_3d x y z s) = s"
  by (simp_all add: geopoint_3d_def)

lemma point_valid_2d [simp]: "point_valid (geopoint_2d x y s) \<longleftrightarrow> s \<noteq> None"
  by (simp add: point_valid_def)

lemma point_valid_3d [simp]: "point_valid (geopoint_3d x y z s) \<longleftrightarrow> s \<noteq> None"
  by (simp add: point_valid_def)

lemma set_xyz_simps [simp, pt_simps]:
  "px (set_xyz p x y z) = x" "py (set_xyz p x y z) = y" "pz (set_xyz p x y z) = z"
  "dim (set_xyz p x y z) = dim p" "spatial_ref (set_xyz p x y z) = spatial_ref p"
  by (simp_all add: set_xyz_def)

lemma point_valid_set_xyz [simp]: "point_valid (set_xyz p x y z) = point_valid p"
  by (simp add: point_valid_def)

lemma point_validE:
  assumes "point_valid p"
  obtains s where "spatial_ref p = Some s" and "dim p > 0"
  using assms by (auto simp: point_valid_def)

lemma point_eq_refl: "point_valid p \<Longrightarrow> point_eq V p p"
  by (simp add: point_eq_def srs_equivalent_def)

lemma set_dim_range: "dim p \<le> 3 \<Longrightarrow> dim (set_dim p d) \<le> 3"
  by (auto simp: set_dim_def)

section \<open>The interface of a spatial reference\<close>

text \<open>
  What the geometry code relies on when it calls \<open>transform\<close>: the result, when valid, is in
  the target reference, and a valid point that is already in the target reference (the same
  object) comes back unchanged. The second law is for references that are \<open>usable\<close>: a
  reference with no library handle transforms nothing, and a geocentric one recomputes the
  point. The provider is the model of \<^verbatim>\<open>OGR_SpatialReference.cpp\<close> and
  \<^verbatim>\<open>GeocentricSpatialReference.cpp\<close> in \<open>Ogr_Srs\<close>, where the locale is interpreted.
\<close>

locale srs_interface =
  fixes V :: "'s srs_vt" and usable :: "'s \<Rightarrow> bool"
  assumes transform_srs:
      "point_valid (vt_transform V s p) \<Longrightarrow> spatial_ref (vt_transform V s p) = Some s"
    and transform_same:
      "usable s \<Longrightarrow> point_valid p \<Longrightarrow> spatial_ref p = Some s \<Longrightarrow> vt_transform V s p = p"
begin

lemma transform_idem:
  "usable s \<Longrightarrow> point_valid (vt_transform V s p) \<Longrightarrow>
     vt_transform V s (vt_transform V s p) = vt_transform V s p"
  by (rule transform_same) (auto intro: transform_srs)

end

end
