(* ===== verification/Geo_Extent.thy ===== *)
theory Geo_Extent
  imports Geo_Point
begin

text \<open>
  \<^verbatim>\<open>src/osgGIS/GeoExtent.cpp\<close>: axis-aligned extents with the two flags \<open>is_valid\<close> and
  \<open>is_infinite\<close> and four corner points, of which south-east and north-west are derived by
  \<open>recalc\<close>. The copy constructor runs \<open>recalc\<close> too, so copying is an operation of its own
  (\<open>ext_copy\<close>); plain assignment is not.
\<close>

section \<open>The data and its constructors\<close>

record 's geoextent =
  is_valid :: bool
  is_infinite :: bool
  sw :: "'s geopoint"
  ne :: "'s geopoint"
  se :: "'s geopoint"
  nw :: "'s geopoint"

definition ext_flags :: "bool \<Rightarrow> bool \<Rightarrow> 's geoextent" where
  "ext_flags v i =
     \<lparr>is_valid = v, is_infinite = i, sw = geopoint_default, ne = geopoint_default,
      se = geopoint_default, nw = geopoint_default\<rparr>"

definition ext_invalid :: "'s geoextent" where
  "ext_invalid = ext_flags False False"

definition ext_empty :: "'s geoextent" where
  "ext_empty = ext_flags False False"

definition ext_infinite :: "'s geoextent" where
  "ext_infinite = ext_flags True True"

definition ext_default :: "'s geoextent" where
  "ext_default = ext_flags True False"

definition recalc :: "'s geoextent \<Rightarrow> 's geoextent" where
  "recalc e =
     (let e1 = (if is_valid e \<and> \<not> is_infinite e
                then e\<lparr>se := geopoint_2d (px (ne e)) (py (sw e)) (spatial_ref (sw e)),
                       nw := geopoint_2d (px (sw e)) (py (ne e)) (spatial_ref (sw e))\<rparr>
                else e)
      in if px (sw e1) > px (ne e1) \<or> py (sw e1) > py (ne e1)
         then e1\<lparr>is_valid := False\<rparr> else e1)"

definition ext_copy :: "'s geoextent \<Rightarrow> 's geoextent" where
  "ext_copy e = recalc e"

text \<open>\<open>GeoExtent( sw, ne )\<close>: the north-east point is brought into the reference of the other.\<close>

definition ext_of_points :: "'s srs_vt \<Rightarrow> 's geopoint \<Rightarrow> 's geopoint \<Rightarrow> 's geoextent" where
  "ext_of_points V p q =
     (let e = ext_flags False False in
      case (if point_valid p \<and> point_valid q then spatial_ref p else None) of
        None \<Rightarrow> e
      | Some s \<Rightarrow>
          (let q' = vt_transform V s q; e1 = e\<lparr>sw := p, ne := q'\<rparr>
           in if point_valid q' then recalc (e1\<lparr>is_valid := True\<rparr>) else e1))"

text \<open>\<open>GeoExtent( sw, ne, srs )\<close>: both points are brought into the given reference.\<close>

definition ext_of_points_srs ::
  "'s srs_vt \<Rightarrow> 's geopoint \<Rightarrow> 's geopoint \<Rightarrow> 's option \<Rightarrow> 's geoextent" where
  "ext_of_points_srs V p q sr =
     (let e = ext_flags False False in
      case (if point_valid p \<and> point_valid q then sr else None) of
        None \<Rightarrow> e
      | Some s \<Rightarrow>
          (let p' = vt_transform V s p; q' = vt_transform V s q; e1 = e\<lparr>sw := p', ne := q'\<rparr>
           in if point_valid p' \<and> point_valid q' then recalc (e1\<lparr>is_valid := True\<rparr>) else e1))"

definition ext_of_bounds :: "real \<Rightarrow> real \<Rightarrow> real \<Rightarrow> real \<Rightarrow> 's option \<Rightarrow> 's geoextent" where
  "ext_of_bounds xmin ymin xmax ymax sr =
     (let p = geopoint_2d xmin ymin sr; q = geopoint_2d xmax ymax sr
      in recalc ((ext_flags (point_valid p \<and> point_valid q \<and> sr \<noteq> None) False)
                   \<lparr>sw := p, ne := q\<rparr>))"

section \<open>Observers\<close>

definition ext_is_empty :: "'s geoextent \<Rightarrow> bool" where
  "ext_is_empty e \<longleftrightarrow>
     \<not> is_valid e \<or> (\<not> is_infinite e \<and> (\<not> point_valid (sw e) \<or> \<not> point_valid (ne e)))"

definition ext_is_point :: "'s srs_vt \<Rightarrow> 's geoextent \<Rightarrow> bool" where
  "ext_is_point V e \<longleftrightarrow>
     is_valid e \<and> \<not> is_infinite e \<and> point_valid (sw e) \<and> point_valid (ne e) \<and>
     point_eq V (sw e) (ne e)"

definition get_xmin :: "'s geoextent \<Rightarrow> real" where
  "get_xmin e = (if is_valid e then px (sw e) else -1)"

definition get_xmax :: "'s geoextent \<Rightarrow> real" where
  "get_xmax e = (if is_valid e then px (ne e) else -1)"

definition get_ymin :: "'s geoextent \<Rightarrow> real" where
  "get_ymin e = (if is_valid e then py (sw e) else -1)"

definition get_ymax :: "'s geoextent \<Rightarrow> real" where
  "get_ymax e = (if is_valid e then py (ne e) else -1)"

definition get_width :: "'s geoextent \<Rightarrow> real" where
  "get_width e = get_xmax e - get_xmin e"

definition get_height :: "'s geoextent \<Rightarrow> real" where
  "get_height e = get_ymax e - get_ymin e"

definition get_srs :: "'s geoextent \<Rightarrow> 's option" where
  "get_srs e = (if point_valid (sw e) then spatial_ref (sw e) else None)"

definition get_centroid :: "'s geoextent \<Rightarrow> 's geopoint" where
  "get_centroid e =
     (if is_valid e \<and> \<not> is_infinite e
      then geopoint_2d ((px (sw e) + px (ne e)) / 2) ((py (sw e) + py (ne e)) / 2) (get_srs e)
      else geopoint_default)"

definition get_area :: "'s geoextent \<Rightarrow> real" where
  "get_area e =
     (if is_valid e then
        (if is_infinite e then -1
         else if ext_is_empty e then 0
         else (px (ne e) - px (sw e)) * (py (ne e) - py (sw e)))
      else -1)"

definition ext_is_finite :: "'s geoextent \<Rightarrow> bool" where
  "ext_is_finite e \<longleftrightarrow> get_area e > 0"

section \<open>Predicates\<close>

text \<open>The tolerance of the point tests.\<close>

definition epsilon :: real where
  "epsilon = 0.00001"

definition le_eps :: "real \<Rightarrow> real \<Rightarrow> bool" where
  "le_eps a b \<longleftrightarrow> a \<le> b \<or> \<bar>a - b\<bar> < epsilon"

text \<open>
  \<open>intersects( GeoPoint )\<close>. The extent is valid, finite and not empty where its reference is
  used, so the reference is not null there (lemma \<open>nonempty_srs\<close>).
\<close>

definition intersects_point :: "'s srs_vt \<Rightarrow> 's geoextent \<Rightarrow> 's geopoint \<Rightarrow> bool" where
  "intersects_point V e p =
     (if is_valid e \<and> point_valid p \<and> \<not> ext_is_empty e then
        (if is_infinite e then True
         else case spatial_ref (sw e) of
           None \<Rightarrow> False
         | Some s \<Rightarrow>
             (let q = vt_transform V s p in
              point_valid q \<and> le_eps (px (sw e)) (px q) \<and> le_eps (px q) (px (ne e)) \<and>
              le_eps (py (sw e)) (py q) \<and> le_eps (py q) (py (ne e))))
      else False)"

definition intersects :: "'s srs_vt \<Rightarrow> 's geoextent \<Rightarrow> 's geoextent \<Rightarrow> bool" where
  "intersects V e f =
     (if \<not> is_valid e \<or> \<not> is_valid f \<or> ext_is_empty e \<or> ext_is_empty f then False
      else if is_infinite e \<or> is_infinite f then True
      else case get_srs e of
        None \<Rightarrow> False
      | Some s \<Rightarrow>
          (let p = vt_transform V s (sw f); q = vt_transform V s (ne f) in
           \<not> (px (ne e) < px p \<or> px (sw e) > px q \<or> py (ne e) < py p \<or> py (sw e) > py q)))"

text \<open>
  \<open>contains( GeoPoint )\<close>: unlike \<open>intersects\<close> it does not ask whether the extent is empty, so
  the reference it calls \<open>transform\<close> on may be null (\<open>None\<close>).
\<close>

definition contains_point :: "'s srs_vt \<Rightarrow> 's geoextent \<Rightarrow> 's geopoint \<Rightarrow> bool option" where
  "contains_point V e p =
     (if is_infinite e \<and> point_valid p then Some True
      else if \<not> is_valid e \<or> \<not> point_valid p then Some False
      else case get_srs e of
        None \<Rightarrow> None
      | Some s \<Rightarrow>
          (let q = vt_transform V s p in
           if \<not> point_valid q then Some False
           else Some (le_eps (px (sw e)) (px q) \<and> le_eps (px q) (px (ne e)) \<and>
                      le_eps (py (sw e)) (py q) \<and> le_eps (py q) (py (ne e)))))"

definition contains_xy :: "'s srs_vt \<Rightarrow> 's geoextent \<Rightarrow> real \<Rightarrow> real \<Rightarrow> bool option" where
  "contains_xy V e x y = contains_point V e (geopoint_2d x y (get_srs e))"

definition contains_extent :: "'s srs_vt \<Rightarrow> 's geoextent \<Rightarrow> 's geoextent \<Rightarrow> bool option" where
  "contains_extent V e f =
     and_opt (Some (is_valid f)) (and_opt (contains_point V e (sw f)) (contains_point V e (ne f)))"

definition contains_points :: "'s srs_vt \<Rightarrow> 's geoextent \<Rightarrow> 's geopoint list \<Rightarrow> bool option" where
  "contains_points V e ps = all_opt (contains_point V e) ps"

section \<open>Operations\<close>

text \<open>The virtual \<open>transform( GeoExtent )\<close>; both providers build it from the two corners.\<close>

definition transform_extent :: "'s srs_vt \<Rightarrow> 's \<Rightarrow> 's geoextent \<Rightarrow> 's geoextent" where
  "transform_extent V s e =
     ext_of_points V (vt_transform V s (sw e)) (vt_transform V s (ne e))"

definition get_intersection ::
  "'s srs_vt \<Rightarrow> 's geoextent \<Rightarrow> 's geoextent \<Rightarrow> 's geoextent option" where
  "get_intersection V e f =
     (case get_srs e of
        None \<Rightarrow> None
      | Some s \<Rightarrow>
          (let r = transform_extent V s f in
           Some (if get_xmin r \<ge> get_xmax e \<or> get_xmax r \<le> get_xmin e \<or>
                    get_ymin r \<ge> get_ymax e \<or> get_ymax r \<le> get_ymin e
                 then ext_empty
                 else ext_of_bounds
                   (if get_xmin r < get_xmin e then get_xmin e else get_xmin r)
                   (if get_ymin r < get_ymin e then get_ymin e else get_ymin r)
                   (if get_xmax r > get_xmax e then get_xmax e else get_xmax r)
                   (if get_ymax r > get_ymax e then get_ymax e else get_ymax r)
                   (get_srs e))))"

definition expand :: "'s geoextent \<Rightarrow> real \<Rightarrow> real \<Rightarrow> 's geoextent" where
  "expand e x y =
     e\<lparr>sw := set_xyz (sw e) (px (sw e) - 0.5 * x) (py (sw e) - 0.5 * y) (pz (sw e)),
       ne := set_xyz (ne e) (px (ne e) + 0.5 * x) (py (ne e) + 0.5 * y) (pz (ne e))\<rparr>"

definition grow_corners :: "'s geoextent \<Rightarrow> 's geopoint \<Rightarrow> 's geoextent" where
  "grow_corners e n =
     (let xmin = (if px n < px (sw e) then px n else px (sw e));
          xmax = (if px n > px (ne e) then px n else px (ne e));
          ymin = (if py n < py (sw e) then py n else py (sw e));
          ymax = (if py n > py (ne e) then py n else py (ne e))
      in e\<lparr>sw := set_xyz (sw e) xmin ymin (pz (sw e)),
           ne := set_xyz (ne e) xmax ymax (pz (ne e))\<rparr>)"

definition expand_to_include_point ::
  "'s srs_vt \<Rightarrow> 's geoextent \<Rightarrow> 's geopoint \<Rightarrow> 's geoextent" where
  "expand_to_include_point V e p =
     (if \<not> is_valid e \<or> \<not> point_valid p then e
      else recalc
        (if \<not> is_infinite e then
           (if ext_is_empty e then e\<lparr>ne := p, sw := p\<rparr>
            else case get_srs e of
              None \<Rightarrow> e
            | Some s \<Rightarrow>
                (let n = vt_transform V s p in if point_valid n then grow_corners e n else e))
         else e))"

definition expand_to_include_extent ::
  "'s srs_vt \<Rightarrow> 's geoextent \<Rightarrow> 's geoextent \<Rightarrow> 's geoextent" where
  "expand_to_include_extent V e f =
     (if is_valid f \<and> \<not> ext_is_empty f \<and> \<not> is_infinite e then
        (if is_infinite f then e\<lparr>is_infinite := True\<rparr>
         else expand_to_include_point V (expand_to_include_point V e (sw f)) (ne f))
      else e)"

definition expand_to_include_points ::
  "'s srs_vt \<Rightarrow> 's geoextent \<Rightarrow> 's geopoint list \<Rightarrow> 's geoextent" where
  "expand_to_include_points V e ps = foldl (expand_to_include_point V) e ps"

definition intersects_points_extent ::
  "'s srs_vt \<Rightarrow> 's geoextent \<Rightarrow> 's geopoint list \<Rightarrow> bool" where
  "intersects_points_extent V e ps =
     intersects V e (expand_to_include_points V ext_default ps)"

section \<open>Well-formed extents\<close>

text \<open>
  A well-formed extent of the reference \<open>s\<close> is valid, finite and not empty, with both defining
  corners in \<open>s\<close>, in order, and the two derived corners up to date.
\<close>

definition ext_wf :: "'s \<Rightarrow> 's geoextent \<Rightarrow> bool" where
  "ext_wf s e \<longleftrightarrow>
     is_valid e \<and> \<not> is_infinite e \<and> point_valid (sw e) \<and> point_valid (ne e) \<and>
     spatial_ref (sw e) = Some s \<and> spatial_ref (ne e) = Some s \<and>
     px (sw e) \<le> px (ne e) \<and> py (sw e) \<le> py (ne e) \<and>
     se e = geopoint_2d (px (ne e)) (py (sw e)) (Some s) \<and>
     nw e = geopoint_2d (px (sw e)) (py (ne e)) (Some s)"

definition ext_box :: "'s geoextent \<Rightarrow> (real \<times> real) set" where
  "ext_box e = {(x, y). px (sw e) \<le> x \<and> x \<le> px (ne e) \<and> py (sw e) \<le> y \<and> y \<le> py (ne e)}"

definition pt_xy :: "'s geopoint \<Rightarrow> real \<times> real" where
  "pt_xy p = (px p, py p)"

lemma ext_flags_simps [simp, ext_simps]:
  "is_valid (ext_flags v i) = v" "is_infinite (ext_flags v i) = i"
  "sw (ext_flags v i) = geopoint_default" "ne (ext_flags v i) = geopoint_default"
  by (simp_all add: ext_flags_def)

lemma recalc_corners [simp, ext_simps]:
  "sw (recalc e) = sw e" "ne (recalc e) = ne e" "is_infinite (recalc e) = is_infinite e"
  by (simp_all add: recalc_def Let_def)

lemma is_valid_recalc:
  "is_valid (recalc e) \<longleftrightarrow> is_valid e \<and> px (sw e) \<le> px (ne e) \<and> py (sw e) \<le> py (ne e)"
  by (auto simp: recalc_def Let_def)

lemma recalc_wf [wf_intros]:
  assumes "is_valid e" "\<not> is_infinite e" "point_valid (sw e)" "point_valid (ne e)"
    and "spatial_ref (sw e) = Some s" "spatial_ref (ne e) = Some s"
    and "px (sw e) \<le> px (ne e)" "py (sw e) \<le> py (ne e)"
  shows "ext_wf s (recalc e)"
  using assms by (simp add: ext_wf_def recalc_def Let_def)

lemma ext_wfD [dest]:
  assumes "ext_wf s e"
  shows "is_valid e" "\<not> is_infinite e" "point_valid (sw e)" "point_valid (ne e)"
    "spatial_ref (sw e) = Some s" "spatial_ref (ne e) = Some s"
    "px (sw e) \<le> px (ne e)" "py (sw e) \<le> py (ne e)"
  using assms by (simp_all add: ext_wf_def)

lemma ext_wf_observe:
  assumes "ext_wf s e"
  shows "get_srs e = Some s" "\<not> ext_is_empty e"
    "get_xmin e = px (sw e)" "get_xmax e = px (ne e)"
    "get_ymin e = py (sw e)" "get_ymax e = py (ne e)"
    "get_area e = (px (ne e) - px (sw e)) * (py (ne e) - py (sw e))"
  using assms
  by (simp_all add: ext_wf_def get_srs_def ext_is_empty_def get_xmin_def get_xmax_def
      get_ymin_def get_ymax_def get_area_def)

lemma ext_wf_copy: "ext_wf s e \<Longrightarrow> ext_copy e = e"
  by (auto simp: ext_wf_def ext_copy_def recalc_def Let_def intro: geoextent.equality)

lemma ext_wf_area_nonneg: "ext_wf s e \<Longrightarrow> 0 \<le> get_area e"
  by (simp add: ext_wf_observe ext_wfD)

lemma ext_box_nonempty: "ext_wf s e \<Longrightarrow> pt_xy (sw e) \<in> ext_box e \<and> pt_xy (ne e) \<in> ext_box e"
  by (auto simp: ext_box_def pt_xy_def)

lemma ext_of_bounds_simps [simp, ext_simps]:
  "sw (ext_of_bounds a b c d sr) = geopoint_2d a b sr"
  "ne (ext_of_bounds a b c d sr) = geopoint_2d c d sr"
  "\<not> is_infinite (ext_of_bounds a b c d sr)"
  by (simp_all add: ext_of_bounds_def Let_def)

lemma is_valid_of_bounds:
  "is_valid (ext_of_bounds a b c d sr) \<longleftrightarrow> sr \<noteq> None \<and> a \<le> c \<and> b \<le> d"
  by (auto simp: ext_of_bounds_def Let_def is_valid_recalc)

lemma ext_of_bounds_wf [wf_intros]:
  "a \<le> c \<Longrightarrow> b \<le> d \<Longrightarrow> ext_wf s (ext_of_bounds a b c d (Some s))"
  unfolding ext_of_bounds_def Let_def by (rule recalc_wf) simp_all

text \<open>The reference is not null where the code calls a method on it unguarded.\<close>

lemma nonempty_srs:
  "is_valid e \<Longrightarrow> \<not> ext_is_empty e \<Longrightarrow> \<not> is_infinite e \<Longrightarrow>
     \<exists>s. spatial_ref (sw e) = Some s \<and> get_srs e = Some s"
  by (auto simp: ext_is_empty_def get_srs_def point_valid_def)

lemma invalid_unusable:
  "\<not> is_valid (ext_invalid :: 's geoextent)" "\<not> is_valid (ext_empty :: 's geoextent)"
  by (simp_all add: ext_invalid_def ext_empty_def)

lemma expand_fields [simp, ext_simps]:
  "is_valid (expand e x y) = is_valid e" "is_infinite (expand e x y) = is_infinite e"
  "se (expand e x y) = se e" "nw (expand e x y) = nw e"
  "px (sw (expand e x y)) = px (sw e) - 0.5 * x" "py (sw (expand e x y)) = py (sw e) - 0.5 * y"
  "px (ne (expand e x y)) = px (ne e) + 0.5 * x" "py (ne (expand e x y)) = py (ne e) + 0.5 * y"
  "point_valid (sw (expand e x y)) = point_valid (sw e)"
  "point_valid (ne (expand e x y)) = point_valid (ne e)"
  "spatial_ref (sw (expand e x y)) = spatial_ref (sw e)"
  "spatial_ref (ne (expand e x y)) = spatial_ref (ne e)"
  by (simp_all add: expand_def)

lemma expand_copy_wf:
  "ext_wf s e \<Longrightarrow> 0 \<le> x \<Longrightarrow> 0 \<le> y \<Longrightarrow> ext_wf s (ext_copy (expand e x y))"
  unfolding ext_copy_def by (rule recalc_wf) (auto dest: ext_wfD)

section \<open>Extents behind any spatial reference\<close>

text \<open>
  The first point included in a default extent fixes its reference; from then on every point is
  brought into that reference. Everything below is proved once, for any provider of the
  interface.
\<close>

lemma grow_corners_simps [simp, ext_simps]:
  "is_valid (grow_corners e n) = is_valid e" "is_infinite (grow_corners e n) = is_infinite e"
  "px (sw (grow_corners e n)) = min (px (sw e)) (px n)"
  "py (sw (grow_corners e n)) = min (py (sw e)) (py n)"
  "px (ne (grow_corners e n)) = max (px (ne e)) (px n)"
  "py (ne (grow_corners e n)) = max (py (ne e)) (py n)"
  "point_valid (sw (grow_corners e n)) = point_valid (sw e)"
  "point_valid (ne (grow_corners e n)) = point_valid (ne e)"
  "spatial_ref (sw (grow_corners e n)) = spatial_ref (sw e)"
  "spatial_ref (ne (grow_corners e n)) = spatial_ref (ne e)"
  by (simp_all add: grow_corners_def Let_def min_def max_def)

lemma expand_default:
  assumes "point_valid p"
  shows "expand_to_include_point V ext_default p =
    recalc (ext_default\<lparr>ne := p, sw := p\<rparr>)"
  using assms by (simp add: expand_to_include_point_def ext_default_def ext_is_empty_def)

lemma expand_default_wf:
  assumes "point_valid p" and "spatial_ref p = Some s"
  shows "ext_wf s (expand_to_include_point V ext_default p)"
  unfolding expand_default [OF assms(1)]
  by (rule recalc_wf) (use assms in \<open>simp_all add: ext_default_def\<close>)

lemma expand_invalid_point [simp]: "\<not> point_valid p \<Longrightarrow> expand_to_include_point V e p = e"
  by (simp add: expand_to_include_point_def)

lemma expand_point_wf_eq:
  assumes "ext_wf s e" and "point_valid p"
  shows "expand_to_include_point V e p =
    recalc (if point_valid (vt_transform V s p) then grow_corners e (vt_transform V s p) else e)"
  using assms by (simp add: expand_to_include_point_def ext_wf_observe ext_wfD Let_def)

lemma expand_point_wf:
  assumes "ext_wf s e"
  shows "ext_wf s (expand_to_include_point V e p)"
proof (cases "point_valid p")
  case True
  show ?thesis
    unfolding expand_point_wf_eq [OF assms True]
    by (rule recalc_wf) (use ext_wfD [OF assms] in \<open>auto simp: min_def max_def\<close>)
qed (simp add: assms)

lemma expand_points_wf:
  "ext_wf s e \<Longrightarrow> ext_wf s (expand_to_include_points V e ps)"
  unfolding expand_to_include_points_def by (rule foldl_invariant) (auto intro: expand_point_wf)

lemma expand_extent_wf:
  "ext_wf s e \<Longrightarrow> \<not> is_infinite f \<Longrightarrow> ext_wf s (expand_to_include_extent V e f)"
  by (auto simp: expand_to_include_extent_def intro!: expand_point_wf)

text \<open>The points an extent in \<open>s\<close> really takes in: valid, and with a valid image in \<open>s\<close>.\<close>

definition usable_images :: "'s srs_vt \<Rightarrow> 's \<Rightarrow> 's geopoint list \<Rightarrow> 's geopoint list" where
  "usable_images V s ps =
     filter point_valid (map (vt_transform V s) (filter point_valid ps))"

lemma usable_images_simps [simp]:
  "usable_images V s [] = []"
  "usable_images V s (p # ps) =
     (if point_valid p \<and> point_valid (vt_transform V s p)
      then vt_transform V s p # usable_images V s ps else usable_images V s ps)"
  by (simp_all add: usable_images_def)

lemma expand_point_bounds:
  assumes "ext_wf s e" and "point_valid p" and "point_valid (vt_transform V s p)"
  shows "px (sw (expand_to_include_point V e p)) = min (px (sw e)) (px (vt_transform V s p))"
    and "py (sw (expand_to_include_point V e p)) = min (py (sw e)) (py (vt_transform V s p))"
    and "px (ne (expand_to_include_point V e p)) = max (px (ne e)) (px (vt_transform V s p))"
    and "py (ne (expand_to_include_point V e p)) = max (py (ne e)) (py (vt_transform V s p))"
  using assms by (simp_all add: expand_point_wf_eq)

lemma expand_point_skip:
  assumes "ext_wf s e" and "\<not> (point_valid p \<and> point_valid (vt_transform V s p))"
  shows "expand_to_include_point V e p = e"
proof (cases "point_valid p")
  case True
  with assms show ?thesis
    using ext_wf_copy [OF assms(1)] by (simp add: expand_point_wf_eq ext_copy_def)
qed simp

lemma expand_points_hull:
  assumes "ext_wf s e"
  shows "px (sw (expand_to_include_points V e ps)) =
           Min (insert (px (sw e)) (px ` set (usable_images V s ps))) \<and>
         py (sw (expand_to_include_points V e ps)) =
           Min (insert (py (sw e)) (py ` set (usable_images V s ps))) \<and>
         px (ne (expand_to_include_points V e ps)) =
           Max (insert (px (ne e)) (px ` set (usable_images V s ps))) \<and>
         py (ne (expand_to_include_points V e ps)) =
           Max (insert (py (ne e)) (py ` set (usable_images V s ps)))"
  using assms
proof (induction ps arbitrary: e)
  case Nil
  then show ?case by (simp add: expand_to_include_points_def)
next
  case (Cons p ps)
  let ?e = "expand_to_include_point V e p"
  have step: "expand_to_include_points V e (p # ps) = expand_to_include_points V ?e ps"
    by (simp add: expand_to_include_points_def)
  have "ext_wf s ?e" using Cons.prems by (rule expand_point_wf)
  note IH = Cons.IH [OF this]
  show ?case
  proof (cases "point_valid p \<and> point_valid (vt_transform V s p)")
    case True
    then show ?thesis
      unfolding step using Cons.prems IH
      by (simp add: expand_point_bounds Min_insert_min Max_insert_max)
  next
    case False
    then show ?thesis using Cons.prems IH by (auto simp: step expand_point_skip)
  qed
qed

lemma expand_point_box_mono: "ext_wf s e \<Longrightarrow> ext_box e \<subseteq> ext_box (expand_to_include_point V e p)"
  by (cases "point_valid p \<and> point_valid (vt_transform V s p)")
     (auto simp: ext_box_def expand_point_bounds expand_point_skip)

lemma expand_point_box_in:
  "ext_wf s e \<Longrightarrow> point_valid p \<Longrightarrow> point_valid (vt_transform V s p) \<Longrightarrow>
     pt_xy (vt_transform V s p) \<in> ext_box (expand_to_include_point V e p)"
  by (auto simp: ext_box_def expand_point_bounds pt_xy_def)

lemma expand_point_box_least:
  assumes "ext_wf s e" and "ext_box e \<subseteq> {(x, y). a \<le> x \<and> x \<le> c \<and> b \<le> y \<and> y \<le> d}"
    and "pt_xy (vt_transform V s p) \<in> {(x, y). a \<le> x \<and> x \<le> c \<and> b \<le> y \<and> y \<le> d}"
  shows "ext_box (expand_to_include_point V e p) \<subseteq> {(x, y). a \<le> x \<and> x \<le> c \<and> b \<le> y \<and> y \<le> d}"
proof (cases "point_valid p \<and> point_valid (vt_transform V s p)")
  case True
  from ext_box_nonempty [OF assms(1)] assms(2)
  have "a \<le> px (sw e) \<and> px (ne e) \<le> c \<and> b \<le> py (sw e) \<and> py (ne e) \<le> d"
    by (auto simp: pt_xy_def)
  with True assms(1,3) have "a \<le> px (sw (expand_to_include_point V e p))"
    "px (ne (expand_to_include_point V e p)) \<le> c" "b \<le> py (sw (expand_to_include_point V e p))"
    "py (ne (expand_to_include_point V e p)) \<le> d"
    by (simp_all add: expand_point_bounds pt_xy_def)
  then show ?thesis unfolding ext_box_def by force
qed (use assms in \<open>simp add: expand_point_skip\<close>)

lemma expand_points_split:
  "expand_to_include_points V e (p # ps) =
     expand_to_include_points V (expand_to_include_point V e p) ps"
  by (simp add: expand_to_include_points_def)

lemma expand_points_append:
  "expand_to_include_points V e (ps @ qs) =
     expand_to_include_points V (expand_to_include_points V e ps) qs"
  by (simp add: expand_to_include_points_def)

lemma expand_points_skip_invalid:
  "expand_to_include_points V e (filter point_valid ps) = expand_to_include_points V e ps"
  by (induction ps arbitrary: e) (simp_all add: expand_to_include_points_def)

text \<open>A predicate of the tests: the point lies in the box widened by the tolerance.\<close>

definition near_box :: "'s geoextent \<Rightarrow> 's geopoint \<Rightarrow> bool" where
  "near_box e q \<longleftrightarrow> le_eps (px (sw e)) (px q) \<and> le_eps (px q) (px (ne e)) \<and>
     le_eps (py (sw e)) (py q) \<and> le_eps (py q) (py (ne e))"

lemma le_eps_iff: "le_eps a b \<longleftrightarrow> a < b + epsilon"
  by (auto simp: le_eps_def epsilon_def abs_if)

lemma box_near: "pt_xy q \<in> ext_box e \<Longrightarrow> near_box e q"
  by (auto simp: ext_box_def pt_xy_def near_box_def le_eps_def)

lemma contains_point_wf_eq:
  assumes "ext_wf s e" and "point_valid p"
  shows "contains_point V e p =
    Some (point_valid (vt_transform V s p) \<and> near_box e (vt_transform V s p))"
  using assms by (simp add: contains_point_def ext_wf_observe ext_wfD near_box_def Let_def)

lemma intersects_point_wf_eq:
  assumes "ext_wf s e" and "point_valid p"
  shows "intersects_point V e p \<longleftrightarrow>
    point_valid (vt_transform V s p) \<and> near_box e (vt_transform V s p)"
  using assms by (simp add: intersects_point_def ext_wf_observe ext_wfD near_box_def Let_def)

lemma contains_point_null_iff:
  "contains_point V e p = None \<longleftrightarrow>
     is_valid e \<and> \<not> is_infinite e \<and> point_valid p \<and> \<not> point_valid (sw e)"
  by (auto simp: contains_point_def get_srs_def Let_def point_valid_def split: option.splits)

lemma boxes_meet_iff:
  assumes "ext_wf s e" and "ext_wf t f"
  shows "ext_box e \<inter> ext_box f \<noteq> {} \<longleftrightarrow>
    px (sw f) \<le> px (ne e) \<and> px (sw e) \<le> px (ne f) \<and>
    py (sw f) \<le> py (ne e) \<and> py (sw e) \<le> py (ne f)"
proof
  assume "ext_box e \<inter> ext_box f \<noteq> {}"
  then show "px (sw f) \<le> px (ne e) \<and> px (sw e) \<le> px (ne f) \<and>
    py (sw f) \<le> py (ne e) \<and> py (sw e) \<le> py (ne f)"
    by (auto simp: ext_box_def)
next
  assume "px (sw f) \<le> px (ne e) \<and> px (sw e) \<le> px (ne f) \<and>
    py (sw f) \<le> py (ne e) \<and> py (sw e) \<le> py (ne f)"
  then have "(max (px (sw e)) (px (sw f)), max (py (sw e)) (py (sw f))) \<in> ext_box e \<inter> ext_box f"
    using ext_wfD [OF assms(1)] ext_wfD [OF assms(2)] by (auto simp: ext_box_def)
  then show "ext_box e \<inter> ext_box f \<noteq> {}" by blast
qed

context srs_interface begin

lemma usable_same_srs:
  "usable s \<Longrightarrow> \<forall>p \<in> set ps. point_valid p \<longrightarrow> spatial_ref p = Some s \<Longrightarrow>
     usable_images V s ps = filter point_valid ps"
  by (induction ps) (auto simp: transform_same)

text \<open>The extent of a list of points is their bounding box, whatever references they come in.\<close>

lemma points_extent_wf:
  assumes "point_valid p" and "spatial_ref p = Some s"
  shows "ext_wf s (expand_to_include_points V ext_default (p # ps))"
  unfolding expand_points_split by (intro expand_points_wf expand_default_wf assms)

lemma points_extent_hull:
  fixes ps
  assumes "point_valid p" and "spatial_ref p = Some s"
  defines "e \<equiv> expand_to_include_points V ext_default (p # ps)"
  defines "qs \<equiv> p # usable_images V s ps"
  shows "px (sw e) = Min (px ` set qs) \<and> py (sw e) = Min (py ` set qs) \<and>
    px (ne e) = Max (px ` set qs) \<and> py (ne e) = Max (py ` set qs)"
proof -
  have "sw (expand_to_include_point V ext_default p) = p"
    and "ne (expand_to_include_point V ext_default p) = p"
    by (simp_all add: expand_default assms(1))
  then show ?thesis
    using expand_points_hull [OF expand_default_wf [OF assms(1,2)], of V V ps]
    by (simp add: e_def qs_def expand_points_split)
qed

lemma intersects_wf:
  assumes "ext_wf s e" and "ext_wf s f" and "usable s"
  shows "intersects V e f \<longleftrightarrow> ext_box e \<inter> ext_box f \<noteq> {}"
  unfolding boxes_meet_iff [OF assms(1,2)] intersects_def
  using ext_wfD [OF assms(1)] ext_wfD [OF assms(2)] ext_wf_observe [OF assms(1)]
    ext_wf_observe [OF assms(2)] assms(3)
  by (auto simp: transform_same Let_def)

lemma intersects_commute:
  "ext_wf s e \<Longrightarrow> ext_wf s f \<Longrightarrow> usable s \<Longrightarrow> intersects V e f = intersects V f e"
  by (simp add: intersects_wf Int_commute)

lemma transform_extent_same:
  assumes "ext_wf s f" and "usable s"
  shows "transform_extent V s f = f"
  using assms ext_wfD [OF assms(1)]
  by (auto simp: transform_extent_def transform_same ext_of_points_def recalc_def Let_def
      ext_flags_def ext_wf_def intro: geoextent.equality)

lemma get_intersection_overlap:
  assumes "ext_wf s e" and "ext_wf s f" and "usable s"
    and "px (sw f) < px (ne e)" "px (sw e) < px (ne f)"
    and "py (sw f) < py (ne e)" "py (sw e) < py (ne f)"
  shows "\<exists>g. get_intersection V e f = Some g \<and> ext_wf s g \<and> ext_box g = ext_box e \<inter> ext_box f"
proof -
  let ?g = "ext_of_bounds (max (px (sw e)) (px (sw f))) (max (py (sw e)) (py (sw f)))
    (min (px (ne e)) (px (ne f))) (min (py (ne e)) (py (ne f))) (Some s)"
  have "get_intersection V e f = Some ?g"
    using assms
    by (simp add: get_intersection_def ext_wf_observe transform_extent_same Let_def max_def min_def)
  moreover have "ext_wf s ?g" 
    by (rule ext_of_bounds_wf) (use assms ext_wfD [OF assms(1)] ext_wfD [OF assms(2)] in auto)
  moreover have "ext_box ?g = ext_box e \<inter> ext_box f" by (auto simp: ext_box_def)
  ultimately show ?thesis by blast
qed

lemma get_intersection_disjoint:
  assumes "ext_wf s e" and "ext_wf s f" and "usable s"
    and "px (ne e) \<le> px (sw f) \<or> px (ne f) \<le> px (sw e) \<or>
         py (ne e) \<le> py (sw f) \<or> py (ne f) \<le> py (sw e)"
  shows "get_intersection V e f = Some ext_empty"
  using assms by (auto simp: get_intersection_def ext_wf_observe transform_extent_same Let_def)

lemma contains_intersects_point:
  "ext_wf s e \<Longrightarrow> point_valid p \<Longrightarrow> contains_point V e p = Some (intersects_point V e p)"
  by (simp add: contains_point_wf_eq intersects_point_wf_eq)

lemma contains_extent_box:
  assumes "ext_wf s e" and "ext_wf s f" and "usable s" and "ext_box f \<subseteq> ext_box e"
  shows "contains_extent V e f = Some True"
proof -
  have "near_box e (sw f)" and "near_box e (ne f)"
    using ext_box_nonempty [OF assms(2)] assms(4) by (auto intro: box_near)
  with ext_wfD [OF assms(2)] assms(3) show ?thesis
    by (simp add: contains_extent_def contains_point_wf_eq [OF assms(1)] transform_same)
qed

lemma expanded_contains:
  assumes "ext_wf s e" and "point_valid p" and "point_valid (vt_transform V s p)"
  shows "contains_point V (expand_to_include_point V e p) p = Some True"
  using expand_point_box_in [OF assms] assms
  by (simp add: contains_point_wf_eq [OF expand_point_wf [OF assms(1)]] box_near)

end

end
