(* ===== verification/Geo_Shape.thy ===== *)
theory Geo_Shape
  imports Geo_Extent
begin

text \<open>
  \<^verbatim>\<open>GeoPointList::intersects\<close> of \<^verbatim>\<open>src/osgGIS/GeoPoint.cpp\<close> and
  \<^verbatim>\<open>src/osgGIS/GeoShape.cpp\<close>: the even-odd point-in-polygon test, shapes made of parts with a
  cached extent, visitors that may rewrite points and stop early, and lists of shapes.
\<close>

section \<open>Point lists\<close>

text \<open>One edge of the even-odd test: vertex \<open>a\<close> with its predecessor \<open>b\<close>, query point \<open>q\<close>.\<close>

definition crosses :: "'s geopoint \<Rightarrow> 's geopoint \<Rightarrow> 's geopoint \<Rightarrow> bool" where
  "crosses q a b \<longleftrightarrow>
     ((py a \<le> py q \<and> py q < py b) \<or> (py b \<le> py q \<and> py q < py a)) \<and>
     px q < (px b - px a) * (py q - py a) / (py b - py a) + px a"

text \<open>The pairs \<open>(polygon[i], polygon[j])\<close> the loop visits, \<open>j\<close> starting at the last vertex.\<close>

definition polygon_edges :: "'a list \<Rightarrow> ('a \<times> 'a) list" where
  "polygon_edges ps = zip ps (last ps # butlast ps)"

definition point_in_polygon :: "'s geopoint list \<Rightarrow> 's geopoint \<Rightarrow> bool" where
  "point_in_polygon ps q =
     foldl (\<lambda>result (a, b). if crosses q a b then \<not> result else result) False (polygon_edges ps)"

text \<open>The extent the last branch builds: the first point twice, then every other point.\<close>

definition list_extent :: "'s srs_vt \<Rightarrow> 's geopoint list \<Rightarrow> 's geoextent" where
  "list_extent V ps =
     (case ps of
        [] \<Rightarrow> ext_default
      | p # qs \<Rightarrow> foldl (expand_to_include_point V) (ext_of_points V p p) qs)"

definition list_intersects :: "'s srs_vt \<Rightarrow> 's geopoint list \<Rightarrow> 's geoextent \<Rightarrow> bool" where
  "list_intersects V ps ex =
     (if is_infinite ex then True
      else if ext_is_point V ex then point_in_polygon ps (sw ex)
      else intersects V (list_extent V ps) ex)"

section \<open>Shapes\<close>

datatype shape_type = TYPE_UNSPECIFIED | TYPE_POINT | TYPE_LINE | TYPE_POLYGON

record 's geoshape =
  shape_type :: shape_type
  parts :: "'s geopoint list list"
  extent_cache :: "'s geoextent"
  srs :: "'s option"

text \<open>
  The default constructor leaves \<open>shape_type\<close> indeterminate; the model takes whatever value is
  there as an argument.
\<close>

definition shape_default :: "shape_type \<Rightarrow> 's geoshape" where
  "shape_default indeterminate =
     \<lparr>shape_type = indeterminate, parts = [], extent_cache = ext_invalid, srs = None\<rparr>"

definition shape_new :: "shape_type \<Rightarrow> 's option \<Rightarrow> 's geoshape" where
  "shape_new t s = \<lparr>shape_type = t, parts = [], extent_cache = ext_invalid, srs = s\<rparr>"

definition set_shape_type :: "'s geoshape \<Rightarrow> shape_type \<Rightarrow> 's geoshape" where
  "set_shape_type sh t = sh\<lparr>shape_type := t\<rparr>"

definition set_spatial_reference :: "'s geoshape \<Rightarrow> 's option \<Rightarrow> 's geoshape" where
  "set_spatial_reference sh s = sh\<lparr>extent_cache := ext_invalid, srs := s\<rparr>"

definition get_part_count :: "'s geoshape \<Rightarrow> nat" where
  "get_part_count sh = length (parts sh)"

text \<open>
  The mutable accessors drop the cached extent and hand out a reference; what the caller then
  does to the part, or to the list of parts, is the argument \<open>f\<close>. An index out of range is
  undefined.
\<close>

definition modify_part ::
  "'s geoshape \<Rightarrow> nat \<Rightarrow> ('s geopoint list \<Rightarrow> 's geopoint list) \<Rightarrow> 's geoshape option" where
  "modify_part sh i f =
     (if i < length (parts sh)
      then Some (sh\<lparr>extent_cache := ext_invalid, parts := (parts sh)[i := f (parts sh ! i)]\<rparr>)
      else None)"

definition modify_parts ::
  "'s geoshape \<Rightarrow> ('s geopoint list list \<Rightarrow> 's geopoint list list) \<Rightarrow> 's geoshape" where
  "modify_parts sh f = sh\<lparr>extent_cache := ext_invalid, parts := f (parts sh)\<rparr>"

definition add_part :: "'s geoshape \<Rightarrow> 's geopoint list \<Rightarrow> 's geoshape" where
  "add_part sh part = sh\<lparr>extent_cache := ext_invalid, parts := parts sh @ [part]\<rparr>"

definition add_empty_part :: "'s geoshape \<Rightarrow> 's geoshape" where
  "add_empty_part sh = add_part sh []"

definition add_sized_part :: "'s geoshape \<Rightarrow> nat \<Rightarrow> 's geoshape" where
  "add_sized_part sh n = add_part sh (replicate n geopoint_default)"

text \<open>The total is an \<open>unsigned int\<close>.\<close>

definition get_total_point_count :: "'s geoshape \<Rightarrow> nat" where
  "get_total_point_count sh = foldl (\<lambda>t p. (t + length p) mod 2 ^ 32) 0 (parts sh)"

section \<open>Visitors\<close>

text \<open>
  A point visitor has a state, may rewrite the point it is given, and says whether to go on.
\<close>

type_synonym ('v, 's) point_visitor = "'v \<Rightarrow> 's geopoint \<Rightarrow> 'v \<times> 's geopoint \<times> bool"

fun visit_part :: "('v, 's) point_visitor \<Rightarrow> 'v \<Rightarrow> 's geopoint list \<Rightarrow>
    'v \<times> 's geopoint list \<times> bool" where
  "visit_part f v [] = (v, [], True)"
| "visit_part f v (p # ps) =
     (case f v p of (v1, p1, go) \<Rightarrow>
        if \<not> go then (v1, p1 # ps, False)
        else case visit_part f v1 ps of (v2, ps2, ok) \<Rightarrow> (v2, p1 # ps2, ok))"

fun visit_parts :: "('v, 's) point_visitor \<Rightarrow> 'v \<Rightarrow> 's geopoint list list \<Rightarrow>
    'v \<times> 's geopoint list list \<times> bool" where
  "visit_parts f v [] = (v, [], True)"
| "visit_parts f v (p # ps) =
     (case visit_part f v p of (v1, p1, go) \<Rightarrow>
        if \<not> go then (v1, p1 # ps, False)
        else case visit_parts f v1 ps of (v2, ps2, ok) \<Rightarrow> (v2, p1 # ps2, ok))"

definition shape_accept :: "('v, 's) point_visitor \<Rightarrow> 'v \<Rightarrow> 's geoshape \<Rightarrow>
    'v \<times> 's geoshape \<times> bool" where
  "shape_accept f v sh =
     (case visit_parts f v (parts sh) of (v', ps, ok) \<Rightarrow>
        (v', sh\<lparr>extent_cache := ext_invalid, parts := ps\<rparr>, ok))"

text \<open>The constant version leaves the shape alone.\<close>

definition shape_accept_const :: "('v, 's) point_visitor \<Rightarrow> 'v \<Rightarrow> 's geoshape \<Rightarrow> 'v \<times> bool" where
  "shape_accept_const f v sh = (case visit_parts f v (parts sh) of (v', _, ok) \<Rightarrow> (v', ok))"

definition extent_visitor :: "'s srs_vt \<Rightarrow> ('s geoextent, 's) point_visitor" where
  "extent_visitor V e p =
     (let e1 = (if \<not> is_valid e \<and> point_valid p then ext_default else e)
      in (expand_to_include_point V e1 p, p, True))"

definition compute_extent :: "'s srs_vt \<Rightarrow> 's geoshape \<Rightarrow> 's geoextent" where
  "compute_extent V sh = fst (shape_accept_const (extent_visitor V) ext_invalid sh)"

text \<open>The extent comes from the cache when that is valid; otherwise it is computed and stored.\<close>

definition get_extent :: "'s srs_vt \<Rightarrow> 's geoshape \<Rightarrow> 's geoextent \<times> 's geoshape" where
  "get_extent V sh =
     (if \<not> is_valid (extent_cache sh)
      then (let e = compute_extent V sh in (e, sh\<lparr>extent_cache := e\<rparr>))
      else (extent_cache sh, sh))"

definition shape_intersects :: "'s srs_vt \<Rightarrow> 's geoshape \<Rightarrow> 's geoextent \<Rightarrow> bool" where
  "shape_intersects V sh ex =
     (if is_infinite ex then True else list_ex (\<lambda>part. list_intersects V part ex) (parts sh))"

section \<open>Lists of shapes\<close>

definition shapes_intersects :: "'s srs_vt \<Rightarrow> 's geoshape list \<Rightarrow> 's geoextent \<Rightarrow> bool" where
  "shapes_intersects V shs ex =
     (if is_infinite ex then True else list_ex (\<lambda>sh. shape_intersects V sh ex) shs)"

text \<open>
  The visitors over a list stop at the first refusal; the mutable ones drop the cached extent of
  every shape they reach.
\<close>

type_synonym ('v, 's) part_visitor = "'v \<Rightarrow> 's geopoint list \<Rightarrow> 'v \<times> 's geopoint list \<times> bool"

fun apply_part_visitor :: "('v, 's) part_visitor \<Rightarrow> 'v \<Rightarrow> 's geopoint list list \<Rightarrow>
    'v \<times> 's geopoint list list \<times> bool" where
  "apply_part_visitor f v [] = (v, [], True)"
| "apply_part_visitor f v (p # ps) =
     (case f v p of (v1, p1, go) \<Rightarrow>
        if \<not> go then (v1, p1 # ps, False)
        else case apply_part_visitor f v1 ps of (v2, ps2, ok) \<Rightarrow> (v2, p1 # ps2, ok))"

fun shapes_accept_parts :: "('v, 's) part_visitor \<Rightarrow> 'v \<Rightarrow> 's geoshape list \<Rightarrow>
    'v \<times> 's geoshape list \<times> bool" where
  "shapes_accept_parts f v [] = (v, [], True)"
| "shapes_accept_parts f v (sh # shs) =
     (case apply_part_visitor f v (parts sh) of (v1, ps, go) \<Rightarrow>
        let sh1 = sh\<lparr>extent_cache := ext_invalid, parts := ps\<rparr> in
        if \<not> go then (v1, sh1 # shs, False)
        else case shapes_accept_parts f v1 shs of (v2, shs2, ok) \<Rightarrow> (v2, sh1 # shs2, ok))"

fun shapes_accept :: "('v, 's) point_visitor \<Rightarrow> 'v \<Rightarrow> 's geoshape list \<Rightarrow>
    'v \<times> 's geoshape list \<times> bool" where
  "shapes_accept f v [] = (v, [], True)"
| "shapes_accept f v (sh # shs) =
     (case shape_accept f v sh of (v1, sh1, go) \<Rightarrow>
        if \<not> go then (v1, sh1 # shs, False)
        else case shapes_accept f v1 shs of (v2, shs2, ok) \<Rightarrow> (v2, sh1 # shs2, ok))"

section \<open>The even-odd test\<close>

lemma crosses_commute: "crosses q a b = crosses q b a"
proof -
  have eq: "(px b - px a) * (py q - py a) / (py b - py a) + px a =
      (px a - px b) * (py q - py b) / (py a - py b) + px b" if "py a \<noteq> py b"
    using that by (simp add: field_simps)
  have "((py a \<le> py q \<and> py q < py b) \<or> (py b \<le> py q \<and> py q < py a)) \<Longrightarrow> py a \<noteq> py b"
    by auto
  then show ?thesis unfolding crosses_def using eq by auto
qed

lemma foldl_flip: "foldl (\<lambda>r x. if P x then \<not> r else r) b xs = (b \<noteq> odd (length (filter P xs)))"
  by (induction xs arbitrary: b) auto

lemma point_in_polygon_odd:
  "point_in_polygon ps q \<longleftrightarrow> odd (length (filter (\<lambda>(a, b). crosses q a b) (polygon_edges ps)))"
proof -
  have "(\<lambda>result (a, b). if crosses q a b then \<not> result else result) =
      (\<lambda>r x. if (\<lambda>(a, b). crosses q a b) x then \<not> r else r)"
    by (auto simp: fun_eq_iff)
  then show ?thesis by (simp add: point_in_polygon_def foldl_flip)
qed

text \<open>The edges of the reversed list are the same edges, turned round.\<close>

lemma polygon_edges_Cons: "polygon_edges (p # ps) = (p, last (p # ps)) # zip ps (butlast (p # ps))"
  by (simp add: polygon_edges_def)

lemma filter_swap_zip:
  assumes "\<And>a b. P (a, b) = P (b, a)"
  shows "length (filter P (zip xs ys)) = length (filter P (zip ys xs))"
proof (induction xs arbitrary: ys)
  case (Cons x xs)
  then show ?case using assms by (cases ys) auto
qed simp

lemma consecutive_rev:
  assumes "\<And>a b. P (a, b) = P (b, a)"
  shows "length (filter P (zip (tl (rev ps)) (butlast (rev ps)))) =
    length (filter P (zip (tl ps) (butlast ps)))"
proof -
  have 1: "tl (rev ps) = rev (butlast ps)" by (metis butlast_rev rev_rev_ident)
  have 2: "butlast (rev ps) = rev (tl ps)" by (simp add: butlast_rev)
  have "zip (tl (rev ps)) (butlast (rev ps)) = rev (zip (butlast ps) (tl ps))"
    unfolding 1 2 by (rule zip_rev) simp
  then show ?thesis
    by (simp add: rev_filter [symmetric] filter_swap_zip [of P "butlast ps" "tl ps", OF assms])
qed

lemma polygon_edges_length_filter:
  assumes "ps \<noteq> []"
  shows "length (filter P (polygon_edges ps)) =
    (if P (hd ps, last ps) then 1 else 0) + length (filter P (zip (tl ps) (butlast ps)))"
  using assms by (cases ps) (simp_all add: polygon_edges_Cons)

lemma point_in_polygon_rev_eq: "point_in_polygon (rev ps) q = point_in_polygon ps q"
proof (cases "ps = []")
  case False
  let ?P = "\<lambda>(a, b). crosses q a b"
  have sym: "?P (a, b) = ?P (b, a)" for a b using crosses_commute by auto
  have "length (filter ?P (polygon_edges (rev ps))) = length (filter ?P (polygon_edges ps))"
    using False consecutive_rev [of ?P ps, OF sym] sym [of "hd ps" "last ps"]
    by (simp add: polygon_edges_length_filter hd_rev last_rev)
  then show ?thesis by (simp add: point_in_polygon_odd)
qed simp

section \<open>The cached extent\<close>

lemma visit_part_pure:
  "visit_part (\<lambda>v p. (g v p, p, True)) v ps = (foldl g v ps, ps, True)"
  by (induction ps arbitrary: v) simp_all

lemma visit_parts_pure:
  "visit_parts (\<lambda>v p. (g v p, p, True)) v ps = (foldl g v (concat ps), ps, True)"
  by (induction ps arbitrary: v) (simp_all add: visit_part_pure)

definition extent_step :: "'s srs_vt \<Rightarrow> 's geoextent \<Rightarrow> 's geopoint \<Rightarrow> 's geoextent" where
  "extent_step V e p =
     expand_to_include_point V (if \<not> is_valid e \<and> point_valid p then ext_default else e) p"

lemma extent_visitor_eq: "extent_visitor V = (\<lambda>e p. (extent_step V e p, p, True))"
  by (simp add: fun_eq_iff extent_visitor_def extent_step_def Let_def)

lemma compute_extent_foldl:
  "compute_extent V sh = foldl (extent_step V) ext_invalid (concat (parts sh))"
  by (simp add: compute_extent_def shape_accept_const_def extent_visitor_eq visit_parts_pure)

lemma extent_steps_wf:
  "ext_wf s e \<Longrightarrow> foldl (extent_step V) e ps = expand_to_include_points V e ps"
proof (induction ps arbitrary: e)
  case (Cons p ps)
  then have "extent_step V e p = expand_to_include_point V e p"
    by (simp add: extent_step_def ext_wfD)
  with Cons expand_point_wf [OF Cons.prems] show ?case
    by (simp add: expand_points_split)
qed (simp add: expand_to_include_points_def)

text \<open>Leading invalid points leave the extent invalid; the first valid point starts it.\<close>

lemma compute_extent_points:
  "compute_extent V sh =
     (case filter point_valid (concat (parts sh)) of
        [] \<Rightarrow> ext_invalid
      | p # ps \<Rightarrow> expand_to_include_points V ext_default (p # ps))"
proof -
  have "foldl (extent_step V) ext_invalid ps =
     (case filter point_valid ps of
        [] \<Rightarrow> ext_invalid
      | p # qs \<Rightarrow> expand_to_include_points V ext_default (p # qs))" for ps
  proof (induction ps)
    case (Cons p ps)
    show ?case
    proof (cases "point_valid p")
      case True
      then obtain s where "spatial_ref p = Some s" by (auto elim: point_validE)
      note wf = expand_default_wf [OF True this, of V]
      have "extent_step V ext_invalid p = expand_to_include_point V ext_default p"
        using True by (simp add: extent_step_def invalid_unusable)
      then show ?thesis
        using True extent_steps_wf [OF wf, of V ps]
        by (simp add: expand_points_split expand_points_skip_invalid)
    next
      case False
      then show ?thesis using Cons by (simp add: extent_step_def)
    qed
  qed simp
  then show ?thesis by (simp add: compute_extent_foldl)
qed

text \<open>The invariant of the cache, and that every operation on a shape keeps it.\<close>

definition cache_ok :: "'s srs_vt \<Rightarrow> 's geoshape \<Rightarrow> bool" where
  "cache_ok V sh \<longleftrightarrow> is_valid (extent_cache sh) \<longrightarrow> extent_cache sh = compute_extent V sh"

lemma cache_ok_dropped [intro]: "extent_cache sh = ext_invalid \<Longrightarrow> cache_ok V sh"
  by (simp add: cache_ok_def invalid_unusable)

lemma cache_ok_set_type: "cache_ok V sh \<Longrightarrow> cache_ok V (set_shape_type sh t)"
  by (simp add: cache_ok_def set_shape_type_def compute_extent_foldl)

lemma compute_extent_cong: "parts sh = parts sh' \<Longrightarrow> compute_extent V sh = compute_extent V sh'"
  by (simp add: compute_extent_foldl)

lemma get_extent_cache_ok:
  assumes "cache_ok V sh"
  shows "cache_ok V (snd (get_extent V sh))" "fst (get_extent V sh) = compute_extent V sh"
    "parts (snd (get_extent V sh)) = parts sh"
  using assms compute_extent_cong [of "sh\<lparr>extent_cache := compute_extent V sh\<rparr>" sh V]
  by (auto simp: get_extent_def Let_def cache_ok_def)

lemma shape_ops_cache_ok:
  "cache_ok V (shape_default t)" "cache_ok V (shape_new t s)"
  "cache_ok V (set_spatial_reference sh s)" "cache_ok V (modify_parts sh g)"
  "cache_ok V (add_part sh part)" "cache_ok V (add_empty_part sh)"
  "cache_ok V (add_sized_part sh n)" "cache_ok V (fst (snd (shape_accept f v sh)))"
  "modify_part sh i h = Some sh' \<Longrightarrow> cache_ok V sh'"
  by (auto simp: shape_default_def shape_new_def set_spatial_reference_def modify_parts_def
      add_part_def add_empty_part_def add_sized_part_def shape_accept_def modify_part_def
      split: prod.splits if_splits)

context srs_interface begin

lemma shape_extent_covers:
  assumes "cache_ok V sh" and "usable s"
    and "\<forall>p \<in> set (concat (parts sh)). point_valid p \<longrightarrow> spatial_ref p = Some s"
    and "p \<in> set (concat (parts sh))" and "point_valid p"
  shows "ext_wf s (fst (get_extent V sh)) \<and> pt_xy p \<in> ext_box (fst (get_extent V sh))"
proof -
  let ?ps = "filter point_valid (concat (parts sh))"
  from assms(4,5) have pin: "p \<in> set ?ps" by auto
  then obtain q qs where qs: "?ps = q # qs" by (cases ?ps) auto
  then have q: "point_valid q" "q \<in> set (concat (parts sh))"
    by (metis filter_eq_ConsD in_set_conv_decomp, metis filter_is_subset list.set_intros(1) subsetD)
  with assms(3) have sq: "spatial_ref q = Some s" by blast
  have e: "fst (get_extent V sh) = expand_to_include_points V ext_default (q # qs)"
    using get_extent_cache_ok(2) [OF assms(1)] by (simp add: compute_extent_points qs)
  have same: "usable_images V s qs = qs"
  proof -
    have "set qs \<subseteq> set ?ps" unfolding qs by auto
    then have *: "\<forall>r \<in> set qs. point_valid r \<and> spatial_ref r = Some s" using assms(3) by auto
    then have "filter point_valid qs = qs" by (simp add: filter_id_conv)
    with * show ?thesis by (simp add: usable_same_srs assms(2))
  qed
  have "ext_wf s (fst (get_extent V sh))"
    unfolding e by (rule points_extent_wf [OF q(1) sq])
  moreover have "pt_xy p \<in> ext_box (fst (get_extent V sh))"
    unfolding e using points_extent_hull [OF q(1) sq, of qs] pin
    by (simp add: same ext_box_def pt_xy_def qs [symmetric] image_iff)
       (auto simp: qs intro!: Min_le Max_ge)
  ultimately show ?thesis by blast
qed

end

section \<open>Visitors that go on\<close>

lemma visit_part_map:
  "visit_part (\<lambda>v p. (g v p, h p, True)) v ps = (foldl g v ps, map h ps, True)"
  by (induction ps arbitrary: v) simp_all

lemma visit_parts_map:
  "visit_parts (\<lambda>v p. (g v p, h p, True)) v ps = (foldl g v (concat ps), map (map h) ps, True)"
  by (induction ps arbitrary: v) (simp_all add: visit_part_map)

lemma visit_part_length: "length (fst (snd (visit_part f v ps))) = length ps"
proof (induction ps arbitrary: v)
  case (Cons p ps)
  show ?case
    using Cons [of "fst (f v p)"] by (auto split: prod.splits)
qed simp

lemma visit_parts_shape:
  "map length (fst (snd (visit_parts f v ps))) = map length ps"
proof (induction ps arbitrary: v)
  case (Cons p ps)
  show ?case
    using Cons [of "fst (visit_part f v p)"] visit_part_length [of f v p]
    by (auto split: prod.splits)
qed simp

end
