(* ===== verification/Strings_Util.thy ===== *)
theory Strings_Util
  imports Prelude
begin

text \<open>
  What the code uses of the C++ strings and streams: the decimal form of integers that
  \<open>operator<<\<close> prints, \<open>atoi\<close>, the order of \<open>std::string\<close> (by character code), lower-casing,
  and replacing one character by another. \<open>std::map\<close> keeps its keys in that order, so a map
  from strings is an association list sorted by it.
\<close>

section \<open>Decimal numbers\<close>

text \<open>The character \<open>'0' + n\<close>.\<close>

definition digit_char :: "nat \<Rightarrow> char" where
  "digit_char n = char_of (48 + n)"

lemma digit_char_inj: "a < 4 \<Longrightarrow> b < 4 \<Longrightarrow> digit_char a = digit_char b \<longleftrightarrow> a = b"
  by (simp add: digit_char_def char_of_eq_iff take_bit_eq_mod)

lemma digit_chars:
  "digit_char 0 = CHR ''0''" "digit_char 1 = CHR ''1''" "digit_char (Suc 0) = CHR ''1''"
  "digit_char 2 = CHR ''2''" "digit_char 3 = CHR ''3''"
  by code_simp+

text \<open>Decimal digits, as a stream prints an unsigned integer.\<close>

fun show_nat :: "nat \<Rightarrow> string" where
  "show_nat n = (if n < 10 then [digit_char n] else show_nat (n div 10) @ [digit_char (n mod 10)])"

declare show_nat.simps [simp del]

definition show_int :: "int \<Rightarrow> string" where
  "show_int i = (if i < 0 then CHR ''-'' # show_nat (nat (- i)) else show_nat (nat i))"

definition is_digit :: "char \<Rightarrow> bool" where
  "is_digit c \<longleftrightarrow> 48 \<le> (of_char c :: nat) \<and> (of_char c :: nat) \<le> 57"

definition is_space :: "char \<Rightarrow> bool" where
  "is_space c \<longleftrightarrow> (of_char c :: nat) = 32 \<or> (9 \<le> (of_char c :: nat) \<and> (of_char c :: nat) \<le> 13)"

definition digit_val :: "char \<Rightarrow> int" where
  "digit_val c = int (of_char c) - 48"

definition digits_val :: "string \<Rightarrow> int" where
  "digits_val ds = foldl (\<lambda>a c. 10 * a + digit_val c) 0 ds"

text \<open>
  \<open>atoi\<close> skips white space, takes an optional sign and the longest run of digits; no digits is
  0, and a value outside \<open>int\<close> is undefined.
\<close>

definition atoi_value :: "string \<Rightarrow> int" where
  "atoi_value s =
     (case dropWhile is_space s of
        [] \<Rightarrow> 0
      | c # cs \<Rightarrow>
          (if c = CHR ''-'' then - digits_val (takeWhile is_digit cs)
           else if c = CHR ''+'' then digits_val (takeWhile is_digit cs)
           else digits_val (takeWhile is_digit (c # cs))))"

definition in_int_range :: "int \<Rightarrow> bool" where
  "in_int_range i \<longleftrightarrow> - (2 ^ 31) \<le> i \<and> i < 2 ^ 31"

definition atoi :: "string \<Rightarrow> int option" where
  "atoi s = (if in_int_range (atoi_value s) then Some (atoi_value s) else None)"

section \<open>Order, case, replacement\<close>

fun str_less :: "string \<Rightarrow> string \<Rightarrow> bool" where
  "str_less _ [] = False"
| "str_less [] (_ # _) = True"
| "str_less (a # as) (b # bs) =
     ((of_char a :: nat) < of_char b \<or> (a = b \<and> str_less as bs))"

definition lower_char :: "char \<Rightarrow> char" where
  "lower_char c =
     (let n = of_char c :: nat in if 65 \<le> n \<and> n \<le> 90 then char_of (n + 32) else c)"

definition to_lower :: "string \<Rightarrow> string" where
  "to_lower s = map lower_char s"

definition replace_char :: "char \<Rightarrow> char \<Rightarrow> string \<Rightarrow> string" where
  "replace_char a b s = map (\<lambda>c. if c = a then b else c) s"

section \<open>The order\<close>

lemma str_less_irrefl [simp]: "\<not> str_less s s"
  by (induction s) simp_all

lemma str_less_trans: "str_less a b \<Longrightarrow> str_less b c \<Longrightarrow> str_less a c"
proof (induction a b arbitrary: c rule: str_less.induct)
  case (2 b bs)
  then show ?case by (cases c) auto
next
  case (3 a as b bs)
  then show ?case by (cases c) auto
qed simp

lemma str_less_total: "str_less a b \<or> a = b \<or> str_less b a"
proof (induction a b rule: str_less.induct)
  case (1 a)
  then show ?case by (cases a) auto
next
  case (3 a as b bs)
  then show ?case by (metis nat_neq_iff of_char_eq_iff str_less.simps(3))
qed simp


section \<open>Round trip of decimal numbers\<close>

lemma of_char_digit: "n < 10 \<Longrightarrow> (of_char (digit_char n) :: nat) = 48 + n"
  by (simp add: digit_char_def take_bit_eq_mod)

lemma is_digit_digit: "n < 10 \<Longrightarrow> is_digit (digit_char n)"
  by (simp add: is_digit_def of_char_digit)

lemma digit_val_digit: "n < 10 \<Longrightarrow> digit_val (digit_char n) = int n"
  by (simp add: digit_val_def of_char_digit)

lemma show_nat_digits: "list_all is_digit (show_nat n)"
proof (induction n rule: show_nat.induct)
  case (1 n)
  then show ?case by (subst show_nat.simps) (simp add: is_digit_digit)
qed

lemma show_nat_nonempty: "show_nat n \<noteq> []"
  by (subst show_nat.simps) simp

lemma digits_val_show_nat: "digits_val (show_nat n) = int n"
proof (induction n rule: show_nat.induct)
  case (1 n)
  show ?case
  proof (cases "n < 10")
    case True
    then show ?thesis
      by (subst show_nat.simps) (simp add: digits_val_def digit_val_digit)
  next
    case False
    with 1 have "digits_val (show_nat (n div 10)) = int (n div 10)" by simp
    then have "digits_val (show_nat (n div 10) @ [digit_char (n mod 10)]) = int n"
      by (simp add: digits_val_def digit_val_digit) presburger
    with False show ?thesis by (subst show_nat.simps) simp
  qed
qed

lemma takeWhile_digits: "takeWhile is_digit (show_nat n) = show_nat n"
  using show_nat_digits by (simp add: list_all_iff)

lemma digit_not_special: "is_digit c \<Longrightarrow> \<not> is_space c \<and> c \<noteq> CHR ''-'' \<and> c \<noteq> CHR ''+''"
  by (auto simp: is_digit_def is_space_def)

lemma atoi_value_show_nat: "atoi_value (show_nat n) = int n"
proof -
  obtain c cs where s: "show_nat n = c # cs" using show_nat_nonempty by (cases "show_nat n") auto
  then have "is_digit c" using show_nat_digits [of n] by simp
  note c = digit_not_special [OF this]
  then have "dropWhile is_space (show_nat n) = c # cs" by (simp add: s)
  then have "atoi_value (show_nat n) = digits_val (takeWhile is_digit (c # cs))"
    using c by (simp add: atoi_value_def)
  then show ?thesis
    using takeWhile_digits [of n] digits_val_show_nat [of n] by (simp only: s)
qed

lemma atoi_value_show_int: "atoi_value (show_int i) = i"
proof (cases "i < 0")
  case True
  have "\<not> is_space (CHR ''-'')" by (simp add: is_space_def)
  with True show ?thesis
    by (simp add: show_int_def atoi_value_def takeWhile_digits digits_val_show_nat)
qed (simp add: show_int_def atoi_value_show_nat)

lemma atoi_show_int: "in_int_range i \<Longrightarrow> atoi (show_int i) = Some i"
  by (simp add: atoi_def atoi_value_show_int)

lemma show_int_nonempty: "show_int i \<noteq> []"
  by (simp add: show_int_def show_nat_nonempty)

lemma replace_char_idem: "a \<noteq> b \<Longrightarrow> replace_char a b (replace_char a b s) = replace_char a b s"
  by (simp add: replace_char_def)

lemma lower_char_idem: "lower_char (lower_char c) = lower_char c"
  by (auto simp: lower_char_def Let_def take_bit_eq_mod)

lemma to_lower_idem [simp]: "to_lower (to_lower s) = to_lower s"
  by (simp add: to_lower_def lower_char_idem)

section \<open>Maps with string keys\<close>

text \<open>
  A \<open>std::map\<close> from strings, as the list of its entries in key order. \<open>smap_upd k f\<close> is
  \<open>m[k] = f(m[k])\<close>, where \<open>f\<close> is given \<open>None\<close> when the key is new.
\<close>

fun smap_upd :: "string \<Rightarrow> ('v option \<Rightarrow> 'v) \<Rightarrow> (string \<times> 'v) list \<Rightarrow> (string \<times> 'v) list" where
  "smap_upd k f [] = [(k, f None)]"
| "smap_upd k f ((k', v) # m) =
     (if k = k' then (k', f (Some v)) # m
      else if str_less k k' then (k, f None) # (k', v) # m
      else (k', v) # smap_upd k f m)"

definition smap_put :: "string \<Rightarrow> 'v \<Rightarrow> (string \<times> 'v) list \<Rightarrow> (string \<times> 'v) list" where
  "smap_put k v = smap_upd k (\<lambda>_. v)"

definition smap_sorted :: "(string \<times> 'v) list \<Rightarrow> bool" where
  "smap_sorted m = sorted_wrt (\<lambda>a b. str_less (fst a) (fst b)) m"

lemma keys_smap_upd: "fst ` set (smap_upd k f m) = insert k (fst ` set m)"
  by (induction k f m rule: smap_upd.induct) auto

lemma smap_sorted_upd: "smap_sorted m \<Longrightarrow> smap_sorted (smap_upd k f m)"
proof (induction k f m rule: smap_upd.induct)
  case (2 k f k' v m)
  show ?case
  proof (cases "k = k' \<or> str_less k k'")
    case True
    with 2(2) show ?thesis by (auto simp: smap_sorted_def intro: str_less_trans)
  next
    case False
    then have "str_less k' k" using str_less_total [of k k'] by blast
    with 2(2) have "\<forall>x \<in> insert k (fst ` set m). str_less k' x"
      by (auto simp: smap_sorted_def)
    then have "\<forall>e \<in> set (smap_upd k f m). str_less k' (fst e)"
      unfolding keys_smap_upd [of k f m, symmetric] by simp
    with False 2 show ?thesis by (simp add: smap_sorted_def)
  qed
qed (simp add: smap_sorted_def)

lemma map_of_smap_upd:
  "smap_sorted m \<Longrightarrow> map_of (smap_upd k f m) = (map_of m)(k \<mapsto> f (map_of m k))"
proof (induction k f m rule: smap_upd.induct)
  case (2 k f k' v m)
  have none: "map_of m k = None" if "str_less k k'"
  proof (rule ccontr)
    assume "map_of m k \<noteq> None"
    then obtain w where "(k, w) \<in> set m" by (auto dest: map_of_SomeD)
    with 2(2) have "str_less k' k" by (auto simp: smap_sorted_def)
    with that show False using str_less_trans [of k k' k] by simp
  qed
  show ?case using 2 none by (auto simp: smap_sorted_def fun_eq_iff)
qed simp

lemma map_of_smap_put:
  "smap_sorted m \<Longrightarrow> map_of (smap_put k v m) = (map_of m)(k \<mapsto> v)"
  by (simp add: smap_put_def map_of_smap_upd)

lemma smap_sorted_put: "smap_sorted m \<Longrightarrow> smap_sorted (smap_put k v m)"
  by (simp add: smap_put_def smap_sorted_upd)

lemma smap_sorted_Nil [simp]: "smap_sorted []"
  by (simp add: smap_sorted_def)

section \<open>Stores of named values\<close>

text \<open>
  The interface two components share: values stored under a normalised name, where a later
  value of the same name replaces the earlier one. \<open>Properties\<close> and \<open>AttributeTable\<close> provide it.
\<close>

locale named_store =
  fixes norm :: "string \<Rightarrow> string"
    and name_of :: "'v \<Rightarrow> string"
    and lookup :: "'m \<Rightarrow> string \<Rightarrow> 'v option"
    and store :: "'m \<Rightarrow> 'v \<Rightarrow> 'm"
    and admissible :: "'v \<Rightarrow> bool"
    and invar :: "'m \<Rightarrow> bool"
  assumes lookup_store: "invar m \<Longrightarrow> admissible v \<Longrightarrow>
      lookup (store m v) k = (if norm k = norm (name_of v) then Some v else lookup m k)"
    and invar_store: "invar m \<Longrightarrow> admissible v \<Longrightarrow> invar (store m v)"
begin

lemma invar_stores: "invar m \<Longrightarrow> list_all admissible vs \<Longrightarrow> invar (foldl store m vs)"
  by (rule foldl_invariant) (auto intro: invar_store simp: list_all_iff)

lemma last_writer_wins:
  "invar m \<Longrightarrow> list_all admissible vs \<Longrightarrow> lookup (foldl store m vs) k =
     (case find (\<lambda>v. norm k = norm (name_of v)) (rev vs) of
        Some v \<Rightarrow> Some v | None \<Rightarrow> lookup m k)"
proof (induction vs rule: rev_induct)
  case (snoc v vs)
  then show ?case by (simp add: lookup_store invar_stores)
qed simp

lemma store_commute_lookup:
  "invar m \<Longrightarrow> admissible v \<Longrightarrow> admissible w \<Longrightarrow> norm (name_of v) \<noteq> norm (name_of w) \<Longrightarrow>
     lookup (store (store m v) w) k = lookup (store (store m w) v) k"
  by (simp add: lookup_store invar_store)

end

end
