(* ===== verification/Geom_Utils.thy ===== *)
theory Geom_Utils
  imports Geo_Shape Strings_Util
begin

text \<open>
  \<^verbatim>\<open>src/osgGIS/Utils.cpp\<close>: string and path helpers, the area, winding and closing of
  polygons; and \<open>wind\<close> of \<^verbatim>\<open>src/osgGIS/FilterGraph.cpp\<close>, which every feature passes on its
  way into a graph. Searching for a substring, lower-casing and the like are as in \<open>std::string\<close>.
  Paths are combined by functions of OSG and are not modelled.
\<close>

section \<open>Strings\<close>

definition is_prefix :: "string \<Rightarrow> string \<Rightarrow> bool" where
  "is_prefix p s \<longleftrightarrow> take (length p) s = p"

text \<open>\<open>s.find( sub )\<close>: the first position at which \<open>sub\<close> occurs.\<close>

fun find_sub :: "string \<Rightarrow> string \<Rightarrow> nat option" where
  "find_sub sub [] = (if sub = [] then Some 0 else None)"
| "find_sub sub (c # s) =
     (if is_prefix sub (c # s) then Some 0 else map_option Suc (find_sub sub s))"

definition starts_with :: "string \<Rightarrow> string \<Rightarrow> bool \<Rightarrow> bool" where
  "starts_with input prefix case_sensitive =
     (let i = (if case_sensitive then input else to_lower input);
          p = (if case_sensitive then prefix else to_lower prefix)
      in length i \<ge> length prefix \<and> find_sub p i = Some 0)"

definition ends_with :: "string \<Rightarrow> string \<Rightarrow> bool \<Rightarrow> bool" where
  "ends_with input suffix case_sensitive =
     (let i = (if case_sensitive then input else to_lower input);
          p = (if case_sensitive then suffix else to_lower suffix)
      in length i \<ge> length suffix \<and> drop (length i - length suffix) i = p)"

lemma find_sub_length: "find_sub sub s = Some k \<Longrightarrow> k + length sub \<le> length s"
proof (induction sub s arbitrary: k rule: find_sub.induct)
  case (2 sub c s)
  show ?case
  proof (cases "is_prefix sub (c # s)")
    case True
    then have "take (length sub) (c # s) = sub" by (simp add: is_prefix_def)
    from arg_cong [OF this, of length] True 2(2) show ?thesis by simp
  next
    case False
    with 2 show ?thesis by auto
  qed
qed (simp split: if_splits)

text \<open>The loop of \<open>replaceIn\<close> over the part of the string it has not passed yet.\<close>

function replace_from :: "string \<Rightarrow> string \<Rightarrow> string \<Rightarrow> string" where
  "replace_from sub other s =
     (if sub = [] then s
      else case find_sub sub s of
        None \<Rightarrow> s
      | Some k \<Rightarrow> take k s @ other @ replace_from sub other (drop (k + length sub) s))"
  by pat_completeness auto
termination
  by (relation "measure (\<lambda>(sub, other, s). length s)") 
    (auto dest!: find_sub_length simp flip: length_greater_0_conv)

declare replace_from.simps [simp del]

definition replace_in :: "string \<Rightarrow> string \<Rightarrow> string \<Rightarrow> string" where
  "replace_in s sub other = replace_from sub other s"

definition trim_space :: "char \<Rightarrow> bool" where
  "trim_space c \<longleftrightarrow> (of_char c :: nat) \<in> {32, 9, 12, 11, 10, 13}"

text \<open>
  Text after the last character that is not a space is erased first, then text before the first
  one; if there is no such character everything is erased.
\<close>

definition trim :: "string \<Rightarrow> string" where
  "trim s =
     (if list_all trim_space s then []
      else dropWhile trim_space (rev (dropWhile trim_space (rev s))))"

definition is_abs_path :: "string \<Rightarrow> bool" where
  "is_abs_path p \<longleftrightarrow>
     (length p \<ge> 2 \<and> (of_char (p ! 0) :: nat) = 92 \<and> (of_char (p ! 1) :: nat) = 92) \<or>
     (length p \<ge> 2 \<and> p ! 1 = CHR '':'') \<or> (length p \<ge> 1 \<and> p ! 0 = CHR ''/'')"

section \<open>Polygons\<close>

function open_polygon :: "'s srs_vt \<Rightarrow> 's geopoint list \<Rightarrow> 's geopoint list" where
  "open_polygon V ps =
     (if length ps > 3 \<and> point_eq V (hd ps) (last ps) then open_polygon V (butlast ps) else ps)"
  by pat_completeness auto
termination
  by (relation "measure (\<lambda>(V, ps). length ps)") auto

declare open_polygon.simps [simp del]

text \<open>The inequality is that of the OSG vectors: it compares the coordinates only.\<close>

definition vec_eq :: "'s geopoint \<Rightarrow> 's geopoint \<Rightarrow> bool" where
  "vec_eq p q \<longleftrightarrow> px p = px q \<and> py p = py q \<and> pz p = pz q"

definition close_polygon :: "'s geopoint list \<Rightarrow> 's geopoint list" where
  "close_polygon ps =
     (if length ps \<ge> 1 then (if \<not> vec_eq (ps ! 0) (ps ! (length ps - 1)) then ps @ [ps ! 0] else ps)
      else ps)"

definition shoelace :: "'s geopoint \<Rightarrow> 's geopoint \<Rightarrow> real" where
  "shoelace p0 p1 = px p0 * py p1 - px p1 * py p0"

text \<open>The sum over each vertex and its successor, the last followed by the first.\<close>

definition shoelace_sum :: "'s geopoint list \<Rightarrow> real" where
  "shoelace_sum ps = foldl (\<lambda>s (p0, p1). s + shoelace p0 p1) 0 (zip ps (tl ps @ [hd ps]))"

definition polygon_area_2d :: "'s srs_vt \<Rightarrow> 's geopoint list \<Rightarrow> real" where
  "polygon_area_2d V ps = 0.5 * shoelace_sum (open_polygon V ps)"

definition is_polygon_ccw :: "'s srs_vt \<Rightarrow> 's geopoint list \<Rightarrow> bool" where
  "is_polygon_ccw V ps \<longleftrightarrow> polygon_area_2d V ps \<ge> 0"

definition is_polygon_cw :: "'s srs_vt \<Rightarrow> 's geopoint list \<Rightarrow> bool" where
  "is_polygon_cw V ps \<longleftrightarrow> polygon_area_2d V ps < 0"

definition is_point_in_polygon :: "'s srs_vt \<Rightarrow> 's geopoint \<Rightarrow> 's geopoint list \<Rightarrow> bool" where
  "is_point_in_polygon V p ps = list_intersects V ps (ext_of_points V p p)"

text \<open>\<open>wind\<close>: the single part of every shape of a polygon feature is opened and made counter-clockwise.\<close>

definition wind_part :: "'s srs_vt \<Rightarrow> 's geopoint list \<Rightarrow> 's geopoint list" where
  "wind_part V part =
     (let p1 = open_polygon V part in if \<not> is_polygon_ccw V p1 then rev p1 else p1)"

definition wind_shape :: "'s srs_vt \<Rightarrow> 's geoshape \<Rightarrow> 's geoshape" where
  "wind_shape V sh =
     (if get_part_count sh = 1
      then (case modify_part sh 0 (wind_part V) of None \<Rightarrow> sh | Some sh' \<Rightarrow> sh') else sh)"

text \<open>The type of a feature is that of its first shape (\<open>FeatureBase::getShapeType\<close>).\<close>

definition feature_shape_type :: "'s geoshape list \<Rightarrow> shape_type" where
  "feature_shape_type shs = (case shs of [] \<Rightarrow> TYPE_UNSPECIFIED | sh # _ \<Rightarrow> shape_type sh)"

definition wind_shapes :: "'s srs_vt \<Rightarrow> 's geoshape list \<Rightarrow> 's geoshape list" where
  "wind_shapes V shs =
     (if feature_shape_type shs = TYPE_POLYGON then map (wind_shape V) shs else shs)"

section \<open>Facts on strings\<close>

lemma replace_in_absent: "find_sub sub s = None \<Longrightarrow> replace_in s sub other = s"
  unfolding replace_in_def by (subst replace_from.simps) simp

lemma find_sub_split:
  "find_sub sub s = Some k \<Longrightarrow> s = take k s @ sub @ drop (k + length sub) s"
proof (induction sub s arbitrary: k rule: find_sub.induct)
  case (2 sub c s)
  show ?case
  proof (cases "is_prefix sub (c # s)")
    case True
    with 2(2) have "k = 0" by simp
    with True show ?thesis by (metis append_take_drop_id append_Nil add_0 is_prefix_def take_0)
  next
    case False
    with 2(2) obtain j where "find_sub sub s = Some j" "k = Suc j" by auto
    with 2(1) [OF False, of j] show ?thesis by simp
  qed
qed (simp split: if_splits)

lemma replace_in_same: "replace_in s sub sub = s"
proof -
  have "replace_from sub other s = s" if "other = sub" for other
    using that
  proof (induction sub other s rule: replace_from.induct)
    case (1 sub other s)
    show ?case
    proof (cases "sub = [] \<or> find_sub sub s = None")
      case True
      then show ?thesis by (subst replace_from.simps) auto
    next
      case False
      then obtain k where k: "find_sub sub s = Some k" by auto
      with False 1 have "replace_from sub other (drop (k + length sub) s) = drop (k + length sub) s"
        by auto
      with False k 1(2) find_sub_split [OF k] show ?thesis by (subst replace_from.simps) simp
    qed
  qed
  then show ?thesis by (simp add: replace_in_def)
qed

lemma trim_ends:
  "trim s \<noteq> [] \<Longrightarrow> \<not> trim_space (hd (trim s)) \<and> \<not> trim_space (last (trim s))"
proof -
  assume ne: "trim s \<noteq> []"
  then have nall: "\<not> list_all trim_space s" by (auto simp: trim_def)
  let ?t = "dropWhile trim_space (rev s)"
  have t: "?t \<noteq> []" using nall by (simp add: dropWhile_eq_Nil_conv list_all_iff)
  have tr: "trim s = dropWhile trim_space (rev ?t)" using nall by (simp add: trim_def)
  have "last (dropWhile trim_space (rev ?t)) = last (rev ?t)"
    using ne tr by (metis last_appendR takeWhile_dropWhile_id)
  then have "last (trim s) = hd ?t" using tr t by (simp add: last_rev)
  moreover have "\<not> trim_space (hd ?t)" using t by (rule hd_dropWhile)
  moreover have "\<not> trim_space (hd (trim s))" using ne unfolding tr by (rule hd_dropWhile)
  ultimately show ?thesis by simp
qed

lemma trim_fixed:
  assumes "s \<noteq> []" "\<not> trim_space (hd s)" "\<not> trim_space (last s)"
  shows "trim s = s"
proof -
  have "dropWhile trim_space s = s" using assms(1,2) by (cases s) simp_all
  moreover have "dropWhile trim_space (rev s) = rev s"
  proof (cases "rev s")
    case (Cons c cs)
    then have "last s = c" by (metis hd_rev list.sel(1))
    with Cons assms(3) show ?thesis by simp
  qed simp
  moreover have "\<not> list_all trim_space s" using assms(1,2) by (cases s) simp_all
  ultimately show ?thesis by (simp add: trim_def)
qed

lemma trim_idem: "trim (trim s) = trim s"
proof (cases "trim s = []")
  case True
  then show ?thesis by (simp add: trim_def)
next
  case False
  from trim_ends [OF this] show ?thesis by (intro trim_fixed) (use False in auto)
qed

section \<open>Facts on polygons\<close>

lemma open_polygon_cases:
  "open_polygon V ps = ps \<or> (\<exists>k. open_polygon V ps = take k ps \<and> 3 \<le> k \<and> k < length ps)"
proof (induction V ps rule: open_polygon.induct)
  case (1 V ps)
  show ?case
  proof (cases "length ps > 3 \<and> point_eq V (hd ps) (last ps)")
    case True
    with 1 have "open_polygon V (butlast ps) = butlast ps \<or>
      (\<exists>k. open_polygon V (butlast ps) = take k (butlast ps) \<and> 3 \<le> k \<and> k < length (butlast ps))"
      by blast
    moreover have "open_polygon V ps = open_polygon V (butlast ps)"
      using True by (subst open_polygon.simps) simp
    moreover have "butlast ps = take (length ps - 1) ps" by (simp add: butlast_conv_take)
    moreover have "take k (butlast ps) = take k ps" if "k < length (butlast ps)" for k
      using that by (simp add: butlast_conv_take)
    ultimately show ?thesis
      using True by (auto intro: exI [of _ "length ps - 1"])
  next
    case False
    then show ?thesis by (subst open_polygon.simps) auto
  qed
qed

lemma open_polygon_open:
  "length (open_polygon V ps) > 3 \<Longrightarrow>
     \<not> point_eq V (hd (open_polygon V ps)) (last (open_polygon V ps))"
proof (induction V ps rule: open_polygon.induct)
  case (1 V ps)
  show ?case
  proof (cases "length ps > 3 \<and> point_eq V (hd ps) (last ps)")
    case True
    then have eq: "open_polygon V ps = open_polygon V (butlast ps)"
      by (subst open_polygon.simps) simp
    show ?thesis unfolding eq by (rule 1) (use True 1(2) eq in simp_all)
  next
    case False
    then have eq: "open_polygon V ps = ps" by (subst open_polygon.simps) auto
    with False 1(2) show ?thesis by simp
  qed
qed

lemma open_polygon_idem: "open_polygon V (open_polygon V ps) = open_polygon V ps"
  using open_polygon_open [of V ps] by (subst open_polygon.simps) auto

lemma shoelace_sum_list:
  "shoelace_sum ps = sum_list (map (\<lambda>(p0, p1). shoelace p0 p1) (zip ps (tl ps @ [hd ps])))"
proof -
  have "foldl (\<lambda>s (p0, p1). s + shoelace p0 p1) a xs =
      a + sum_list (map (\<lambda>(p0, p1). shoelace p0 p1) xs)" for a xs
    by (induction xs arbitrary: a) auto
  from this [of 0] show ?thesis by (simp add: shoelace_sum_def case_prod_unfold)
qed

text \<open>The open chain of the vertices, without the closing side.\<close>

fun chain_sum :: "'s geopoint list \<Rightarrow> real" where
  "chain_sum (p # q # ps) = shoelace p q + chain_sum (q # ps)"
| "chain_sum _ = 0"

lemma shoelace_swap: "shoelace q p = - shoelace p q"
  by (simp add: shoelace_def)

lemma chain_sum_snoc: "chain_sum (xs @ [p, q]) = chain_sum (xs @ [p]) + shoelace p q"
  by (induction xs rule: chain_sum.induct) auto

lemma chain_sum_rev: "chain_sum (rev ps) = - chain_sum ps"
proof (induction ps rule: chain_sum.induct)
  case (1 p q ps)
  have "chain_sum (rev (p # q # ps)) = chain_sum (rev (q # ps)) + shoelace q p"
    by (simp add: chain_sum_snoc)
  with 1 show ?case by (simp add: shoelace_swap [of q p])
qed simp_all

lemma shoelace_sum_chain:
  "ps \<noteq> [] \<Longrightarrow> shoelace_sum ps = chain_sum ps + shoelace (last ps) (hd ps)"
proof -
  have "sum_list (map (\<lambda>(p0, p1). shoelace p0 p1) (zip (p # ps) (ps @ [h]))) =
      chain_sum (p # ps) + shoelace (last (p # ps)) h" for p h and ps :: "'s geopoint list"
    by (induction ps arbitrary: p) auto
  from this [of "hd ps" "tl ps" "hd ps"] show "ps \<noteq> [] \<Longrightarrow> ?thesis"
    by (simp add: shoelace_sum_list)
qed

lemma shoelace_sum_rev: "shoelace_sum (rev ps) = - shoelace_sum ps"
proof (cases "ps = []")
  case True
  then show ?thesis by (simp add: shoelace_sum_def)
next
  case False
  then show ?thesis
    by (simp add: shoelace_sum_chain chain_sum_rev hd_rev last_rev shoelace_swap [of "hd ps"])
qed

lemma wind_part_positive: "shoelace_sum (wind_part V ps) \<ge> 0"
proof -
  have "is_polygon_ccw V (open_polygon V ps) \<longleftrightarrow> shoelace_sum (open_polygon V ps) \<ge> 0"
    by (simp add: is_polygon_ccw_def polygon_area_2d_def open_polygon_idem)
  then show ?thesis by (simp add: wind_part_def Let_def shoelace_sum_rev)
qed

lemma wind_part_set: "set (wind_part V ps) = set (open_polygon V ps)"
  by (simp add: wind_part_def Let_def)

lemma wind_shape_parts:
  "parts (wind_shape V sh) =
     (case parts sh of [p] \<Rightarrow> [wind_part V p] | ps \<Rightarrow> ps)"
  by (auto simp: wind_shape_def get_part_count_def modify_part_def split: list.splits)

end
