(* ===== verification/Attribute.thy ===== *)
theory Attribute
  imports Strings_Util
begin

text \<open>
  \<^verbatim>\<open>src/osgGIS/Attribute.cpp\<close>: typed attribute values, their conversions, and the table of
  user attributes of a feature, a \<open>std::map\<close> from lower-case names. The text of a double as a
  stream prints it, and the double \<open>sscanf\<close> reads, are arguments; a conversion that C++ leaves
  undefined or that reads an uninitialised variable is \<open>None\<close>.
\<close>

datatype attr_type = TYPE_UNSPECIFIED | TYPE_STRING | TYPE_INT | TYPE_DOUBLE | TYPE_BOOL

record attribute =
  akey :: string
  atype :: attr_type
  string_value :: string
  int_value :: int
  double_value :: real
  avalid :: bool

text \<open>
  Fields a constructor does not set hold whatever was there: they come from \<open>g\<close>.
\<close>

definition attr_invalid :: "attribute \<Rightarrow> attribute" where
  "attr_invalid g = g\<lparr>akey := [], string_value := [], avalid := False\<rparr>"

definition attr_string :: "attribute \<Rightarrow> string \<Rightarrow> string \<Rightarrow> attribute" where
  "attr_string g k v =
     g\<lparr>akey := to_lower k, string_value := v, atype := TYPE_STRING, avalid := True\<rparr>"

definition attr_int :: "attribute \<Rightarrow> string \<Rightarrow> int \<Rightarrow> attribute" where
  "attr_int g k v =
     g\<lparr>akey := to_lower k, string_value := [], int_value := v, atype := TYPE_INT, avalid := True\<rparr>"

definition attr_double :: "attribute \<Rightarrow> string \<Rightarrow> real \<Rightarrow> attribute" where
  "attr_double g k v =
     g\<lparr>akey := to_lower k, string_value := [], double_value := v, atype := TYPE_DOUBLE,
       avalid := True\<rparr>"

definition attr_bool :: "attribute \<Rightarrow> string \<Rightarrow> bool \<Rightarrow> attribute" where
  "attr_bool g k v =
     g\<lparr>akey := to_lower k, string_value := [], int_value := (if v then 1 else 0),
       atype := TYPE_BOOL, avalid := True\<rparr>"

text \<open>
  \<open>asString\<close> fills the text on first use; a boolean has no case of its own and stays empty.
\<close>

definition attr_as_string :: "(real \<Rightarrow> string) \<Rightarrow> attribute \<Rightarrow> string \<times> attribute" where
  "attr_as_string print_double a =
     (let s = (if atype a \<noteq> TYPE_STRING \<and> length (string_value a) = 0
               then (if atype a = TYPE_INT then show_int (int_value a)
                     else if atype a = TYPE_DOUBLE then print_double (double_value a)
                     else [])
               else string_value a)
      in (s, a\<lparr>string_value := s\<rparr>))"

text \<open>\<open>sscanf( s, "%d", &temp )\<close>: like \<open>atoi\<close>, but with no digits \<open>temp\<close> stays unset.\<close>

definition scan_int :: "string \<Rightarrow> int option" where
  "scan_int s =
     (let t = dropWhile is_space s;
          u = (case t of [] \<Rightarrow> [] | c # cs \<Rightarrow> if c = CHR ''-'' \<or> c = CHR ''+'' then cs else t)
      in if takeWhile is_digit u = [] then None else atoi s)"

definition int_of_double :: "real \<Rightarrow> int option" where
  "int_of_double d =
     (let t = (if d < 0 then \<lceil>d\<rceil> else \<lfloor>d\<rfloor>) in if in_int_range t then Some t else None)"

definition attr_as_int :: "attribute \<Rightarrow> int option" where
  "attr_as_int a =
     (if atype a = TYPE_INT then Some (int_value a)
      else if atype a = TYPE_DOUBLE then int_of_double (double_value a)
      else if atype a = TYPE_BOOL then Some (int_value a)
      else scan_int (string_value a))"

definition attr_as_double :: "(string \<Rightarrow> real option) \<Rightarrow> attribute \<Rightarrow> real option" where
  "attr_as_double scan_double a =
     (if atype a = TYPE_DOUBLE then Some (double_value a)
      else if atype a = TYPE_INT then Some (of_int (int_value a))
      else if atype a = TYPE_BOOL then Some (of_int (int_value a))
      else scan_double (string_value a))"

text \<open>The text is lower-cased into a variable that the comparison then does not use.\<close>

definition attr_as_bool :: "attribute \<Rightarrow> bool" where
  "attr_as_bool a =
     (if atype a = TYPE_BOOL then int_value a \<noteq> 0
      else if atype a = TYPE_INT then int_value a \<noteq> 0
      else if atype a = TYPE_DOUBLE then double_value a \<noteq> 0
      else string_value a \<in> {''true'', ''yes'', ''on'', ''t'', ''y''})"

section \<open>Schemas and tables\<close>

record 'p attr_schema =
  sname :: string
  stype :: attr_type
  sprops :: "'p list"

definition schema_new :: "string \<Rightarrow> attr_type \<Rightarrow> 'p list \<Rightarrow> 'p attr_schema" where
  "schema_new n t ps = \<lparr>sname = to_lower n, stype = t, sprops = ps\<rparr>"

type_synonym attr_table = "(string \<times> attribute) list"

definition table_get :: "attribute \<Rightarrow> attr_table \<Rightarrow> string \<Rightarrow> attribute" where
  "table_get g t key =
     (case map_of t (to_lower key) of None \<Rightarrow> attr_invalid g | Some a \<Rightarrow> a)"

definition table_attributes :: "attr_table \<Rightarrow> attribute list" where
  "table_attributes t = map snd t"

definition table_schemas :: "attr_table \<Rightarrow> 'p attr_schema list" where
  "table_schemas t = map (\<lambda>(k, a). schema_new k (atype a) []) t"

definition table_set_string :: "attribute \<Rightarrow> attr_table \<Rightarrow> string \<Rightarrow> string \<Rightarrow> attr_table" where
  "table_set_string g t key v = (let l = to_lower key in smap_put l (attr_string g l v) t)"

definition table_set_int :: "attribute \<Rightarrow> attr_table \<Rightarrow> string \<Rightarrow> int \<Rightarrow> attr_table" where
  "table_set_int g t key v = (let l = to_lower key in smap_put l (attr_int g l v) t)"

definition table_set_double :: "attribute \<Rightarrow> attr_table \<Rightarrow> string \<Rightarrow> real \<Rightarrow> attr_table" where
  "table_set_double g t key v = (let l = to_lower key in smap_put l (attr_double g l v) t)"

definition table_set_bool :: "attribute \<Rightarrow> attr_table \<Rightarrow> string \<Rightarrow> bool \<Rightarrow> attr_table" where
  "table_set_bool g t key v = (let l = to_lower key in smap_put l (attr_bool g l v) t)"

definition table_set :: "attr_table \<Rightarrow> attribute \<Rightarrow> attr_table" where
  "table_set t a = smap_put (to_lower (akey a)) a t"

section \<open>Facts\<close>

definition table_lookup :: "attr_table \<Rightarrow> string \<Rightarrow> attribute option" where
  "table_lookup t key = map_of t (to_lower key)"

interpretation attrs: named_store to_lower akey table_lookup table_set "\<lambda>_. True" smap_sorted
  by unfold_locales (auto simp: table_lookup_def table_set_def map_of_smap_put smap_sorted_put)

text \<open>The typed setters store exactly the attribute that the general setter would.\<close>

lemma table_setters:
  "table_set_string g t k v = table_set t (attr_string g k v)"
  "table_set_int g t k i = table_set t (attr_int g k i)"
  "table_set_double g t k d = table_set t (attr_double g k d)"
  "table_set_bool g t k b = table_set t (attr_bool g k b)"
  by (simp_all add: table_set_string_def table_set_int_def table_set_double_def table_set_bool_def
      table_set_def Let_def attr_string_def attr_int_def attr_double_def attr_bool_def)

lemma table_get_lookup:
  "table_get g t key = (case table_lookup t key of None \<Rightarrow> attr_invalid g | Some a \<Rightarrow> a)"
  by (simp add: table_get_def table_lookup_def)

lemma attr_int_roundtrip:
  "attr_as_int (attr_int g k i) = Some i" "attr_as_bool (attr_bool g k b) = b"
  "attr_as_int (attr_bool g k b) = Some (of_bool b)"
  by (simp_all add: attr_as_int_def attr_int_def attr_as_bool_def attr_bool_def)

text \<open>Printing an integer attribute and scanning the text gives the integer back.\<close>

lemma scan_show_int:
  assumes "in_int_range i"
  shows "scan_int (show_int i) = Some i"
proof -
  obtain c cs where s: "show_nat (nat \<bar>i\<bar>) = c # cs"
    using show_nat_nonempty by (cases "show_nat (nat \<bar>i\<bar>)") auto
  then have d: "is_digit c" using show_nat_digits [of "nat \<bar>i\<bar>"] by simp
  have "\<not> is_space (CHR ''-'')" by (simp add: is_space_def)
  then show ?thesis
    using assms digit_not_special [OF d] s d atoi_show_int [OF assms]
    by (cases "i < 0") (simp_all add: scan_int_def show_int_def Let_def)
qed

text \<open>A boolean attribute has no text, so its text does not read back as the value.\<close>

lemma bool_as_string: "fst (attr_as_string pd (attr_bool g k b)) = []"
  by (simp add: attr_as_string_def attr_bool_def Let_def)

lemma table_attributes_sorted:
  "smap_sorted t \<Longrightarrow> sorted_wrt (\<lambda>a b. str_less a b) (map fst t)"
  by (simp add: smap_sorted_def sorted_wrt_map)

end
