(* ===== verification/Ellipsoid.thy ===== *)
theory Ellipsoid
  imports Prelude
begin

text \<open>
  \<^verbatim>\<open>src/osgGIS/Ellipsoid.cpp\<close>: the conversion between geographic and earth-centred
  coordinates. Angles are converted by OSG's \<open>DegreesToRadians\<close> and \<open>RadiansToDegrees\<close>, inline
  functions of the OSG headers, which are arguments of the model; the property of the round trip
  asks them to be multiplication by \<open>pi / 180\<close> and its inverse, as OSG documents.
\<close>

record ellipsoid =
  semi_major_axis :: real
  semi_minor_axis :: real
  ecc2 :: real

definition ellipsoid_new :: "real \<Rightarrow> real \<Rightarrow> ellipsoid" where
  "ellipsoid_new a b =
     (let flattening = (a - b) / a
      in \<lparr>semi_major_axis = a, semi_minor_axis = b,
          ecc2 = 2 * flattening - flattening * flattening\<rparr>)"

definition ellipsoid_equivalent :: "ellipsoid \<Rightarrow> ellipsoid \<Rightarrow> bool" where
  "ellipsoid_equivalent e f \<longleftrightarrow>
     semi_major_axis e = semi_major_axis f \<and> semi_minor_axis e = semi_minor_axis f"

type_synonym vec3 = "real \<times> real \<times> real"

text \<open>The C library's \<open>atan2\<close>.\<close>

definition atan2 :: "real \<Rightarrow> real \<Rightarrow> real" where
  "atan2 y x =
     (if x > 0 then arctan (y / x)
      else if x < 0 then (if y \<ge> 0 then arctan (y / x) + pi else arctan (y / x) - pi)
      else if y > 0 then pi / 2 else if y < 0 then - (pi / 2) else 0)"

text \<open>The input is longitude, latitude in degrees and height.\<close>

definition lat_long_to_geocentric :: "(real \<Rightarrow> real) \<Rightarrow> ellipsoid \<Rightarrow> vec3 \<Rightarrow> vec3" where
  "lat_long_to_geocentric deg2rad e v =
     (case v of (lon_deg, lat_deg, height) \<Rightarrow>
       let latitude = deg2rad lat_deg; longitude = deg2rad lon_deg;
           sin_latitude = sin latitude; cos_latitude = cos latitude;
           N = semi_major_axis e / sqrt (1 - ecc2 e * sin_latitude * sin_latitude)
       in ((N + height) * cos_latitude * cos longitude,
           (N + height) * cos_latitude * sin longitude,
           (N * (1 - ecc2 e) + height) * sin_latitude))"

text \<open>Latitude, longitude (in radians) and height of an earth-centred point.\<close>

definition xyz_to_lat_lon_height :: "ellipsoid \<Rightarrow> vec3 \<Rightarrow> vec3" where
  "xyz_to_lat_lon_height e v =
     (case v of (X, Y, Z) \<Rightarrow>
       let a = semi_major_axis e; b = semi_minor_axis e;
           p = sqrt (X * X + Y * Y);
           theta = atan2 (Z * a) (p * b);
           eDashSquared = (a * a - b * b) / (b * b);
           sin_theta = sin theta; cos_theta = cos theta;
           lat_rad = arctan ((Z + eDashSquared * b * sin_theta * sin_theta * sin_theta) /
                             (p - ecc2 e * a * cos_theta * cos_theta * cos_theta));
           lon_rad = atan2 Y X;
           sin_latitude = sin lat_rad;
           N = a / sqrt (1 - ecc2 e * sin_latitude * sin_latitude);
           height = p / cos lat_rad - N
       in (lat_rad, lon_rad, height))"

definition geocentric_to_lat_long :: "(real \<Rightarrow> real) \<Rightarrow> ellipsoid \<Rightarrow> vec3 \<Rightarrow> vec3" where
  "geocentric_to_lat_long rad2deg e v =
     (case xyz_to_lat_lon_height e v of (lat_rad, lon_rad, height) \<Rightarrow>
        (rad2deg lon_rad, rad2deg lat_rad, height))"

section \<open>Facts\<close>

lemma ellipsoid_new_simps [simp]:
  "semi_major_axis (ellipsoid_new a b) = a" "semi_minor_axis (ellipsoid_new a b) = b"
  by (simp_all add: ellipsoid_new_def Let_def)

lemma ecc2_new: "a \<noteq> 0 \<Longrightarrow> 1 - ecc2 (ellipsoid_new a b) = (b / a)\<^sup>2"
  by (simp add: ellipsoid_new_def Let_def field_simps power2_eq_square)

lemma ecc2_range:
  assumes "0 < b" "b \<le> a"
  shows "0 \<le> ecc2 (ellipsoid_new a b)" and "ecc2 (ellipsoid_new a b) < 1"
proof -
  have "(b / a)\<^sup>2 \<le> 1" using assms by (simp add: power_le_one)
  moreover have "0 < (b / a)\<^sup>2" using assms by (intro zero_less_power divide_pos_pos) auto
  ultimately show "0 \<le> ecc2 (ellipsoid_new a b)" and "ecc2 (ellipsoid_new a b) < 1"
    using ecc2_new [of a b] assms by linarith+
qed

lemma ecc2_sin_lt:
  assumes "0 < b" "b \<le> a"
  shows "0 < 1 - ecc2 (ellipsoid_new a b) * sin t * sin t"
proof -
  have "sin t * sin t \<le> 1" by (metis abs_sin_le_one abs_square_le_1 power2_eq_square)
  then have "ecc2 (ellipsoid_new a b) * (sin t * sin t) \<le> ecc2 (ellipsoid_new a b) * 1"
    by (rule mult_left_mono) (rule ecc2_range [OF assms])
  then show ?thesis using ecc2_range(2) [OF assms] by (simp add: mult.assoc)
qed

text \<open>\<open>atan2\<close> reads back the polar angle.\<close>

lemma atan2_polar:
  assumes "0 < r" "- pi < t" "t \<le> pi"
  shows "atan2 (r * sin t) (r * cos t) = t"
proof -
  consider "cos t > 0" | "cos t < 0" | "cos t = 0" by linarith
  then show ?thesis
  proof cases
    case 1
    have "- (pi / 2) < t" "t < pi / 2"
      using 1 assms cos_monotone_0_pi_le [of "pi/2" t] cos_monotone_0_pi_le [of "pi/2" "-t"]
      by (force simp: not_less)+
    then have "arctan (tan t) = t" by (intro arctan_tan)
    with 1 assms show ?thesis by (simp add: atan2_def tan_def)
  next
    case 2
    show ?thesis
    proof (cases "0 \<le> sin t")
      case True
      have "0 < t" using 2 True assms sin_gt_zero [of "-t"] cos_zero
        by (smt (verit) cos_gt_zero_pi pi_gt_zero sin_gt_zero sin_minus)
      then have "pi / 2 < t" using 2 assms cos_gt_zero [of t] by (smt (verit) cos_pi_half cos_ge_zero)
      then have "arctan (tan (t - pi)) = t - pi" using assms by (intro arctan_tan) auto
      moreover have "tan (t - pi) = tan t" by (simp add: tan_def sin_diff cos_diff)
      ultimately show ?thesis using 2 True assms
        by (simp add: atan2_def tan_def mult_less_0_iff zero_less_mult_iff)
    next
      case False
      then have "t < 0" using assms sin_ge_zero [of t] by linarith
      then have "t < - (pi / 2)" using 2 assms cos_ge_zero [of t] by linarith
      then have "arctan (tan (t + pi)) = t + pi" using assms by (intro arctan_tan) auto
      moreover have "tan (t + pi) = tan t" by (simp add: tan_def)
      ultimately show ?thesis using 2 False assms
        by (simp add: atan2_def tan_def mult_less_0_iff zero_less_mult_iff zero_le_mult_iff)
    qed
  next
    case 3
    have "\<not> (- (pi / 2) < t \<and> t < pi / 2)" using cos_gt_zero_pi [of t] 3 by auto
    moreover have "\<not> (- (pi / 2) < t - pi \<and> t - pi < pi / 2)"
      using cos_gt_zero_pi [of "t - pi"] 3 by (auto simp: cos_diff)
    moreover have "\<not> (- (pi / 2) < t + pi \<and> t + pi < pi / 2)"
      using cos_gt_zero_pi [of "t + pi"] 3 by (auto simp: cos_add)
    ultimately have "t = pi / 2 \<or> t = - (pi / 2)" using assms pi_gt_zero by arith
    then show ?thesis
    proof
      assume t: "t = pi / 2"
      show ?thesis unfolding t using assms(1) by (simp add: atan2_def)
    next
      assume t: "t = - (pi / 2)"
      show ?thesis unfolding t using assms(1) by (simp add: atan2_def)
    qed
  qed
qed

text \<open>The parametric latitude of a point on the surface.\<close>

lemma param_latitude:
  fixes a b c s :: real
  assumes "0 < b" "b \<le> a" "c\<^sup>2 + s\<^sup>2 = 1"
  defines "N \<equiv> a / sqrt (1 - (1 - (b / a)\<^sup>2) * s * s)"
  shows "(N * c / a)\<^sup>2 + (N * (b / a)\<^sup>2 * s / b)\<^sup>2 = 1" and "0 < N"
proof -
  let ?d = "1 - (1 - (b / a)\<^sup>2) * s * s"
  have a: "0 < a" using assms by linarith
  have q: "0 < (b / a)\<^sup>2" using assms(1) a by simp
  have d: "?d = c\<^sup>2 + (b / a)\<^sup>2 * s\<^sup>2"
    using assms(3) by (simp add: algebra_simps power2_eq_square)
  have "0 < ?d"
  proof (cases "s = 0")
    case False
    then show ?thesis unfolding d using q by (simp add: add_nonneg_pos)
  qed simp
  then show "0 < N" using a by (simp add: N_def)
  have N2: "N\<^sup>2 = a\<^sup>2 / ?d" using \<open>0 < ?d\<close> by (simp add: N_def power_divide)
  have "(N * c / a)\<^sup>2 + (N * (b / a)\<^sup>2 * s / b)\<^sup>2 = N\<^sup>2 / a\<^sup>2 * (c\<^sup>2 + (b / a)\<^sup>2 * s\<^sup>2)"
    using a assms(1) by (simp add: field_simps power2_eq_square)
  also have "\<dots> = 1" unfolding d [symmetric] N2 using \<open>0 < ?d\<close> a by simp
  finally show "(N * c / a)\<^sup>2 + (N * (b / a)\<^sup>2 * s / b)\<^sup>2 = 1" .
qed

lemma lat_long_parts:
  fixes h :: real
  assumes "0 < b" "b \<le> a" and "lat_long_to_geocentric f (ellipsoid_new a b) (lon, lat, h) = (X, Y, Z)"
  defines "N \<equiv> a / sqrt (1 - (1 - (b / a)\<^sup>2) * sin (f lat) * sin (f lat))"
  shows "X = (N + h) * cos (f lat) * cos (f lon)" "Y = (N + h) * cos (f lat) * sin (f lon)"
    "Z = (N * (b / a)\<^sup>2 + h) * sin (f lat)"
proof -
  have e: "ecc2 (ellipsoid_new a b) = 1 - (b / a)\<^sup>2" using ecc2_new [of a b] assms by simp
  show "X = (N + h) * cos (f lat) * cos (f lon)" "Y = (N + h) * cos (f lat) * sin (f lon)"
    "Z = (N * (b / a)\<^sup>2 + h) * sin (f lat)"
    using assms(3) by (auto simp: lat_long_to_geocentric_def Let_def N_def e)
qed

text \<open>A point at height 0 lands on the surface of the ellipsoid.\<close>

lemma geocentric_on_surface:
  assumes "0 < b" "b \<le> a"
    and "lat_long_to_geocentric f (ellipsoid_new a b) (lon, lat, 0) = (X, Y, Z)"
  shows "X\<^sup>2 / a\<^sup>2 + Y\<^sup>2 / a\<^sup>2 + Z\<^sup>2 / b\<^sup>2 = 1"
proof -
  define N where "N = a / sqrt (1 - (1 - (b / a)\<^sup>2) * sin (f lat) * sin (f lat))"
  note parts = lat_long_parts [OF assms, folded N_def]
  have "X\<^sup>2 + Y\<^sup>2 = (N * cos (f lat))\<^sup>2 * ((cos (f lon))\<^sup>2 + (sin (f lon))\<^sup>2)"
    unfolding parts(1,2) by (simp only: add_0_right power_mult_distrib distrib_left)
  then have XY: "X\<^sup>2 / a\<^sup>2 + Y\<^sup>2 / a\<^sup>2 = (N * cos (f lat) / a)\<^sup>2"
    by (simp add: power_divide flip: add_divide_distrib)
  have "Z\<^sup>2 / b\<^sup>2 = (N * (b / a)\<^sup>2 * sin (f lat) / b)\<^sup>2"
    unfolding parts(3) by (simp only: add_0_right power_divide)
  with XY param_latitude(1) [OF assms(1,2), of "cos (f lat)" "sin (f lat)", folded N_def]
  show ?thesis by simp
qed

text \<open>
  The inverse computes the parametric latitude first; at height 0 its correction terms cancel
  exactly, so the geographic latitude comes back without error.
\<close>

lemma bowring_exact:
  fixes a b t :: real
  assumes "0 < b" "b \<le> a" "0 < cos t"
  shows "(b * sin t + (a * a - b * b) / (b * b) * b * sin t * sin t * sin t) /
         (a * cos t - (1 - (b / a)\<^sup>2) * a * cos t * cos t * cos t) = a * sin t / (b * cos t)"
proof -
  have a: "0 < a" using assms by linarith
  define k where "k = b\<^sup>2 + (a\<^sup>2 - b\<^sup>2) * (sin t)\<^sup>2"
  have k: "0 < k"
    unfolding k_def using assms a by (intro add_pos_nonneg mult_nonneg_nonneg) (simp_all add: power_mono)
  have num: "b * sin t + (a * a - b * b) / (b * b) * b * sin t * sin t * sin t = sin t / b * k"
    unfolding k_def using assms(1) by (simp add: field_simps power2_eq_square)
  have "a * cos t - (1 - (b / a)\<^sup>2) * a * cos t * cos t * cos t =
      cos t / a * (a\<^sup>2 - (a\<^sup>2 - b\<^sup>2) * (cos t)\<^sup>2)"
    using a by (simp add: field_simps power2_eq_square)
  also have "a\<^sup>2 - (a\<^sup>2 - b\<^sup>2) * (cos t)\<^sup>2 = k"
    by (simp add: k_def cos_squared_eq algebra_simps)
  finally show ?thesis
    unfolding num using k a assms by simp
qed

lemma unit_angle:
  assumes "x\<^sup>2 + y\<^sup>2 = (1 :: real)"
  obtains t where "- pi < t" "t \<le> pi" "x = cos t" "y = sin t"
proof -
  from sincos_total_2pi [OF assms] obtain t where t: "0 \<le> t" "t < 2 * pi" "x = cos t" "y = sin t" .
  show ?thesis
  proof (cases "t \<le> pi")
    case True
    show ?thesis by (rule that [of t]) (use t True pi_gt_zero in linarith)+
  next
    case False
    have "cos (t - 2 * pi) = cos t" "sin (t - 2 * pi) = sin t" by (simp_all add: cos_diff sin_diff)
    then show ?thesis by (intro that [of "t - 2 * pi"]) (use t False in linarith)+
  qed
qed

lemma xyz_to_lat_lon_height_surface:
  assumes "0 < b" "b \<le> a" and lat: "- (pi / 2) < lat" "lat < pi / 2" and lon: "- pi < lon" "lon \<le> pi"
  defines "N \<equiv> a / sqrt (1 - (1 - (b / a)\<^sup>2) * sin lat * sin lat)"
  shows "xyz_to_lat_lon_height (ellipsoid_new a b)
           (N * cos lat * cos lon, N * cos lat * sin lon, N * (b / a)\<^sup>2 * sin lat) = (lat, lon, 0)"
proof -
  let ?X = "N * cos lat * cos lon" and ?Y = "N * cos lat * sin lon" and ?Z = "N * (b / a)\<^sup>2 * sin lat"
  have a: "0 < a" using assms by linarith
  have c: "0 < cos lat" using cos_gt_zero_pi [OF lat] .
  have N: "0 < N" and unit: "(N * cos lat / a)\<^sup>2 + (?Z / b)\<^sup>2 = 1"
    using param_latitude [OF assms(1,2), of "cos lat" "sin lat", folded N_def] by simp_all
  obtain t where tr: "- pi < t" "t \<le> pi" and t: "N * cos lat / a = cos t" "?Z / b = sin t"
    by (rule unit_angle [OF unit])
  have p: "sqrt (?X * ?X + ?Y * ?Y) = N * cos lat"
  proof -
    have "?X * ?X + ?Y * ?Y = (N * cos lat)\<^sup>2 * ((cos lon)\<^sup>2 + (sin lon)\<^sup>2)"
      by (simp only: power2_eq_square distrib_left mult_ac)
    then show ?thesis using N c by (simp add: real_sqrt_unique)
  qed
  have pt: "N * cos lat = a * cos t" and zt: "?Z = b * sin t"
    using t a assms(1) by (simp_all add: field_simps)
  have ct: "0 < cos t" unfolding t(1) [symmetric] using N c a by simp
  have theta: "atan2 (?Z * a) (N * cos lat * b) = t"
    unfolding zt pt using atan2_polar [of "a * b" t] a assms(1) tr by (simp add: mult_ac)
  have e: "ecc2 (ellipsoid_new a b) = 1 - (b / a)\<^sup>2" using ecc2_new [of a b] a by simp
  have lonr: "atan2 ?Y ?X = lon"
    using atan2_polar [of "N * cos lat" lon] N c lon by simp
  have "a * sin t / (b * cos t) = tan lat"
    unfolding t [symmetric] tan_def using N c a assms(1) by (simp add: field_simps power2_eq_square)
  then have latr: "arctan ((?Z + (a * a - b * b) / (b * b) * b * sin t * sin t * sin t) /
      (N * cos lat - (1 - (b / a)\<^sup>2) * a * cos t * cos t * cos t)) = lat"
    unfolding pt zt bowring_exact [OF assms(1,2) ct] using arctan_tan [OF lat] by simp
  have "xyz_to_lat_lon_height (ellipsoid_new a b) (?X, ?Y, ?Z) =
      (lat, lon, N * cos lat / cos lat - N)"
    unfolding xyz_to_lat_lon_height_def Let_def prod.case ellipsoid_new_simps e p theta lonr
      latr N_def [symmetric] by (rule refl)
  with c show ?thesis by simp
qed

lemma geocentric_roundtrip_surface:
  assumes "0 < b" "b \<le> a"
    and "\<And>d. deg2rad d = d * (pi / 180)" and "\<And>r. rad2deg r = r * (180 / pi)"
    and "-90 < lat" "lat < 90" and "-180 < lon" "lon \<le> 180"
  shows "geocentric_to_lat_long rad2deg (ellipsoid_new a b)
           (lat_long_to_geocentric deg2rad (ellipsoid_new a b) (lon, lat, 0)) = (lon, lat, 0)"
proof -
  have r: "- (pi / 2) < deg2rad lat" "deg2rad lat < pi / 2" "- pi < deg2rad lon" "deg2rad lon \<le> pi"
  proof -
    have *: "-90 * (pi / 180) < lat * (pi / 180)" "lat * (pi / 180) < 90 * (pi / 180)"
      "-180 * (pi / 180) < lon * (pi / 180)" "lon * (pi / 180) \<le> 180 * (pi / 180)"
      using assms(5-8) by (intro mult_strict_right_mono mult_right_mono; simp)+
    then show "- (pi / 2) < deg2rad lat" "deg2rad lat < pi / 2" "- pi < deg2rad lon" "deg2rad lon \<le> pi"
      unfolding assms(3) by simp_all
  qed
  obtain X Y Z where g: "lat_long_to_geocentric deg2rad (ellipsoid_new a b) (lon, lat, 0) = (X, Y, Z)"
    by (cases "lat_long_to_geocentric deg2rad (ellipsoid_new a b) (lon, lat, 0)") auto
  have "xyz_to_lat_lon_height (ellipsoid_new a b) (X, Y, Z) = (deg2rad lat, deg2rad lon, 0)"
    using xyz_to_lat_lon_height_surface [OF assms(1,2) r] lat_long_parts [OF assms(1,2) g] by simp
  then show ?thesis by (simp add: g geocentric_to_lat_long_def assms(3,4))
qed

end
