(* ===== verification/Ogr_Srs.thy ===== *)
theory Ogr_Srs
  imports Geo_Shape Ellipsoid
begin

text \<open>
  \<^verbatim>\<open>src/osgGIS/OGR_SpatialReference.cpp\<close> and
  \<^verbatim>\<open>src/osgGIS/GeocentricSpatialReference.cpp\<close>: the two providers of the spatial reference
  interface. What they call in GDAL/OGR and in OpenSceneGraph is gathered in one record of
  arguments: the multiplication of a vector by a matrix, the identity test, the inverse, the
  conversion of angles, the coordinate transformation between two library handles
  (\<open>OCTNewCoordinateTransformation\<close> and \<open>OCTTransform\<close>; \<open>None\<close> when there is none, and
  otherwise whether the point was converted and the coordinates it was left with), the
  geographic reference a projected one is based on, and the address of a fresh object. The
  address stands for the identity of an object, so that comparing two references is comparing
  these values; a geocentric reference always has a basis here.
\<close>

record 'm ogr_srs =
  oid :: nat
  handle :: "nat option"
  geographic :: bool
  projected :: bool
  ell :: ellipsoid
  ref_frame :: 'm
  inv_ref_frame :: 'm

datatype 'm srs =
  Ogr "'m ogr_srs"
| Geocentric nat "'m ogr_srs" 'm 'm

record 'm lib =
  mat_mult :: "vec3 \<Rightarrow> 'm \<Rightarrow> vec3"
  mat_is_identity :: "'m \<Rightarrow> bool"
  mat_identity :: 'm
  mat_inverse :: "'m \<Rightarrow> 'm"
  deg_to_rad :: "real \<Rightarrow> real"
  rad_to_deg :: "real \<Rightarrow> real"
  oct :: "nat option \<Rightarrow> nat option \<Rightarrow> (vec3 \<Rightarrow> bool \<times> vec3) option"
  geographic_of :: "'m ogr_srs \<Rightarrow> 'm ogr_srs"
  clone_oid :: "nat \<Rightarrow> nat"

definition xyz :: "'s geopoint \<Rightarrow> vec3" where
  "xyz p = (px p, py p, pz p)"

definition set_vec :: "'s geopoint \<Rightarrow> vec3 \<Rightarrow> 's geopoint" where
  "set_vec p v = (case v of (x, y, z) \<Rightarrow> set_xyz p x y z)"

definition point_of_vec :: "vec3 \<Rightarrow> 's option \<Rightarrow> 's geopoint" where
  "point_of_vec v s = (case v of (x, y, z) \<Rightarrow> geopoint_3d x y z s)"

section \<open>Observers of a reference\<close>

definition ogr_new :: "'m lib \<Rightarrow> nat \<Rightarrow> nat option \<Rightarrow> bool \<Rightarrow> bool \<Rightarrow> real \<Rightarrow> real \<Rightarrow> 'm \<Rightarrow> 'm ogr_srs" where
  "ogr_new L i h geog proj semi_major semi_minor rf =
     \<lparr>oid = i, handle = h, geographic = geog, projected = proj,
      ell = ellipsoid_new semi_major semi_minor, ref_frame = rf,
      inv_ref_frame = (if mat_is_identity L rf then rf else mat_inverse L rf)\<rparr>"

fun is_geographic :: "'m srs \<Rightarrow> bool" where
  "is_geographic (Ogr g) = geographic g"
| "is_geographic (Geocentric _ _ _ _) = False"

fun is_projected :: "'m srs \<Rightarrow> bool" where
  "is_projected (Ogr g) = projected g"
| "is_projected (Geocentric _ _ _ _) = False"

fun is_geocentric :: "'m srs \<Rightarrow> bool" where
  "is_geocentric (Ogr _) = False"
| "is_geocentric (Geocentric _ _ _ _) = True"

fun get_ellipsoid :: "'m srs \<Rightarrow> ellipsoid" where
  "get_ellipsoid (Ogr g) = ell g"
| "get_ellipsoid (Geocentric _ b _ _) = ell b"

fun get_frame :: "'m srs \<Rightarrow> 'm" where
  "get_frame (Ogr g) = ref_frame g"
| "get_frame (Geocentric _ _ f _) = f"

fun get_inv_frame :: "'m srs \<Rightarrow> 'm" where
  "get_inv_frame (Ogr g) = inv_ref_frame g"
| "get_inv_frame (Geocentric _ _ _ i) = i"

definition ogr_geographic_srs :: "'m lib \<Rightarrow> 'm ogr_srs \<Rightarrow> 'm ogr_srs" where
  "ogr_geographic_srs L g = (if geographic g then g else geographic_of L g)"

fun get_geographic_srs :: "'m lib \<Rightarrow> 'm srs \<Rightarrow> 'm ogr_srs" where
  "get_geographic_srs L (Ogr g) = ogr_geographic_srs L g"
| "get_geographic_srs L (Geocentric _ b _ _) = ogr_geographic_srs L b"

fun clone_with_frame :: "'m lib \<Rightarrow> 'm srs \<Rightarrow> 'm \<Rightarrow> 'm srs" where
  "clone_with_frame L (Ogr g) rf =
     Ogr (g\<lparr>oid := clone_oid L (oid g), ref_frame := rf,
            inv_ref_frame := (if mat_is_identity L rf then rf else mat_inverse L rf)\<rparr>)"
| "clone_with_frame L (Geocentric i b _ _) rf =
     Geocentric (clone_oid L i) (ogr_geographic_srs L b) rf (mat_inverse L rf)"

text \<open>\<open>testEquivalence\<close>: the two output flags.\<close>

definition test_equivalence :: "'m ogr_srs \<Rightarrow> 'm ogr_srs \<Rightarrow> bool \<times> bool" where
  "test_equivalence this rhs =
     ((if geographic this \<and> geographic rhs then ellipsoid_equivalent (ell this) (ell rhs)
       else this = rhs),
      ref_frame this = ref_frame rhs)"

text \<open>
  \<open>equivalentTo\<close>. \<open>OGR_SpatialReference\<close> casts its argument without asking its class: of a
  geocentric reference it reads the base-class frame and compares addresses.
\<close>

fun equivalent_to :: "'m srs \<Rightarrow> 'm srs \<Rightarrow> bool" where
  "equivalent_to (Ogr g) (Ogr r) = (case test_equivalence g r of (c, m) \<Rightarrow> c \<and> m)"
| "equivalent_to (Ogr g) (Geocentric _ _ _ _) = False"
| "equivalent_to (Geocentric _ _ f _) r = (is_geocentric r \<and> f = get_frame r)"

section \<open>Transforming a point\<close>

text \<open>
  \<open>OGR_SpatialReference::transformInPlace( GeoPoint )\<close>: whether it succeeded and the point it
  leaves behind. A geocentric input is first brought to the geographic basis.
\<close>

definition ogr_transform_in_place ::
  "'m lib \<Rightarrow> 'm ogr_srs \<Rightarrow> 'm srs geopoint \<Rightarrow> bool \<times> 'm srs geopoint" where
  "ogr_transform_in_place L this input =
     (case (if handle this = None \<or> \<not> point_valid input then None else spatial_ref input) of
        None \<Rightarrow> (False, input)
      | Some s0 \<Rightarrow>
          (let (p1, input_sr) =
             (case s0 of
                Geocentric _ b _ ifr \<Rightarrow>
                  (point_of_vec
                     (geocentric_to_lat_long (rad_to_deg L) (ell b) (mat_mult L (xyz input) ifr))
                     (Some (Ogr (ogr_geographic_srs L b))),
                   ogr_geographic_srs L b)
              | Ogr r \<Rightarrow> (input, r));
             (crs_equiv, mat_equiv) = test_equivalence this input_sr;
             p2 = (if mat_equiv then p1 else set_vec p1 (mat_mult L (xyz p1) (inv_ref_frame input_sr)))
           in if crs_equiv
              then (True, apply_to (Ogr this)
                      (if mat_equiv then p2 else set_vec p2 (mat_mult L (xyz p2) (ref_frame this))))
              else case oct L (handle input_sr) (handle this) of
                None \<Rightarrow> (False, p2)
              | Some xform \<Rightarrow>
                  (let (ok, v) = xform (xyz p2);
                       p3 = set_vec p2 v;
                       p4 = (if mat_equiv then p3 else set_vec p3 (mat_mult L (xyz p3) (ref_frame this)))
                   in (ok, if ok then apply_to (Ogr this) p4 else p4))))"

definition ogr_transform :: "'m lib \<Rightarrow> 'm ogr_srs \<Rightarrow> 'm srs geopoint \<Rightarrow> 'm srs geopoint" where
  "ogr_transform L this input =
     (case ogr_transform_in_place L this input of
        (True, p) \<Rightarrow> p
      | (False, _) \<Rightarrow> geopoint_invalid)"

text \<open>\<open>GeoPoint::getAbsolute\<close>, of a point with a reference.\<close>

definition get_absolute :: "'m lib \<Rightarrow> 'm srs \<Rightarrow> 'm srs geopoint \<Rightarrow> 'm srs geopoint" where
  "get_absolute L s p =
     point_of_vec (mat_mult L (xyz p) (get_inv_frame s))
       (Some (clone_with_frame L s (mat_identity L)))"

text \<open>
  \<open>GeocentricSpatialReference::transformInPlace( GeoPoint )\<close> always succeeds; on a point without
  a reference it dereferences null (\<open>None\<close>).
\<close>

definition geocentric_transform_in_place ::
  "'m lib \<Rightarrow> nat \<Rightarrow> 'm ogr_srs \<Rightarrow> 'm \<Rightarrow> 'm \<Rightarrow> 'm srs geopoint \<Rightarrow> 'm srs geopoint option" where
  "geocentric_transform_in_place L i b f ifr input =
     (case spatial_ref input of
        None \<Rightarrow> None
      | Some input_srs \<Rightarrow>
          (let p1 = (if mat_is_identity L (get_frame input_srs) then input
                     else get_absolute L input_srs input);
               input_geog = (if is_geographic input_srs then p1
                             else ogr_transform L (get_geographic_srs L input_srs) p1);
               pt = lat_long_to_geocentric (deg_to_rad L) (ell b) (xyz input_geog);
               pt' = (if mat_is_identity L f then pt else mat_mult L pt f)
           in Some (point_of_vec pt' (Some (Geocentric i b f ifr)))))"

text \<open>
  The virtual \<open>transform( GeoPoint )\<close>. In the geometry code its argument is never without a
  reference when the target is geocentric: extents test the points they transform first.
\<close>

fun srs_transform :: "'m lib \<Rightarrow> 'm srs \<Rightarrow> 'm srs geopoint \<Rightarrow> 'm srs geopoint" where
  "srs_transform L (Ogr g) p = ogr_transform L g p"
| "srs_transform L (Geocentric i b f ifr) p =
     (case geocentric_transform_in_place L i b f ifr p of
        None \<Rightarrow> geopoint_invalid | Some q \<Rightarrow> q)"

definition ogr_vt :: "'m lib \<Rightarrow> 'm srs srs_vt" where
  "ogr_vt L = \<lparr>vt_transform = srs_transform L, vt_equivalent_to = equivalent_to\<rparr>"

section \<open>The provider keeps the laws of the interface\<close>

definition srs_usable :: "'m srs \<Rightarrow> bool" where
  "srs_usable s = (case s of Ogr g \<Rightarrow> handle g \<noteq> None | Geocentric _ _ _ _ \<Rightarrow> False)"

lemma ellipsoid_equivalent_refl [simp]: "ellipsoid_equivalent e e"
  by (simp add: ellipsoid_equivalent_def)

lemma test_equivalence_self [simp]: "test_equivalence o1 o1 = (True, True)"
  by (simp add: test_equivalence_def)

lemma point_of_vec_srs [simp]: "spatial_ref (point_of_vec v s) = s"
  by (simp add: point_of_vec_def split: prod.splits)

lemma ogr_transform_in_place_srs:
  "ogr_transform_in_place L this p = (True, q) \<Longrightarrow> spatial_ref q = Some (Ogr this)"
  by (auto simp: ogr_transform_in_place_def apply_to_def Let_def
      split: option.splits prod.splits if_splits srs.splits)

lemma ogr_transform_in_place_self:
  assumes "handle this \<noteq> None" and "point_valid p" and "spatial_ref p = Some (Ogr this)"
  shows "ogr_transform_in_place L this p = (True, p)"
  using assms by (simp add: ogr_transform_in_place_def apply_to_def)

lemma srs_transform_srs:
  assumes "point_valid (srs_transform L s p)"
  shows "spatial_ref (srs_transform L s p) = Some s"
proof (cases s)
  case (Ogr o1)
  with assms show ?thesis
    by (auto simp: ogr_transform_def dest: ogr_transform_in_place_srs split: prod.splits bool.splits)
next
  case (Geocentric i b f ifr)
  with assms show ?thesis
    by (auto simp: geocentric_transform_in_place_def Let_def split: option.splits)
qed

lemma srs_transform_same:
  assumes "srs_usable s" and "point_valid p" and "spatial_ref p = Some s"
  shows "srs_transform L s p = p"
proof (cases s)
  case (Ogr o1)
  with assms show ?thesis
    by (simp add: ogr_transform_def ogr_transform_in_place_self srs_usable_def)
qed (use assms in \<open>simp add: srs_usable_def\<close>)

interpretation ogr: srs_interface "ogr_vt L" srs_usable for L
  by unfold_locales (simp_all add: ogr_vt_def srs_transform_srs srs_transform_same)

end
