(* ===== verification/Feature.thy ===== *)
theory Feature
  imports Geom_Utils Attribute Ogr_Srs
begin

text \<open>
  \<^verbatim>\<open>src/osgGIS/Feature.cpp\<close>, \<^verbatim>\<open>src/osgGIS/SimpleFeature.cpp\<close> and \<^verbatim>\<open>src/osgGIS/OGR_Feature.cpp\<close>:
  a feature is a list of shapes with a cached extent and attributes. The OGR library is a record
  of functions on handles, where \<open>None\<close> is a null handle. A feature read from OGR keeps the
  attributes of the store beside those a user sets.
\<close>

record 's feature =
  foid :: int
  fshapes :: "'s geoshape list"
  fextent :: "'s geoextent"
  user_attrs :: attr_table
  store_attrs :: attr_table
  store_attrs_loaded :: bool

section \<open>Simple features\<close>

definition simple_feature :: "'s feature" where
  "simple_feature =
     \<lparr>foid = -1, fshapes = [], fextent = ext_default, user_attrs = [], store_attrs = [],
      store_attrs_loaded = True\<rparr>"

text \<open>The writable accessor drops the extent; \<open>g\<close> is what the caller does to the list.\<close>

definition modify_shapes :: "'s feature \<Rightarrow> ('s geoshape list \<Rightarrow> 's geoshape list) \<Rightarrow> 's feature" where
  "modify_shapes f g = f\<lparr>fextent := ext_invalid, fshapes := g (fshapes f)\<rparr>"

text \<open>The loop of \<open>getExtent\<close> after its first round; it fills the cache of each shape too.\<close>

fun extent_loop ::
  "'s srs_vt \<Rightarrow> 's geoextent \<Rightarrow> 's geoshape list \<Rightarrow> 's geoextent \<times> 's geoshape list" where
  "extent_loop V e [] = (e, [])"
| "extent_loop V e (sh # shs) =
     (case get_extent V sh of (e1, sh1) \<Rightarrow>
        case extent_loop V (expand_to_include_extent V e e1) shs of (e2, shs2) \<Rightarrow> (e2, sh1 # shs2))"

definition feature_get_extent :: "'s srs_vt \<Rightarrow> 's feature \<Rightarrow> 's geoextent \<times> 's feature" where
  "feature_get_extent V f =
     (if \<not> is_valid (fextent f) then
        (case fshapes f of
           [] \<Rightarrow> (ext_invalid, f\<lparr>fextent := ext_invalid\<rparr>)
         | sh # shs \<Rightarrow>
             (case get_extent V sh of (e0, sh0) \<Rightarrow>
                case extent_loop V e0 shs of (e, shs') \<Rightarrow>
                  (e, f\<lparr>fextent := e, fshapes := sh0 # shs'\<rparr>)))
      else (fextent f, f))"

section \<open>Operations common to all features\<close>

definition has_shape_data :: "'s srs_vt \<Rightarrow> 's feature \<Rightarrow> bool" where
  "has_shape_data V f = is_valid (fst (feature_get_extent V f))"

definition get_shape_dim :: "'s feature \<Rightarrow> nat" where
  "get_shape_dim f =
     (case fshapes f of
        [] \<Rightarrow> 2
      | sh # _ \<Rightarrow> (case parts sh of
          [] \<Rightarrow> 2
        | part # _ \<Rightarrow> (case part of [] \<Rightarrow> 2 | p # _ \<Rightarrow> dim p)))"

text \<open>
  The area of each part without regard to its winding, holes counted as well; shapes that are not
  projected are first taken to the equal-area reference by \<open>to_cea\<close>. A shape with no spatial
  reference is dereferenced.
\<close>

definition part_areas :: "'s srs_vt \<Rightarrow> 's geopoint list list \<Rightarrow> real" where
  "part_areas V ps = foldl (\<lambda>a p. a + \<bar>polygon_area_2d V p\<bar>) 0 ps"

fun feature_area_loop :: "'s srs_vt \<Rightarrow> ('s \<Rightarrow> bool) \<Rightarrow> ('s geoshape \<Rightarrow> 's geoshape) \<Rightarrow>
    's geoshape list \<Rightarrow> real \<Rightarrow> real option" where
  "feature_area_loop V proj to_cea [] a = Some a"
| "feature_area_loop V proj to_cea (sh # shs) a =
     (case srs sh of
        None \<Rightarrow> None
      | Some s \<Rightarrow> feature_area_loop V proj to_cea shs
          (a + part_areas V (parts (if \<not> proj s then to_cea sh else sh))))"

definition feature_get_area :: "'s srs_vt \<Rightarrow> ('s \<Rightarrow> bool) \<Rightarrow> ('s geoshape \<Rightarrow> 's geoshape) \<Rightarrow>
    's feature \<Rightarrow> real option" where
  "feature_get_area V proj to_cea f = feature_area_loop V proj to_cea (fshapes f) 0"

text \<open>\<open>wind\<close> of \<^verbatim>\<open>FilterGraph.cpp\<close>; only a polygon feature has its shapes opened for writing.\<close>

definition wind :: "'s srs_vt \<Rightarrow> 's feature \<Rightarrow> 's feature" where
  "wind V f =
     (if feature_shape_type (fshapes f) = shape_type.TYPE_POLYGON
      then modify_shapes f (map (wind_shape V)) else f)"

section \<open>Features of OGR\<close>

datatype wkb_type =
    wkbPoint | wkbPoint25D | wkbMultiPoint | wkbMultiPoint25D
  | wkbLineString | wkbLineString25D | wkbMultiLineString | wkbMultiLineString25D
  | wkbPolygon | wkbPolygon25D | wkbMultiPolygon | wkbMultiPolygon25D | wkbOther

datatype ogr_field_type = OFTInteger | OFTReal | OFTString | OFTOther

record 'h ogr_api =
  f_fid :: "'h \<Rightarrow> int"
  f_geometry :: "'h \<Rightarrow> 'h option"
  g_type :: "'h \<Rightarrow> wkb_type"
  g_dim :: "'h \<Rightarrow> int"
  g_count :: "'h option \<Rightarrow> nat"
  g_ref :: "'h option \<Rightarrow> nat \<Rightarrow> 'h option"
  g_point_count :: "'h option \<Rightarrow> nat"
  g_point :: "'h option \<Rightarrow> nat \<Rightarrow> real \<times> real \<times> real"
  f_field_count :: "'h \<Rightarrow> nat"
  fld_name :: "'h \<Rightarrow> nat \<Rightarrow> string"
  fld_type :: "'h \<Rightarrow> nat \<Rightarrow> ogr_field_type"
  fld_int :: "'h \<Rightarrow> nat \<Rightarrow> int"
  fld_real :: "'h \<Rightarrow> nat \<Rightarrow> real"
  fld_string :: "'h \<Rightarrow> nat \<Rightarrow> string"
  fld_width :: "'h \<Rightarrow> nat \<Rightarrow> int"
  fld_just :: "'h \<Rightarrow> nat \<Rightarrow> int"
  fld_prec :: "'h \<Rightarrow> nat \<Rightarrow> int"

text \<open>The shape type of a geometry, and \<open>None\<close> for one that is not supported.\<close>

definition shape_type_of_wkb :: "wkb_type \<Rightarrow> shape_type option" where
  "shape_type_of_wkb t =
     (if t \<in> {wkbLineString, wkbLineString25D, wkbMultiLineString, wkbMultiLineString25D}
      then Some shape_type.TYPE_LINE
      else if t \<in> {wkbMultiPoint, wkbMultiPoint25D, wkbPoint, wkbPoint25D}
      then Some shape_type.TYPE_POINT
      else if t \<in> {wkbMultiPolygon, wkbMultiPolygon25D, wkbPolygon, wkbPolygon25D}
      then Some shape_type.TYPE_POLYGON
      else None)"

text \<open>The points come in reverse: \<open>part[j]\<close> is point \<open>num_points - 1 - j\<close>.\<close>

definition decode_part :: "'h ogr_api \<Rightarrow> 'h option \<Rightarrow> 's geoshape \<Rightarrow> int \<Rightarrow> 's geoshape" where
  "decode_part A h sh d =
     add_part sh (map (\<lambda>v. case g_point A h v of (x, y, z) \<Rightarrow>
                        (if d = 2 then geopoint_2d x y (srs sh) else geopoint_3d x y z (srs sh)))
                   (rev [0 ..< g_point_count A h]))"

definition decode_shape ::
  "'h ogr_api \<Rightarrow> 's option \<Rightarrow> 'h option \<Rightarrow> int \<Rightarrow> shape_type \<Rightarrow> 's geoshape" where
  "decode_shape A sr h d t =
     (let sh = shape_new t sr in
      if g_count A h = 0 then decode_part A h sh d
      else foldl (\<lambda>sh p. case g_ref A h p of
                           None \<Rightarrow> sh | Some q \<Rightarrow> decode_part A (Some q) sh d)
             sh [0 ..< g_count A h])"

definition load_shape :: "'s srs_vt \<Rightarrow> 's feature \<Rightarrow> 's geoshape \<Rightarrow> 's feature" where
  "load_shape V f sh =
     (if length (parts sh) > 0
      then f\<lparr>fshapes := fshapes f @ [sh],
             fextent := expand_to_include_extent V (fextent f) (fst (get_extent V sh))\<rparr>
      else f)"

text \<open>
  Store attributes keyed by lower-case field name; fields of other types are left out, since their
  attribute stays invalid. \<open>gb\<close> is what uninitialised members hold.
\<close>

definition field_attr :: "'h ogr_api \<Rightarrow> attribute \<Rightarrow> 'h \<Rightarrow> nat \<Rightarrow> attribute option" where
  "field_attr A gb h i =
     (let lkey = to_lower (fld_name A h i) in
      case fld_type A h i of
        OFTInteger \<Rightarrow> Some (attr_int gb lkey (fld_int A h i))
      | OFTReal \<Rightarrow> Some (attr_double gb lkey (fld_real A h i))
      | OFTString \<Rightarrow> Some (attr_string gb lkey (fld_string A h i))
      | OFTOther \<Rightarrow> None)"

definition load_attributes ::
  "'h ogr_api \<Rightarrow> attribute \<Rightarrow> 'h option \<Rightarrow> 's feature \<Rightarrow> 's feature" where
  "load_attributes A gb fh f =
     (case fh of
        None \<Rightarrow> f
      | Some h \<Rightarrow>
          f\<lparr>store_attrs :=
              foldl (\<lambda>t i. case field_attr A gb h i of
                             None \<Rightarrow> t | Some a \<Rightarrow> smap_put (to_lower (fld_name A h i)) a t)
                [] [0 ..< f_field_count A h]\<rparr>)\<lparr>store_attrs_loaded := True\<rparr>"

text \<open>An unsupported type returns before the attributes are loaded.\<close>

definition load ::
  "'h ogr_api \<Rightarrow> 's srs_vt \<Rightarrow> attribute \<Rightarrow> 's option \<Rightarrow> 'h \<Rightarrow> 's feature \<Rightarrow> 's feature" where
  "load A V gb sr h f0 =
     (let f = f0\<lparr>foid := f_fid A h\<rparr> in
      case f_geometry A h of
        None \<Rightarrow> load_attributes A gb (Some h) f
      | Some g \<Rightarrow>
          (case shape_type_of_wkb (g_type A g) of
             None \<Rightarrow> f
           | Some t \<Rightarrow>
               (let d = g_dim A g; multi_shape = g_type A g \<in> {wkbMultiPolygon, wkbMultiPolygon25D}
                in load_attributes A gb (Some h)
                     (if \<not> multi_shape then load_shape V f (decode_shape A sr (Some g) d t)
                      else foldl (\<lambda>f n. load_shape V f
                                          (decode_shape A sr (g_ref A (Some g) n) d t))
                             f [0 ..< g_count A (Some g)]))))"

text \<open>
  The constructor; \<open>oid0\<close> and \<open>loaded0\<close> are the indeterminate members it leaves unset.
\<close>

definition ogr_feature :: "'h ogr_api \<Rightarrow> 's srs_vt \<Rightarrow> attribute \<Rightarrow> int \<Rightarrow> bool \<Rightarrow> 'h option \<Rightarrow>
    's option \<Rightarrow> 's feature" where
  "ogr_feature A V gb oid0 loaded0 fh sr =
     (let f = \<lparr>foid = oid0, fshapes = [], fextent = ext_default, user_attrs = [],
               store_attrs = [], store_attrs_loaded = loaded0\<rparr>
      in case fh of None \<Rightarrow> f | Some h \<Rightarrow> load A V gb sr h f)"

definition ogr_get_attribute :: "attribute \<Rightarrow> 's feature \<Rightarrow> string \<Rightarrow> attribute" where
  "ogr_get_attribute gb f key =
     (let lkey = to_lower key in
      case map_of (user_attrs f) lkey of
        Some a \<Rightarrow> a
      | None \<Rightarrow> (case map_of (store_attrs f) lkey of Some a \<Rightarrow> a | None \<Rightarrow> attr_invalid gb))"

definition merged_attrs :: "'s feature \<Rightarrow> attr_table" where
  "merged_attrs f =
     foldl (\<lambda>t (k, a). smap_put k a t) (foldl (\<lambda>t (k, a). smap_put k a t) [] (store_attrs f))
       (user_attrs f)"

definition ogr_get_attributes ::
  "'h ogr_api \<Rightarrow> attribute \<Rightarrow> 'h option \<Rightarrow> 's feature \<Rightarrow> attribute list \<times> 's feature" where
  "ogr_get_attributes A gb fh f =
     (let f1 = (if \<not> store_attrs_loaded f then load_attributes A gb fh f else f)
      in (map snd (merged_attrs f1), f1))"

section \<open>Facts on features\<close>

lemma simple_feature_has_shape_data: "has_shape_data V simple_feature"
  by (simp add: has_shape_data_def feature_get_extent_def simple_feature_def ext_default_def)

lemma no_shapes_no_data:
  "\<not> has_shape_data V (modify_shapes f (\<lambda>_. []))"
  by (simp add: has_shape_data_def feature_get_extent_def modify_shapes_def invalid_unusable)

lemma extent_loop_Cons:
  "fst (extent_loop V e (sh # shs)) =
     fst (extent_loop V (expand_to_include_extent V e (fst (get_extent V sh))) shs)"
  by (simp add: case_prod_unfold)

lemma expand_extent_invalid: "\<not> is_valid e \<Longrightarrow> \<not> is_valid (expand_to_include_extent V e f)"
  by (simp add: expand_to_include_extent_def expand_to_include_point_def)

lemma extent_loop_invalid: "\<not> is_valid e \<Longrightarrow> \<not> is_valid (fst (extent_loop V e shs))"
proof (induction shs arbitrary: e)
  case (Cons sh shs)
  show ?case unfolding extent_loop_Cons by (intro Cons.IH expand_extent_invalid Cons.prems)
qed simp

text \<open>What a feature whose extent was dropped computes: its first shape, then the others.\<close>

lemma feature_get_extent_dropped:
  "fshapes f = sh # shs \<Longrightarrow> \<not> is_valid (fextent f) \<Longrightarrow>
     fst (feature_get_extent V f) = fst (extent_loop V (fst (get_extent V sh)) shs)"
  by (simp add: feature_get_extent_def case_prod_unfold)

lemma get_extent_no_points:
  assumes "cache_ok V sh" and "\<forall>p \<in> set (concat (parts sh)). \<not> point_valid p"
  shows "fst (get_extent V sh) = ext_invalid"
proof -
  have "filter point_valid (concat (parts sh)) = []" using assms(2) by (simp add: filter_empty_conv)
  then show ?thesis
    using get_extent_cache_ok(2) [OF assms(1)] by (simp only: compute_extent_points list.case)
qed

text \<open>A first shape without a valid point hides all the others.\<close>

lemma first_shape_hides:
  assumes "cache_ok V sh" and "\<forall>p \<in> set (concat (parts sh)). \<not> point_valid p"
    and "fshapes f = sh # shs" and "\<not> is_valid (fextent f)"
  shows "\<not> has_shape_data V f"
  unfolding has_shape_data_def feature_get_extent_dropped [OF assms(3,4)]
    get_extent_no_points [OF assms(1,2)]
  by (rule extent_loop_invalid) (rule invalid_unusable)

text \<open>A shape whose points are all in one reference.\<close>

definition shape_in :: "'s srs_vt \<Rightarrow> 's \<Rightarrow> 's geoshape \<Rightarrow> bool" where
  "shape_in V s sh \<longleftrightarrow> cache_ok V sh \<and>
     (\<forall>p \<in> set (concat (parts sh)). point_valid p \<longrightarrow> spatial_ref p = Some s)"

lemma box_of_corners:
  "pt_xy (sw f) \<in> ext_box g \<Longrightarrow> pt_xy (ne f) \<in> ext_box g \<Longrightarrow> ext_box f \<subseteq> ext_box g"
  unfolding ext_box_def pt_xy_def by (rule subsetI) (auto split: prod.splits)

context srs_interface begin

lemma expand_extent_same:
  assumes "ext_wf s e" and "ext_wf s f" and "usable s"
  shows "ext_wf s (expand_to_include_extent V e f)"
    "ext_box e \<subseteq> ext_box (expand_to_include_extent V e f)"
    "ext_box f \<subseteq> ext_box (expand_to_include_extent V e f)"
proof -
  note e = ext_wfD [OF assms(1)] and f = ext_wfD [OF assms(2)]
  let ?e1 = "expand_to_include_point V e (sw f)"
  let ?e2 = "expand_to_include_point V ?e1 (ne f)"
  have eq: "expand_to_include_extent V e f = ?e2"
    using e(2) f(1,2) ext_wf_observe(2) [OF assms(2)] by (simp only: expand_to_include_extent_def) simp
  have wf1: "ext_wf s ?e1" using assms(1) by (rule expand_point_wf)
  show "ext_wf s (expand_to_include_extent V e f)"
    using assms(1) f(2) by (rule expand_extent_wf)
  show "ext_box e \<subseteq> ext_box (expand_to_include_extent V e f)"
    unfolding eq using expand_point_box_mono [OF assms(1)] expand_point_box_mono [OF wf1]
    by (rule order_trans)
  have tr: "vt_transform V s (sw f) = sw f" "vt_transform V s (ne f) = ne f"
    by (rule transform_same [OF assms(3) f(3) f(5)], rule transform_same [OF assms(3) f(4) f(6)])
  have "pt_xy (sw f) \<in> ext_box ?e1"
    using expand_point_box_in [OF assms(1), of "sw f" V] f(3) tr(1) by simp
  then have "pt_xy (sw f) \<in> ext_box ?e2" using expand_point_box_mono [OF wf1, of V "ne f"] by blast
  moreover have "pt_xy (ne f) \<in> ext_box ?e2"
    using expand_point_box_in [OF wf1, of "ne f" V] f(4) tr(2) by simp
  ultimately show "ext_box f \<subseteq> ext_box (expand_to_include_extent V e f)"
    unfolding eq by (rule box_of_corners)
qed

lemma extent_loop_covers:
  assumes "usable s" and "\<forall>sh \<in> set shs. shape_in V s sh" and "ext_wf s e"
  shows "ext_wf s (fst (extent_loop V e shs)) \<and> ext_box e \<subseteq> ext_box (fst (extent_loop V e shs)) \<and>
    (\<forall>sh \<in> set shs. \<forall>p \<in> set (concat (parts sh)). point_valid p \<longrightarrow>
       pt_xy p \<in> ext_box (fst (extent_loop V e shs)))"
  using assms(2,3)
proof (induction shs arbitrary: e)
  case (Cons sh shs)
  let ?f = "fst (get_extent V sh)"
  let ?e = "expand_to_include_extent V e ?f"
  have sh: "cache_ok V sh" "\<forall>p \<in> set (concat (parts sh)). point_valid p \<longrightarrow> spatial_ref p = Some s"
    using Cons.prems(1) by (simp_all add: shape_in_def)
  have step: "ext_wf s ?e \<and> ext_box e \<subseteq> ext_box ?e \<and>
    (\<forall>p \<in> set (concat (parts sh)). point_valid p \<longrightarrow> pt_xy p \<in> ext_box ?e)"
  proof (cases "\<exists>p \<in> set (concat (parts sh)). point_valid p")
    case True
    then have wf: "ext_wf s ?f" and cov: "\<forall>p \<in> set (concat (parts sh)). point_valid p \<longrightarrow> pt_xy p \<in> ext_box ?f"
      using shape_extent_covers [OF sh(1) assms(1) sh(2)] by blast+
    show ?thesis using expand_extent_same [OF Cons.prems(2) wf assms(1)] cov by blast
  next
    case False
    then have "?f = ext_invalid" using get_extent_no_points [OF sh(1)] by blast
    then have "?e = e" by (simp add: expand_to_include_extent_def invalid_unusable)
    with False Cons.prems(2) show ?thesis by simp
  qed
  have "\<forall>sh \<in> set shs. shape_in V s sh" using Cons.prems(1) by simp
  note IH = Cons.IH [OF this conjunct1 [OF step]]
  show ?case unfolding extent_loop_Cons using IH step by auto
qed simp

lemma feature_extent_covers:
  assumes "usable s" and "fshapes f = sh # shs" and "\<not> is_valid (fextent f)"
    and "\<forall>x \<in> set (fshapes f). shape_in V s x"
    and "\<exists>p \<in> set (concat (parts sh)). point_valid p"
    and "x \<in> set (fshapes f)" "p \<in> set (concat (parts x))" "point_valid p"
  shows "has_shape_data V f \<and> pt_xy p \<in> ext_box (fst (feature_get_extent V f))"
proof -
  have sh: "cache_ok V sh" "\<forall>p \<in> set (concat (parts sh)). point_valid p \<longrightarrow> spatial_ref p = Some s"
    using assms(2,4) by (simp_all add: shape_in_def)
  from assms(5) obtain q where q: "q \<in> set (concat (parts sh))" "point_valid q" by blast
  note cov = shape_extent_covers [OF sh(1) assms(1) sh(2)]
  have wf: "ext_wf s (fst (get_extent V sh))" using cov [OF q] by blast
  have "\<forall>y \<in> set shs. shape_in V s y" using assms(2,4) by simp
  note loop = extent_loop_covers [OF assms(1) this wf]
  have "pt_xy p \<in> ext_box (fst (feature_get_extent V f))"
    unfolding feature_get_extent_dropped [OF assms(2,3)]
  proof (cases "x = sh")
    case True
    with cov [of p] assms(7,8) loop
    show "pt_xy p \<in> ext_box (fst (extent_loop V (fst (get_extent V sh)) shs))" by blast
  next
    case False
    then have "x \<in> set shs" using assms(2,6) by simp
    with loop assms(7,8)
    show "pt_xy p \<in> ext_box (fst (extent_loop V (fst (get_extent V sh)) shs))" by blast
  qed
  moreover have "has_shape_data V f"
    unfolding has_shape_data_def feature_get_extent_dropped [OF assms(2,3)] using loop by blast
  ultimately show ?thesis by blast
qed

end

section \<open>Attributes of OGR features\<close>

lemma smap_put_all:
  "smap_sorted t \<Longrightarrow> smap_sorted (foldl (\<lambda>t (k, a). smap_put k a t) t kvs) \<and>
     map_of (foldl (\<lambda>t (k, a). smap_put k a t) t kvs) k =
       (case map_of (rev kvs) k of Some a \<Rightarrow> Some a | None \<Rightarrow> map_of t k)"
proof (induction kvs arbitrary: t)
  case (Cons kv kvs)
  obtain k' a where kv: "kv = (k', a)" by (cases kv)
  show ?case
    using Cons.IH [of "smap_put k' a t"] Cons.prems
    by (auto simp: kv smap_sorted_put map_of_smap_put map_add_def split: option.splits)
qed simp

lemma smap_distinct: "smap_sorted m \<Longrightarrow> distinct (map fst m)"
  by (induction m) (auto simp: smap_sorted_def)

lemma map_of_rev_sorted: "smap_sorted m \<Longrightarrow> map_of (rev m) = map_of m"
  using smap_distinct by (metis map_of_eqI map_of_inject_set distinct_rev rev_map set_rev)

lemma merged_attrs_lookup:
  assumes "smap_sorted (store_attrs f)" and "smap_sorted (user_attrs f)"
  shows "smap_sorted (merged_attrs f)"
    "map_of (merged_attrs f) k =
       (case map_of (user_attrs f) k of Some a \<Rightarrow> Some a | None \<Rightarrow> map_of (store_attrs f) k)"
  using smap_put_all [of "[]" "store_attrs f"]
    smap_put_all [of "foldl (\<lambda>t (k, a). smap_put k a t) [] (store_attrs f)" "user_attrs f"]
  by (auto simp: merged_attrs_def map_of_rev_sorted [OF assms(1)] map_of_rev_sorted [OF assms(2)]
      split: option.splits)

end
