(* ===== verification/Property.thy ===== *)
theory Property
  imports Strings_Util
begin

text \<open>
  \<^verbatim>\<open>src/osgGIS/Property.cpp\<close>: named values carried as text, and the list of them that
  filters, resources and environments hold. Names are normalised by turning dashes into
  underscores. The constructors and readers of floating-point numbers, vectors and matrices go
  through stream formatting of doubles and are not modelled; a reading of an integer that
  \<open>atoi\<close> leaves undefined is \<open>None\<close>. The type parameter is that of referenced objects.
\<close>

record 'r property =
  pname :: string
  pvalue :: string
  pvalid :: bool
  pref :: "'r option"

definition normalize :: "string \<Rightarrow> string" where
  "normalize s = replace_char (CHR ''-'') (CHR ''_'') s"

definition prop_invalid :: "'r property" where
  "prop_invalid = \<lparr>pname = [], pvalue = [], pvalid = False, pref = None\<rparr>"

definition prop_string :: "string \<Rightarrow> string \<Rightarrow> 'r property" where
  "prop_string n v = \<lparr>pname = normalize n, pvalue = v, pvalid = True, pref = None\<rparr>"

definition prop_int :: "string \<Rightarrow> int \<Rightarrow> 'r property" where
  "prop_int n v = \<lparr>pname = normalize n, pvalue = show_int v, pvalid = True, pref = None\<rparr>"

definition prop_bool :: "string \<Rightarrow> bool \<Rightarrow> 'r property" where
  "prop_bool n v =
     \<lparr>pname = normalize n, pvalue = (if v then ''true'' else ''false''), pvalid = True, pref = None\<rparr>"

definition prop_ref :: "string \<Rightarrow> 'r option \<Rightarrow> 'r property" where
  "prop_ref n r = \<lparr>pname = normalize n, pvalue = [], pvalid = True, pref = r\<rparr>"

definition get_int_value :: "'r property \<Rightarrow> int \<Rightarrow> int option" where
  "get_int_value p d = (if length (pvalue p) > 0 then atoi (pvalue p) else Some d)"

text \<open>The default is a parameter of the function that its body does not use.\<close>

definition get_bool_value :: "'r property \<Rightarrow> bool \<Rightarrow> bool" where
  "get_bool_value p d =
     (let temp = to_lower (pvalue p)
      in if temp = ''true'' \<or> temp = ''yes'' \<or> temp = ''on'' then True else False)"

definition prop_as_int :: "'r property \<Rightarrow> int option" where
  "prop_as_int p = get_int_value p 0"

definition prop_as_bool :: "'r property \<Rightarrow> bool" where
  "prop_as_bool p = get_bool_value p False"

section \<open>Lists of properties\<close>

text \<open>Every reader scans the list for the first property of the normalised name.\<close>

fun find_property :: "'r property list \<Rightarrow> string \<Rightarrow> 'r property option" where
  "find_property [] nkey = None"
| "find_property (p # ps) nkey = (if pname p = nkey then Some p else find_property ps nkey)"

definition props_exists :: "'r property list \<Rightarrow> string \<Rightarrow> bool" where
  "props_exists ps key = (case find_property ps (normalize key) of None \<Rightarrow> False | Some _ \<Rightarrow> True)"

definition props_get_int :: "'r property list \<Rightarrow> string \<Rightarrow> int \<Rightarrow> int option" where
  "props_get_int ps key d =
     (case find_property ps (normalize key) of None \<Rightarrow> Some d | Some p \<Rightarrow> get_int_value p d)"

definition props_get_bool :: "'r property list \<Rightarrow> string \<Rightarrow> bool \<Rightarrow> bool" where
  "props_get_bool ps key d =
     (case find_property ps (normalize key) of None \<Rightarrow> d | Some p \<Rightarrow> get_bool_value p d)"

definition props_get_value :: "'r property list \<Rightarrow> string \<Rightarrow> string \<Rightarrow> string" where
  "props_get_value ps key d =
     (case find_property ps (normalize key) of None \<Rightarrow> d | Some p \<Rightarrow> pvalue p)"

definition props_get_ref :: "'r property list \<Rightarrow> string \<Rightarrow> 'r option" where
  "props_get_ref ps key =
     (case find_property ps (normalize key) of None \<Rightarrow> None | Some p \<Rightarrow> pref p)"

fun remove_first :: "string \<Rightarrow> 'r property list \<Rightarrow> 'r property list" where
  "remove_first nkey [] = []"
| "remove_first nkey (p # ps) = (if pname p = nkey then ps else p # remove_first nkey ps)"

definition props_remove :: "'r property list \<Rightarrow> string \<Rightarrow> 'r property list" where
  "props_remove ps key = remove_first (normalize key) ps"

definition props_set :: "'r property list \<Rightarrow> 'r property \<Rightarrow> 'r property list" where
  "props_set ps p = props_remove ps (pname p) @ [p]"

definition props_get :: "'r property list \<Rightarrow> string \<Rightarrow> 'r property" where
  "props_get ps key =
     (case find_property ps (normalize key) of None \<Rightarrow> prop_invalid | Some p \<Rightarrow> p)"

section \<open>Facts\<close>

lemma normalize_idem [simp]: "normalize (normalize s) = normalize s"
  by (simp add: normalize_def replace_char_idem)

lemma prop_int_roundtrip: "in_int_range i \<Longrightarrow> get_int_value (prop_int n i) d = Some i"
  by (simp add: get_int_value_def prop_int_def atoi_show_int show_int_nonempty)

lemma prop_bool_roundtrip: "get_bool_value (prop_bool n b) d = b"
  by (simp add: get_bool_value_def prop_bool_def to_lower_def lower_char_def Let_def)

lemma get_bool_value_default: "get_bool_value p d = get_bool_value p d'"
  by (simp add: get_bool_value_def)

lemma get_bool_value_empty: "pvalue p = [] \<Longrightarrow> \<not> get_bool_value p d"
  by (simp add: get_bool_value_def to_lower_def)

text \<open>
  A list whose names are normalised and distinct behaves as a map; \<open>set\<close> keeps it so when the
  stored property has a normalised name, as every constructor makes it. With duplicates (the
  list is a public vector that callers also append to), \<open>set\<close> removes only the first.
\<close>

definition props_ok :: "'r property list \<Rightarrow> bool" where
  "props_ok ps \<longleftrightarrow> distinct (map pname ps)"

lemma find_property_None: "find_property ps k = None \<longleftrightarrow> k \<notin> pname ` set ps"
  by (induction ps) auto

lemma find_property_append:
  "find_property (ps @ qs) k =
     (case find_property ps k of None \<Rightarrow> find_property qs k | Some p \<Rightarrow> Some p)"
  by (induction ps) auto

lemma set_remove_first: "set (remove_first k ps) \<subseteq> set ps"
  by (induction ps) auto

lemma names_remove_first:
  "distinct (map pname ps) \<Longrightarrow> pname ` set (remove_first k ps) = pname ` set ps - {k}"
  by (induction ps) (auto, metis image_eqI)

lemma find_remove_first:
  "distinct (map pname ps) \<Longrightarrow>
     find_property (remove_first k ps) k' = (if k = k' then None else find_property ps k')"
  by (induction ps) (auto simp: find_property_None)

lemma distinct_remove_first: "distinct (map pname ps) \<Longrightarrow> distinct (map pname (remove_first k ps))"
proof (induction ps)
  case (Cons p ps)
  then show ?case using set_remove_first [of k ps] by auto
qed simp

text \<open>Every property built by a constructor has a normalised name.\<close>

definition prop_normal :: "'r property \<Rightarrow> bool" where
  "prop_normal p \<longleftrightarrow> normalize (pname p) = pname p"

lemma constructors_normal:
  "prop_normal (prop_string n v)" "prop_normal (prop_int n i)" "prop_normal (prop_bool n b)"
  "prop_normal (prop_ref n r)"
  by (simp_all add: prop_normal_def prop_string_def prop_int_def prop_bool_def prop_ref_def)

lemma props_set_ok:
  "props_ok ps \<Longrightarrow> prop_normal p \<Longrightarrow> props_ok (props_set ps p)"
  by (simp add: prop_normal_def props_ok_def props_set_def props_remove_def distinct_remove_first names_remove_first)

lemma find_props_set:
  "props_ok ps \<Longrightarrow> prop_normal p \<Longrightarrow>
     find_property (props_set ps p) k = (if k = pname p then Some p else find_property ps k)"
  by (auto simp: prop_normal_def props_ok_def props_set_def props_remove_def find_property_append find_remove_first
      split: option.splits)

definition props_lookup :: "'r property list \<Rightarrow> string \<Rightarrow> 'r property option" where
  "props_lookup ps key = find_property ps (normalize key)"

interpretation props: named_store normalize pname props_lookup props_set prop_normal props_ok
  by unfold_locales (simp_all add: props_lookup_def find_props_set props_set_ok prop_normal_def)

lemma props_get_lookup:
  "props_get ps key = (case props_lookup ps key of None \<Rightarrow> prop_invalid | Some p \<Rightarrow> p)"
  by (simp add: props_get_def props_lookup_def)

lemma props_exists_lookup: "props_exists ps key \<longleftrightarrow> props_lookup ps key \<noteq> None"
  by (simp add: props_exists_def props_lookup_def split: option.splits)

lemma props_remove_lookup:
  "props_ok ps \<Longrightarrow>
     props_lookup (props_remove ps key) key' =
       (if normalize key = normalize key' then None else props_lookup ps key')"
  by (simp add: props_lookup_def props_remove_def props_ok_def find_remove_first)

lemma props_remove_ok: "props_ok ps \<Longrightarrow> props_ok (props_remove ps key)"
  by (simp add: props_ok_def props_remove_def distinct_remove_first)

end
