(* ===== verification/Filter_Env.thy ===== *)
theory Filter_Env
  imports Feature Property
begin

text \<open>
  \<^verbatim>\<open>src/osgGIS/FilterEnv.cpp\<close>: the environment that travels with the data through a filter
  graph. Objects it only refers to (the session, terrain, script engine, caches and reports) are
  values of the type parameter \<open>'o\<close>.
\<close>

record ('s, 'o) filter_env =
  env_session :: "'o option"
  in_srs :: "'s option"
  out_srs :: "'s option"
  feature_extent :: "'s geoextent"
  cell_extent :: "'s geoextent"
  terrain_node :: "'o option"
  terrain_srs :: "'s option"
  terrain_read_cb :: "'o option"
  script_engine :: "'o option"
  env_props :: "'o property list"
  optimizer_hints :: 'o
  resource_cache :: 'o
  env_report :: 'o

definition env_new :: "'o \<Rightarrow> 'o \<Rightarrow> 'o \<Rightarrow> 'o option \<Rightarrow> ('s, 'o) filter_env" where
  "env_new new_hints new_cache new_report s =
     \<lparr>env_session = s, in_srs = None, out_srs = None, feature_extent = ext_infinite,
      cell_extent = ext_infinite, terrain_node = None, terrain_srs = None, terrain_read_cb = None,
      script_engine = None, env_props = [], optimizer_hints = new_hints,
      resource_cache = new_cache, env_report = new_report\<rparr>"

definition env_clone :: "('s, 'o) filter_env \<Rightarrow> ('s, 'o) filter_env" where
  "env_clone rhs =
     \<lparr>env_session = env_session rhs, in_srs = in_srs rhs, out_srs = out_srs rhs,
      feature_extent = feature_extent rhs, cell_extent = cell_extent rhs,
      terrain_node = terrain_node rhs, terrain_srs = terrain_srs rhs,
      terrain_read_cb = terrain_read_cb rhs, script_engine = script_engine rhs,
      env_props = env_props rhs, optimizer_hints = optimizer_hints rhs,
      resource_cache = resource_cache rhs, env_report = env_report rhs\<rparr>"

definition set_input_srs :: "('s, 'o) filter_env \<Rightarrow> 's option \<Rightarrow> ('s, 'o) filter_env" where
  "set_input_srs e s = e\<lparr>in_srs := s\<rparr>"

definition set_output_srs :: "('s, 'o) filter_env \<Rightarrow> 's option \<Rightarrow> ('s, 'o) filter_env" where
  "set_output_srs e s = e\<lparr>out_srs := s\<rparr>"

definition advance :: "('s, 'o) filter_env \<Rightarrow> ('s, 'o) filter_env" where
  "advance e = set_output_srs (set_input_srs (env_clone e) (out_srs e)) (out_srs e)"

definition set_extent :: "('s, 'o) filter_env \<Rightarrow> 's geoextent \<Rightarrow> ('s, 'o) filter_env" where
  "set_extent e x =
     (let e1 = e\<lparr>feature_extent := x\<rparr>
      in if is_infinite (cell_extent e1) then e1\<lparr>cell_extent := x\<rparr> else e1)"

definition set_terrain_node :: "('s, 'o) filter_env \<Rightarrow> 'o option \<Rightarrow> ('s, 'o) filter_env" where
  "set_terrain_node e n = e\<lparr>terrain_node := n\<rparr>"

definition set_terrain_srs :: "('s, 'o) filter_env \<Rightarrow> 's option \<Rightarrow> ('s, 'o) filter_env" where
  "set_terrain_srs e s = e\<lparr>terrain_srs := s\<rparr>"

definition set_terrain_read_callback ::
  "('s, 'o) filter_env \<Rightarrow> 'o option \<Rightarrow> ('s, 'o) filter_env" where
  "set_terrain_read_callback e v = e\<lparr>terrain_read_cb := v\<rparr>"

definition set_script_engine :: "('s, 'o) filter_env \<Rightarrow> 'o option \<Rightarrow> ('s, 'o) filter_env" where
  "set_script_engine e v = e\<lparr>script_engine := v\<rparr>"

text \<open>The script engine is made on first use, by the session.\<close>

definition get_script_engine ::
  "('o \<Rightarrow> 'o option) \<Rightarrow> ('s, 'o) filter_env \<Rightarrow> 'o option \<times> ('s, 'o) filter_env" where
  "get_script_engine create_engine e =
     (let e1 = (case (script_engine e, env_session e) of
                  (None, Some s) \<Rightarrow> e\<lparr>script_engine := create_engine s\<rparr>
                | _ \<Rightarrow> e)
      in (script_engine e1, e1))"

definition env_set_property :: "('s, 'o) filter_env \<Rightarrow> 'o property \<Rightarrow> ('s, 'o) filter_env" where
  "env_set_property e p = e\<lparr>env_props := props_set (env_props e) p\<rparr>"

definition env_get_property :: "('s, 'o) filter_env \<Rightarrow> string \<Rightarrow> 'o property" where
  "env_get_property e name = props_get (env_props e) name"

section \<open>Facts\<close>

lemma env_clone_id: "env_clone e = e"
  by (simp add: env_clone_def)

lemma advance_fields:
  "in_srs (advance e) = out_srs e" "out_srs (advance e) = out_srs e"
  "env_props (advance e) = env_props e" "feature_extent (advance e) = feature_extent e"
  "cell_extent (advance e) = cell_extent e"
  by (simp_all add: advance_def env_clone_id set_input_srs_def set_output_srs_def)

lemma advance_idem: "advance (advance e) = advance e"
  by (simp add: advance_def env_clone_id set_input_srs_def set_output_srs_def)

text \<open>The cell extent is the first finite extent that was set.\<close>

lemma set_extent_twice:
  "\<not> is_infinite x \<Longrightarrow> cell_extent (set_extent (set_extent e x) y) =
     (if is_infinite (cell_extent e) then x else cell_extent e)"
  by (simp add: set_extent_def)

end
