(* ===== verification/Feature_Cursor.thy ===== *)
theory Feature_Cursor
  imports Feature
begin

text \<open>
  \<^verbatim>\<open>src/osgGIS/FeatureCursor.cpp\<close>: a cursor walks a list of feature ids, fetches the features from
  a store ahead of time, keeps those that match and hands them out in order. The store is the
  function from ids to features, where a null result is \<open>None\<close>; a null store is \<open>None\<close> too.
\<close>

record 's cursor =
  oids :: "int list"
  store :: "(int \<Rightarrow> 's feature option) option"
  search_extent :: "'s geoextent"
  match_exactly :: bool
  prefetch_size :: nat
  iter :: nat
  prefetched_results :: "'s feature list"
  last_result :: "'s feature option"
  at_bof :: bool

section \<open>Operations\<close>

text \<open>
  One candidate of \<open>prefetch\<close>: whether it matches, and the feature afterwards, whose shapes are
  asked for through the accessor that drops its extent.
\<close>

definition fetch_match :: "'s srs_vt \<Rightarrow> 's cursor \<Rightarrow> 's feature \<Rightarrow> bool \<times> 's feature" where
  "fetch_match V c f =
     (if match_exactly c
      then (shapes_intersects V (fshapes f) (search_extent c), modify_shapes f (\<lambda>shs. shs))
      else (True, f))"

function fetch_loop :: "'s srs_vt \<Rightarrow> (int \<Rightarrow> 's feature option) \<Rightarrow> 's cursor \<Rightarrow> 's cursor" where
  "fetch_loop V get_feature c =
     (if length (prefetched_results c) < prefetch_size c \<and> iter c < length (oids c)
      then let c1 = c\<lparr>iter := iter c + 1\<rparr> in
        (case get_feature (oids c ! iter c) of
           None \<Rightarrow> fetch_loop V get_feature c1
         | Some f \<Rightarrow>
             fetch_loop V get_feature
               (if fst (fetch_match V c f)
                then c1\<lparr>prefetched_results := prefetched_results c @ [snd (fetch_match V c f)]\<rparr>
                else c1))
      else c)"
  by pat_completeness auto
termination
  by (relation "measure (\<lambda>(V, g, c). length (oids c) - iter c)") (auto simp: Let_def)

declare fetch_loop.simps [simp del]

definition prefetch :: "'s srs_vt \<Rightarrow> 's cursor \<Rightarrow> 's cursor" where
  "prefetch V c =
     (case store c of
        Some get_feature \<Rightarrow>
          (if length (prefetched_results c) \<le> 1 then fetch_loop V get_feature c else c)
      | None \<Rightarrow> c)"

definition reset :: "'s srs_vt \<Rightarrow> 's cursor \<Rightarrow> 's cursor" where
  "reset V c =
     (if \<not> at_bof c
      then (prefetch V (c\<lparr>iter := 0, prefetched_results := [], last_result := None\<rparr>))\<lparr>at_bof := True\<rparr>
      else c)"

text \<open>\<open>DEFAULT_PREFETCH_SIZE\<close> is 64.\<close>

definition cursor_new :: "'s srs_vt \<Rightarrow> int list \<Rightarrow> (int \<Rightarrow> 's feature option) option \<Rightarrow>
    's geoextent \<Rightarrow> bool \<Rightarrow> 's cursor" where
  "cursor_new V os st ex m =
     reset V \<lparr>oids = os, store = st, search_extent = ex, match_exactly = m, prefetch_size = 64,
             iter = 0, prefetched_results = [], last_result = None, at_bof = False\<rparr>"

text \<open>The empty cursor; \<open>m\<close> and \<open>n\<close> are the members its constructor leaves unset.\<close>

definition cursor_default :: "bool \<Rightarrow> nat \<Rightarrow> 's cursor" where
  "cursor_default m n =
     \<lparr>oids = [], store = None, search_extent = ext_default, match_exactly = m, prefetch_size = n,
      iter = 0, prefetched_results = [], last_result = None, at_bof = False\<rparr>"

definition set_prefetch_size :: "'s cursor \<Rightarrow> int \<Rightarrow> 's cursor" where
  "set_prefetch_size c value = c\<lparr>prefetch_size := nat (max value 1)\<rparr>"

definition has_next :: "'s cursor \<Rightarrow> bool" where
  "has_next c \<longleftrightarrow> store c \<noteq> None \<and> length (prefetched_results c) > 0"

definition cursor_next :: "'s srs_vt \<Rightarrow> 's cursor \<Rightarrow> 's feature option \<times> 's cursor" where
  "cursor_next V c =
     (let c0 = c\<lparr>at_bof := False\<rparr>;
          c1 = (case prefetched_results c0 of
                  [] \<Rightarrow> c0\<lparr>last_result := None\<rparr>
                | f # fs \<Rightarrow> c0\<lparr>last_result := Some f, prefetched_results := fs\<rparr>);
          c2 = prefetch V c1
      in (last_result c2, c2))"

section \<open>What a cursor still has to deliver\<close>

definition deliver ::
  "'s srs_vt \<Rightarrow> (int \<Rightarrow> 's feature option) \<Rightarrow> 's cursor \<Rightarrow> int \<Rightarrow> 's feature list" where
  "deliver V g c i =
     (case g i of
        None \<Rightarrow> []
      | Some f \<Rightarrow> if fst (fetch_match V c f) then [snd (fetch_match V c f)] else [])"

definition match_list ::
  "'s srs_vt \<Rightarrow> (int \<Rightarrow> 's feature option) \<Rightarrow> 's cursor \<Rightarrow> int list \<Rightarrow> 's feature list" where
  "match_list V g c os = concat (map (deliver V g c) os)"

definition pending :: "'s srs_vt \<Rightarrow> 's cursor \<Rightarrow> 's feature list" where
  "pending V c =
     (case store c of
        None \<Rightarrow> []
      | Some g \<Rightarrow> prefetched_results c @ match_list V g c (drop (iter c) (oids c)))"

definition cursor_ok :: "'s cursor \<Rightarrow> bool" where
  "cursor_ok c \<longleftrightarrow> store c \<noteq> None \<longrightarrow>
     1 \<le> prefetch_size c \<and> (prefetched_results c = [] \<longrightarrow> length (oids c) \<le> iter c)"

definition cursor_size :: "'s cursor \<Rightarrow> nat" where
  "cursor_size c = length (prefetched_results c) + (length (oids c) - iter c)"

lemma fetch_match_cong [simp]:
  "fetch_match V (c\<lparr>iter := i\<rparr>) f = fetch_match V c f"
  "fetch_match V (c\<lparr>prefetched_results := q\<rparr>) f = fetch_match V c f"
  "fetch_match V (c\<lparr>last_result := l\<rparr>) f = fetch_match V c f"
  "fetch_match V (c\<lparr>at_bof := b\<rparr>) f = fetch_match V c f"
  by (simp_all add: fetch_match_def)

lemma deliver_cong [simp]:
  "deliver V g (c\<lparr>iter := i\<rparr>) = deliver V g c"
  "deliver V g (c\<lparr>prefetched_results := q\<rparr>) = deliver V g c"
  "deliver V g (c\<lparr>last_result := l\<rparr>) = deliver V g c"
  "deliver V g (c\<lparr>at_bof := b\<rparr>) = deliver V g c"
  by (simp_all add: deliver_def fun_eq_iff split: option.split)

lemma match_list_cong [simp]:
  "match_list V g (c\<lparr>iter := i\<rparr>) os = match_list V g c os"
  "match_list V g (c\<lparr>prefetched_results := q\<rparr>) os = match_list V g c os"
  "match_list V g (c\<lparr>last_result := l\<rparr>) os = match_list V g c os"
  "match_list V g (c\<lparr>at_bof := b\<rparr>) os = match_list V g c os"
  by (simp_all add: match_list_def)

lemma match_list_Cons: "match_list V g c (i # os) = deliver V g c i @ match_list V g c os"
  by (simp add: match_list_def)

text \<open>One round of the loop.\<close>

lemma fetch_loop_step:
  "length (prefetched_results c) < prefetch_size c \<and> iter c < length (oids c) \<Longrightarrow>
     fetch_loop V g c = fetch_loop V g
       (c\<lparr>iter := iter c + 1,
          prefetched_results := prefetched_results c @ deliver V g c (oids c ! iter c)\<rparr>)"
  by (subst fetch_loop.simps) (auto simp: Let_def deliver_def split: option.split)

lemma fetch_loop_stop:
  "\<not> (length (prefetched_results c) < prefetch_size c \<and> iter c < length (oids c)) \<Longrightarrow>
     fetch_loop V g c = c"
  by (subst fetch_loop.simps) auto

lemma fetch_loop_rule:
  assumes "\<And>c. \<not> (length (prefetched_results c) < prefetch_size c \<and> iter c < length (oids c)) \<Longrightarrow> P c c"
    and "\<And>c r. length (prefetched_results c) < prefetch_size c \<Longrightarrow> iter c < length (oids c) \<Longrightarrow>
      P (c\<lparr>iter := iter c + 1,
          prefetched_results := prefetched_results c @ deliver V g c (oids c ! iter c)\<rparr>) r \<Longrightarrow> P c r"
  shows "P c (fetch_loop V g c)"
proof (induction "length (oids c) - iter c" arbitrary: c rule: less_induct)
  case less
  show ?case
  proof (cases "length (prefetched_results c) < prefetch_size c \<and> iter c < length (oids c)")
    case True
    show ?thesis
      unfolding fetch_loop_step [OF True] by (rule assms(2)) (use True in \<open>auto intro!: less\<close>)
  next
    case False
    then show ?thesis using assms(1) by (simp add: fetch_loop_stop)
  qed
qed

text \<open>
  The loop only moves features from the ids to the queue: it keeps everything else, delivers
  neither more nor less, and stops with a full queue or at the end of the ids.
\<close>

lemma fetch_loop_frame:
  "oids (fetch_loop V g c) = oids c \<and> store (fetch_loop V g c) = store c \<and>
   prefetch_size (fetch_loop V g c) = prefetch_size c \<and>
   last_result (fetch_loop V g c) = last_result c \<and> at_bof (fetch_loop V g c) = at_bof c"
  by (rule fetch_loop_rule) simp_all

lemma fetch_loop_pending:
  "prefetched_results (fetch_loop V g c) @
     match_list V g (fetch_loop V g c) (drop (iter (fetch_loop V g c)) (oids c)) =
   prefetched_results c @ match_list V g c (drop (iter c) (oids c))"
proof (rule fetch_loop_rule)
  fix c r :: "'a cursor"
  assume lt: "iter c < length (oids c)"
  then have d: "drop (iter c) (oids c) = oids c ! iter c # drop (Suc (iter c)) (oids c)"
    by (simp add: Cons_nth_drop_Suc)
  let ?c = "c\<lparr>iter := iter c + 1,
    prefetched_results := prefetched_results c @ deliver V g c (oids c ! iter c)\<rparr>"
  assume "prefetched_results r @ match_list V g r (drop (iter r) (oids ?c)) =
    prefetched_results ?c @ match_list V g ?c (drop (iter ?c) (oids ?c))"
  then show "prefetched_results r @ match_list V g r (drop (iter r) (oids c)) =
    prefetched_results c @ match_list V g c (drop (iter c) (oids c))"
    by (simp add: d match_list_Cons)
qed simp

lemma fetch_loop_done:
  "\<not> (length (prefetched_results (fetch_loop V g c)) < prefetch_size c \<and>
      iter (fetch_loop V g c) < length (oids c))"
  by (rule fetch_loop_rule) simp_all

lemma deliver_length: "length (deliver V g c i) \<le> 1"
  by (simp add: deliver_def split: option.split)

lemma fetch_loop_size: "cursor_size (fetch_loop V g c) \<le> cursor_size c"
proof (rule fetch_loop_rule)
  fix c r :: "'a cursor"
  assume "iter c < length (oids c)"
    and "cursor_size r \<le> cursor_size (c\<lparr>iter := iter c + 1,
      prefetched_results := prefetched_results c @ deliver V g c (oids c ! iter c)\<rparr>)"
  then show "cursor_size r \<le> cursor_size c"
    using deliver_length [of V g c "oids c ! iter c"] by (simp add: cursor_size_def)
qed simp

section \<open>The interface of a source of features\<close>

text \<open>
  What the loops over a cursor rely on: there is a next feature exactly when one is still to be
  delivered, and asking for it delivers the first of them and leaves the others.
\<close>

locale feature_source =
  fixes more :: "'c \<Rightarrow> bool" and pull :: "'c \<Rightarrow> 'f option \<times> 'c"
    and left :: "'c \<Rightarrow> 'f list" and invar :: "'c \<Rightarrow> bool"
  assumes more_left: "invar c \<Longrightarrow> more c \<longleftrightarrow> left c \<noteq> []"
    and pull_left: "invar c \<Longrightarrow> left c = f # fs \<Longrightarrow>
      fst (pull c) = Some f \<and> left (snd (pull c)) = fs"
    and pull_invar: "invar c \<Longrightarrow> invar (snd (pull c))"
begin

text \<open>Pulling once for each feature left delivers them all, in order.\<close>

fun pulls :: "nat \<Rightarrow> 'c \<Rightarrow> 'f option list \<times> 'c" where
  "pulls 0 c = ([], c)"
| "pulls (Suc n) c = (case pull c of (f, c1) \<Rightarrow> case pulls n c1 of (fs, c2) \<Rightarrow> (f # fs, c2))"

lemma pulls_left:
  "invar c \<Longrightarrow> fst (pulls (length (left c)) c) = map Some (left c) \<and>
     \<not> more (snd (pulls (length (left c)) c))"
proof (induction "left c" arbitrary: c)
  case Nil
  then have "left c = []" by simp
  then show ?case using more_left [OF Nil(2)] by simp
next
  case (Cons f fs)
  note l = Cons(2) [symmetric]
  obtain f' c1 where p: "pull c = (f', c1)" by (cases "pull c")
  have c1: "f' = Some f" "left c1 = fs" "invar c1"
    using pull_left [OF Cons(3) l] pull_invar [OF Cons(3)] by (simp_all add: p)
  with Cons(1) [of c1] show ?case by (simp add: l p case_prod_unfold)
qed

end

section \<open>The cursor as a source\<close>

lemma prefetch_ok: "store c \<noteq> None \<longrightarrow> 1 \<le> prefetch_size c \<Longrightarrow> cursor_ok (prefetch V c)"
  using fetch_loop_done [of V "the (store c)" c] fetch_loop_frame [of V "the (store c)" c]
  by (auto simp: prefetch_def cursor_ok_def split: option.split)

lemma prefetch_frame:
  "oids (prefetch V c) = oids c" "store (prefetch V c) = store c"
  "prefetch_size (prefetch V c) = prefetch_size c" "last_result (prefetch V c) = last_result c"
  by (simp_all add: prefetch_def fetch_loop_frame split: option.split)

lemma prefetch_pending: "pending V (prefetch V c) = pending V c"
  using fetch_loop_pending [of V "the (store c)" c] fetch_loop_frame [of V "the (store c)" c]
  by (auto simp: prefetch_def pending_def split: option.split)

lemma prefetch_size_le: "cursor_size (prefetch V c) \<le> cursor_size c"
  by (simp add: prefetch_def fetch_loop_size split: option.split)

lemma has_next_pending: "cursor_ok c \<Longrightarrow> has_next c \<longleftrightarrow> pending V c \<noteq> []"
  by (auto simp: has_next_def pending_def cursor_ok_def match_list_def split: option.split)

lemma next_delivers:
  assumes "cursor_ok c" and "pending V c = f # fs"
  shows "fst (cursor_next V c) = Some f \<and> pending V (snd (cursor_next V c)) = fs"
proof -
  have "has_next c" using assms has_next_pending [of c V] by simp
  then obtain q qs where q: "prefetched_results c = q # qs" and st: "store c \<noteq> None"
    by (auto simp: has_next_def neq_Nil_conv)
  let ?c1 = "c\<lparr>at_bof := False, last_result := Some q, prefetched_results := qs\<rparr>"
  have "cursor_next V c = (last_result (prefetch V ?c1), prefetch V ?c1)"
    by (simp add: cursor_next_def q Let_def)
  moreover have "pending V c = q # pending V ?c1" using st by (auto simp: pending_def q)
  ultimately show ?thesis using assms(2) by (simp add: prefetch_frame prefetch_pending)
qed

lemma next_ok: "cursor_ok c \<Longrightarrow> cursor_ok (snd (cursor_next V c))"
  unfolding cursor_next_def Let_def snd_conv
  by (rule prefetch_ok) (simp add: cursor_ok_def split: list.split)

lemma next_size: "has_next c \<Longrightarrow> cursor_size (snd (cursor_next V c)) < cursor_size c"
proof -
  assume "has_next c"
  then obtain q qs where q: "prefetched_results c = q # qs"
    by (auto simp: has_next_def neq_Nil_conv)
  let ?c1 = "c\<lparr>at_bof := False, last_result := Some q, prefetched_results := qs\<rparr>"
  have "snd (cursor_next V c) = prefetch V ?c1" by (simp add: cursor_next_def q Let_def)
  moreover have "cursor_size ?c1 < cursor_size c" by (simp add: cursor_size_def q)
  ultimately show ?thesis using prefetch_size_le [of V ?c1] by simp
qed

interpretation cursor_source: feature_source has_next "cursor_next V" "pending V" cursor_ok for V
  by unfold_locales (auto simp: has_next_pending next_delivers next_ok)

lemma reset_ok: "store c \<noteq> None \<longrightarrow> 1 \<le> prefetch_size c \<Longrightarrow> \<not> at_bof c \<Longrightarrow> cursor_ok (reset V c)"
  using prefetch_ok [of "c\<lparr>iter := 0, prefetched_results := [], last_result := None\<rparr>" V]
  by (simp add: reset_def cursor_ok_def)

lemma reset_pending:
  "\<not> at_bof c \<Longrightarrow> store c = Some g \<Longrightarrow> pending V (reset V c) = match_list V g c (oids c)"
  using prefetch_pending [of V "c\<lparr>iter := 0, prefetched_results := [], last_result := None\<rparr>"]
  by (simp add: reset_def pending_def prefetch_frame)

lemma cursor_new_ok: "cursor_ok (cursor_new V os st ex m)"
  by (simp add: cursor_new_def reset_ok)

text \<open>What a new cursor delivers: the stored features of the ids, filtered when asked to be exact.\<close>

definition deliverable ::
  "'s srs_vt \<Rightarrow> (int \<Rightarrow> 's feature option) \<Rightarrow> 's geoextent \<Rightarrow> bool \<Rightarrow> int list \<Rightarrow> 's feature list" where
  "deliverable V g ex m os =
     (let fs = List.map_filter g os in
      if m then map (\<lambda>f. modify_shapes f (\<lambda>shs. shs))
                 (filter (\<lambda>f. shapes_intersects V (fshapes f) ex) fs) else fs)"

lemma cursor_new_pending:
  "pending V (cursor_new V os (Some g) ex m) = deliverable V g ex m os"
proof -
  have *: "match_list V g c os = deliverable V g ex m os"
    if "match_exactly c = m" "search_extent c = ex" for c :: "'a cursor"
    by (induction os) (auto simp: match_list_def deliverable_def deliver_def fetch_match_def that
        List.map_filter_simps Let_def split: option.split)
  show ?thesis unfolding cursor_new_def
    by (subst reset_pending) (simp_all, rule *, simp_all)
qed

section \<open>Loops over a cursor\<close>

text \<open>
  \<open>while( go( b ) && cursor.hasNext() ) b = step( cursor.next(), b )\<close>. A cursor that has a next
  feature never delivers a null one (\<open>next_not_null\<close>).
\<close>

lemma next_not_null: "has_next c \<Longrightarrow> fst (cursor_next V c) \<noteq> None"
  by (auto simp: has_next_def cursor_next_def Let_def prefetch_frame neq_Nil_conv)

function cursor_fold ::
  "'s srs_vt \<Rightarrow> ('b \<Rightarrow> bool) \<Rightarrow> ('s feature \<Rightarrow> 'b \<Rightarrow> 'b) \<Rightarrow> 's cursor \<Rightarrow> 'b \<Rightarrow> 'b \<times> 's cursor" where
  "cursor_fold V go step c b =
     (if go b \<and> has_next c
      then cursor_fold V go step (snd (cursor_next V c)) (step (the (fst (cursor_next V c))) b)
      else (b, c))"
  by pat_completeness auto
termination
  by (relation "measure (\<lambda>(V, go, step, c, b). cursor_size c)") (auto simp: next_size)

declare cursor_fold.simps [simp del]

fun list_loop :: "('b \<Rightarrow> bool) \<Rightarrow> ('f \<Rightarrow> 'b \<Rightarrow> 'b) \<Rightarrow> 'f list \<Rightarrow> 'b \<Rightarrow> 'b" where
  "list_loop go step [] b = b"
| "list_loop go step (f # fs) b = (if go b then list_loop go step fs (step f b) else b)"

lemma list_loop_always: "list_loop (\<lambda>_. True) step fs b = foldl (\<lambda>b f. step f b) b fs"
  by (induction fs arbitrary: b) simp_all

lemma cursor_fold_pending:
  "cursor_ok c \<Longrightarrow> fst (cursor_fold V go step c b) = list_loop go step (pending V c) b"
proof (induction V go step c b rule: cursor_fold.induct)
  case (1 V go step c b)
  show ?case
  proof (cases "pending V c")
    case Nil
    then have "\<not> has_next c" using has_next_pending [OF 1(2), of V] by simp
    then show ?thesis by (subst cursor_fold.simps) (simp add: Nil)
  next
    case (Cons f fs)
    have n: "has_next c" "fst (cursor_next V c) = Some f" "pending V (snd (cursor_next V c)) = fs"
      using has_next_pending [OF 1(2), of V] next_delivers [OF 1(2) Cons] Cons by simp_all
    show ?thesis
      by (subst cursor_fold.simps) (use 1 n next_ok [OF 1(2), of V] in \<open>simp add: Cons\<close>)
  qed
qed

end
