(* ===== verification/Filter_State.thy ===== *)
theory Filter_State
  imports Filter_Env Feature_Cursor
begin

text \<open>
  The states through which data flows in a filter graph: \<^verbatim>\<open>src/osgGIS/FilterState.cpp\<close>,
  \<^verbatim>\<open>FeatureFilterState.cpp\<close>, \<^verbatim>\<open>FragmentFilterState.cpp\<close>, \<^verbatim>\<open>NodeFilterState.cpp\<close>,
  \<^verbatim>\<open>CollectionFilterState.cpp\<close>, and the base classes of the filters (\<^verbatim>\<open>FeatureFilter.cpp\<close>,
  \<^verbatim>\<open>FragmentFilter.cpp\<close>, \<^verbatim>\<open>NodeFilter.cpp\<close>, \<^verbatim>\<open>CollectionFilter.cpp\<close>). Fragments and nodes are
  objects of the scene graph and stay abstract (\<open>'d\<close>, \<open>'n\<close>). A state points at the next one, so a
  chain of states is a list. The virtual methods of the filters are the fields of \<open>filter_vt\<close>:
  each may change the environment it is given and the filter object itself (\<open>'x\<close>).
\<close>

section \<open>Filters\<close>

datatype filter_kind = FEATURE_FILTER | FRAGMENT_FILTER | NODE_FILTER | COLLECTION_FILTER

record 'x filt =
  fkind :: filter_kind
  fname :: string
  metering :: int
  group_property_name :: string
  own :: 'x

type_synonym ('s, 'o, 'x, 'a, 'b) virtual =
  "'x \<Rightarrow> 'a \<Rightarrow> ('s, 'o) filter_env \<Rightarrow> 'b \<times> ('s, 'o) filter_env \<times> 'x"

record ('s, 'd, 'n, 'o, 'x) filter_vt =
  feature_process :: "('s, 'o, 'x, 's feature list, 's feature list) virtual"
  fragment_process_features :: "('s, 'o, 'x, 's feature list, 'd list) virtual"
  fragment_process_fragments :: "('s, 'o, 'x, 'd list, 'd list) virtual"
  node_process_features :: "('s, 'o, 'x, 's feature list, 'n list) virtual"
  node_process_fragments :: "('s, 'o, 'x, 'd list, 'n list) virtual"
  node_process_nodes :: "('s, 'o, 'x, 'n list, 'n list) virtual"
  assign_feature :: "('s, 'o, 'x, 's feature, string) virtual"
  assign_fragment :: "('s, 'o, 'x, 'd, string) virtual"
  assign_node :: "('s, 'o, 'x, 'n, string) virtual"
  premeter_features :: "('s, 'o, 'x, 's feature list, 's feature list) virtual"
  premeter_fragments :: "('s, 'o, 'x, 'd list, 'd list) virtual"
  premeter_nodes :: "('s, 'o, 'x, 'n list, 'n list) virtual"

text \<open>
  The base classes process a list item by item and concatenate what comes out; a feature filter
  or a fragment filter passes one item on as it is unless overridden, a fragment filter makes
  nothing of a feature, and \<open>assign\<close> and \<open>preMeter\<close> do nothing.
\<close>

fun process_each :: "('s, 'o, 'x, 'a, 'b list) virtual \<Rightarrow> ('s, 'o, 'x, 'a list, 'b list) virtual" where
  "process_each process x [] e = ([], e, x)"
| "process_each process x (i # input) e =
     (case process x i e of (interim, e1, x1) \<Rightarrow>
        case process_each process x1 input e1 of (output, e2, x2) \<Rightarrow> (interim @ output, e2, x2))"

definition process_identity :: "('s, 'o, 'x, 'a, 'a list) virtual" where
  "process_identity x i e = ([i], e, x)"

definition process_nothing :: "('s, 'o, 'x, 'a, 'b list) virtual" where
  "process_nothing x i e = ([], e, x)"

definition assign_default :: "('s, 'o, 'x, 'a, string) virtual" where
  "assign_default x i e = ([], e, x)"

definition premeter_default :: "('s, 'o, 'x, 'a list, 'a list) virtual" where
  "premeter_default x is e = (is, e, x)"

text \<open>
  The table of a filter that overrides nothing; \<open>geode\<close> wraps a fragment in a node of the scene
  graph.
\<close>

definition base_classes :: "('d \<Rightarrow> 'n) \<Rightarrow> ('s, 'd, 'n, 'o, 'x) filter_vt" where
  "base_classes geode =
     \<lparr>feature_process = process_each process_identity,
      fragment_process_features = process_each process_nothing,
      fragment_process_fragments = process_each process_identity,
      node_process_features = process_each process_nothing,
      node_process_fragments = process_each (\<lambda>x d e. ([geode d], e, x)),
      node_process_nodes = process_each process_identity,
      assign_feature = assign_default, assign_fragment = assign_default,
      assign_node = assign_default, premeter_features = premeter_default,
      premeter_fragments = premeter_default, premeter_nodes = premeter_default\<rparr>"

text \<open>\<open>CollectionFilter::setProperty\<close>; \<open>None\<close> is an integer \<open>atoi\<close> leaves undefined.\<close>

definition collection_set_property :: "'x filt \<Rightarrow> 'r property \<Rightarrow> 'x filt option" where
  "collection_set_property f p =
     (if pname p = ''metering''
      then map_option (\<lambda>i. f\<lparr>metering := i\<rparr>) (get_int_value p 0)
      else if pname p = ''group_property'' then Some (f\<lparr>group_property_name := pvalue p\<rparr>)
      else Some f)"

definition collection_get_properties :: "'x filt \<Rightarrow> 'r property list" where
  "collection_get_properties f =
     (if metering f \<noteq> 0 then [prop_int ''metering'' (metering f)] else []) @
     (if group_property_name f \<noteq> [] then [prop_string ''group_property'' (group_property_name f)]
      else [])"

section \<open>States\<close>

datatype status = STATUS_NONE | STATUS_ERROR | STATUS_NODATA

text \<open>A result; the message is never set by a state.\<close>

record 'x state_result =
  status :: status
  res_filter :: "'x filt option"

definition result_new :: "'x state_result" where
  "result_new = \<lparr>status = STATUS_NONE, res_filter = None\<rparr>"

definition result_set :: "status \<Rightarrow> 'x filt option \<Rightarrow> 'x state_result" where
  "result_set s f = \<lparr>status = s, res_filter = f\<rparr>"

definition is_ok :: "'x state_result \<Rightarrow> bool" where
  "is_ok r \<longleftrightarrow> status r \<noteq> STATUS_ERROR"

definition has_data :: "'x state_result \<Rightarrow> bool" where
  "has_data r \<longleftrightarrow> is_ok r \<and> status r \<noteq> STATUS_NODATA"

record ('s, 'd, 'n, 'o, 'x) fstate =
  state_filter :: "'x filt"
  in_features :: "'s feature list"
  in_fragments :: "'d list"
  in_nodes :: "'n list"
  out_nodes :: "'n list"
  current_env :: "('s, 'o) filter_env option"

definition new_state :: "'x filt \<Rightarrow> ('s, 'd, 'n, 'o, 'x) fstate" where
  "new_state f =
     \<lparr>state_filter = f, in_features = [], in_fragments = [], in_nodes = [], out_nodes = [],
      current_env = None\<rparr>"

definition kind :: "('s, 'd, 'n, 'o, 'x) fstate \<Rightarrow> filter_kind" where
  "kind s = fkind (state_filter s)"

text \<open>\<open>appendState\<close> walks to the end of the chain.\<close>

fun append_state :: "'a list \<Rightarrow> 'a \<Rightarrow> 'a list" where
  "append_state [] t = [t]"
| "append_state (s # rest) t = s # append_state rest t"

datatype ('s, 'd, 'n) batch = Features "'s feature list" | Fragments "'d list" | Nodes "'n list"

fun batch_empty :: "('s, 'd, 'n) batch \<Rightarrow> bool" where
  "batch_empty (Features fs) = (fs = [])"
| "batch_empty (Fragments ds) = (ds = [])"
| "batch_empty (Nodes ns) = (ns = [])"

text \<open>
  A feature is taken when it has shape data; asking for that fills its cached extent. Fragments
  are pushed to fragment, node and collection states only, nodes to node and collection states.
\<close>

definition push_features :: "'s srs_vt \<Rightarrow> 's feature list \<Rightarrow>
    ('s, 'd, 'n, 'o, 'x) fstate \<Rightarrow> ('s, 'd, 'n, 'o, 'x) fstate" where
  "push_features V fs s =
     s\<lparr>in_features := in_features s @
        map (\<lambda>f. snd (feature_get_extent V f)) (filter (has_shape_data V) fs)\<rparr>"

definition feature_state_push :: "'s srs_vt \<Rightarrow> ('s, 'd, 'n) batch \<Rightarrow>
    ('s, 'd, 'n, 'o, 'x) fstate \<Rightarrow> ('s, 'd, 'n, 'o, 'x) fstate" where
  "feature_state_push V b s =
     (case b of Features fs \<Rightarrow> push_features V fs s | Fragments ds \<Rightarrow> s | Nodes ns \<Rightarrow> s)"

definition fragment_state_push :: "'s srs_vt \<Rightarrow> ('s, 'd, 'n) batch \<Rightarrow>
    ('s, 'd, 'n, 'o, 'x) fstate \<Rightarrow> ('s, 'd, 'n, 'o, 'x) fstate" where
  "fragment_state_push V b s =
     (case b of
        Features fs \<Rightarrow> push_features V fs s
      | Fragments ds \<Rightarrow> s\<lparr>in_fragments := in_fragments s @ ds\<rparr>
      | Nodes ns \<Rightarrow> s)"

definition node_state_push :: "'s srs_vt \<Rightarrow> ('s, 'd, 'n) batch \<Rightarrow>
    ('s, 'd, 'n, 'o, 'x) fstate \<Rightarrow> ('s, 'd, 'n, 'o, 'x) fstate" where
  "node_state_push V b s =
     (case b of
        Features fs \<Rightarrow> push_features V fs s
      | Fragments ds \<Rightarrow> s\<lparr>in_fragments := in_fragments s @ ds\<rparr>
      | Nodes ns \<Rightarrow> s\<lparr>in_nodes := in_nodes s @ ns\<rparr>)"

definition collection_state_push :: "'s srs_vt \<Rightarrow> ('s, 'd, 'n) batch \<Rightarrow>
    ('s, 'd, 'n, 'o, 'x) fstate \<Rightarrow> ('s, 'd, 'n, 'o, 'x) fstate" where
  "collection_state_push V b s =
     (case b of
        Features fs \<Rightarrow> push_features V fs s
      | Fragments ds \<Rightarrow> s\<lparr>in_fragments := in_fragments s @ ds\<rparr>
      | Nodes ns \<Rightarrow> s\<lparr>in_nodes := in_nodes s @ ns\<rparr>)"

definition push_batch :: "'s srs_vt \<Rightarrow> ('s, 'd, 'n) batch \<Rightarrow>
    ('s, 'd, 'n, 'o, 'x) fstate \<Rightarrow> ('s, 'd, 'n, 'o, 'x) fstate" where
  "push_batch V b s =
     (case kind s of
        FEATURE_FILTER \<Rightarrow> feature_state_push V b s
      | FRAGMENT_FILTER \<Rightarrow> fragment_state_push V b s
      | NODE_FILTER \<Rightarrow> node_state_push V b s
      | COLLECTION_FILTER \<Rightarrow> collection_state_push V b s)"

fun push_next :: "'s srs_vt \<Rightarrow> ('s, 'd, 'n) batch \<Rightarrow>
    ('s, 'd, 'n, 'o, 'x) fstate list \<Rightarrow> ('s, 'd, 'n, 'o, 'x) fstate list" where
  "push_next V b [] = []"
| "push_next V b (s # rest) = push_batch V b s # rest"

text \<open>What a state keeps after a filter ran on it: the filter object and the environment.\<close>

definition ran :: "('s, 'o) filter_env \<Rightarrow> 'x \<Rightarrow>
    ('s, 'd, 'n, 'o, 'x) fstate \<Rightarrow> ('s, 'd, 'n, 'o, 'x) fstate" where
  "ran e x s = s\<lparr>state_filter := (state_filter s)\<lparr>own := x\<rparr>, current_env := Some e\<rparr>"

text \<open>
  The filtering step of the four \<open>traverse\<close> methods, in the environment \<open>e\<close>: the output for the
  next state, the environment it is traversed in, and the state afterwards. \<open>next\<close> is whether
  there is a next state. A fragment state without one does nothing; a node state keeps its
  previous output when it has no input, and clears it once it is passed on; a collection state
  only remembers the environment.
\<close>

definition feature_state_step :: "('s, 'd, 'n, 'o, 'x) filter_vt \<Rightarrow> bool \<Rightarrow> ('s, 'o) filter_env \<Rightarrow>
    ('s, 'd, 'n, 'o, 'x) fstate \<Rightarrow>
    ('s, 'd, 'n) batch \<times> ('s, 'o) filter_env \<times> ('s, 'd, 'n, 'o, 'x) fstate" where
  "feature_state_step T next e s =
     (case feature_process T (own (state_filter s)) (in_features s) e of
        (out, e1, x1) \<Rightarrow> (Features out, e1, ran e1 x1 s))"

definition fragment_state_step :: "('s, 'd, 'n, 'o, 'x) filter_vt \<Rightarrow> bool \<Rightarrow> ('s, 'o) filter_env \<Rightarrow>
    ('s, 'd, 'n, 'o, 'x) fstate \<Rightarrow>
    ('s, 'd, 'n) batch \<times> ('s, 'o) filter_env \<times> ('s, 'd, 'n, 'o, 'x) fstate" where
  "fragment_state_step T next e s =
     (let x = own (state_filter s) in
      if next \<and> in_features s \<noteq> [] then
        (case fragment_process_features T x (in_features s) e of
           (out, e1, x1) \<Rightarrow> (Fragments out, e1, ran e1 x1 s))
      else if next \<and> in_fragments s \<noteq> [] then
        (case fragment_process_fragments T x (in_fragments s) e of
           (out, e1, x1) \<Rightarrow> (Fragments out, e1, ran e1 x1 s))
      else (Fragments [], e, ran e x s))"

definition node_state_step :: "('s, 'd, 'n, 'o, 'x) filter_vt \<Rightarrow> bool \<Rightarrow> ('s, 'o) filter_env \<Rightarrow>
    ('s, 'd, 'n, 'o, 'x) fstate \<Rightarrow>
    ('s, 'd, 'n) batch \<times> ('s, 'o) filter_env \<times> ('s, 'd, 'n, 'o, 'x) fstate" where
  "node_state_step T next e s =
     (let x = own (state_filter s) in
      case (if in_features s \<noteq> [] then node_process_features T x (in_features s) e
            else if in_fragments s \<noteq> [] then node_process_fragments T x (in_fragments s) e
            else if in_nodes s \<noteq> [] then node_process_nodes T x (in_nodes s) e
            else (out_nodes s, e, x)) of
        (out, e1, x1) \<Rightarrow> (Nodes out, e1, ran e1 x1 (s\<lparr>out_nodes := if next then [] else out\<rparr>)))"

definition collection_state_step :: "('s, 'd, 'n, 'o, 'x) filter_vt \<Rightarrow> bool \<Rightarrow> ('s, 'o) filter_env \<Rightarrow>
    ('s, 'd, 'n, 'o, 'x) fstate \<Rightarrow>
    ('s, 'd, 'n) batch \<times> ('s, 'o) filter_env \<times> ('s, 'd, 'n, 'o, 'x) fstate" where
  "collection_state_step T next e s = (Features [], e, ran e (own (state_filter s)) s)"

definition run_filter :: "('s, 'd, 'n, 'o, 'x) filter_vt \<Rightarrow> bool \<Rightarrow> ('s, 'o) filter_env \<Rightarrow>
    ('s, 'd, 'n, 'o, 'x) fstate \<Rightarrow>
    ('s, 'd, 'n) batch \<times> ('s, 'o) filter_env \<times> ('s, 'd, 'n, 'o, 'x) fstate" where
  "run_filter T next e s =
     (case kind s of
        FEATURE_FILTER \<Rightarrow> feature_state_step T next e s
      | FRAGMENT_FILTER \<Rightarrow> fragment_state_step T next e s
      | NODE_FILTER \<Rightarrow> node_state_step T next e s
      | COLLECTION_FILTER \<Rightarrow> collection_state_step T next e s)"

lemmas step_defs =
  feature_state_step_def fragment_state_step_def node_state_step_def collection_state_step_def

lemmas push_defs =
  feature_state_push_def fragment_state_push_def node_state_push_def collection_state_push_def

lemma push_batch_Features [simp]: "push_batch V (Features fs) s = push_features V fs s"
  by (simp add: push_batch_def push_defs split: filter_kind.split)

definition clear_inputs :: "('s, 'd, 'n, 'o, 'x) fstate \<Rightarrow> ('s, 'd, 'n, 'o, 'x) fstate" where
  "clear_inputs s = s\<lparr>in_features := [], in_fragments := [], in_nodes := []\<rparr>"

lemma length_push_next [simp]: "length (push_next V b rest) = length rest"
  by (cases rest) simp_all

text \<open>
  \<open>traverse\<close>: run the filter, hand its output to the next state and traverse that, and clear the
  input. With no output the chain is not followed and the result is \<open>STATUS_NODATA\<close>.
\<close>

function traverse :: "('s, 'd, 'n, 'o, 'x) filter_vt \<Rightarrow> 's srs_vt \<Rightarrow> ('s, 'o) filter_env \<Rightarrow>
    ('s, 'd, 'n, 'o, 'x) fstate list \<Rightarrow> 'x state_result \<times> ('s, 'd, 'n, 'o, 'x) fstate list" where
  "traverse T V in_env [] = (result_new, [])"
| "traverse T V in_env (s # rest) =
     (case run_filter T (rest \<noteq> []) (advance in_env) s of (out, e, s1) \<Rightarrow>
        if kind s = COLLECTION_FILTER then (result_new, s1 # rest)
        else if rest = [] then (result_new, [clear_inputs s1])
        else if batch_empty out
          then (result_set STATUS_NODATA (Some (state_filter s1)), clear_inputs s1 # rest)
        else (case traverse T V e (push_next V out rest) of
                (r, rest1) \<Rightarrow> (r, clear_inputs s1 # rest1)))"
  by pat_completeness auto
termination
  by (relation "measure (\<lambda>(T, V, e, ss). length ss)") auto

declare traverse.simps(2) [simp del]

section \<open>Facts on traversal\<close>

lemma process_each_identity: "process_each process_identity x xs e = (xs, e, x)"
  by (induction xs) (simp_all add: process_identity_def)

text \<open>Induction over a chain in the way \<open>traverse\<close> walks it.\<close>

lemma traverse_rule:
  assumes "\<And>e. P e [] (result_new, [])"
    and "\<And>e s rest out e1 s1. run_filter T (rest \<noteq> []) (advance e) s = (out, e1, s1) \<Longrightarrow>
      kind s = COLLECTION_FILTER \<Longrightarrow> P e (s # rest) (result_new, s1 # rest)"
    and "\<And>e s out e1 s1. run_filter T False (advance e) s = (out, e1, s1) \<Longrightarrow>
      kind s \<noteq> COLLECTION_FILTER \<Longrightarrow> P e [s] (result_new, [clear_inputs s1])"
    and "\<And>e s rest out e1 s1. run_filter T True (advance e) s = (out, e1, s1) \<Longrightarrow>
      kind s \<noteq> COLLECTION_FILTER \<Longrightarrow> rest \<noteq> [] \<Longrightarrow> batch_empty out \<Longrightarrow>
      P e (s # rest) (result_set STATUS_NODATA (Some (state_filter s1)), clear_inputs s1 # rest)"
    and "\<And>e s rest out e1 s1 r rest1. run_filter T True (advance e) s = (out, e1, s1) \<Longrightarrow>
      kind s \<noteq> COLLECTION_FILTER \<Longrightarrow> rest \<noteq> [] \<Longrightarrow> \<not> batch_empty out \<Longrightarrow>
      P e1 (push_next V out rest) (r, rest1) \<Longrightarrow> P e (s # rest) (r, clear_inputs s1 # rest1)"
  shows "P e ss (traverse T V e ss)"
proof (induction "length ss" arbitrary: e ss rule: less_induct)
  case less
  show ?case
  proof (cases ss)
    case Nil
    then show ?thesis using assms(1) by simp
  next
    case (Cons s rest)
    obtain out e1 s1 where run: "run_filter T (rest \<noteq> []) (advance e) s = (out, e1, s1)"
      by (cases "run_filter T (rest \<noteq> []) (advance e) s") auto
    show ?thesis
    proof (cases "kind s = COLLECTION_FILTER \<or> rest = [] \<or> batch_empty out")
      case True
      then show ?thesis
        using run assms(2) [OF run] assms(3) [of e s out e1 s1] assms(4) [of e s out e1 s1 rest]
        by (auto simp: Cons traverse.simps(2))
    next
      case False
      obtain r rest1 where t: "traverse T V e1 (push_next V out rest) = (r, rest1)"
        by (cases "traverse T V e1 (push_next V out rest)")
      have "P e1 (push_next V out rest) (r, rest1)"
        using less [of "push_next V out rest" e1] by (simp add: Cons t)
      then show ?thesis
        using run False assms(5) [of e s out e1 s1 rest r rest1]
        by (simp add: Cons traverse.simps(2) t)
    qed
  qed
qed

lemma traverse_length: "length (snd (traverse T V e ss)) = length ss"
  by (rule traverse_rule) simp_all

lemma traverse_never_error: "is_ok (fst (traverse T V e ss))"
  by (rule traverse_rule) (simp_all add: is_ok_def result_new_def result_set_def)

lemma kind_ran [simp]: "kind (ran e x s) = kind s"
  by (simp add: kind_def ran_def)

lemma ran_simps [simp]:
  "current_env (ran e x s) = Some e" "in_features (ran e x s) = in_features s"
  "in_fragments (ran e x s) = in_fragments s" "in_nodes (ran e x s) = in_nodes s"
  "out_nodes (ran e x s) = out_nodes s"
  by (simp_all add: ran_def)

lemma kind_clear_inputs [simp]: "kind (clear_inputs s) = kind s"
  by (simp add: kind_def clear_inputs_def)

lemma clear_inputs_simps [simp]:
  "current_env (clear_inputs s) = current_env s" "out_nodes (clear_inputs s) = out_nodes s"
  "in_features (clear_inputs s) = []" "in_fragments (clear_inputs s) = []"
  "in_nodes (clear_inputs s) = []"
  by (simp_all add: clear_inputs_def)

lemma kind_update_out [simp]: "kind (s\<lparr>out_nodes := ns\<rparr>) = kind s"
  by (simp add: kind_def)

lemma run_filter_frame:
  "run_filter T next e s = (out, e1, s1) \<Longrightarrow>
     kind s1 = kind s \<and> current_env s1 = Some e1 \<and> in_features s1 = in_features s \<and>
     in_fragments s1 = in_fragments s \<and> in_nodes s1 = in_nodes s"
  by (auto simp: run_filter_def step_defs Let_def split: filter_kind.splits prod.splits if_splits)

lemma push_batch_frame [simp]:
  "kind (push_batch V b s) = kind s" "current_env (push_batch V b s) = current_env s"
  "out_nodes (push_batch V b s) = out_nodes s"
  by (cases b; simp add: push_batch_def push_defs push_features_def kind_def split: filter_kind.split)+

lemma push_next_kinds [simp]: "map kind (push_next V b rest) = map kind rest"
  by (cases rest) simp_all

lemma traverse_kinds: "map kind (snd (traverse T V e ss)) = map kind ss"
  by (rule traverse_rule) (simp_all add: run_filter_frame)

text \<open>Only collection states hold data between traversals.\<close>

definition drained :: "('s, 'd, 'n, 'o, 'x) fstate \<Rightarrow> bool" where
  "drained s \<longleftrightarrow> kind s = COLLECTION_FILTER \<or>
     in_features s = [] \<and> in_fragments s = [] \<and> in_nodes s = []"

text \<open>A collection that holds data has an environment to process it in.\<close>

definition env_ready :: "('s, 'd, 'n, 'o, 'x) fstate \<Rightarrow> bool" where
  "env_ready s \<longleftrightarrow> in_features s = [] \<and> in_fragments s = [] \<and> in_nodes s = [] \<or>
     current_env s \<noteq> None"

lemma list_all_tl_push [simp]: "list_all P (tl (push_next V b rest)) = list_all P (tl rest)"
  by (cases rest) simp_all

text \<open>
  A property of single states that holds of a state whose input was cleared after a run, and of a
  collection that was traversed, holds of the whole chain after a traversal when it held of every
  state behind the first.
\<close>

lemma traverse_all:
  assumes cleared: "\<And>s. current_env s \<noteq> None \<Longrightarrow> P (clear_inputs s)"
    and coll: "\<And>s. kind s = COLLECTION_FILTER \<Longrightarrow> current_env s \<noteq> None \<Longrightarrow> P s"
  shows "list_all P (tl ss) \<Longrightarrow> list_all P (snd (traverse T V e ss))"
proof -
  have "list_all P (tl ss) \<longrightarrow> list_all P (snd (traverse T V e ss))"
  proof (rule traverse_rule [where V = V and
        P = "\<lambda>e ss res. list_all P (tl ss) \<longrightarrow> list_all P (snd res)"], goal_cases)
    case (2 e s rest out e1 s1)
    then show ?case using coll [of s1] run_filter_frame [OF 2(1)] by simp
  next
    case (3 e s out e1 s1)
    then show ?case using cleared [of s1] run_filter_frame [OF 3(1)] by simp
  next
    case (4 e s rest out e1 s1)
    then show ?case using cleared [of s1] run_filter_frame [OF 4(1)] by simp
  next
    case (5 e s rest out e1 s1 r rest1)
    have "list_all P rest \<longrightarrow> list_all P (tl rest)" by (cases rest) simp_all
    with 5 show ?case using cleared [of s1] run_filter_frame [OF 5(1)] by simp
  qed simp
  then show "list_all P (tl ss) \<Longrightarrow> ?thesis" by blast
qed

lemma traverse_drained:
  "list_all drained (tl ss) \<Longrightarrow> list_all drained (snd (traverse T V e ss))"
  by (rule traverse_all) (simp_all add: drained_def)

lemma traverse_env_ready:
  "list_all env_ready (tl ss) \<Longrightarrow> list_all env_ready (snd (traverse T V e ss))"
  by (rule traverse_all) (simp_all add: env_ready_def)

end
