(* ===== verification/Part_Filters.thy ===== *)
theory Part_Filters
  imports Filter_State "HOL-Library.Sublist"
begin

text \<open>
  The filters that rewrite the parts of each feature on their own:
  \<^verbatim>\<open>src/osgGIS/DecimateFilter.cpp\<close>, \<^verbatim>\<open>DensifyFilter.cpp\<close>, \<^verbatim>\<open>RemoveHolesFilter.cpp\<close>,
  \<^verbatim>\<open>ChangeShapeTypeFilter.cpp\<close>, and \<^verbatim>\<open>RecalculateExtentFilter.cpp\<close>, which only looks at extents.
\<close>

section \<open>Vectors\<close>

definition dist2 :: "'s geopoint \<Rightarrow> 's geopoint \<Rightarrow> real" where
  "dist2 a b = (px b - px a)\<^sup>2 + (py b - py a)\<^sup>2 + (pz b - pz a)\<^sup>2"

definition point_dist :: "'s geopoint \<Rightarrow> 's geopoint \<Rightarrow> real" where
  "point_dist a b = sqrt (dist2 a b)"

section \<open>Decimation\<close>

text \<open>The loop after the first point; \<open>l\<close> is the last point kept.\<close>

fun decimate_rest :: "real \<Rightarrow> 's geopoint \<Rightarrow> 's geopoint list \<Rightarrow> 's geopoint list" where
  "decimate_rest t2 l [] = []"
| "decimate_rest t2 l (p # ps) =
     (if dist2 l p > t2 then p # decimate_rest t2 p ps else decimate_rest t2 l ps)"

fun decimate_points :: "real \<Rightarrow> 's geopoint list \<Rightarrow> 's geopoint list" where
  "decimate_points t2 [] = []"
| "decimate_points t2 (p # ps) = p # decimate_rest t2 p ps"

text \<open>\<open>decimatePart\<close> appends to \<open>out\<close>.\<close>

definition decimate_part ::
  "real \<Rightarrow> nat \<Rightarrow> 's geopoint list \<Rightarrow> 's geopoint list list \<Rightarrow> 's geopoint list list" where
  "decimate_part threshold min_points ps out =
     (if length ps \<ge> min_points
      then let qs = decimate_points (threshold * threshold) ps
           in if length qs \<ge> min_points then out @ [qs] else out
      else out)"

definition min_points :: "shape_type \<Rightarrow> nat" where
  "min_points t = (if t = TYPE_POLYGON then 3 else if t = TYPE_LINE then 2 else 1)"

text \<open>
  One shape. The code tests the size of the old list of parts, which \<open>swap\<close> has put into the
  variable of the new one, so a shape that lost all its parts is kept.
\<close>

definition decimate_shape :: "real \<Rightarrow> 's geoshape \<Rightarrow> 's geoshape list" where
  "decimate_shape threshold sh =
     (let new_parts = foldl (\<lambda>out p. decimate_part threshold (min_points (shape_type sh)) p out) [] (parts sh);
          sh1 = modify_parts sh (\<lambda>_. new_parts)
      in if length (parts sh) > 0 then [sh1] else [])"

definition decimate_process :: "real \<Rightarrow> 's feature \<Rightarrow> 's feature list" where
  "decimate_process threshold f =
     (let f1 = modify_shapes f (\<lambda>shs. concat (map (decimate_shape threshold) shs))
      in if length (fshapes f1) > 0 then [f1] else [])"

section \<open>Densification\<close>

text \<open>The point inserted one threshold away from \<open>a\<close> on the way to \<open>b\<close>.\<close>

definition step_towards :: "real \<Rightarrow> 's geopoint \<Rightarrow> 's geopoint \<Rightarrow> 's geopoint" where
  "step_towards t a b =
     (let d = point_dist a b;
          x = px a + (px b - px a) / d * t;
          y = py a + (py b - py a) / d * t;
          z = pz a + (pz b - pz a) / d * t
      in if dim a = 2 then geopoint_2d x y (spatial_ref a) else geopoint_3d x y z (spatial_ref a))"

text \<open>
  The loop over a part from the point \<open>a\<close> on. It need not end: on the way from a flat point to
  one with a height the inserted points stay flat. An empty part is undefined: the loop runs to
  \<open>end() - 1\<close>.
\<close>

partial_function (option) densify_from ::
  "real \<Rightarrow> 's geopoint \<Rightarrow> 's geopoint list \<Rightarrow> 's geopoint list option" where
  "densify_from t a bs =
     (case bs of
        [] \<Rightarrow> Some [a]
      | b # rest \<Rightarrow>
          if point_dist a b > t then do { qs \<leftarrow> densify_from t (step_towards t a b) bs; Some (a # qs) }
          else do { qs \<leftarrow> densify_from t b rest; Some (a # qs) })"

definition densify_part :: "real \<Rightarrow> 's geopoint list \<Rightarrow> 's geopoint list option" where
  "densify_part t ps = (case ps of [] \<Rightarrow> None | a # bs \<Rightarrow> densify_from t a bs)"

fun map_opt :: "('a \<Rightarrow> 'b option) \<Rightarrow> 'a list \<Rightarrow> 'b list option" where
  "map_opt f [] = Some []"
| "map_opt f (x # xs) = do { y \<leftarrow> f x; ys \<leftarrow> map_opt f xs; Some (y # ys) }"

definition densify_shape :: "real \<Rightarrow> 's geoshape \<Rightarrow> 's geoshape option" where
  "densify_shape t sh =
     (if shape_type sh \<noteq> TYPE_POINT
      then do { ps \<leftarrow> map_opt (densify_part t) (parts sh); Some (modify_parts sh (\<lambda>_. ps)) }
      else Some sh)"

definition densify_process :: "real \<Rightarrow> 's feature \<Rightarrow> 's feature list option" where
  "densify_process t f =
     (if t > 0
      then do { shs \<leftarrow> map_opt (densify_shape t) (fshapes f); Some [modify_shapes f (\<lambda>_. shs)] }
      else Some [f])"

section \<open>Holes, shape types, extents\<close>

definition remove_holes_shape :: "'s srs_vt \<Rightarrow> 's geoshape \<Rightarrow> 's geoshape" where
  "remove_holes_shape V sh =
     (if shape_type sh = TYPE_POLYGON
      then modify_parts sh (filter (\<lambda>p. length p > 2 \<and> is_polygon_ccw V p)) else sh)"

definition remove_holes_process :: "'s srs_vt \<Rightarrow> 's feature \<Rightarrow> 's feature list" where
  "remove_holes_process V f = [modify_shapes f (map (remove_holes_shape V))]"

definition change_type_shape :: "shape_type \<Rightarrow> 's geoshape \<Rightarrow> 's geoshape" where
  "change_type_shape t sh =
     (let need_to_close = (shape_type sh = TYPE_POLYGON \<and> t = TYPE_LINE);
          sh1 = set_shape_type sh t
      in if need_to_close then modify_parts sh1 (map close_polygon) else sh1)"

definition change_type_process :: "shape_type \<Rightarrow> 's feature \<Rightarrow> 's feature list" where
  "change_type_process t f = [modify_shapes f (map (change_type_shape t))]"

definition shape_type_of_name :: "string \<Rightarrow> shape_type" where
  "shape_type_of_name v =
     (if v = ''point'' then TYPE_POINT else if v = ''line'' then TYPE_LINE
      else if v = ''polygon'' then TYPE_POLYGON else shape_type.TYPE_UNSPECIFIED)"

definition name_of_shape_type :: "shape_type \<Rightarrow> string" where
  "name_of_shape_type t =
     (if t = TYPE_POINT then ''point'' else if t = TYPE_LINE then ''line''
      else if t = TYPE_POLYGON then ''polygon'' else ''unspecified'')"

text \<open>\<open>RecalculateExtentFilter::preMeter\<close>: the extents of the features of a batch, together.\<close>

definition recalculated_extent :: "'s srs_vt \<Rightarrow> 's feature list \<Rightarrow> 's geoextent" where
  "recalculated_extent V fs =
     (case fs of
        [] \<Rightarrow> ext_default
      | f # rest \<Rightarrow> foldl (\<lambda>e g. expand_to_include_extent V e (fst (feature_get_extent V g)))
                     (fst (feature_get_extent V f)) rest)"

section \<open>What decimation keeps\<close>

lemma dist2_refl [simp]: "dist2 a a = 0"
  by (simp add: dist2_def)

lemma decimate_rest_subseq: "subseq (decimate_rest t2 l ps) ps"
  by (induction t2 l ps rule: decimate_rest.induct) auto

lemma decimate_subseq: "subseq (decimate_points t2 ps) ps"
  using decimate_rest_subseq by (cases ps) auto

lemma decimate_rest_spaced:
  "successively (\<lambda>a b. dist2 a b > t2) (l # decimate_rest t2 l ps)"
  by (induction t2 l ps rule: decimate_rest.induct) auto

lemma decimate_spaced: "successively (\<lambda>a b. dist2 a b > t2) (decimate_points t2 ps)"
  using decimate_rest_spaced by (cases ps) auto

lemma decimate_rest_near:
  "p \<in> set ps \<Longrightarrow> 0 \<le> t2 \<Longrightarrow> \<exists>q \<in> insert l (set (decimate_rest t2 l ps)). dist2 q p \<le> t2"
proof (induction t2 l ps rule: decimate_rest.induct)
  case (2 t2 l a ps)
  show ?case
  proof (cases "p = a")
    case True
    then show ?thesis using 2(4) by (cases "dist2 l a > t2") auto
  next
    case False
    then have "p \<in> set ps" using 2(3) by simp
    with 2(1,2,4) show ?thesis by (cases "dist2 l a > t2") auto
  qed
qed simp

lemma decimate_near: "p \<in> set ps \<Longrightarrow> 0 \<le> t2 \<Longrightarrow> \<exists>q \<in> set (decimate_points t2 ps). dist2 q p \<le> t2"
proof (cases ps)
  case (Cons a qs)
  assume "p \<in> set ps" "0 \<le> t2"
  then show ?thesis using decimate_rest_near [of p qs t2 a] Cons by (cases "p = a") auto
qed simp

text \<open>Decimating twice changes nothing more.\<close>

lemma decimate_rest_stable:
  "successively (\<lambda>a b. dist2 a b > t2) (l # ps) \<Longrightarrow> decimate_rest t2 l ps = ps"
  by (induction ps arbitrary: l) auto

lemma decimate_idem: "decimate_points t2 (decimate_points t2 ps) = decimate_points t2 ps"
  using decimate_rest_stable [OF decimate_rest_spaced] by (cases ps) auto

lemma decimate_parts:
  "foldl (\<lambda>out p. decimate_part t m p out) acc ps =
     acc @ filter (\<lambda>q. length q \<ge> m)
       (map (decimate_points (t * t)) (filter (\<lambda>p. length p \<ge> m) ps))"
  by (induction ps arbitrary: acc) (auto simp: decimate_part_def Let_def)

lemma dist2_gt: "0 \<le> t \<Longrightarrow> dist2 a b > t * t \<longleftrightarrow> point_dist a b > t"
  by (metis abs_of_nonneg not_le point_dist_def power2_eq_square real_le_lsqrt real_less_rsqrt
      real_sqrt_abs real_sqrt_le_iff)

text \<open>Every part of a decimated shape comes from one part of the shape.\<close>

lemma decimate_shape_parts:
  assumes "0 \<le> t" and "decimate_shape t sh = [sh']" and "q \<in> set (parts sh')"
  shows "\<exists>p \<in> set (parts sh). subseq q p \<and> successively (\<lambda>a b. point_dist a b > t) q \<and>
    (\<forall>x \<in> set p. \<exists>y \<in> set q. point_dist y x \<le> t) \<and> min_points (shape_type sh) \<le> length q"
proof -
  have "parts sh' = filter (\<lambda>q. length q \<ge> min_points (shape_type sh))
       (map (decimate_points (t * t)) (filter (\<lambda>p. length p \<ge> min_points (shape_type sh)) (parts sh)))"
    using assms(2) by (auto simp: decimate_shape_def Let_def decimate_parts modify_parts_def split: if_splits)
  with assms(3) obtain p where p: "p \<in> set (parts sh)" "q = decimate_points (t * t) p"
    "min_points (shape_type sh) \<le> length q" by auto
  have "successively (\<lambda>a b. point_dist a b > t) q"
    using decimate_spaced [of "t * t" p] by (simp add: p(2) flip: dist2_gt [OF assms(1)])
  moreover have "\<forall>x \<in> set p. \<exists>y \<in> set q. point_dist y x \<le> t"
  proof
    fix x assume "x \<in> set p"
    then obtain y where "y \<in> set q" "dist2 y x \<le> t * t"
      using decimate_near [of x p "t * t"] assms(1) p(2) by auto
    then show "\<exists>y \<in> set q. point_dist y x \<le> t" using dist2_gt [OF assms(1), of y x] by (auto simp: not_less)
  qed
  ultimately show ?thesis using p decimate_subseq by blast
qed

section \<open>What densification guarantees\<close>

lemma point_dist_nonneg [simp]: "0 \<le> point_dist a b"
  by (simp add: point_dist_def dist2_def)

text \<open>Points of one kind: all flat, or all with a height.\<close>

definition same_kind :: "'s geopoint \<Rightarrow> 's geopoint \<Rightarrow> bool" where
  "same_kind a b \<longleftrightarrow> (dim a = 2 \<and> dim b = 2 \<and> pz a = 0 \<and> pz b = 0) \<or> (dim a = 3 \<and> dim b = 3)"

lemma step_towards_dist:
  assumes "same_kind a b" and "0 < t" and "t < point_dist a b"
  shows "point_dist (step_towards t a b) b = point_dist a b - t"
    and "point_dist a (step_towards t a b) = t"
    and "same_kind (step_towards t a b) b"
proof -
  let ?d = "point_dist a b" and ?p = "step_towards t a b"
  have d: "0 < ?d" using assms by simp
  have d2: "?d * ?d = (px b - px a)\<^sup>2 + (py b - py a)\<^sup>2 + (pz b - pz a)\<^sup>2"
    by (simp add: point_dist_def dist2_def)
  define s where "s = t / ?d"
  have sd: "s * ?d = t" using d by (simp add: s_def)
  have x: "px ?p = px a + (px b - px a) * s" "py ?p = py a + (py b - py a) * s"
    "pz ?p = pz a + (pz b - pz a) * s"
    using assms(1) by (auto simp: step_towards_def Let_def same_kind_def s_def)
  have rem: "(v - (u + (v - u) * s))\<^sup>2 = (1 - s)\<^sup>2 * (v - u)\<^sup>2" for u v :: real
    by (simp add: power2_eq_square algebra_simps)
  have rem': "(u + (v - u) * s - u)\<^sup>2 = s\<^sup>2 * (v - u)\<^sup>2" for u v :: real
    by (simp add: power2_eq_square algebra_simps)
  have "dist2 ?p b = (1 - s)\<^sup>2 * (?d * ?d)"
    unfolding dist2_def x rem d2 by (simp only: distrib_left)
  also have "\<dots> = (?d - s * ?d)\<^sup>2" by (simp add: power2_eq_square algebra_simps)
  finally have "dist2 ?p b = (?d - t)\<^sup>2" unfolding sd .
  then show "point_dist ?p b = ?d - t" using assms(3) by (simp add: point_dist_def [of ?p])
  have "dist2 a ?p = s\<^sup>2 * (?d * ?d)"
    unfolding dist2_def x rem' d2 by (simp only: distrib_left)
  also have "\<dots> = (s * ?d)\<^sup>2" by (simp add: power2_eq_square)
  finally have "dist2 a ?p = t\<^sup>2" unfolding sd .
  then show "point_dist a ?p = t" using assms(2) by (simp add: point_dist_def [of _ ?p])
  show "same_kind ?p b" using assms(1) by (auto simp: step_towards_def Let_def same_kind_def)
qed

lemma same_kind_trans: "same_kind a b \<Longrightarrow> same_kind b c \<Longrightarrow> same_kind a c"
  by (auto simp: same_kind_def)

text \<open>
  On points of one kind the loop ends, keeps the points it was given, and leaves no gap wider than
  the threshold.
\<close>

lemma densify_from_ok:
  assumes "0 < t" and "\<forall>b \<in> set bs. same_kind a b"
  shows "\<exists>qs. densify_from t a bs = Some (a # qs) \<and> subseq bs qs \<and>
    successively (\<lambda>p q. point_dist p q \<le> t) (a # qs)"
  using assms(2)
proof (induction "(length bs, nat \<lceil>(if bs = [] then 0 else point_dist a (hd bs)) / t\<rceil>)" arbitrary: a bs
    rule: wf_induct_rule [OF wf_lex_prod [OF wf_less_than wf_less_than]])
  case 1
  show ?case
  proof (cases bs)
    case Nil
    then show ?thesis by (subst densify_from.simps) simp
  next
    case (Cons b rest)
    have k: "same_kind a b" using 1(2) Cons by simp
    show ?thesis
    proof (cases "point_dist a b > t")
      case True
      let ?p = "step_towards t a b"
      note p = step_towards_dist [OF k assms(1) True]
      have d: "point_dist ?p b / t = point_dist a b / t - 1"
        unfolding p(1) using assms(1) by (simp add: field_simps)
      have "\<lceil>point_dist ?p b / t\<rceil> < \<lceil>point_dist a b / t\<rceil>" "0 < \<lceil>point_dist a b / t\<rceil>"
        unfolding d using True assms(1) by (linarith, simp)
      then have "((length bs, nat \<lceil>(if bs = [] then 0 else point_dist ?p (hd bs)) / t\<rceil>),
          (length bs, nat \<lceil>(if bs = [] then 0 else point_dist a (hd bs)) / t\<rceil>)) \<in> less_than <*lex*> less_than"
        by (simp add: Cons)
      moreover have "\<forall>c \<in> set bs. same_kind ?p c"
        using 1(2) p(3) k by (auto simp: same_kind_def Cons)
      ultimately obtain qs where qs: "densify_from t ?p bs = Some (?p # qs)" "subseq bs qs"
        "successively (\<lambda>p q. point_dist p q \<le> t) (?p # qs)" using 1(1) by blast
      have "densify_from t a bs = Some (a # ?p # qs)"
        using qs(1) True by (subst densify_from.simps) (simp add: Cons)
      then show ?thesis using qs(2,3) p(2) by (intro exI [of _ "?p # qs"]) auto
    next
      case False
      have "((length rest, nat \<lceil>(if rest = [] then 0 else point_dist b (hd rest)) / t\<rceil>),
          (length bs, nat \<lceil>(if bs = [] then 0 else point_dist a (hd bs)) / t\<rceil>)) \<in> less_than <*lex*> less_than"
        by (simp add: Cons)
      moreover have "\<forall>c \<in> set rest. same_kind b c" using 1(2) k by (auto simp: same_kind_def Cons)
      ultimately obtain qs where qs: "densify_from t b rest = Some (b # qs)" "subseq rest qs"
        "successively (\<lambda>p q. point_dist p q \<le> t) (b # qs)" using 1(1) by blast
      have "densify_from t a bs = Some (a # b # qs)"
        using qs(1) False by (subst densify_from.simps) (simp add: Cons)
      then show ?thesis using qs(2,3) False Cons by (intro exI [of _ "b # qs"]) auto
    qed
  qed
qed

text \<open>A part whose points are all of the kind of the first one.\<close>

fun uniform_part :: "'s geopoint list \<Rightarrow> bool" where
  "uniform_part [] = False"
| "uniform_part (a # bs) = list_all (same_kind a) bs"

definition densified :: "real \<Rightarrow> 's geopoint list \<Rightarrow> 's geopoint list \<Rightarrow> bool" where
  "densified t p q \<longleftrightarrow> hd q = hd p \<and> subseq p q \<and> successively (\<lambda>a b. point_dist a b \<le> t) q"

lemma densify_part_ok: "0 < t \<Longrightarrow> uniform_part p \<Longrightarrow> \<exists>q. densify_part t p = Some q \<and> densified t p q"
  using densify_from_ok by (cases p) (fastforce simp: densify_part_def densified_def list_all_iff)+

lemma map_opt_all2:
  "(\<And>x. x \<in> set xs \<Longrightarrow> \<exists>y. f x = Some y \<and> R x y) \<Longrightarrow> \<exists>ys. map_opt f xs = Some ys \<and> list_all2 R xs ys"
proof (induction xs)
  case (Cons x xs)
  obtain y where "f x = Some y" "R x y" using Cons.prems [of x] by auto
  moreover obtain ys where "map_opt f xs = Some ys" "list_all2 R xs ys" using Cons by auto
  ultimately show ?case by auto
qed simp

lemma densify_shape_ok:
  assumes "0 < t" and "list_all uniform_part (parts sh)" and "shape_type sh \<noteq> TYPE_POINT"
  shows "\<exists>sh'. densify_shape t sh = Some sh' \<and> list_all2 (densified t) (parts sh) (parts sh')"
proof -
  obtain ps where "map_opt (densify_part t) (parts sh) = Some ps" "list_all2 (densified t) (parts sh) ps"
    using map_opt_all2 [of "parts sh" "densify_part t" "densified t"] densify_part_ok [OF assms(1)] assms(2)
    by (auto simp: list_all_iff)
  then show ?thesis using assms(3) by (simp add: densify_shape_def modify_parts_def)
qed

text \<open>
  On the way from a flat point to one with a height nothing is gained: the inserted points stay
  flat, so the distance never falls below the height.
\<close>

lemma step_towards_flat: "dim a = 2 \<Longrightarrow> pz (step_towards t a b) = 0 \<and> dim (step_towards t a b) = 2"
  by (simp add: step_towards_def Let_def)

end
