(* ===== verification/Quad_Key.thy ===== *)
theory Quad_Key
  imports Ogr_Srs Strings_Util "HOL-Library.Word"
begin

text \<open>
  \<^verbatim>\<open>src/osgGISProjects/QuadKey.cpp\<close>: a quad map divides its bounds into a grid of
  \<open>2 ^ lod\<close> by \<open>2 ^ lod\<close> cells; a quad key names one cell by a string of quadrant digits, one
  per level. Cell numbers are 32-bit words. A result of \<open>None\<close> marks what C++ leaves undefined
  (a null reference, a cast out of range, a shift by more than the width).
\<close>

unbundle bit_operations_syntax

datatype string_style = STYLE_QUADKEY | STYLE_LOD_QUADKEY

record 's quadmap =
  bounds :: "'s geoextent"
  string_style :: string_style

definition quadmap_default :: "'s quadmap" where
  "quadmap_default = \<lparr>bounds = ext_copy ext_invalid, string_style = STYLE_QUADKEY\<rparr>"

definition quadmap_new :: "'s geoextent \<Rightarrow> 's quadmap" where
  "quadmap_new b = \<lparr>bounds = ext_copy b, string_style = STYLE_QUADKEY\<rparr>"

definition quadmap_copy :: "'s quadmap \<Rightarrow> 's quadmap" where
  "quadmap_copy m = \<lparr>bounds = ext_copy (bounds m), string_style = string_style m\<rparr>"

definition quadmap_valid :: "'s quadmap \<Rightarrow> bool" where
  "quadmap_valid m = is_valid (bounds m)"

definition set_string_style :: "'s quadmap \<Rightarrow> string_style \<Rightarrow> 's quadmap" where
  "set_string_style m v = m\<lparr>string_style := v\<rparr>"

text \<open>The loop that halves a size once per level.\<close>

fun halve :: "nat \<Rightarrow> real \<Rightarrow> real" where
  "halve 0 x = x"
| "halve (Suc n) x = halve n (x * 0.5)"

definition get_cell_size :: "'s quadmap \<Rightarrow> nat \<Rightarrow> real \<times> real" where
  "get_cell_size m lod = (halve lod (get_width (bounds m)), halve lod (get_height (bounds m)))"

text \<open>The search for a level has no bound, so not returning is the value \<open>None\<close>.\<close>

partial_function (option) best_lod_loop ::
  "'s quadmap \<Rightarrow> real \<Rightarrow> real \<Rightarrow> nat \<Rightarrow> nat option" where
  "best_lod_loop m width height lod =
     (if width > fst (get_cell_size m (lod - 1)) \<or> height > snd (get_cell_size m (lod - 1))
      then Some lod else best_lod_loop m width height (lod + 1))"

definition get_best_lod_for_cells_of_size :: "'s quadmap \<Rightarrow> real \<Rightarrow> real \<Rightarrow> nat option" where
  "get_best_lod_for_cells_of_size m width height =
     map_option (\<lambda>lod. lod - 1) (best_lod_loop m width height 1)"

text \<open>
  \<open>getCells\<close>: \<open>Some None\<close> is the result \<open>false\<close>. The upper cell is rounded down unless the edge
  falls on a cell boundary, where it is the cell before. A division by a zero cell size gives
  an infinity or a NaN in C++, whose cast is undefined.
\<close>

definition upper_cell :: "real \<Rightarrow> nat option" where
  "upper_cell v = u32_of_real (if v < of_int \<lceil>v\<rceil> then v else v - 1)"

definition get_cells ::
  "'s srs_vt \<Rightarrow> 's quadmap \<Rightarrow> 's geoextent \<Rightarrow> nat \<Rightarrow> (nat \<times> nat \<times> nat \<times> nat) option option" where
  "get_cells V m aoi lod =
     (case get_srs (bounds m) of
        None \<Rightarrow> None
      | Some s \<Rightarrow>
          (let map_aoi = transform_extent V s aoi in
           if is_valid map_aoi then
             (let (cell_width, cell_height) = get_cell_size m lod;
                  xmin = (get_xmin map_aoi - get_xmin (bounds m)) / cell_width;
                  xmax = (get_xmax map_aoi - get_xmin (bounds m)) / cell_width;
                  ymin = (get_ymin map_aoi - get_ymin (bounds m)) / cell_height;
                  ymax = (get_ymax map_aoi - get_ymin (bounds m)) / cell_height
              in if cell_width = 0 \<or> cell_height = 0 then None
                 else do {
                   x0 \<leftarrow> u32_of_real xmin;
                   x1 \<leftarrow> upper_cell xmax;
                   y0 \<leftarrow> u32_of_real ymin;
                   y1 \<leftarrow> upper_cell ymax;
                   Some (Some (x0, y0, x1, y1))
                 })
           else Some None))"

section \<open>Keys\<close>

record 's quadkey =
  qstr :: string
  qmap :: "'s quadmap"
  key_extent :: "'s geoextent"

definition quadkey_of_string :: "string \<Rightarrow> 's quadmap \<Rightarrow> 's quadkey" where
  "quadkey_of_string q m = \<lparr>qstr = q, qmap = quadmap_copy m, key_extent = ext_copy ext_invalid\<rparr>"

definition cell_digit :: "32 word \<Rightarrow> 32 word \<Rightarrow> nat \<Rightarrow> char" where
  "cell_digit cell_x cell_y i =
     (let mask = push_bit i (1 :: 32 word)
      in digit_char ((if cell_x AND mask \<noteq> 0 then 1 else 0) + (if cell_y AND mask \<noteq> 0 then 2 else 0)))"

fun cell_digits :: "32 word \<Rightarrow> 32 word \<Rightarrow> nat \<Rightarrow> string" where
  "cell_digits cell_x cell_y 0 = []"
| "cell_digits cell_x cell_y (Suc i) = cell_digit cell_x cell_y i # cell_digits cell_x cell_y i"

definition quadkey_of_cell :: "32 word \<Rightarrow> 32 word \<Rightarrow> nat \<Rightarrow> 's quadmap \<Rightarrow> 's quadkey option" where
  "quadkey_of_cell cell_x cell_y lod m =
     (if lod > 32 then None
      else Some \<lparr>qstr = cell_digits cell_x cell_y lod, qmap = quadmap_copy m,
                 key_extent = ext_copy ext_invalid\<rparr>)"

definition get_lod :: "'s quadkey \<Rightarrow> nat" where
  "get_lod k = length (qstr k)"

definition key_to_string :: "'s quadkey \<Rightarrow> string" where
  "key_to_string k =
     (case string_style (qmap k) of
        STYLE_LOD_QUADKEY \<Rightarrow> ''L'' @ show_nat (get_lod k) @ ''_'' @ qstr k
      | STYLE_QUADKEY \<Rightarrow> qstr k)"

definition create_sub_key :: "'s quadkey \<Rightarrow> nat \<Rightarrow> 's quadkey" where
  "create_sub_key k quadrant = quadkey_of_string (qstr k @ [digit_char quadrant]) (qmap k)"

definition create_parent_key :: "'s quadkey \<Rightarrow> 's quadkey" where
  "create_parent_key k =
     (if length (qstr k) > 0 then quadkey_of_string (take (length (qstr k) - 1) (qstr k)) (qmap k)
      else quadkey_of_string (qstr k) (qmap k))"

definition key_cell_size :: "'s quadkey \<Rightarrow> real \<times> real" where
  "key_cell_size k = get_cell_size (qmap k) (get_lod k)"

text \<open>One level of the descent: the south-west corner and the size of the quadrant.\<close>

type_synonym quad = "real \<times> real \<times> real \<times> real"

definition descend :: "quad \<Rightarrow> char \<Rightarrow> quad" where
  "descend q c =
     (case q of (xmin, ymin, dx0, dy0) \<Rightarrow>
       let dx = dx0 * 0.5; dy = dy0 * 0.5 in
       if c = CHR ''1'' then (xmin + dx, ymin, dx, dy)
       else if c = CHR ''2'' then (xmin, ymin + dy, dx, dy)
       else if c = CHR ''3'' then (xmin + dx, ymin + dy, dx, dy)
       else (xmin, ymin, dx, dy))"

definition key_quad :: "'s quadkey \<Rightarrow> quad" where
  "key_quad k = foldl descend
     (get_xmin (bounds (qmap k)), get_ymin (bounds (qmap k)),
      get_width (bounds (qmap k)), get_height (bounds (qmap k))) (qstr k)"

text \<open>The extent is computed on first use and kept.\<close>

definition key_get_extent :: "'s quadkey \<Rightarrow> 's geoextent \<times> 's quadkey" where
  "key_get_extent k =
     (if \<not> is_valid (key_extent k)
      then (case key_quad k of (xmin, ymin, dx, dy) \<Rightarrow>
              let e = ext_of_bounds xmin ymin (xmin + dx) (ymin + dy) (get_srs (bounds (qmap k)))
              in (e, k\<lparr>key_extent := e\<rparr>))
      else (key_extent k, k))"

definition key_less :: "'s quadkey \<Rightarrow> 's quadkey \<Rightarrow> bool" where
  "key_less k l = str_less (key_to_string k) (key_to_string l)"

section \<open>Levels and cell sizes\<close>

lemma halve_eq: "halve n x = x / 2 ^ n"
  by (induction n arbitrary: x) simp_all

lemma get_cell_size_eq:
  "get_cell_size m lod = (get_width (bounds m) / 2 ^ lod, get_height (bounds m) / 2 ^ lod)"
  by (simp add: get_cell_size_def halve_eq)

lemma best_lod_loop_Some:
  assumes "best_lod_loop m w h l = Some r"
  shows "l \<le> r \<and> (w > fst (get_cell_size m (r - 1)) \<or> h > snd (get_cell_size m (r - 1))) \<and>
    (\<forall>k. l \<le> k \<and> k < r \<longrightarrow> w \<le> fst (get_cell_size m (k - 1)) \<and> h \<le> snd (get_cell_size m (k - 1)))"
proof (rule best_lod_loop.raw_induct
    [where P = "\<lambda>m w h l r. l \<le> r \<and>
      (w > fst (get_cell_size m (r - 1)) \<or> h > snd (get_cell_size m (r - 1))) \<and>
      (\<forall>k. l \<le> k \<and> k < r \<longrightarrow> w \<le> fst (get_cell_size m (k - 1)) \<and> h \<le> snd (get_cell_size m (k - 1)))",
      OF _ assms], goal_cases)
  case (1 f m w h l r)
  show ?case
  proof (cases "w > fst (get_cell_size m (l - 1)) \<or> h > snd (get_cell_size m (l - 1))")
    case True
    with 1(2) show ?thesis by auto
  next
    case False
    with 1(2) have "f m w h (l + 1) = Some r" by simp
    note IH = 1(1) [OF this]
    have "w \<le> fst (get_cell_size m (k - 1)) \<and> h \<le> snd (get_cell_size m (k - 1))"
      if "l \<le> k" "k < r" for k
      using that IH False by (cases "k = l") auto
    with IH show ?thesis by auto
  qed
qed

text \<open>If some level has smaller cells the loop finds one.\<close>

lemma best_lod_loop_total:
  assumes "w > fst (get_cell_size m (n - 1)) \<or> h > snd (get_cell_size m (n - 1))" and "l \<le> n"
  shows "\<exists>r. best_lod_loop m w h l = Some r"
  using assms(2)
proof (induction "n - l" arbitrary: l)
  case 0
  with assms(1) have "l = n" by simp
  with assms(1) show ?case by (subst best_lod_loop.simps) auto
next
  case (Suc d)
  then have "\<exists>r. best_lod_loop m w h (l + 1) = Some r" by (intro Suc.hyps(1)) auto
  then show ?case by (subst best_lod_loop.simps) auto
qed

lemma halving_reaches:
  assumes "(0 :: real) < w"
  shows "\<exists>n. W / 2 ^ n < w"
proof -
  obtain n where "W / w < 2 ^ n" using real_arch_pow [of 2 "W / w"] by auto
  then have "W / 2 ^ n < w" using assms by (simp add: field_simps)
  then show ?thesis ..
qed

section \<open>Digits\<close>

lemma and_mask_iff: "(x :: 32 word) AND push_bit i 1 \<noteq> 0 \<longleftrightarrow> bit x i"
  by (cases "i < 32") (auto simp: bit_iff_and_push_bit_not_eq_0 not_less bit_imp_le_length push_bit_word_beyond)

lemma cell_digit_eq:
  "cell_digit x y i = digit_char (of_bool (bit x i) + 2 * of_bool (bit y i))"
  unfolding cell_digit_def Let_def and_mask_iff by (cases "bit x i"; cases "bit y i") simp_all

lemma length_cell_digits [simp]: "length (cell_digits x y n) = n"
  by (induction n) simp_all

text \<open>The low \<open>n\<close> bits of a cell number, as a number.\<close>

definition low :: "nat \<Rightarrow> 32 word \<Rightarrow> nat" where
  "low n x = take_bit n (unat x)"

lemma low_Suc: "low (Suc n) x = 2 ^ n * of_bool (bit x n) + low n x"
  by (simp add: low_def take_bit_Suc_from_most bit_unsigned_iff)

lemma low_0 [simp]: "low 0 x = 0"
  by (simp add: low_def)

lemma low_less: "low n x < 2 ^ n"
  by (simp add: low_def)

lemma low_small: "unat x < 2 ^ n \<Longrightarrow> low n x = unat x"
  by (simp add: low_def take_bit_nat_eq_self)

lemma cell_digits_eq_iff:
  "cell_digits x y n = cell_digits x' y' n \<longleftrightarrow> low n x = low n x' \<and> low n y = low n y'"
proof (induction n)
  case (Suc n)
  have bits: "2 ^ n * of_bool p + a = 2 ^ n * of_bool q + b \<longleftrightarrow> p = q \<and> a = b"
    if "a < 2 ^ n" "b < 2 ^ n" for p q and a b :: nat
    using that by (cases p; cases q) auto
  have digits: "cell_digit x y n = cell_digit x' y' n \<longleftrightarrow> (bit x n = bit x' n \<and> bit y n = bit y' n)"
    by (auto simp: cell_digit_eq digit_char_inj)
  show ?case
    using Suc digits bits [where a = "low n x" and b = "low n x'", OF low_less low_less]
      bits [where a = "low n y" and b = "low n y'", OF low_less low_less]
    by (auto simp: low_Suc)
qed simp

text \<open>The descent along the digits of a cell: the corner moves by the number times the cell size.\<close>

lemma descend_digit:
  "descend (xm, ym, dx, dy) (cell_digit x y i) =
     (xm + of_bool (bit x i) * (dx / 2), ym + of_bool (bit y i) * (dy / 2), dx / 2, dy / 2)"
  by (simp add: descend_def Let_def cell_digit_eq digit_chars)

lemma descend_cell_digits:
  "foldl descend (xm, ym, dx, dy) (cell_digits x y n) =
     (xm + real (low n x) * (dx / 2 ^ n), ym + real (low n y) * (dy / 2 ^ n), dx / 2 ^ n, dy / 2 ^ n)"
proof (induction n arbitrary: xm ym dx dy)
  case (Suc n)
  have step: "a + of_bool p * (d / 2) + real l * (d / 2 / 2 ^ n) =
      a + real (2 ^ n * of_bool p + l) * (d / 2 ^ Suc n)" for a d :: real and p and l :: nat
    by (simp add: field_simps)
  show ?case
    by (simp only: cell_digits.simps foldl.simps descend_digit Suc step low_Suc) simp
qed simp

lemma descend_sizes:
  "foldl descend (xm, ym, dx, dy) cs = (a, b, c, d) \<Longrightarrow>
     c = dx / 2 ^ length cs \<and> d = dy / 2 ^ length cs"
proof (induction cs arbitrary: xm ym dx dy)
  case (Cons ch cs)
  have "snd (snd (descend (xm, ym, dx, dy) ch)) = (dx / 2, dy / 2)"
    by (simp add: descend_def Let_def)
  then obtain a' b' where st: "descend (xm, ym, dx, dy) ch = (a', b', dx / 2, dy / 2)"
    by (cases "descend (xm, ym, dx, dy) ch") simp
  with Cons.prems have "foldl descend (a', b', dx / 2, dy / 2) cs = (a, b, c, d)" by simp
  from Cons.IH [OF this] show ?case by simp
qed simp

section \<open>Extents of keys\<close>

text \<open>A key whose stored extent, if any, is the one it would compute.\<close>

definition key_ok :: "'s quadkey \<Rightarrow> bool" where
  "key_ok k \<longleftrightarrow> is_valid (key_extent k) \<longrightarrow>
     (case key_quad k of (xmin, ymin, dx, dy) \<Rightarrow>
        key_extent k = ext_of_bounds xmin ymin (xmin + dx) (ymin + dy) (get_srs (bounds (qmap k))))"

lemma key_get_extent_eq:
  "key_ok k \<Longrightarrow> key_quad k = (xmin, ymin, dx, dy) \<Longrightarrow>
     fst (key_get_extent k) =
       ext_of_bounds xmin ymin (xmin + dx) (ymin + dy) (get_srs (bounds (qmap k)))"
  by (auto simp: key_get_extent_def key_ok_def Let_def)

lemma ext_copy_invalid [simp]: "ext_copy ext_invalid = ext_invalid"
  by (simp add: ext_copy_def recalc_def ext_invalid_def)

lemma key_ok_new:
  "key_ok (quadkey_of_string q m)" "quadkey_of_cell x y lod m = Some k \<Longrightarrow> key_ok k"
  by (auto simp: key_ok_def quadkey_of_string_def quadkey_of_cell_def invalid_unusable split: if_splits)

lemma key_ok_get_extent: "key_ok k \<Longrightarrow> key_ok (snd (key_get_extent k))"
  by (auto simp: key_get_extent_def key_ok_def key_quad_def Let_def split: prod.splits)

lemma quadmap_copy_wf: "ext_wf s (bounds m) \<Longrightarrow> bounds (quadmap_copy m) = bounds m"
  by (simp add: quadmap_copy_def ext_wf_copy)

text \<open>The four children of a key: their corners and sizes.\<close>

lemma key_quad_sub:
  assumes "ext_wf s (bounds (qmap k))"
  shows "key_quad (create_sub_key k q) = descend (key_quad k) (digit_char q)"
  using assms by (simp add: key_quad_def create_sub_key_def quadkey_of_string_def quadmap_copy_wf)

lemma descend_quadrants:
  "descend (x, y, dx, dy) (digit_char 0) = (x, y, dx / 2, dy / 2)"
  "descend (x, y, dx, dy) (digit_char (Suc 0)) = (x + dx / 2, y, dx / 2, dy / 2)"
  "descend (x, y, dx, dy) (digit_char 2) = (x, y + dy / 2, dx / 2, dy / 2)"
  "descend (x, y, dx, dy) (digit_char 3) = (x + dx / 2, y + dy / 2, dx / 2, dy / 2)"
  by (simp_all add: descend_def digit_chars Let_def)

lemma bounds_box: "ext_box (ext_of_bounds a b c d sr) = {a..c} \<times> {b..d}"
  by (auto simp: ext_box_def)

lemma split_interval:
  fixes x d :: real
  assumes "0 \<le> d"
  shows "{x..x + d} = {x..x + d / 2} \<union> {x + d / 2..x + d / 2 + d / 2}"
  using assms by (auto simp: field_simps)

text \<open>The bounds of every quadrant lie within those of the whole map and have positive size.\<close>

lemma key_quad_positive:
  assumes "ext_wf s (bounds (qmap k))" and "px (sw (bounds (qmap k))) < px (ne (bounds (qmap k)))"
    and "py (sw (bounds (qmap k))) < py (ne (bounds (qmap k)))"
    and "key_quad k = (x, y, dx, dy)"
  shows "0 < dx \<and> 0 < dy"
  using descend_sizes [OF assms(4) [unfolded key_quad_def]] assms(1-3)
  by (simp add: get_width_def get_height_def ext_wf_observe)

lemma key_extent_cell:
  assumes "ext_wf s (bounds m)" and "quadkey_of_cell x y lod m = Some k"
    and "unat x < 2 ^ lod" and "unat y < 2 ^ lod"
    and "get_cell_size m lod = (cw, ch)"
  shows "fst (key_get_extent k) = ext_of_bounds
    (px (sw (bounds m)) + real (unat x) * cw) (py (sw (bounds m)) + real (unat y) * ch)
    (px (sw (bounds m)) + real (unat x) * cw + cw) (py (sw (bounds m)) + real (unat y) * ch + ch)
    (Some s)"
proof -
  have k: "k = \<lparr>qstr = cell_digits x y lod, qmap = quadmap_copy m, key_extent = ext_copy ext_invalid\<rparr>"
    using assms(2) by (simp add: quadkey_of_cell_def split: if_splits)
  have q: "key_quad k = (px (sw (bounds m)) + real (unat x) * cw,
      py (sw (bounds m)) + real (unat y) * ch, cw, ch)"
    using assms(5) by (simp add: key_quad_def k quadmap_copy_wf [OF assms(1)] descend_cell_digits
        low_small assms(3,4) get_cell_size_eq ext_wf_observe [OF assms(1)])
  show ?thesis
    using key_get_extent_eq [OF key_ok_new(2) [OF assms(2)] q]
    by (simp add: k quadmap_copy_wf [OF assms(1)] ext_wf_observe [OF assms(1)])
qed

lemma sub_keys_tile:
  assumes "ext_wf s (bounds (qmap k))" and "key_ok k"
  shows "ext_box (fst (key_get_extent k)) =
    ext_box (fst (key_get_extent (create_sub_key k 0))) \<union>
    ext_box (fst (key_get_extent (create_sub_key k 1))) \<union>
    ext_box (fst (key_get_extent (create_sub_key k 2))) \<union>
    ext_box (fst (key_get_extent (create_sub_key k 3)))"
proof -
  obtain x y dx dy where q: "key_quad k = (x, y, dx, dy)" by (cases "key_quad k") auto
  have d: "0 \<le> dx" "0 \<le> dy"
    using descend_sizes [OF q [unfolded key_quad_def]] ext_wfD(7,8) [OF assms(1)]
    by (simp_all add: ext_wf_observe [OF assms(1)] get_width_def get_height_def)
  have sub: "fst (key_get_extent (create_sub_key k i)) = ext_of_bounds a b (a + c) (b + d)
      (get_srs (bounds (qmap (create_sub_key k i))))"
    if "descend (x, y, dx, dy) (digit_char i) = (a, b, c, d)" for i a b c d
    using key_get_extent_eq [of "create_sub_key k i" a b c d] key_quad_sub [OF assms(1), of i] that
    by (simp add: q create_sub_key_def key_ok_new)
  show ?thesis
    unfolding key_get_extent_eq [OF assms(2) q] sub [OF descend_quadrants(1)]
      sub [OF descend_quadrants(2), simplified] One_nat_def sub [OF descend_quadrants(2)]
      sub [OF descend_quadrants(3)] sub [OF descend_quadrants(4)] bounds_box
      split_interval [OF d(1)] split_interval [OF d(2)]
    by (auto simp: algebra_simps)
qed

section \<open>Cells of an area\<close>

lemma upper_cell_eq:
  assumes "0 < v" "v \<le> 2 ^ 32"
  shows "upper_cell v = Some (nat (\<lceil>v\<rceil> - 1))"
proof (cases "v < of_int \<lceil>v\<rceil>")
  case True
  then have "\<lfloor>v\<rfloor> = \<lceil>v\<rceil> - 1" by linarith
  moreover have "v < 2 ^ 32"
  proof (rule ccontr)
    assume "\<not> v < 2 ^ 32"
    with assms(2) have "v = of_int (2 ^ 32)" by simp
    then have "of_int \<lceil>v\<rceil> = v" by (metis ceiling_of_int)
    with True show False by simp
  qed
  ultimately show ?thesis using True assms by (simp add: upper_cell_def u32_of_real_def)
next
  case False
  then have v: "v = of_int \<lceil>v\<rceil>" by linarith
  then have "\<lfloor>v - 1\<rfloor> = \<lceil>v\<rceil> - 1" by linarith
  moreover have "-1 < v - 1" "v - 1 < 2 ^ 32" using assms by linarith+
  ultimately show ?thesis using False by (simp add: upper_cell_def u32_of_real_def)
qed

lemma upper_cell_le_iff: "0 < v \<Longrightarrow> i \<le> nat (\<lceil>v\<rceil> - 1) \<longleftrightarrow> real i < v"
  by linarith

lemma lower_cell_le_iff: "0 \<le> v \<Longrightarrow> nat \<lfloor>v\<rfloor> \<le> i \<longleftrightarrow> v < real i + 1"
  by linarith

text \<open>The two ends of a span inside the map, in units of the cell size.\<close>

lemma span_cells:
  fixes X W a b :: real
  assumes "0 < W" "X \<le> a" "a < b" "b \<le> X + W" "n \<le> 32"
  defines "c \<equiv> W / 2 ^ n"
  shows "u32_of_real ((a - X) / c) = Some (nat \<lfloor>(a - X) / c\<rfloor>)"
    and "upper_cell ((b - X) / c) = Some (nat (\<lceil>(b - X) / c\<rceil> - 1))"
    and "nat \<lfloor>(a - X) / c\<rfloor> \<le> i \<and> i \<le> nat (\<lceil>(b - X) / c\<rceil> - 1) \<longleftrightarrow>
      X + real i * c < b \<and> a < X + (real i + 1) * c"
proof -
  have c: "0 < c" using assms by simp
  have Wc: "W = 2 ^ n * c" by (simp add: c_def)
  have lo: "0 \<le> (a - X) / c" using c assms by simp
  have hi: "0 < (b - X) / c" using c assms by simp
  have "(b - X) / c \<le> 2 ^ n" using c assms(4) Wc by (simp add: field_simps)
  also have "(2 :: real) ^ n \<le> 2 ^ 32" using assms(5) by (rule power_increasing) simp
  finally have top: "(b - X) / c \<le> 2 ^ 32" .
  have "(a - X) / c < (b - X) / c" using c assms(3) by (simp add: divide_strict_right_mono)
  with lo top show "u32_of_real ((a - X) / c) = Some (nat \<lfloor>(a - X) / c\<rfloor>)"
    by (intro u32_of_real_nonneg) auto
  show "upper_cell ((b - X) / c) = Some (nat (\<lceil>(b - X) / c\<rceil> - 1))"
    by (rule upper_cell_eq [OF hi top])
  show "nat \<lfloor>(a - X) / c\<rfloor> \<le> i \<and> i \<le> nat (\<lceil>(b - X) / c\<rceil> - 1) \<longleftrightarrow>
      X + real i * c < b \<and> a < X + (real i + 1) * c"
    unfolding upper_cell_le_iff [OF hi] lower_cell_le_iff [OF lo]
    using c by (auto simp: field_simps)
qed

context srs_interface begin

lemma get_cells_overlap:
  assumes "ext_wf s (bounds m)" and "ext_wf s aoi" and "usable s" and "lod \<le> 32"
    and "ext_box aoi \<subseteq> ext_box (bounds m)"
    and "px (sw aoi) < px (ne aoi)" and "py (sw aoi) < py (ne aoi)"
    and "get_cell_size m lod = (cw, ch)"
  shows "\<exists>x0 y0 x1 y1. get_cells V m aoi lod = Some (Some (x0, y0, x1, y1)) \<and>
    (\<forall>i. x0 \<le> i \<and> i \<le> x1 \<longleftrightarrow>
       px (sw (bounds m)) + real i * cw < px (ne aoi) \<and>
       px (sw aoi) < px (sw (bounds m)) + (real i + 1) * cw) \<and>
    (\<forall>j. y0 \<le> j \<and> j \<le> y1 \<longleftrightarrow>
       py (sw (bounds m)) + real j * ch < py (ne aoi) \<and>
       py (sw aoi) < py (sw (bounds m)) + (real j + 1) * ch)"
proof -
  let ?b = "bounds m"
  have c: "cw = get_width ?b / 2 ^ lod" "ch = get_height ?b / 2 ^ lod"
    using assms(8) by (simp_all add: get_cell_size_eq)
  have inb: "px (sw ?b) \<le> px (sw aoi)" "px (ne aoi) \<le> px (ne ?b)"
    "py (sw ?b) \<le> py (sw aoi)" "py (ne aoi) \<le> py (ne ?b)"
    using ext_box_nonempty [OF assms(2)] assms(5) by (auto simp: ext_box_def pt_xy_def)
  have w: "get_width ?b = px (ne ?b) - px (sw ?b)" "get_height ?b = py (ne ?b) - py (sw ?b)"
    using assms(1) by (simp_all add: get_width_def get_height_def ext_wf_observe)
  have pos: "0 < get_width ?b" "0 < get_height ?b" using inb w assms(6,7) by simp_all
  note xs = span_cells [of "get_width ?b" "px (sw ?b)" "px (sw aoi)" "px (ne aoi)" lod, folded c]
  note ys = span_cells [of "get_height ?b" "py (sw ?b)" "py (sw aoi)" "py (ne aoi)" lod, folded c]
  have nz: "cw \<noteq> 0" "ch \<noteq> 0" using pos c by simp_all
  have "get_cells V m aoi lod =
      Some (Some (nat \<lfloor>(px (sw aoi) - px (sw ?b)) / cw\<rfloor>, nat \<lfloor>(py (sw aoi) - py (sw ?b)) / ch\<rfloor>,
        nat (\<lceil>(px (ne aoi) - px (sw ?b)) / cw\<rceil> - 1), nat (\<lceil>(py (ne aoi) - py (sw ?b)) / ch\<rceil> - 1)))"
    using xs(1,2) ys(1,2) inb w pos nz assms(1-4,6,7)
    by (simp add: get_cells_def ext_wf_observe ext_wfD transform_extent_same assms(8) Let_def)
  then show ?thesis using xs(3) ys(3) inb w pos assms(4,6,7) by auto
qed

end

end
