(* ===== verification/Checkpoint.thy ===== *)
theory Checkpoint
  imports Filter_State
begin

text \<open>
  The checkpoint of \<^verbatim>\<open>src/osgGIS/CollectionFilterState.cpp\<close>: the collected data are sorted into
  groups by the name the filter assigns, and each group is metered out to the next state in
  batches. A state that is asked to process data with no environment would dereference a null
  pointer: that is \<open>None\<close>, and \<open>signal_checkpoint_total\<close> shows that it does not happen after any
  sequence of pushes and traversals.
\<close>

section \<open>Groups\<close>

text \<open>
  \<open>groups[ filter->assign( i, env ) ].push_back( i )\<close> for each item: a map keyed by name, each
  group in the order of the items.
\<close>

definition group_insert :: "string \<Rightarrow> 'a \<Rightarrow> (string \<times> 'a list) list \<Rightarrow> (string \<times> 'a list) list" where
  "group_insert k i gs = smap_upd k (\<lambda>g. (case g of None \<Rightarrow> [] | Some is \<Rightarrow> is) @ [i]) gs"

fun assign_groups :: "('s, 'o, 'x, 'a, string) virtual \<Rightarrow> 'a list \<Rightarrow> (string \<times> 'a list) list \<Rightarrow>
    ('s, 'o) filter_env \<Rightarrow> 'x \<Rightarrow> (string \<times> 'a list) list \<times> ('s, 'o) filter_env \<times> 'x" where
  "assign_groups assign [] gs e x = (gs, e, x)"
| "assign_groups assign (i # is) gs e x =
     (case assign x i e of (k, e1, x1) \<Rightarrow> assign_groups assign is (group_insert k i gs) e1 x1)"

section \<open>Metering\<close>

text \<open>The batches of the metering loop: \<open>n\<close> items at a time, the last one shorter.\<close>

function batches :: "nat \<Rightarrow> 'a list \<Rightarrow> 'a list list" where
  "batches n xs = (if n = 0 \<or> xs = [] then [] else take n xs # batches n (drop n xs))"
  by pat_completeness auto
termination
  by (relation "measure (\<lambda>(n, xs). length xs)") auto

declare batches.simps [simp del]

text \<open>
  The loop over the batches, with its guard on the result; \<open>wrap\<close> says what kind of data the
  items are.
\<close>

fun meter_batches :: "('s, 'd, 'n, 'o, 'x) filter_vt \<Rightarrow> 's srs_vt \<Rightarrow> ('a list \<Rightarrow> ('s, 'd, 'n) batch) \<Rightarrow>
    ('s, 'o) filter_env \<Rightarrow> 'a list list \<Rightarrow> 'x state_result \<Rightarrow> ('s, 'd, 'n, 'o, 'x) fstate list \<Rightarrow>
    'x state_result \<times> ('s, 'd, 'n, 'o, 'x) fstate list" where
  "meter_batches T V wrap e [] r rest = (r, rest)"
| "meter_batches T V wrap e (b # bs) r rest =
     (if is_ok r
      then (case traverse T V e (push_next V (wrap b) rest) of
              (r1, rest1) \<Rightarrow> meter_batches T V wrap e bs r1 rest1)
      else (r, rest))"

text \<open>The \<open>int\<close> metering value becomes an \<open>unsigned int\<close>.\<close>

definition meter_data :: "('s, 'd, 'n, 'o, 'x) filter_vt \<Rightarrow> 's srs_vt \<Rightarrow> ('a list \<Rightarrow> ('s, 'd, 'n) batch) \<Rightarrow>
    nat \<Rightarrow> ('s, 'o) filter_env \<Rightarrow> 'a list \<Rightarrow> ('s, 'd, 'n, 'o, 'x) fstate list \<Rightarrow>
    'x state_result \<times> ('s, 'd, 'n, 'o, 'x) fstate list" where
  "meter_data T V wrap m e source rest =
     (if m = 0 then traverse T V e (push_next V (wrap source) rest)
      else meter_batches T V wrap e (batches m source) result_new rest)"

definition unsigned :: "int \<Rightarrow> nat" where
  "unsigned i = nat (i mod 2 ^ 32)"

fun meter_groups :: "('s, 'd, 'n, 'o, 'x) filter_vt \<Rightarrow> 's srs_vt \<Rightarrow> ('a list \<Rightarrow> ('s, 'd, 'n) batch) \<Rightarrow>
    ('s, 'o, 'x, 'a list, 'a list) virtual \<Rightarrow> string \<Rightarrow> nat \<Rightarrow> (string \<times> 'a list) list \<Rightarrow>
    ('s, 'o) filter_env \<Rightarrow> 'x \<Rightarrow> 'x state_result \<Rightarrow> ('s, 'd, 'n, 'o, 'x) fstate list \<Rightarrow>
    'x state_result \<times> ('s, 'o) filter_env \<times> 'x \<times> ('s, 'd, 'n, 'o, 'x) fstate list" where
  "meter_groups T V wrap premeter gprop m [] e x r rest = (r, e, x, rest)"
| "meter_groups T V wrap premeter gprop m ((k, g) # gs) e x r rest =
     (if is_ok r
      then (let e1 = (if gprop \<noteq> [] then env_set_property e (prop_string gprop k) else e) in
            case premeter x g e1 of (g1, e2, x2) \<Rightarrow>
            case meter_data T V wrap m e2 g1 rest of (r1, rest1) \<Rightarrow>
              meter_groups T V wrap premeter gprop m gs e2 x2 r1 rest1)
      else (r, e, x, rest))"

text \<open>Grouping and metering of one kind of data, with the filter and environment of the state.\<close>

definition collect :: "('s, 'd, 'n, 'o, 'x) filter_vt \<Rightarrow> 's srs_vt \<Rightarrow> ('a list \<Rightarrow> ('s, 'd, 'n) batch) \<Rightarrow>
    ('s, 'o, 'x, 'a, string) virtual \<Rightarrow> ('s, 'o, 'x, 'a list, 'a list) virtual \<Rightarrow> 'a list \<Rightarrow>
    ('s, 'd, 'n, 'o, 'x) fstate \<Rightarrow> ('s, 'd, 'n, 'o, 'x) fstate list \<Rightarrow>
    ('x state_result \<times> ('s, 'd, 'n, 'o, 'x) fstate \<times> ('s, 'd, 'n, 'o, 'x) fstate list) option" where
  "collect T V wrap assign premeter items s rest =
     (case current_env s of
        None \<Rightarrow> None
      | Some e \<Rightarrow>
          (case assign_groups assign items [] e (own (state_filter s)) of (gs, e1, x1) \<Rightarrow>
           case meter_groups T V wrap premeter (group_property_name (state_filter s))
                  (unsigned (metering (state_filter s))) gs e1 x1 result_new rest of
             (r, e2, x2, rest1) \<Rightarrow> Some (r, ran e2 x2 s, rest1)))"

text \<open>
  Which data are metered depends on the kind of the next state and on what was collected:
  features first, then fragments (not to a feature state), then nodes (only to a node or a
  collection state).
\<close>

definition collect_input :: "('s, 'd, 'n, 'o, 'x) filter_vt \<Rightarrow> 's srs_vt \<Rightarrow> filter_kind \<Rightarrow>
    ('s, 'd, 'n, 'o, 'x) fstate \<Rightarrow> ('s, 'd, 'n, 'o, 'x) fstate list \<Rightarrow>
    ('x state_result \<times> ('s, 'd, 'n, 'o, 'x) fstate \<times> ('s, 'd, 'n, 'o, 'x) fstate list) option" where
  "collect_input T V next_kind s rest =
     (if in_features s \<noteq> []
      then collect T V Features (assign_feature T) (premeter_features T) (in_features s) s rest
      else if next_kind \<noteq> FEATURE_FILTER \<and> in_fragments s \<noteq> []
      then collect T V Fragments (assign_fragment T) (premeter_fragments T) (in_fragments s) s rest
      else if next_kind \<in> {NODE_FILTER, COLLECTION_FILTER} \<and> in_nodes s \<noteq> []
      then collect T V Nodes (assign_node T) (premeter_nodes T) (in_nodes s) s rest
      else Some (result_set STATUS_NODATA (Some (state_filter s)), s, rest))"

section \<open>Facts on groups and batches\<close>

lemma concat_batches: "n \<noteq> 0 \<Longrightarrow> concat (batches n xs) = xs"
proof (induction n xs rule: batches.induct)
  case (1 n xs)
  then show ?case by (subst batches.simps) auto
qed

lemma batches_bounds: "b \<in> set (batches n xs) \<Longrightarrow> b \<noteq> [] \<and> length b \<le> n"
proof (induction n xs rule: batches.induct)
  case (1 n xs)
  then show ?case by (subst (asm) (2) batches.simps) (auto split: if_splits)
qed

lemma map_of_group_insert:
  "smap_sorted gs \<Longrightarrow> map_of (group_insert k i gs) =
     (map_of gs)(k \<mapsto> (case map_of gs k of None \<Rightarrow> [] | Some is \<Rightarrow> is) @ [i])"
  by (simp add: group_insert_def map_of_smap_upd)

lemma group_insert_sorted: "smap_sorted gs \<Longrightarrow> smap_sorted (group_insert k i gs)"
  by (simp add: group_insert_def smap_sorted_upd)

text \<open>
  With an assignment that only looks at the item, the groups are the partition of the items by
  name: each group holds exactly the items of that name, in their order.
\<close>

lemma assign_groups_partition:
  assumes "\<And>x i e. assign x i e = (key i, e, x)" and "smap_sorted gs"
    and "\<And>k. map_of gs k \<noteq> Some []"
  shows "\<exists>gs'. assign_groups assign is gs e x = (gs', e, x) \<and> smap_sorted gs' \<and>
    (\<forall>k. map_of gs' k =
      (let g = (case map_of gs k of None \<Rightarrow> [] | Some g \<Rightarrow> g) @ filter (\<lambda>i. key i = k) is
       in if g = [] then None else Some g))"
  using assms(2,3)
proof (induction "is" arbitrary: gs)
  case Nil
  then show ?case by (auto simp: Let_def split: option.split)
next
  case (Cons i "is")
  have s: "smap_sorted (group_insert (key i) i gs)" using Cons.prems(1) by (rule group_insert_sorted)
  have n: "\<And>k. map_of (group_insert (key i) i gs) k \<noteq> Some []"
    using Cons.prems by (simp add: map_of_group_insert)
  from Cons.IH [OF s n] show ?case
    by (simp add: assms(1)) (auto simp: map_of_group_insert [OF Cons.prems(1)] Let_def
        split: option.split)
qed

section \<open>Facts on metering\<close>

text \<open>What metering to a chain preserves, from what a push and a traversal preserve.\<close>

lemma meter_batches_keeps:
  assumes "\<And>e b rest. Q rest \<Longrightarrow> Q (snd (traverse T V e (push_next V b rest)))" and "Q rest"
  shows "Q (snd (meter_batches T V wrap e bs r rest))"
  using assms(2)
proof (induction bs arbitrary: r rest)
  case (Cons b bs)
  then show ?case
    using assms(1) [of rest e "wrap b"] by (cases "traverse T V e (push_next V (wrap b) rest)") simp
qed simp

lemma meter_data_keeps:
  assumes "\<And>e b rest. Q rest \<Longrightarrow> Q (snd (traverse T V e (push_next V b rest)))" and "Q rest"
  shows "Q (snd (meter_data T V wrap m e src rest))"
  unfolding meter_data_def using assms
  by (simp add: meter_batches_keeps [where Q = Q])

lemma meter_groups_keeps:
  assumes "\<And>e b rest. Q rest \<Longrightarrow> Q (snd (traverse T V e (push_next V b rest)))" and "Q rest"
    and "meter_groups T V wrap premeter gprop m gs e x r rest = (r', e', x', rest')"
  shows "Q rest'"
  using assms(2,3)
proof (induction gs arbitrary: e x r rest)
  case (Cons kg gs)
  obtain k g where kg: "kg = (k, g)" by (cases kg)
  let ?e1 = "if gprop \<noteq> [] then env_set_property e (prop_string gprop k) else e"
  obtain g1 e2 x2 where p: "premeter x g ?e1 = (g1, e2, x2)" by (cases "premeter x g ?e1") auto
  obtain r1 rest1 where m: "meter_data T V wrap m e2 g1 rest = (r1, rest1)"
    by (cases "meter_data T V wrap m e2 g1 rest")
  have "Q rest1" using meter_data_keeps [OF assms(1) Cons.prems(1), of wrap m e2 g1] by (simp add: m)
  with Cons show ?case by (cases "is_ok r") (simp_all add: kg p m Let_def)
qed simp

lemma is_ok_simps [simp]: "is_ok result_new" "is_ok (result_set STATUS_NODATA f)"
  by (simp_all add: is_ok_def result_new_def result_set_def)

lemma meter_batches_ok:
  "is_ok r \<Longrightarrow> is_ok (fst (meter_batches T V wrap e bs r rest))"
proof (induction bs arbitrary: r rest)
  case (Cons b bs)
  show ?case
    using Cons.prems by (simp add: case_prod_unfold Cons.IH traverse_never_error)
qed simp

lemma meter_data_ok: "is_ok (fst (meter_data T V wrap m e src rest))"
  by (simp add: meter_data_def traverse_never_error meter_batches_ok)

lemma meter_groups_ok:
  "is_ok r \<Longrightarrow> is_ok (fst (meter_groups T V wrap premeter gprop m gs e x r rest))"
proof (induction gs arbitrary: e x r rest)
  case (Cons kg gs)
  show ?case
    using Cons.prems
    by (cases kg) (simp add: case_prod_unfold Let_def Cons.IH meter_data_ok)
qed simp

text \<open>
  The three facts about one collection: it does not fail when it has an environment, its result
  is never an error, and it keeps the length of the chain and the readiness of its states.
\<close>

lemma collect_result:
  fixes rest :: "('a, 'b, 'c, 'd, 'e) fstate list"
  assumes "current_env s \<noteq> None" and "list_all env_ready rest"
  shows "\<exists>r s1 rest1. collect T V wrap assign premeter items s rest = Some (r, s1, rest1) \<and>
    is_ok r \<and> list_all env_ready rest1 \<and> length rest1 = length rest \<and>
    map kind rest1 = map kind rest"
proof -
  have push: "list_all env_ready (tl (push_next V b ss)) \<and> length (push_next V b ss) = length ss"
    if "list_all env_ready ss" for b and ss :: "('a, 'b, 'c, 'd, 'e) fstate list"
    using that by (cases ss) simp_all
  let ?Q = "\<lambda>ss. list_all env_ready ss \<and> length ss = length rest \<and> map kind ss = map kind rest"
  have keep: "?Q (snd (traverse T V e (push_next V b ss)))" if "?Q ss" for e b ss
    using that push [of ss b] traverse_env_ready [of "push_next V b ss" T V e]
    by (simp add: traverse_length traverse_kinds)
  from assms(1) obtain e where e: "current_env s = Some e" by blast
  obtain gs e1 x1 where g: "assign_groups assign items [] e (own (state_filter s)) = (gs, e1, x1)"
    by (cases "assign_groups assign items [] e (own (state_filter s))") auto
  obtain r e2 x2 rest1 where m: "meter_groups T V wrap premeter
      (group_property_name (state_filter s)) (unsigned (metering (state_filter s))) gs e1 x1
      result_new rest = (r, e2, x2, rest1)"
    by (cases "meter_groups T V wrap premeter (group_property_name (state_filter s))
      (unsigned (metering (state_filter s))) gs e1 x1 result_new rest") auto
  have "?Q rest1"
    by (rule meter_groups_keeps [where Q = ?Q, OF _ _ m], rule keep) (use assms(2) in simp_all)
  moreover have "is_ok r"
    using meter_groups_ok [of result_new T V wrap premeter "group_property_name (state_filter s)"
        "unsigned (metering (state_filter s))" gs e1 x1 rest]
    by (simp add: m)
  ultimately show ?thesis by (simp add: collect_def e g m)
qed

lemma collect_input_result:
  assumes "env_ready s" and "list_all env_ready rest"
  shows "\<exists>r s1 rest1. collect_input T V k s rest = Some (r, s1, rest1) \<and> is_ok r \<and>
    list_all env_ready rest1 \<and> length rest1 = length rest \<and> map kind rest1 = map kind rest"
proof (cases "current_env s = None")
  case True
  with assms show ?thesis by (simp add: collect_input_def env_ready_def)
next
  case False
  from assms(2) show ?thesis
    unfolding collect_input_def by (simp add: collect_result [OF False assms(2)])
qed

lemma collect_length:
  "collect T V wrap assign premeter items s rest = Some (r, s1, rest1) \<Longrightarrow> length rest1 = length rest"
  unfolding collect_def
  by (clarsimp split: option.splits prod.splits,
      erule meter_groups_keeps [where Q = "\<lambda>ss. length ss = length rest", rotated 2])
    (simp_all add: traverse_length)

lemma collect_input_length:
  "collect_input T V k s rest = Some (r, s1, rest1) \<Longrightarrow> length rest1 = length rest"
  by (auto simp: collect_input_def dest: collect_length split: if_splits)

section \<open>The checkpoint\<close>

text \<open>
  \<open>signalCheckpoint\<close>: a collection meters its data to the next state and passes the signal on, then
  forgets its input and its environment; any other state passes the signal on.
\<close>

function signal_checkpoint :: "('s, 'd, 'n, 'o, 'x) filter_vt \<Rightarrow> 's srs_vt \<Rightarrow>
    ('s, 'd, 'n, 'o, 'x) fstate list \<Rightarrow>
    ('x state_result \<times> ('s, 'd, 'n, 'o, 'x) fstate list) option" where
  "signal_checkpoint T V [] = Some (result_new, [])"
| "signal_checkpoint T V (s # rest) =
     (if kind s \<noteq> COLLECTION_FILTER then
        (if rest = [] then Some (result_new, [s])
         else (case signal_checkpoint T V rest of
                 None \<Rightarrow> None | Some (r, rest1) \<Rightarrow> Some (r, s # rest1)))
      else if rest = [] then Some (result_new, [(clear_inputs s)\<lparr>current_env := None\<rparr>])
      else (case collect_input T V (kind (hd rest)) s rest of
              None \<Rightarrow> None
            | Some (r, s1, rest1) \<Rightarrow>
                (let s2 = (clear_inputs s1)\<lparr>current_env := None\<rparr> in
                 if is_ok r
                 then (case signal_checkpoint T V rest1 of
                         None \<Rightarrow> None | Some (r2, rest2) \<Rightarrow> Some (r2, s2 # rest2))
                 else Some (r, s2 # rest1))))"
  by pat_completeness auto
termination
  by (relation "measure (\<lambda>(T, V, ss). length ss)") (auto dest: collect_input_length)

declare signal_checkpoint.simps(2) [simp del]

lemma signal_checkpoint_result:
  "list_all env_ready ss \<Longrightarrow> \<exists>r ss1. signal_checkpoint T V ss = Some (r, ss1) \<and> is_ok r \<and>
     list_all env_ready ss1 \<and> map kind ss1 = map kind ss"
proof (induction "length ss" arbitrary: ss rule: less_induct)
  case less
  show ?case
  proof (cases ss)
    case Nil
    then show ?thesis by simp
  next
    case (Cons s rest)
    note simp = signal_checkpoint.simps(2) [of T V s rest]
    have ready: "env_ready s" "list_all env_ready rest" using less.prems by (simp_all add: Cons)
    show ?thesis
    proof (cases "kind s = COLLECTION_FILTER \<and> rest \<noteq> []")
      case True
      obtain r s1 rest1 where c: "collect_input T V (kind (hd rest)) s rest = Some (r, s1, rest1)"
        and ok: "is_ok r" "list_all env_ready rest1" "length rest1 = length rest"
          "map kind rest1 = map kind rest"
        using collect_input_result [OF ready] by blast
      obtain r2 rest2 where sc: "signal_checkpoint T V rest1 = Some (r2, rest2)"
        and ok2: "is_ok r2" "list_all env_ready rest2" "map kind rest2 = map kind rest1"
        using less.hyps [of rest1] ok by (auto simp: Cons)
      have "kind s1 = kind s"
        using c by (auto simp: collect_input_def collect_def split: if_splits option.splits prod.splits)
      then have "kind ((clear_inputs s1)\<lparr>current_env := None\<rparr>) = kind s"
        by (simp add: kind_def clear_inputs_def)
      with True ok ok2 show ?thesis unfolding Cons simp c by (simp add: sc Let_def env_ready_def)
    next
      case False
      show ?thesis
      proof (cases "rest = []")
        case True
        then show ?thesis
          unfolding Cons simp using ready
          by (simp add: env_ready_def kind_def clear_inputs_def)
      next
        case nonempty: False
        then obtain r2 rest2 where "signal_checkpoint T V rest = Some (r2, rest2)" "is_ok r2"
          "list_all env_ready rest2" "map kind rest2 = map kind rest"
          using less.hyps [of rest] ready(2) by (auto simp: Cons)
        with False nonempty ready show ?thesis unfolding Cons simp by simp
      qed
    qed
  qed
qed

section \<open>Metering into a collection\<close>

text \<open>
  A collection that follows a collection receives every metered feature with shape data, in
  order, whatever the batch size.
\<close>

lemma run_collection:
  "kind n = COLLECTION_FILTER \<Longrightarrow>
     run_filter T b e n = (Features [], e, ran e (own (state_filter n)) n)"
  by (simp add: run_filter_def collection_state_step_def)

definition taken :: "'s srs_vt \<Rightarrow> 's feature list \<Rightarrow> 's feature list" where
  "taken V fs = map (\<lambda>f. snd (feature_get_extent V f)) (filter (has_shape_data V) fs)"

lemma taken_append: "taken V (fs @ gs) = taken V fs @ taken V gs"
  by (simp add: taken_def)

lemma traverse_collection:
  "kind n = COLLECTION_FILTER \<Longrightarrow>
     \<exists>n1. traverse T V e (push_next V (Features fs) (n # rest)) = (result_new, n1 # rest) \<and>
       kind n1 = COLLECTION_FILTER \<and> in_features n1 = in_features n @ taken V fs"
  by (simp add: traverse.simps(2) run_collection push_features_def taken_def kind_def
      ran_def)

lemma meter_batches_collection:
  "kind n = COLLECTION_FILTER \<Longrightarrow> is_ok r \<Longrightarrow>
     \<exists>r1 n1. meter_batches T V Features e bs r (n # rest) = (r1, n1 # rest) \<and>
       kind n1 = COLLECTION_FILTER \<and> in_features n1 = in_features n @ taken V (concat bs)"
proof (induction bs arbitrary: n r)
  case Nil
  then show ?case by (simp add: taken_def)
next
  case (Cons b bs)
  obtain n1 where n1: "traverse T V e (push_next V (Features b) (n # rest)) = (result_new, n1 # rest)"
    "kind n1 = COLLECTION_FILTER" "in_features n1 = in_features n @ taken V b"
    using traverse_collection [OF Cons.prems(1), of T V e b rest] by blast
  obtain r2 n2 where "meter_batches T V Features e bs result_new (n1 # rest) = (r2, n2 # rest)"
    "kind n2 = COLLECTION_FILTER" "in_features n2 = in_features n1 @ taken V (concat bs)"
    using Cons.IH [OF n1(2), of result_new] by auto
  with n1 Cons.prems(2) show ?case by (simp add: taken_append)
qed

lemma meter_data_collection:
  assumes "kind n = COLLECTION_FILTER"
  shows "\<exists>r n1. meter_data T V Features m e fs (n # rest) = (r, n1 # rest) \<and>
    kind n1 = COLLECTION_FILTER \<and> in_features n1 = in_features n @ taken V fs"
proof (cases "m = 0")
  case True
  then show ?thesis
    using traverse_collection [OF assms, of T V e fs rest] unfolding meter_data_def by auto
next
  case False
  then show ?thesis
    using meter_batches_collection [OF assms, of result_new T V e "batches m fs" rest]
    by (simp add: meter_data_def concat_batches)
qed

end
