(* ===== verification/Filter_Graph.thy ===== *)
theory Filter_Graph
  imports Checkpoint
begin

text \<open>
  \<^verbatim>\<open>src/osgGIS/FilterGraph.cpp\<close>: a graph is a list of filter prototypes; it builds a chain of
  states, drives the features of a cursor through it, signals the checkpoint and collects the
  nodes of the last node state. Reading the output of a node state that does not exist is a null
  dereference: \<open>None\<close>. Timing and log messages are left out.
\<close>

record ('s, 'o) graph_result =
  graph_ok :: bool
  out_env :: "('s, 'o) filter_env option"
  graph_msg :: string

definition graph_result_ok :: "('s, 'o) filter_env option \<Rightarrow> ('s, 'o) graph_result" where
  "graph_result_ok e = \<lparr>graph_ok = True, out_env = e, graph_msg = []\<rparr>"

definition graph_result_error :: "string \<Rightarrow> ('s, 'o) graph_result" where
  "graph_result_error m = \<lparr>graph_ok = False, out_env = None, graph_msg = m\<rparr>"

text \<open>The copy constructor does not copy the message.\<close>

definition graph_result_copy :: "('s, 'o) graph_result \<Rightarrow> ('s, 'o) graph_result" where
  "graph_result_copy rhs = \<lparr>graph_ok = graph_ok rhs, out_env = out_env rhs, graph_msg = []\<rparr>"

definition graph_result_srs :: "('s, 'o) graph_result \<Rightarrow> 's option" where
  "graph_result_srs r = (case out_env r of None \<Rightarrow> None | Some e \<Rightarrow> out_srs e)"

section \<open>The prototypes\<close>

definition append_filter :: "'x filt list \<Rightarrow> 'x filt \<Rightarrow> 'x filt list" where
  "append_filter g f = g @ [f]"

definition insert_filter :: "'x filt list \<Rightarrow> 'x filt \<Rightarrow> int \<Rightarrow> 'x filt list" where
  "insert_filter g f index =
     (let i = (if index < 0 then 0 else if index > int (length g) then length g else nat index)
      in take i g @ [f] @ drop i g)"

fun get_filter :: "'x filt list \<Rightarrow> string \<Rightarrow> 'x filt option" where
  "get_filter [] n = None"
| "get_filter (f # g) n = (if fname f = n then Some f else get_filter g n)"

section \<open>Running a graph\<close>

text \<open>The chain: one new state for each prototype, appended in order.\<close>

fun build_chain :: "'x filt list \<Rightarrow> ('s, 'd, 'n, 'o, 'x) fstate list \<Rightarrow>
    ('s, 'd, 'n, 'o, 'x) fstate list" where
  "build_chain [] ss = ss"
| "build_chain (f # g) ss =
     build_chain g (if ss = [] then [new_state f] else append_state ss (new_state f))"

text \<open>
  One round of the loop: the feature is pushed to the first state and the chain is traversed.
  \<open>push( Feature* )\<close> takes a feature only when it has shape data, like the list version.
\<close>

definition run_feature :: "('s, 'd, 'n, 'o, 'x) filter_vt \<Rightarrow> 's srs_vt \<Rightarrow> ('s, 'o) filter_env \<Rightarrow>
    's feature \<Rightarrow> 'x state_result \<times> ('s, 'd, 'n, 'o, 'x) fstate list \<Rightarrow>
    'x state_result \<times> ('s, 'd, 'n, 'o, 'x) fstate list" where
  "run_feature T V env f rc = traverse T V env (push_next V (Features [f]) (snd rc))"

definition run_cursor :: "('s, 'd, 'n, 'o, 'x) filter_vt \<Rightarrow> 's srs_vt \<Rightarrow> ('s, 'o) filter_env \<Rightarrow>
    ('s feature \<Rightarrow> 's feature) \<Rightarrow> 's cursor \<Rightarrow> ('s, 'd, 'n, 'o, 'x) fstate list \<Rightarrow>
    (('x state_result \<times> ('s, 'd, 'n, 'o, 'x) fstate list) \<times> 's cursor)" where
  "run_cursor T V env prepare c ss =
     cursor_fold V (\<lambda>rc. is_ok (fst rc)) (\<lambda>f. run_feature T V env (prepare f)) c (result_new, ss)"

text \<open>The features, then, unless there was an error, the checkpoint.\<close>

definition run_chain :: "('s, 'd, 'n, 'o, 'x) filter_vt \<Rightarrow> 's srs_vt \<Rightarrow> ('s, 'o) filter_env \<Rightarrow>
    ('s feature \<Rightarrow> 's feature) \<Rightarrow> 's cursor \<Rightarrow> ('s, 'd, 'n, 'o, 'x) fstate list \<Rightarrow>
    ('x state_result \<times> ('s, 'd, 'n, 'o, 'x) fstate list \<times> 's cursor) option" where
  "run_chain T V env prepare c ss =
     (case run_cursor T V env prepare c ss of ((r, ss1), c1) \<Rightarrow>
        if is_ok r
        then (case signal_checkpoint T V ss1 of
                None \<Rightarrow> None | Some (r2, ss2) \<Rightarrow> Some (r2, ss2, c1))
        else Some (r, ss1, c1))"

definition last_node_state ::
  "('s, 'd, 'n, 'o, 'x) fstate list \<Rightarrow> ('s, 'd, 'n, 'o, 'x) fstate option" where
  "last_node_state ss =
     (case filter (\<lambda>s. kind s = NODE_FILTER) ss of [] \<Rightarrow> None | ns \<Rightarrow> Some (last ns))"

text \<open>
  The first half of \<open>computeNodes\<close>: the chain is driven by its first state, which is one of three
  kinds; a graph that starts with a node filter reads no features.
\<close>

definition traverse_states :: "('s, 'd, 'n, 'o, 'x) filter_vt \<Rightarrow> 's srs_vt \<Rightarrow>
    ('s, 'd, 'n, 'o, 'x) fstate list \<Rightarrow> 's cursor \<Rightarrow> ('s, 'o) filter_env \<Rightarrow>
    ('x state_result \<times> ('s, 'd, 'n, 'o, 'x) fstate list \<times> 's cursor \<times> ('s, 'o) filter_env) option" where
  "traverse_states T V ss c env =
     (if ss = [] then Some (result_set STATUS_NODATA None, ss, c, env)
      else (let env1 = set_output_srs env (in_srs env) in
            if kind (hd ss) \<in> {FEATURE_FILTER, FRAGMENT_FILTER, COLLECTION_FILTER}
            then (case run_chain T V env1 (wind V) c ss of
                    None \<Rightarrow> None | Some (r, ss1, c1) \<Rightarrow> Some (r, ss1, c1, env1))
            else Some (result_new, ss, c, env1)))"

text \<open>
  \<open>computeNodes\<close>: the result, the nodes added to the output group (\<open>None\<close> is a null group), the
  environment and the cursor.
\<close>

definition compute_nodes :: "('s, 'd, 'n, 'o, 'x) filter_vt \<Rightarrow> 's srs_vt \<Rightarrow> 'x filt list \<Rightarrow>
    's cursor \<Rightarrow> ('s, 'o) filter_env \<Rightarrow>
    (('s, 'o) graph_result \<times> 'n list option \<times> ('s, 'o) filter_env \<times> 's cursor) option" where
  "compute_nodes T V g c env =
     (case traverse_states T V (build_chain g []) c env of
        None \<Rightarrow> None
      | Some (r, ss1, c1, env1) \<Rightarrow>
          (let output = (case last_node_state ss1 of
                           None \<Rightarrow> None
                         | Some s \<Rightarrow> if has_data r then Some (out_nodes s) else None)
           in if is_ok r
              then (case last_node_state ss1 of
                      None \<Rightarrow> None
                    | Some s \<Rightarrow> Some (graph_result_ok (current_env s), output, env1, c1))
              else Some (graph_result_error ''Filter graph failed to compute any nodes'',
                         output, env1, c1)))"

text \<open>
  \<open>computeFeatureStore\<close>: only feature filters are allowed, and the filter that writes the output
  store, \<open>writer\<close>, is put at the end of the chain.
\<close>

definition compute_feature_store :: "('s, 'd, 'n, 'o, 'x) filter_vt \<Rightarrow> 's srs_vt \<Rightarrow> 'x filt \<Rightarrow>
    'x filt list \<Rightarrow> 's cursor \<Rightarrow> ('s, 'o) filter_env \<Rightarrow>
    (('s, 'o) graph_result \<times> ('s, 'o) filter_env \<times> 's cursor) option" where
  "compute_feature_store T V writer g c env =
     (if list_ex (\<lambda>f. fkind f \<noteq> FEATURE_FILTER) g
      then Some (graph_result_error ''Illegal first filter type in filter graph'', env, c)
      else if g = [] then Some (graph_result_error ''Illegal: empty filter graph'', env, c)
      else (let env1 = set_output_srs env (in_srs env) in
            case run_chain T V env1 (\<lambda>f. f) c (append_state (build_chain g []) (new_state writer)) of
              None \<Rightarrow> None
            | Some (r, ss, c1) \<Rightarrow>
                Some (if is_ok r then graph_result_ok (current_env (last ss))
                      else graph_result_error ''Filter graph failed to compute feature store'',
                      env1, c1)))"

section \<open>Facts on prototypes and chains\<close>

lemma insert_filter_between:
  "0 \<le> i \<Longrightarrow> i \<le> int (length g) \<Longrightarrow> insert_filter g f i ! nat i = f \<and>
     length (insert_filter g f i) = Suc (length g)"
  by (auto simp: insert_filter_def Let_def nth_append)

lemma insert_filter_end: "int (length g) \<le> i \<Longrightarrow> insert_filter g f i = append_filter g f"
  by (auto simp: insert_filter_def append_filter_def Let_def)

lemma get_filter_Some: "get_filter g n = Some f \<Longrightarrow> f \<in> set g \<and> fname f = n"
  by (induction g) (auto split: if_splits)

lemma append_state_eq: "append_state ss t = ss @ [t]"
  by (induction ss) simp_all

lemma build_chain_eq: "build_chain g ss = ss @ map new_state g"
  by (induction g arbitrary: ss) (auto simp: append_state_eq)

lemma kind_new_state [simp]: "kind (new_state f) = fkind f"
  by (simp add: kind_def new_state_def)

lemma new_state_ready: "env_ready (new_state f)" "drained (new_state f)"
  by (simp_all add: env_ready_def drained_def new_state_def)

lemma chain_ready:
  "list_all env_ready (build_chain g [])" "list_all drained (build_chain g [])"
  by (simp_all add: build_chain_eq list_all_iff new_state_ready)

section \<open>Facts on running a chain\<close>

lemma run_feature_keeps:
  assumes "list_all env_ready (snd rc)"
  shows "list_all env_ready (snd (run_feature T V env f rc))"
    "map kind (snd (run_feature T V env f rc)) = map kind (snd rc)"
    "is_ok (fst (run_feature T V env f rc))"
proof -
  have "list_all env_ready (tl (push_next V (Features [f]) (snd rc)))"
    using assms by (cases "snd rc") simp_all
  then show "list_all env_ready (snd (run_feature T V env f rc))"
    unfolding run_feature_def by (rule traverse_env_ready)
qed (simp_all add: run_feature_def traverse_kinds traverse_never_error)

lemma list_loop_invariant:
  assumes "P b" and "\<And>b f. P b \<Longrightarrow> P (step f b)"
  shows "P (list_loop go step fs b)"
  using assms(1) by (induction fs arbitrary: b) (simp_all add: assms(2))

lemma run_cursor_keeps:
  fixes ss :: "('a, 'e, 'f, 'c, 'd) fstate list"
  assumes "cursor_ok c" and "list_all env_ready ss"
  shows "is_ok (fst (fst (run_cursor T V env prepare c ss))) \<and>
    list_all env_ready (snd (fst (run_cursor T V env prepare c ss))) \<and>
    map kind (snd (fst (run_cursor T V env prepare c ss))) = map kind ss"
  unfolding run_cursor_def cursor_fold_pending [OF assms(1)]
proof (rule list_loop_invariant)
  fix b :: "'d state_result \<times> ('a, 'e, 'f, 'c, 'd) fstate list" and f
  assume "is_ok (fst b) \<and> list_all env_ready (snd b) \<and> map kind (snd b) = map kind ss"
  with run_feature_keeps [of b T V env "prepare f"]
  show "is_ok (fst (run_feature T V env (prepare f) b)) \<and>
    list_all env_ready (snd (run_feature T V env (prepare f) b)) \<and>
    map kind (snd (run_feature T V env (prepare f) b)) = map kind ss" by simp
qed (use assms(2) in simp)

text \<open>A run of a chain whose states are ready returns, and never with an error.\<close>

lemma run_chain_returns:
  assumes "cursor_ok c" and "list_all env_ready ss"
  shows "\<exists>r ss1 c1. run_chain T V env prepare c ss = Some (r, ss1, c1) \<and> is_ok r \<and>
    map kind ss1 = map kind ss"
proof -
  obtain r ss1 c1 where r: "run_cursor T V env prepare c ss = ((r, ss1), c1)"
    by (cases "run_cursor T V env prepare c ss") auto
  then have "is_ok r" "list_all env_ready ss1" "map kind ss1 = map kind ss"
    using run_cursor_keeps [OF assms, of T V env prepare] by simp_all
  with signal_checkpoint_result [of ss1 T V] show ?thesis
    by (auto simp: run_chain_def r)
qed

lemma last_node_state_None:
  "last_node_state ss = None \<longleftrightarrow> NODE_FILTER \<notin> set (map kind ss)"
proof -
  have "last_node_state ss = None \<longleftrightarrow> filter (\<lambda>s. kind s = NODE_FILTER) ss = []"
    by (simp add: last_node_state_def split: list.split)
  then show ?thesis by (force simp: filter_empty_conv)
qed

text \<open>Without an error branch, a graph succeeds when it has a node filter and crashes when not.\<close>

lemma traverse_states_returns:
  assumes "cursor_ok c" and "list_all env_ready ss"
  shows "\<exists>r ss1 c1 env1. traverse_states T V ss c env = Some (r, ss1, c1, env1) \<and> is_ok r \<and>
    map kind ss1 = map kind ss"
proof -
  obtain r ss1 c1 where "run_chain T V (set_output_srs env (in_srs env)) (wind V) c ss =
      Some (r, ss1, c1)" "is_ok r" "map kind ss1 = map kind ss"
    using run_chain_returns [OF assms] by blast
  then show ?thesis by (simp add: traverse_states_def Let_def)
qed

lemma compute_nodes_cases:
  fixes T :: "('a, 'b, 'c, 'd, 'e) filter_vt"
  assumes "cursor_ok c"
  shows "if NODE_FILTER \<in> set (map fkind g)
    then \<exists>e out env1 c1. compute_nodes T V g c env = Some (graph_result_ok e, out, env1, c1)
    else compute_nodes T V g c env = None"
proof -
  obtain r ss1 c1 env1 where t: "traverse_states T V (build_chain g []) c env = Some (r, ss1, c1, env1)"
    and ok: "is_ok r" "map kind ss1 = map kind (build_chain g [] :: ('a, 'b, 'c, 'd, 'e) fstate list)"
    using traverse_states_returns [OF assms chain_ready(1)] by blast
  have "set (map kind ss1) = set (map fkind g)" unfolding ok(2) by (simp add: build_chain_eq)
  with last_node_state_None [of ss1] ok(1) show ?thesis
    by (cases "last_node_state ss1") (auto simp: compute_nodes_def t Let_def)
qed

section \<open>Without a collection, only the last feature survives\<close>

lemma run_feature_drained:
  assumes "list_all drained (snd rc)"
  shows "list_all drained (snd (run_feature T V env f rc))"
proof -
  have "list_all drained (tl (push_next V (Features [f]) (snd rc)))"
    using assms by (cases "snd rc") simp_all
  then show ?thesis unfolding run_feature_def by (rule traverse_drained)
qed

text \<open>Asking a feature for its extent stores it, so that asking again changes nothing.\<close>

lemma touch_valid:
  assumes "has_shape_data V f"
  shows "has_shape_data V (snd (feature_get_extent V f))"
    "snd (feature_get_extent V (snd (feature_get_extent V f))) = snd (feature_get_extent V f)"
proof -
  have "fextent (snd (feature_get_extent V f)) = fst (feature_get_extent V f)"
    by (simp add: feature_get_extent_def case_prod_unfold split: list.split)
  with assms have "is_valid (fextent (snd (feature_get_extent V f)))" by (simp add: has_shape_data_def)
  then show "has_shape_data V (snd (feature_get_extent V f))"
    "snd (feature_get_extent V (snd (feature_get_extent V f))) = snd (feature_get_extent V f)"
    by (simp_all add: has_shape_data_def feature_get_extent_def [of V "snd (feature_get_extent V f)"])
qed

lemma run_feature_two:
  assumes "map kind (snd rc) = [FEATURE_FILTER, NODE_FILTER]" and "list_all drained (snd rc)"
    and "\<And>x fs e. feature_process T x fs e = (fs, e, x)"
    and "\<And>x fs e. node_process_features T x fs e = (map mk fs, e, x)"
    and "has_shape_data V f"
  shows "fst (run_feature T V env f rc) = result_new \<and>
    (\<exists>s n. snd (run_feature T V env f rc) = [s, n] \<and> kind s = FEATURE_FILTER \<and>
       kind n = NODE_FILTER \<and> out_nodes n = [mk (snd (feature_get_extent V f))])"
proof -
  obtain s n where rc: "snd rc = [s, n]" "kind s = FEATURE_FILTER" "kind n = NODE_FILTER"
    using assms(1) by (auto simp: map_eq_Cons_conv)
  with assms(2) have empty: "in_features s = []" "in_features n = []" by (auto simp: drained_def)
  let ?t = "snd (feature_get_extent V f)"
  have p: "push_features V [f] s = s\<lparr>in_features := [?t]\<rparr>"
    using assms(5) by (simp add: push_features_def empty)
  have q: "push_features V [?t] n = n\<lparr>in_features := [?t]\<rparr>"
    using touch_valid [OF assms(5)] by (simp add: push_features_def empty)
  have k: "kind (s\<lparr>in_features := [?t]\<rparr>) = FEATURE_FILTER"
    "kind (n\<lparr>in_features := [?t]\<rparr>) = NODE_FILTER" using rc(2,3) by (simp_all add: kind_def)
  have run1: "run_filter T b e (s\<lparr>in_features := [?t]\<rparr>) =
      (Features [?t], e, ran e (own (state_filter s)) (s\<lparr>in_features := [?t]\<rparr>))" for b e
    by (simp add: run_filter_def step_defs k(1) assms(3))
  have run2: "run_filter T False e (n\<lparr>in_features := [?t]\<rparr>) = (Nodes [mk ?t], e,
      ran e (own (state_filter n)) (n\<lparr>in_features := [?t], out_nodes := [mk ?t]\<rparr>))" for e
    by (simp add: run_filter_def step_defs k(2) assms(4))
  show ?thesis
    unfolding run_feature_def rc push_next.simps push_batch_Features p
    by (simp add: traverse.simps(2) run1 run2 k q rc)
qed

lemma signal_without_collection:
  "COLLECTION_FILTER \<notin> set (map kind ss) \<Longrightarrow> signal_checkpoint T V ss = Some (result_new, ss)"
  by (induction ss) (auto simp: signal_checkpoint.simps(2))

lemma last_feature_only:
  assumes "cursor_ok c" and "pending V c = fs @ [f]"
    and "fkind p = FEATURE_FILTER" "fkind q = NODE_FILTER"
    and "\<And>x fs e. feature_process T x fs e = (fs, e, x)"
    and "\<And>x fs e. node_process_features T x fs e = (map mk fs, e, x)"
    and "has_shape_data V (wind V f)"
  shows "\<exists>r env1 c1. compute_nodes T V [p, q] c env =
    Some (r, Some [mk (snd (feature_get_extent V (wind V f)))], env1, c1)"
proof -
  let ?env = "set_output_srs env (in_srs env)" and ?ss = "[new_state p, new_state q]"
  let ?step = "\<lambda>b f. run_feature T V ?env (wind V f) b"
  have keeps: "map kind (snd b) = [FEATURE_FILTER, NODE_FILTER] \<and> list_all drained (snd b) \<and> is_ok (fst b)"
    if "b = foldl ?step (result_new, ?ss) gs" for b gs
    unfolding that
    by (rule foldl_invariant) (simp_all add: assms(3,4) new_state_ready run_feature_drained,
        simp_all add: run_feature_def traverse_kinds traverse_never_error)
  have loop: "list_loop (\<lambda>rc. is_ok (fst rc)) (\<lambda>f b. ?step b f) gs b = foldl ?step b gs"
    if "is_ok (fst b)" for gs b
    using that by (induction gs arbitrary: b) (simp_all add: run_feature_def traverse_never_error)
  let ?b = "foldl ?step (result_new, ?ss) fs"
  note b = keeps [of ?b fs, OF refl]
  from run_feature_two [OF conjunct1 [OF b] conjunct1 [OF conjunct2 [OF b]] assms(5,6,7), of ?env]
  obtain s n where last: "?step ?b f = (result_new, [s, n])" "kind s = FEATURE_FILTER"
    "kind n = NODE_FILTER" "out_nodes n = [mk (snd (feature_get_extent V (wind V f)))]"
    by (metis prod.collapse)
  have "fst (run_cursor T V ?env (wind V) c ?ss) = (result_new, [s, n])"
    unfolding run_cursor_def cursor_fold_pending [OF assms(1)] assms(2)
    by (simp add: loop last(1))
  then obtain c1 where "run_cursor T V ?env (wind V) c ?ss = ((result_new, [s, n]), c1)"
    by (metis prod.collapse)
  then have "run_chain T V ?env (wind V) c ?ss = Some (result_new, [s, n], c1)"
    by (simp add: run_chain_def signal_without_collection last(2,3))
  then show ?thesis
    by (simp add: compute_nodes_def build_chain_eq traverse_states_def Let_def assms(3) last
        last_node_state_def has_data_def) (simp add: result_new_def)
qed

end
