(* ===== verification/R_Tree.thy ===== *)
theory R_Tree
  imports Feature_Cursor Ogr_Srs "HOL-Library.Multiset"
begin

text \<open>
  \<^verbatim>\<open>src/osgGIS/RTree\<close> and \<^verbatim>\<open>RTree.cpp.inline\<close>: a Guttman R-tree with quadratic split, kept as a
  table from node ids to nodes with parent pointers. A node pointer is the id the node has in the
  table. A leaf entry holds a datum and an inner entry the id of a child, in the same word of the
  entry (a union), so both are the field \<open>slot\<close>. Adding an entry to a vector copies its extent.
  The two loops that follow pointers (down in \<open>choose_leaf\<close> and \<open>find_entries\<close>, up in
  \<open>adjust_tree\<close>) are partial functions: \<open>None\<close> is a null dereference, an iterator without an
  element, or a loop that does not end.
\<close>

section \<open>The data\<close>

record 's rt_entry =
  extent :: "'s geoextent"
  slot :: int

record 's rt_node =
  nid :: int
  parent_id :: int
  is_leaf :: bool
  entries :: "'s rt_entry list"

text \<open>The node table is a \<open>std::map\<close>: its entries in the order of the ids.\<close>

type_synonym 's node_map = "(int \<times> 's rt_node) list"

fun tab_put :: "int \<Rightarrow> 'v \<Rightarrow> (int \<times> 'v) list \<Rightarrow> (int \<times> 'v) list" where
  "tab_put k v [] = [(k, v)]"
| "tab_put k v ((k', v') # t) =
     (if k = k' then (k, v) # t else if k < k' then (k, v) # (k', v') # t
      else (k', v') # tab_put k v t)"

record 's rtree =
  node_table :: "'s node_map"
  root_id :: int
  node_id_gen :: int

abbreviation node_at :: "'s rtree \<Rightarrow> int \<Rightarrow> 's rt_node option" where
  "node_at t \<equiv> map_of (node_table t)"

definition put_node :: "int \<Rightarrow> 's rt_node \<Rightarrow> 's rtree \<Rightarrow> 's rtree" where
  "put_node i n t = t\<lparr>node_table := tab_put i n (node_table t)\<rparr>"

definition const_M :: nat where
  "const_M = 64"

definition rtree_new :: "'s rtree" where
  "rtree_new =
     \<lparr>node_table = [(1, \<lparr>nid = 1, parent_id = 0, is_leaf = True, entries = []\<rparr>)],
      root_id = 1, node_id_gen = 1\<rparr>"

text \<open>\<open>entries.push_back( entry )\<close>: the entry is copied, and with it the extent.\<close>

definition entry_copy :: "'s rt_entry \<Rightarrow> 's rt_entry" where
  "entry_copy e = e\<lparr>extent := ext_copy (extent e)\<rparr>"

definition push_entry :: "'s rt_entry list \<Rightarrow> 's rt_entry \<Rightarrow> 's rt_entry list" where
  "push_entry es e = es @ [entry_copy e]"

section \<open>Choosing a leaf\<close>

definition area_diff :: "'s srs_vt \<Rightarrow> 's geoextent \<Rightarrow> 's rt_entry \<Rightarrow> real" where
  "area_diff V ex e =
     get_area (expand_to_include_extent V (ext_copy (extent e)) ex) - get_area ex"

definition best_step ::
  "'s srs_vt \<Rightarrow> 's geoextent \<Rightarrow> real \<times> 's rt_entry \<Rightarrow> 's rt_entry \<Rightarrow> real \<times> 's rt_entry" where
  "best_step V ex best e =
     (let d = area_diff V ex e in if d < fst best then (d, e) else best)"

definition best_entry :: "'s srs_vt \<Rightarrow> 's geoextent \<Rightarrow> 's rt_entry list \<Rightarrow> 's rt_entry option" where
  "best_entry V ex es =
     (case es of [] \<Rightarrow> None | e0 # _ \<Rightarrow> Some (snd (foldl (best_step V ex) (dbl_max, e0) es)))"

partial_function (option) choose_leaf ::
  "'s srs_vt \<Rightarrow> 's rtree \<Rightarrow> int \<Rightarrow> 's geoextent \<Rightarrow> int option" where
  "choose_leaf V t i ex =
     do { n \<leftarrow> node_at t i;
          if is_leaf n then Some i
          else do { e \<leftarrow> best_entry V ex (entries n); choose_leaf V t (slot e) ex } }"

section \<open>Splitting a node\<close>

definition entries_extent :: "'s srs_vt \<Rightarrow> 's rt_entry list \<Rightarrow> 's geoextent" where
  "entries_extent V es = ext_copy (foldl (\<lambda>x e. expand_to_include_extent V x (extent e)) ext_default es)"

text \<open>The pairs of positions \<open>i < j\<close>, in the order of the two nested loops.\<close>

definition index_pairs :: "nat \<Rightarrow> (nat \<times> nat) list" where
  "index_pairs n = concat (map (\<lambda>i. map (Pair i) [Suc i..<n]) [0..<n])"

definition waste :: "'s srs_vt \<Rightarrow> 's rt_entry \<Rightarrow> 's rt_entry \<Rightarrow> real" where
  "waste V one two =
     get_area (expand_to_include_extent V (ext_copy (extent one)) (extent two)) -
       get_area (extent one) - get_area (extent two)"

definition seed_step ::
  "'s srs_vt \<Rightarrow> 's rt_entry list \<Rightarrow> real \<times> nat \<times> nat \<Rightarrow> nat \<times> nat \<Rightarrow> real \<times> nat \<times> nat" where
  "seed_step V es best ij =
     (let d = waste V (es ! fst ij) (es ! snd ij) in if d > fst best then (d, ij) else best)"

definition pick_seeds_q :: "'s srs_vt \<Rightarrow> 's rt_entry list \<Rightarrow> nat \<times> nat" where
  "pick_seeds_q V es = snd (foldl (seed_step V es) (-1, 0, 1) (index_pairs (length es)))"

text \<open>One entry of the distribution loop; the extents of the groups are recomputed as they grow.\<close>

type_synonym 's groups = "'s rt_entry list \<times> 's rt_entry list"

definition prefers_first :: "'s srs_vt \<Rightarrow> 's groups \<Rightarrow> 's rt_entry \<Rightarrow> bool" where
  "prefers_first V gs e =
     (let e1 = entries_extent V (fst gs); e2 = entries_extent V (snd gs);
          d1 = get_area (expand_to_include_extent V (ext_copy e1) (extent e)) - get_area e1;
          d2 = get_area (expand_to_include_extent V (ext_copy e2) (extent e)) - get_area e2
      in d1 < d2)"

definition distribute_step :: "'s srs_vt \<Rightarrow> 's groups \<Rightarrow> 's rt_entry \<Rightarrow> 's groups" where
  "distribute_step V gs e =
     (if length (fst gs) \<ge> const_M div 2 then (fst gs, push_entry (snd gs) e)
      else if length (snd gs) \<ge> const_M div 2 then (push_entry (fst gs) e, snd gs)
      else if prefers_first V gs e then (push_entry (fst gs) e, snd gs)
      else (fst gs, push_entry (snd gs) e))"

definition others :: "nat \<Rightarrow> nat \<Rightarrow> 'a list \<Rightarrow> 'a list" where
  "others i j es = map snd (filter (\<lambda>(k, e). k \<noteq> i \<and> k \<noteq> j) (enumerate 0 es))"

definition split_entries :: "'s srs_vt \<Rightarrow> 's rt_entry list \<Rightarrow> 's groups" where
  "split_entries V es =
     (case pick_seeds_q V es of (i, j) \<Rightarrow>
        foldl (distribute_step V) (push_entry [] (es ! i), push_entry [] (es ! j)) (others i j es))"

text \<open>The children that moved to the new node learn their new parent.\<close>

fun reparent :: "int \<Rightarrow> 's rt_entry list \<Rightarrow> 's rtree \<Rightarrow> 's rtree option" where
  "reparent p [] t = Some t"
| "reparent p (e # es) t =
     do { n \<leftarrow> node_at t (slot e); reparent p es (put_node (slot e) (n\<lparr>parent_id := p\<rparr>) t) }"

text \<open>
  \<open>splitNodeQ\<close> returns the new node. Splitting a node with fewer than two entries would read past
  the end of the vector.
\<close>

definition split_node_q :: "'s srs_vt \<Rightarrow> int \<Rightarrow> 's rtree \<Rightarrow> ('s rtree \<times> int) option" where
  "split_node_q V l t =
     do { n \<leftarrow> node_at t l;
          (if length (entries n) < 2 then None else Some ());
          let ll = node_id_gen t + 1;
              gs = split_entries V (entries n);
              t1 = put_node ll \<lparr>nid = ll, parent_id = parent_id n, is_leaf = is_leaf n,
                                entries = snd gs\<rparr> (t\<lparr>node_id_gen := ll\<rparr>);
              t2 = put_node l (n\<lparr>entries := fst gs\<rparr>) t1
          in (if is_leaf n then Some (t2, ll)
              else do { t3 \<leftarrow> reparent ll (snd gs) t2; Some (t3, ll) }) }"

section \<open>Adjusting the tree\<close>

text \<open>The first entry that refers to a child gets the extent of the child's entries.\<close>

fun refresh :: "int \<Rightarrow> 's geoextent \<Rightarrow> 's rt_entry list \<Rightarrow> 's rt_entry list" where
  "refresh c x [] = []"
| "refresh c x (e # es) =
     (if slot e = c then e\<lparr>extent := x\<rparr> # es else e # refresh c x es)"

definition child_entry :: "'s srs_vt \<Rightarrow> int \<Rightarrow> 's rt_node \<Rightarrow> 's rt_entry" where
  "child_entry V c n = \<lparr>extent = entries_extent V (entries n), slot = c\<rparr>"

text \<open>The root was split: a new root over both halves.\<close>

definition grow_root :: "'s srs_vt \<Rightarrow> int \<Rightarrow> int \<Rightarrow> 's rtree \<Rightarrow> 's rtree option" where
  "grow_root V n nn t =
     do { a \<leftarrow> node_at t n; b \<leftarrow> node_at t nn;
          let p = node_id_gen t + 1
          in Some (put_node nn (b\<lparr>parent_id := p\<rparr>) (put_node n (a\<lparr>parent_id := p\<rparr>)
               (put_node p \<lparr>nid = p, parent_id = parent_id a, is_leaf = False,
                  entries = push_entry (push_entry [] (child_entry V n a)) (child_entry V nn b)\<rparr>
                 (t\<lparr>node_id_gen := p, root_id := p\<rparr>)))) }"

text \<open>The new half is added to the parent \<open>p\<close>, which may have to be split in its turn.\<close>

definition adopt ::
  "'s srs_vt \<Rightarrow> int \<Rightarrow> int \<Rightarrow> 's rtree \<Rightarrow> ('s rtree \<times> int option) option" where
  "adopt V p nn t =
     do { b \<leftarrow> node_at t nn; n \<leftarrow> node_at t p;
          let es = push_entry (entries n) (child_entry V nn b);
              t1 = put_node p (n\<lparr>entries := es\<rparr>) (put_node nn (b\<lparr>parent_id := p\<rparr>) t)
          in (if length es \<ge> const_M
              then do { (t2, pp) \<leftarrow> split_node_q V p t1; Some (t2, Some pp) }
              else Some (t1, None)) }"

text \<open>One call of \<open>adjustTree\<close> up to its tail call, whose arguments are returned if there is one.\<close>

definition adjust_round :: "'s srs_vt \<Rightarrow> int \<Rightarrow> int option \<Rightarrow> 's rtree \<Rightarrow>
    ('s rtree \<times> (int \<times> int option) option) option" where
  "adjust_round V i nn t =
     do { n \<leftarrow> node_at t i;
          if parent_id n = 0
          then (case nn of
                  None \<Rightarrow> Some (t, None)
                | Some ll \<Rightarrow> do { t1 \<leftarrow> grow_root V i ll t; Some (t1, None) })
          else do {
            p \<leftarrow> node_at t (parent_id n);
            let t1 = put_node (parent_id n)
                       (p\<lparr>entries := refresh i (entries_extent V (entries n)) (entries p)\<rparr>) t
            in (case nn of
                  None \<Rightarrow> Some (t1, Some (parent_id n, None))
                | Some ll \<Rightarrow>
                    do { (t2, pp) \<leftarrow> adopt V (parent_id n) ll t1;
                         Some (t2, Some (parent_id n, pp)) }) } }"

partial_function (option) adjust_tree ::
  "'s srs_vt \<Rightarrow> int \<Rightarrow> int option \<Rightarrow> 's rtree \<Rightarrow> 's rtree option" where
  "adjust_tree V i nn t =
     do { (t1, again) \<leftarrow> adjust_round V i nn t;
          case again of None \<Rightarrow> Some t1 | Some (p, pp) \<Rightarrow> adjust_tree V p pp t1 }"

section \<open>Insertion and search\<close>

definition insert_at :: "'s srs_vt \<Rightarrow> int \<Rightarrow> 's geoextent \<Rightarrow> int \<Rightarrow> 's rtree \<Rightarrow> 's rtree option" where
  "insert_at V i ex d t =
     do { l \<leftarrow> choose_leaf V t i ex;
          n \<leftarrow> node_at t l;
          let es = push_entry (entries n) \<lparr>extent = ex, slot = d\<rparr>;
              t1 = put_node l (n\<lparr>entries := es\<rparr>) t
          in (if length es \<ge> const_M
              then do { (t2, ll) \<leftarrow> split_node_q V l t1; adjust_tree V l (Some ll) t2 }
              else adjust_tree V l None t1) }"

text \<open>An extent without area is widened first.\<close>

definition area_extent :: "'s geoextent \<Rightarrow> 's geoextent" where
  "area_extent ex = (if get_area ex = 0 then expand (ext_copy ex) 0.0001 0.0001 else ex)"

definition rtree_insert :: "'s srs_vt \<Rightarrow> 's geoextent \<Rightarrow> int \<Rightarrow> 's rtree \<Rightarrow> 's rtree option" where
  "rtree_insert V ex d t = insert_at V (root_id t) (area_extent ex) d t"

partial_function (option) find_entries ::
  "'s srs_vt \<Rightarrow> 's rtree \<Rightarrow> 's geoextent \<Rightarrow> bool \<Rightarrow> 's rt_entry list \<Rightarrow> int list \<Rightarrow> int list option" where
  "find_entries V t q leaf es results =
     (case es of
        [] \<Rightarrow> Some results
      | e # es' \<Rightarrow>
          if intersects V (extent e) q
          then (if leaf then find_entries V t q leaf es' (results @ [slot e])
                else do { n \<leftarrow> node_at t (slot e);
                          r \<leftarrow> find_entries V t q (is_leaf n) (entries n) results;
                          find_entries V t q leaf es' r })
          else find_entries V t q leaf es' results)"

definition rtree_find :: "'s srs_vt \<Rightarrow> 's rtree \<Rightarrow> 's geoextent \<Rightarrow> int list option" where
  "rtree_find V t q =
     do { n \<leftarrow> node_at t (root_id t); find_entries V t q (is_leaf n) (entries n) [] }"

end
