(* ===== verification/R_Tree_Links.thy ===== *)
theory R_Tree_Links
  imports R_Tree
begin

text \<open>
  The structure of the R-tree as a property of its node table: every inner entry refers to a node
  one level below that points back, covers the entries of that node, and every node but the
  root is referred to by its parent. While a node is adjusted, its own cover may be out of date
  (the set \<open>X\<close>) and a new half may not be referred to yet (the set \<open>D\<close>). Each update of the table
  that the insertion makes keeps these links and the items of the leaves.
\<close>

section \<open>The table\<close>

lemma map_of_tab_put [simp]: "map_of (tab_put k v t) = (map_of t)(k \<mapsto> v)"
  by (induction k v t rule: tab_put.induct) auto

lemma tab_put_sorted:
  "sorted_wrt (<) (map fst t) \<Longrightarrow> sorted_wrt (<) (map fst (tab_put k v t))"
proof (induction k v t rule: tab_put.induct)
  case (2 k v k' v' t)
  have "set (map fst (tab_put k v t)) \<subseteq> insert k (set (map fst t))" for t :: "(int \<times> 'a) list"
    by (induction k v t rule: tab_put.induct) auto
  with 2 show ?case by fastforce
qed simp

lemma put_node_simps [simp]:
  "node_table (put_node i n t) = tab_put i n (node_table t)"
  "root_id (put_node i n t) = root_id t" "node_id_gen (put_node i n t) = node_id_gen t"
  by (simp_all add: put_node_def)

section \<open>Links\<close>

type_synonym 's table = "int \<Rightarrow> 's rt_node option"

definition covers :: "'s rt_node \<Rightarrow> 's rt_entry \<Rightarrow> bool" where
  "covers c e \<longleftrightarrow> (\<forall>e' \<in> set (entries c). ext_box (extent e') \<subseteq> ext_box (extent e))"

definition node_ok :: "'s \<Rightarrow> int \<Rightarrow> (int \<Rightarrow> nat) \<Rightarrow> int \<Rightarrow> 's rt_node \<Rightarrow> bool" where
  "node_ok s r lv i n \<longleftrightarrow>
     0 < i \<and> nid n = i \<and> (is_leaf n \<longleftrightarrow> lv i = 0) \<and> (\<forall>e \<in> set (entries n). ext_wf s (extent e)) \<and>
     (i \<noteq> r \<or> \<not> is_leaf n \<longrightarrow> entries n \<noteq> []) \<and>
     (\<not> is_leaf n \<longrightarrow> distinct (map slot (entries n)))"

definition child_ok ::
  "'s table \<Rightarrow> (int \<Rightarrow> nat) \<Rightarrow> int set \<Rightarrow> int set \<Rightarrow> int \<Rightarrow> 's rt_entry \<Rightarrow> bool" where
  "child_ok T lv X D i e \<longleftrightarrow>
     (\<exists>c. T (slot e) = Some c \<and> parent_id c = i \<and> Suc (lv (slot e)) = lv i \<and> slot e \<notin> D \<and>
          (slot e \<notin> X \<longrightarrow> covers c e))"

definition parent_ok :: "'s table \<Rightarrow> int \<Rightarrow> 's rt_node \<Rightarrow> bool" where
  "parent_ok T i n \<longleftrightarrow>
     (\<exists>p. T (parent_id n) = Some p \<and> \<not> is_leaf p \<and> i \<in> slot ` set (entries p))"

definition linked ::
  "'s \<Rightarrow> 's table \<Rightarrow> int \<Rightarrow> (int \<Rightarrow> nat) \<Rightarrow> int set \<Rightarrow> int set \<Rightarrow> bool" where
  "linked s T r lv X D \<longleftrightarrow>
     finite (dom T) \<and>
     (\<forall>i n. T i = Some n \<longrightarrow> node_ok s r lv i n) \<and>
     (\<forall>i n e. T i = Some n \<longrightarrow> \<not> is_leaf n \<longrightarrow> e \<in> set (entries n) \<longrightarrow> child_ok T lv X D i e) \<and>
     (\<forall>i n. T i = Some n \<longrightarrow> i \<noteq> r \<longrightarrow> i \<notin> D \<longrightarrow> parent_ok T i n) \<and>
     (\<exists>n. T r = Some n \<and> parent_id n = 0) \<and> r \<notin> D"

lemma linkedD:
  assumes "linked s T r lv X D"
  shows "finite (dom T)" and "\<And>i n. T i = Some n \<Longrightarrow> node_ok s r lv i n"
    and "\<And>i n e. T i = Some n \<Longrightarrow> \<not> is_leaf n \<Longrightarrow> e \<in> set (entries n) \<Longrightarrow> child_ok T lv X D i e"
    and "\<And>i n. T i = Some n \<Longrightarrow> i \<noteq> r \<Longrightarrow> i \<notin> D \<Longrightarrow> parent_ok T i n"
    and "\<exists>n. T r = Some n \<and> parent_id n = 0" and "r \<notin> D"
  using assms by (simp_all add: linked_def)

lemma linkedI:
  assumes "finite (dom T)" and "\<And>i n. T i = Some n \<Longrightarrow> node_ok s r lv i n"
    and "\<And>i n e. T i = Some n \<Longrightarrow> \<not> is_leaf n \<Longrightarrow> e \<in> set (entries n) \<Longrightarrow> child_ok T lv X D i e"
    and "\<And>i n. T i = Some n \<Longrightarrow> i \<noteq> r \<Longrightarrow> i \<notin> D \<Longrightarrow> parent_ok T i n"
    and "\<exists>n. T r = Some n \<and> parent_id n = 0" and "r \<notin> D"
  shows "linked s T r lv X D"
  using assms by (simp add: linked_def)

lemma linked_child_parent:
  assumes "linked s T r lv X D" and "T i = Some n" "\<not> is_leaf n" "e \<in> set (entries n)"
    and "T (slot e) = Some c"
  shows "parent_id c = i" "Suc (lv (slot e)) = lv i" "slot e \<noteq> i" "slot e \<notin> D" "slot e \<noteq> r"
proof -
  note l = linkedD [OF assms(1)]
  have c: "parent_id c = i \<and> Suc (lv (slot e)) = lv i \<and> slot e \<notin> D"
    using l(3) [OF assms(2-4)] assms(5) by (auto simp: child_ok_def)
  then show "parent_id c = i" "Suc (lv (slot e)) = lv i" "slot e \<notin> D" "slot e \<noteq> i" by auto
  have "0 < i" using l(2) [OF assms(2)] by (simp add: node_ok_def)
  then show "slot e \<noteq> r" using l(5) c assms(5) by force
qed

text \<open>The parent of a node that is neither the root nor dangling.\<close>

lemma linked_parent:
  assumes "linked s T r lv X D" and "T i = Some n" "i \<noteq> r" "i \<notin> D"
  obtains p e where "T (parent_id n) = Some p" "\<not> is_leaf p" "e \<in> set (entries p)" "slot e = i"
    "lv (parent_id n) = Suc (lv i)" "0 < parent_id n" "parent_id n \<noteq> i"
proof -
  obtain p where p: "T (parent_id n) = Some p" "\<not> is_leaf p" "i \<in> slot ` set (entries p)"
    using linkedD(4) [OF assms] by (auto simp: parent_ok_def)
  then obtain e where e: "e \<in> set (entries p)" "slot e = i" by auto
  have "lv (parent_id n) = Suc (lv i)"
    using linked_child_parent(2) [OF assms(1) p(1,2) e(1)] e(2) assms(2) by simp
  moreover have "0 < parent_id n" using linkedD(2) [OF assms(1) p(1)] by (simp add: node_ok_def)
  ultimately show ?thesis using that p e by force
qed

text \<open>The root is the only node of the highest level, as far as nodes are not dangling.\<close>

lemma linked_level:
  assumes "linked s T r lv X D" and "i \<in> dom T" "i \<notin> D"
    and "\<And>d. d \<in> D \<Longrightarrow> d \<in> dom T \<Longrightarrow> lv d \<le> lv i"
  shows "lv i \<le> lv r \<and> (i \<noteq> r \<longrightarrow> lv i < lv r)"
proof -
  let ?M = "Max (lv ` dom T)"
  have fin: "finite (lv ` dom T)" using linkedD(1) [OF assms(1)] by simp
  have top: "j = r" if "j \<in> dom T" "j \<notin> D" "lv j = ?M" for j
  proof (rule ccontr)
    assume "j \<noteq> r"
    note j = that
    obtain n where n: "T j = Some n" using j(1) by auto
    from linked_parent [OF assms(1) n \<open>j \<noteq> r\<close> j(2)]
    have "\<exists>k \<in> dom T. lv k > lv j" by (metis domI lessI)
    then show False using j(3) Max_ge [OF fin] by force
  qed
  have le: "lv i \<le> ?M" using assms(2) fin by simp
  have "?M \<in> lv ` dom T" using fin assms(2) by (intro Max_in) blast+
  then obtain j where j: "j \<in> dom T" "lv j = ?M" by (metis imageE)
  show ?thesis
  proof (cases "j \<in> D")
    case True
    then have "lv i = ?M" using assms(4) [OF True j(1)] j(2) le by simp
    then show ?thesis using top assms(2,3) by blast
  next
    case False
    then have "j = r" using top j by blast
    then show ?thesis using top [OF assms(2,3)] le j(2) by fastforce
  qed
qed

section \<open>The items of the leaves\<close>

definition node_items :: "'s rt_node \<Rightarrow> ('s geoextent \<times> int) multiset" where
  "node_items n = (if is_leaf n then image_mset (\<lambda>e. (extent e, slot e)) (mset (entries n)) else {#})"

definition leaf_items :: "'s table \<Rightarrow> ('s geoextent \<times> int) multiset" where
  "leaf_items T = (\<Sum>i \<in> dom T. node_items (the (T i)))"

lemma leaf_items_new:
  assumes "finite (dom T)" and "T i = None"
  shows "leaf_items (T(i \<mapsto> n)) = leaf_items T + node_items n"
proof -
  have "i \<notin> dom T" using assms(2) by auto
  then have "(\<Sum>j \<in> dom T. node_items (the ((T(i \<mapsto> n)) j))) = leaf_items T"
    unfolding leaf_items_def by (intro sum.cong) auto
  with assms \<open>i \<notin> dom T\<close> show ?thesis by (simp add: leaf_items_def)
qed

lemma leaf_items_upd:
  assumes "finite (dom T)" and "T i = Some m"
  shows "leaf_items (T(i \<mapsto> n)) + node_items m = leaf_items T + node_items n"
proof -
  let ?T = "T(i := None)"
  have f: "finite (dom ?T)" using assms(1) by simp
  have "T = ?T(i \<mapsto> m)" "T(i \<mapsto> n) = ?T(i \<mapsto> n)" using assms(2) by auto
  then show ?thesis using leaf_items_new [OF f, of i] by (metis (no_types, lifting) add.assoc
    add.commute fun_upd_same)
qed

lemma leaf_items_same:
  assumes "finite (dom T)" and "T i = Some m" and "node_items n = node_items m"
  shows "leaf_items (T(i \<mapsto> n)) = leaf_items T"
  using leaf_items_upd [OF assms(1,2), of n] assms(3) by simp

section \<open>Extents of groups of entries\<close>

context srs_interface begin

lemma expand_default_extent:
  assumes "ext_wf s f" and "usable s"
  shows "ext_wf s (expand_to_include_extent V ext_default f) \<and>
    ext_box f \<subseteq> ext_box (expand_to_include_extent V ext_default f)"
proof -
  note f = ext_wfD [OF assms(1)]
  let ?e1 = "expand_to_include_point V ext_default (sw f)"
  have eq: "expand_to_include_extent V ext_default f = expand_to_include_point V ?e1 (ne f)"
    using f ext_wf_observe(2) [OF assms(1)] by (simp add: expand_to_include_extent_def ext_default_def)
  have wf1: "ext_wf s ?e1" using f by (intro expand_default_wf)
  have "pt_xy (sw f) \<in> ext_box ?e1"
    unfolding expand_default [OF f(3)] by (simp add: ext_box_def pt_xy_def)
  then have "pt_xy (sw f) \<in> ext_box (expand_to_include_point V ?e1 (ne f))"
    using expand_point_box_mono [OF wf1] by blast
  moreover have "pt_xy (ne f) \<in> ext_box (expand_to_include_point V ?e1 (ne f))"
    using expand_point_box_in [OF wf1, of "ne f" V] f transform_same [OF assms(2) f(4) f(6)] by simp
  ultimately show ?thesis unfolding eq using expand_point_wf [OF wf1] box_of_corners by blast
qed

lemma expand_all_covers:
  "usable s \<Longrightarrow> ext_wf s x \<Longrightarrow> \<forall>e \<in> set es. ext_wf s (extent e) \<Longrightarrow>
     ext_wf s (foldl (\<lambda>x e. expand_to_include_extent V x (extent e)) x es) \<and>
     ext_box x \<subseteq> ext_box (foldl (\<lambda>x e. expand_to_include_extent V x (extent e)) x es) \<and>
     (\<forall>e \<in> set es. ext_box (extent e) \<subseteq>
        ext_box (foldl (\<lambda>x e. expand_to_include_extent V x (extent e)) x es))"
proof (induction es arbitrary: x)
  case (Cons e es)
  have "ext_wf s (extent e)" using Cons.prems(3) by simp
  note x = expand_extent_same [OF Cons.prems(2) this Cons.prems(1)]
  show ?case using Cons.IH [OF Cons.prems(1) x(1)] Cons.prems(3) x(2,3) by auto
qed simp

lemma entries_extent_covers:
  assumes "usable s" and "es \<noteq> []" and "\<forall>e \<in> set es. ext_wf s (extent e)"
  shows "ext_wf s (entries_extent V es)"
    and "\<And>e. e \<in> set es \<Longrightarrow> ext_box (extent e) \<subseteq> ext_box (entries_extent V es)"
proof -
  obtain e0 es' where es: "es = e0 # es'" using assms(2) by (cases es) auto
  let ?x = "expand_to_include_extent V ext_default (extent e0)"
  have x: "ext_wf s ?x" "ext_box (extent e0) \<subseteq> ext_box ?x"
    using expand_default_extent [of s "extent e0"] assms by (auto simp: es)
  have r: "ext_wf s (foldl (\<lambda>x e. expand_to_include_extent V x (extent e)) ?x es') \<and>
     ext_box ?x \<subseteq> ext_box (foldl (\<lambda>x e. expand_to_include_extent V x (extent e)) ?x es') \<and>
     (\<forall>e \<in> set es'. ext_box (extent e) \<subseteq>
        ext_box (foldl (\<lambda>x e. expand_to_include_extent V x (extent e)) ?x es'))"
    using assms(3) by (intro expand_all_covers assms(1) x(1)) (simp add: es)
  then have c: "entries_extent V es = foldl (\<lambda>x e. expand_to_include_extent V x (extent e)) ?x es'"
    using ext_wf_copy [of s] by (simp add: entries_extent_def es)
  show "ext_wf s (entries_extent V es)" using r c by simp
  show "ext_box (extent e) \<subseteq> ext_box (entries_extent V es)" if "e \<in> set es" for e
    unfolding c using that r x(2) by (auto simp: es)
qed

end

lemma entry_copy_wf: "ext_wf s (extent e) \<Longrightarrow> entry_copy e = e"
  by (simp add: entry_copy_def ext_wf_copy)

lemma push_entry_wf [simp]: "ext_wf s (extent e) \<Longrightarrow> push_entry es e = es @ [e]"
  by (simp add: push_entry_def entry_copy_wf)

end
