(* ===== verification/R_Tree_Steps.thy ===== *)
theory R_Tree_Steps
  imports R_Tree_Links
begin

text \<open>
  The updates of the table that the insertion is made of, and what each of them keeps: splitting a
  node, growing a root, refreshing the entry of a child, adopting a new half.
\<close>

section \<open>Distributing entries\<close>

lemma index_pairs_set: "set (index_pairs n) = {(i, j). i < j \<and> j < n}"
  by (force simp: index_pairs_def image_iff)

lemma pick_seeds_bounds:
  assumes "2 \<le> length es" and "pick_seeds_q V es = (i, j)"
  shows "i < j \<and> j < length es"
proof -
  have "case snd (foldl (seed_step V es) (-1, 0, 1) (index_pairs (length es))) of
      (i, j) \<Rightarrow> i < j \<and> j < length es"
    by (rule foldl_invariant) (use assms(1) in \<open>auto simp: seed_step_def Let_def index_pairs_set\<close>)
  with assms(2) show ?thesis by (simp add: pick_seeds_q_def)
qed

lemma distribute_mset:
  "\<forall>e \<in> set xs. entry_copy e = e \<Longrightarrow> foldl (distribute_step V) gs xs = hs \<Longrightarrow>
     mset (fst hs) + mset (snd hs) = mset (fst gs) + mset (snd gs) + mset xs \<and>
     (fst gs \<noteq> [] \<longrightarrow> fst hs \<noteq> []) \<and> (snd gs \<noteq> [] \<longrightarrow> snd hs \<noteq> []) \<and>
     (length (fst gs) \<le> 32 \<and> length (snd gs) \<le> 32 \<and>
      length (fst gs) + length (snd gs) + length xs \<le> 64 \<longrightarrow>
        length (fst hs) \<le> 32 \<and> length (snd hs) \<le> 32)"
proof (induction xs arbitrary: gs)
  case (Cons x xs)
  let ?g = "distribute_step V gs x"
  have g: "mset (fst ?g) + mset (snd ?g) = mset (fst gs) + mset (snd gs) + {#x#} \<and>
     (fst gs \<noteq> [] \<longrightarrow> fst ?g \<noteq> []) \<and> (snd gs \<noteq> [] \<longrightarrow> snd ?g \<noteq> []) \<and>
     length (fst ?g) + length (snd ?g) = length (fst gs) + length (snd gs) + 1 \<and>
     (length (fst gs) \<le> 32 \<and> length (snd gs) \<le> 32 \<and>
      length (fst gs) + length (snd gs) + 1 \<le> 64 \<longrightarrow>
        length (fst ?g) \<le> 32 \<and> length (snd ?g) \<le> 32)"
    using Cons.prems(1) by (simp add: distribute_step_def push_entry_def const_M_def)
  have f: "foldl (distribute_step V) ?g xs = hs" and c: "\<forall>e \<in> set xs. entry_copy e = e"
    using Cons.prems by simp_all
  note ih = Cons.IH [OF c f]
  have "mset (fst hs) + mset (snd hs) = mset (fst gs) + mset (snd gs) + mset (x # xs)"
    using ih g by simp
  moreover have "length (fst gs) \<le> 32 \<and> length (snd gs) \<le> 32 \<and>
      length (fst gs) + length (snd gs) + length (x # xs) \<le> 64 \<longrightarrow>
        length (fst hs) \<le> 32 \<and> length (snd hs) \<le> 32"
    using ih g by simp
  ultimately show ?case using ih g by blast
qed auto

lemma others_mset:
  assumes "i < j" and "j < length es"
  shows "add_mset (es ! i) (add_mset (es ! j) (mset (others i j es))) = mset es"
proof -
  let ?P = "\<lambda>(k, e). k \<noteq> i \<and> k \<noteq> j"
  let ?E = "enumerate 0 es"
  have "set (filter (\<lambda>x. \<not> ?P x) ?E) = {(i, es ! i), (j, es ! j)}"
    using assms by (auto simp: in_set_enumerate_eq nth_enumerate_eq)
  moreover have "distinct (filter (\<lambda>x. \<not> ?P x) ?E)" by simp
  ultimately have "mset (filter (\<lambda>x. \<not> ?P x) ?E) = mset_set {(i, es ! i), (j, es ! j)}"
    using mset_set_set [of "filter (\<lambda>x. \<not> ?P x) ?E"] by simp
  also have "\<dots> = {#(i, es ! i), (j, es ! j)#}" using assms(1) by simp
  finally have "mset (filter (\<lambda>x. \<not> ?P x) ?E) = {#(i, es ! i), (j, es ! j)#}" .
  moreover have "mset ?E = mset (filter ?P ?E) + mset (filter (\<lambda>x. \<not> ?P x) ?E)"
    using multiset_partition [of "mset ?E" ?P] by (simp add: case_prod_unfold)
  ultimately have e: "mset ?E = mset (filter ?P ?E) + {#(i, es ! i), (j, es ! j)#}" by (simp only:)
  have "mset es = image_mset snd (mset ?E)" by (metis map_snd_enumerate mset_map)
  also have "\<dots> = image_mset snd (mset (filter ?P ?E)) + {#es ! i, es ! j#}" unfolding e by simp
  also have "image_mset snd (mset (filter ?P ?E)) = mset (others i j es)"
    unfolding others_def by (rule mset_map [symmetric])
  finally show ?thesis by simp
qed

lemma split_entries_mset:
  assumes "\<forall>e \<in> set es. ext_wf s (extent e)" and "2 \<le> length es"
    and "split_entries V es = (g1, g2)"
  shows "mset g1 + mset g2 = mset es" "g1 \<noteq> []" "g2 \<noteq> []"
    and "length es = 64 \<Longrightarrow> length g1 = 32 \<and> length g2 = 32"
proof -
  obtain i j where ij: "pick_seeds_q V es = (i, j)" by (cases "pick_seeds_q V es") auto
  have b: "i < j" "j < length es" using pick_seeds_bounds [OF assms(2) ij] by simp_all
  note m = others_mset [OF b]
  have w: "\<forall>e \<in> set es. entry_copy e = e" using assms(1) entry_copy_wf [of s] by blast
  have "set (others i j es) \<subseteq> set es" using arg_cong [OF m, of set_mset] by auto
  then have o: "\<forall>e \<in> set (others i j es). entry_copy e = e" using w by blast
  have ei: "push_entry [] (es ! i) = [es ! i]" "push_entry [] (es ! j) = [es ! j]"
    using w b by (simp_all add: push_entry_def)
  have "foldl (distribute_step V) ([es ! i], [es ! j]) (others i j es) = (g1, g2)"
    using assms(3) by (simp add: split_entries_def ij ei)
  note d = distribute_mset [OF o this]
  show mm: "mset g1 + mset g2 = mset es" unfolding m [symmetric] using d by (simp add: add_mset_commute)
  show "g1 \<noteq> []" "g2 \<noteq> []" using d by simp_all
  assume len: "length es = 64"
  have "length (others i j es) + 2 = length es" using arg_cong [OF m, of size] by simp
  with d len have "length g1 \<le> 32 \<and> length g2 \<le> 32" by simp
  moreover have "length g1 + length g2 = 64" using arg_cong [OF mm, of size] len by simp
  ultimately show "length g1 = 32 \<and> length g2 = 32" by simp
qed

section \<open>Splitting a node\<close>

lemma reparent_table:
  "\<forall>e \<in> set es. node_at t (slot e) \<noteq> None \<Longrightarrow>
     \<exists>t'. reparent p es t = Some t' \<and> root_id t' = root_id t \<and> node_id_gen t' = node_id_gen t \<and>
       node_at t' = (\<lambda>j. if j \<in> slot ` set es then map_option (\<lambda>n. n\<lparr>parent_id := p\<rparr>) (node_at t j)
                        else node_at t j)"
proof (induction es arbitrary: t)
  case (Cons e es)
  then obtain n where n: "node_at t (slot e) = Some n" by auto
  let ?t = "put_node (slot e) (n\<lparr>parent_id := p\<rparr>) t"
  have "\<forall>e \<in> set es. node_at ?t (slot e) \<noteq> None" using Cons.prems by simp
  from Cons.IH [OF this] show ?case using n by (auto simp: fun_eq_iff)
qed (simp add: fun_eq_iff)

text \<open>The table after a split, pointwise.\<close>

definition split_table ::
  "'s table \<Rightarrow> int \<Rightarrow> 's rt_node \<Rightarrow> 's groups \<Rightarrow> int \<Rightarrow> 's table" where
  "split_table T l n gs ll j =
     (if j = ll then Some \<lparr>nid = ll, parent_id = parent_id n, is_leaf = is_leaf n, entries = snd gs\<rparr>
      else if j = l then Some (n\<lparr>entries := fst gs\<rparr>)
      else if \<not> is_leaf n \<and> j \<in> slot ` set (snd gs) then map_option (\<lambda>c. c\<lparr>parent_id := ll\<rparr>) (T j)
      else T j)"

lemma split_node_table:
  assumes "linked s (node_at t) r lv X D" and "node_at t l = Some n" and "2 \<le> length (entries n)"
    and "node_at t (node_id_gen t + 1) = None"
  shows "\<exists>t'. split_node_q V l t = Some (t', node_id_gen t + 1) \<and> root_id t' = root_id t \<and>
    node_id_gen t' = node_id_gen t + 1 \<and>
    node_at t' = split_table (node_at t) l n (split_entries V (entries n)) (node_id_gen t + 1)"
proof -
  let ?ll = "node_id_gen t + 1"
  obtain g1 g2 where g: "split_entries V (entries n) = (g1, g2)"
    by (cases "split_entries V (entries n)") auto
  have wf: "\<forall>e \<in> set (entries n). ext_wf s (extent e)"
    using linkedD(2) [OF assms(1,2)] by (simp add: node_ok_def)
  have sub: "set g2 \<subseteq> set (entries n)"
    using split_entries_mset(1) [OF wf assms(3) g] by (metis set_mset_mset set_mset_union sup_ge2)
  let ?t1 = "put_node ?ll \<lparr>nid = ?ll, parent_id = parent_id n, is_leaf = is_leaf n, entries = g2\<rparr>
    (t\<lparr>node_id_gen := ?ll\<rparr>)"
  let ?t2 = "put_node l (n\<lparr>entries := g1\<rparr>) ?t1"
  have len: "\<not> length (entries n) < 2" using assms(3) by simp
  show ?thesis
  proof (cases "is_leaf n")
    case True
    then show ?thesis
      using assms(2,4) len
      by (auto simp: split_node_q_def Let_def g split_table_def fun_eq_iff)
  next
    case False
    have ne: "l \<noteq> ?ll" using assms(2,4) by auto
    have ch: "slot e \<noteq> l \<and> slot e \<noteq> ?ll \<and> node_at t (slot e) \<noteq> None" if "e \<in> set g2" for e
    proof -
      have e: "e \<in> set (entries n)" using sub that by blast
      obtain c where c: "node_at t (slot e) = Some c"
        using linkedD(3) [OF assms(1,2) False e] by (auto simp: child_ok_def)
      then show ?thesis
        using linked_child_parent(3) [OF assms(1,2) False e c] assms(4) by auto
    qed
    then have "\<forall>e \<in> set g2. node_at ?t2 (slot e) \<noteq> None" by simp
    from reparent_table [OF this, of ?ll] obtain t3 where t3: "reparent ?ll g2 ?t2 = Some t3"
      "root_id t3 = root_id t" "node_id_gen t3 = ?ll"
      "node_at t3 = (\<lambda>j. if j \<in> slot ` set g2 then map_option (\<lambda>n. n\<lparr>parent_id := ?ll\<rparr>) (node_at ?t2 j)
         else node_at ?t2 j)" by auto
    have "node_at t3 j = split_table (node_at t) l n (g1, g2) ?ll j" for j
    proof (cases "j \<in> slot ` set g2")
      case True
      then have "j \<noteq> l \<and> j \<noteq> ?ll" using ch by (metis imageE)
      with True False show ?thesis by (simp add: t3(4) split_table_def)
    next
      case nin: False
      then show ?thesis using ne by (simp add: t3(4) split_table_def)
    qed
    then have "node_at t3 = split_table (node_at t) l n (g1, g2) ?ll" ..
    then show ?thesis using assms(2) False t3 len by (simp add: split_node_q_def Let_def g)
  qed
qed


text \<open>A split moves entries only: the links stay, the new half dangles, the items are the same.\<close>

lemma split_table_other:
  assumes "T j = Some m" "j \<noteq> l" "j \<noteq> ll"
  shows "\<exists>m'. split_table T l n gs ll j = Some m' \<and> is_leaf m' = is_leaf m \<and> entries m' = entries m \<and>
    parent_id m' = (if \<not> is_leaf n \<and> j \<in> slot ` set (snd gs) then ll else parent_id m)"
  using assms by (auto simp: split_table_def)

lemma split_table_new [simp]:
  "split_table T l n gs ll ll =
     Some \<lparr>nid = ll, parent_id = parent_id n, is_leaf = is_leaf n, entries = snd gs\<rparr>"
  "l \<noteq> ll \<Longrightarrow> split_table T l n gs ll l = Some (n\<lparr>entries := fst gs\<rparr>)"
  by (simp_all add: split_table_def)

lemma split_table_cases:
  assumes "split_table T l n gs ll j = Some m"
  obtains "j = ll" "m = \<lparr>nid = ll, parent_id = parent_id n, is_leaf = is_leaf n, entries = snd gs\<rparr>"
  | "j \<noteq> ll" "j = l" "m = n\<lparr>entries := fst gs\<rparr>"
  | m0 where "j \<noteq> ll" "j \<noteq> l" "T j = Some m0" "is_leaf m = is_leaf m0" "entries m = entries m0"
      "nid m = nid m0" "parent_id m = (if \<not> is_leaf n \<and> j \<in> slot ` set (snd gs) then ll else parent_id m0)"
  using assms by (auto simp: split_table_def split: if_splits)

lemma split_table_dom:
  "T l = Some n \<Longrightarrow> dom (split_table T l n gs ll) = insert ll (dom T)"
  by (auto simp: split_table_def split: if_splits)

lemma split_groups:
  assumes "mset (fst gs) + mset (snd gs) = mset es"
  shows "set (fst gs) \<union> set (snd gs) = set es"
    and "distinct (map slot es) \<Longrightarrow> distinct (map slot (fst gs)) \<and> distinct (map slot (snd gs)) \<and>
      slot ` set (fst gs) \<inter> slot ` set (snd gs) = {}"
proof -
  show "set (fst gs) \<union> set (snd gs) = set es"
    using arg_cong [OF assms, of set_mset] by simp
  have "mset (map slot (fst gs @ snd gs)) = mset (map slot es)"
    using arg_cong [OF assms, of "image_mset slot"] by simp
  then have "distinct (map slot (fst gs @ snd gs)) = distinct (map slot es)"
    by (rule mset_eq_imp_distinct_iff)
  then show "distinct (map slot es) \<Longrightarrow> distinct (map slot (fst gs)) \<and> distinct (map slot (snd gs)) \<and>
      slot ` set (fst gs) \<inter> slot ` set (snd gs) = {}" by simp
qed

lemma split_table_linked:
  assumes L: "linked s T r lv {l} {}" and l: "T l = Some n" and ll: "T ll = None" "0 < ll"
    and g: "mset (fst gs) + mset (snd gs) = mset (entries n)" "fst gs \<noteq> []" "snd gs \<noteq> []"
  shows "linked s (split_table T l n gs ll) r (lv(ll := lv l)) {l} {ll}"
proof (rule linkedI)
  let ?T = "split_table T l n gs ll" and ?lv = "lv(ll := lv l)"
  note D = linkedD [OF L]
  have ne: "l \<noteq> ll" "r \<noteq> ll" using l ll D(5) by auto
  note ok = D(2) [OF l]
  note sub = split_groups(1) [OF g(1)]
  have dist: "distinct (map slot (fst gs)) \<and> distinct (map slot (snd gs)) \<and>
      slot ` set (fst gs) \<inter> slot ` set (snd gs) = {}" if "\<not> is_leaf n"
    using split_groups(2) [OF g(1)] ok that by (simp add: node_ok_def)
  have moved: "parent_id c = l" "j \<noteq> r"
    if "\<not> is_leaf n" "j \<in> slot ` set (snd gs)" "T j = Some c" for j c
  proof -
    note a = that
    obtain e where e: "e \<in> set (entries n)" "slot e = j" using a(2) sub by blast
    show "parent_id c = l" "j \<noteq> r"
      using linked_child_parent(1,5) [OF L l a(1) e(1)] a(3) e(2) by simp_all
  qed
  show "finite (dom ?T)" using D(1) by (simp add: split_table_dom [where T = T, OF l])
  show "r \<notin> {ll}" using ne by simp
  show "\<exists>m. ?T r = Some m \<and> parent_id m = 0"
  proof -
    obtain m where m: "T r = Some m" "parent_id m = 0" using D(5) by blast
    show ?thesis
    proof (cases "r = l")
      case True
      with m l ne show ?thesis by simp
    next
      case False
      have "\<not> (\<not> is_leaf n \<and> r \<in> slot ` set (snd gs))" using moved(2) m(1) by blast
      with split_table_other [of T r m l ll n gs] m False ne show ?thesis by auto
    qed
  qed
  show "node_ok s r ?lv j m" if "?T j = Some m" for j m
    using that
  proof (cases rule: split_table_cases)
    case 1
    with ok ll(2) ne sub g(3) dist show ?thesis by (auto simp: node_ok_def)
  next
    case 2
    with ok ne sub g(2) dist show ?thesis by (auto simp: node_ok_def)
  next
    case (3 m0)
    with D(2) [of j m0] show ?thesis by (simp add: node_ok_def)
  qed
  show "parent_ok ?T j m" if "?T j = Some m" "j \<noteq> r" "j \<notin> {ll}" for j m
    using that(1)
  proof (cases rule: split_table_cases)
    case 1
    with that show ?thesis by simp
  next
    case 2
    from linked_parent [OF L l] that 2(2) obtain p where
      p: "T (parent_id n) = Some p" "\<not> is_leaf p" "l \<in> slot ` set (entries p)" "parent_id n \<noteq> l"
      by (metis empty_iff image_eqI)
    then have "parent_id n \<noteq> ll" using ll(1) by auto
    from split_table_other [where T = T, OF p(1,4) this, of n gs] p show ?thesis
      by (auto simp: parent_ok_def 2)
  next
    case (3 m0)
    note jr = that(2)
    show ?thesis
    proof (cases "\<not> is_leaf n \<and> j \<in> slot ` set (snd gs)")
      case True
      then show ?thesis using 3(7) by (simp add: parent_ok_def)
    next
      case False
      obtain p where p: "T (parent_id m0) = Some p" "\<not> is_leaf p" "j \<in> slot ` set (entries p)"
        using D(4) [OF 3(3)] jr by (auto simp: parent_ok_def)
      have pid: "parent_id m = parent_id m0" using 3(7) False by simp
      show ?thesis
      proof (cases "parent_id m0 = l")
        case True
        then have "p = n" using p(1) l by simp
        then have "j \<in> slot ` set (fst gs)" using p False sub by blast
        then show ?thesis using ne True \<open>p = n\<close> p(2) by (simp add: parent_ok_def pid)
      next
        case nl: False
        have "parent_id m0 \<noteq> ll" using p(1) ll(1) by auto
        from split_table_other [where T = T, OF p(1) nl this, of n gs] p show ?thesis
          by (auto simp: parent_ok_def pid)
      qed
    qed
  qed
  show "child_ok ?T ?lv {l} {ll} j e" if "?T j = Some m" "\<not> is_leaf m" "e \<in> set (entries m)" for j m e
    using that(1)
  proof (cases rule: split_table_cases)
    case 1
    then have e: "e \<in> set (entries n)" "\<not> is_leaf n" "e \<in> set (snd gs)" using that sub by auto
    obtain c where c: "T (slot e) = Some c" "Suc (lv (slot e)) = lv l" "slot e \<noteq> l \<longrightarrow> covers c e"
      using D(3) [OF l e(2,1)] by (auto simp: child_ok_def)
    have nl: "slot e \<noteq> l" "slot e \<noteq> ll" using c ll(1) by auto
    from split_table_other [where T = T, OF c(1) nl, of n gs] e c nl 1(1) show ?thesis
      by (auto simp: child_ok_def covers_def)
  next
    case 2
    then have e: "e \<in> set (entries n)" "\<not> is_leaf n" "e \<in> set (fst gs)" using that sub by auto
    obtain c where c: "T (slot e) = Some c" "Suc (lv (slot e)) = lv l" "slot e \<noteq> l \<longrightarrow> covers c e"
        "parent_id c = l"
      using D(3) [OF l e(2,1)] by (auto simp: child_ok_def)
    have nl: "slot e \<noteq> l" "slot e \<noteq> ll" using c ll(1) by auto
    have "slot e \<notin> slot ` set (snd gs)" using dist [OF e(2)] e(3) by blast
    with split_table_other [where T = T, OF c(1) nl, of n gs] c nl 2 show ?thesis
      by (auto simp: child_ok_def covers_def)
  next
    case (3 m0)
    then have e: "\<not> is_leaf m0" "e \<in> set (entries m0)" using that by simp_all
    obtain c where c: "T (slot e) = Some c" "Suc (lv (slot e)) = lv j" "slot e \<noteq> l \<longrightarrow> covers c e"
        "parent_id c = j"
      using D(3) [OF 3(3) e] by (auto simp: child_ok_def)
    have nl: "slot e \<noteq> ll" using c ll(1) by auto
    show ?thesis
    proof (cases "slot e = l")
      case True
      with c l ne 3(1) show ?thesis by (simp add: child_ok_def)
    next
      case False
      have "\<not> (\<not> is_leaf n \<and> slot e \<in> slot ` set (snd gs))" using moved(1) c(1,4) 3(2) by blast
      with split_table_other [where T = T, OF c(1) False nl, of n gs] c False nl 3(1) show ?thesis
        by (auto simp: child_ok_def covers_def)
    qed
  qed
qed

lemma sum_insert_two:
  "finite A \<Longrightarrow> a \<notin> insert b A \<Longrightarrow> b \<notin> A \<Longrightarrow>
     sum f (insert a (insert b A)) = f a + (f b + sum f A)"
  by simp

lemma split_table_items:
  assumes "finite (dom T)" and "T l = Some n" "T ll = None"
    and "mset (fst gs) + mset (snd gs) = mset (entries n)"
  shows "leaf_items (split_table T l n gs ll) = leaf_items T"
proof -
  let ?T = "split_table T l n gs ll"
  have ne: "l \<noteq> ll" using assms(2,3) by auto
  have fin: "finite (dom T - {l})" using assms(1) by simp
  have d: "dom ?T = insert ll (insert l (dom T - {l}))" "dom T = insert l (dom T - {l})"
    using assms(2) by (auto simp: split_table_dom)
  have "node_items (the (?T j)) = node_items (the (T j))" if "j \<in> dom T - {l}" for j
  proof -
    have j: "j \<noteq> l" "j \<noteq> ll" using that assms(3) by auto
    have "j \<in> dom T" using that by simp
    then obtain m where mm: "T j = Some m" by auto
    with j have m: "T j = Some m" "j \<noteq> l" "j \<noteq> ll" by simp_all
    from split_table_other [where T = T, OF m, of n gs] m(1) show ?thesis by (auto simp: node_items_def)
  qed
  then have rest: "(\<Sum>j \<in> dom T - {l}. node_items (the (?T j))) = (\<Sum>j \<in> dom T - {l}. node_items (the (T j)))"
    by (rule sum.cong [OF refl])
  have "node_items (the (?T ll)) + node_items (the (?T l)) = node_items n"
    using arg_cong [OF assms(4), of "image_mset (\<lambda>e. (extent e, slot e))"] ne
    by (simp add: node_items_def add.commute)
  moreover have "leaf_items ?T = node_items (the (?T ll)) + (node_items (the (?T l)) +
      (\<Sum>j \<in> dom T - {l}. node_items (the (?T j))))"
  proof -
    have "ll \<notin> insert l (dom T - {l})" "l \<notin> dom T - {l}" using ne assms(3) by auto
    with fin show ?thesis unfolding leaf_items_def d(1) by (intro sum_insert_two)
  qed
  moreover have "leaf_items T = node_items n + (\<Sum>j \<in> dom T - {l}. node_items (the (T j)))"
    using sum.remove [OF assms(1), of l "\<lambda>j. node_items (the (T j))"] assms(2)
    by (auto simp: leaf_items_def)
  ultimately show ?thesis using rest by (simp add: add.assoc [symmetric])
qed

end
