(* ===== verification/R_Tree_Insert.thy ===== *)
theory R_Tree_Insert
  imports R_Tree_Steps
begin

text \<open>The other updates of an insertion, and the insertion as a whole.\<close>

section \<open>A new entry in a leaf\<close>

lemma push_leaf_linked:
  assumes L: "linked s T r lv {} {}" and l: "T l = Some n" "is_leaf n" and e: "ext_wf s (extent e)"
  shows "linked s (T(l \<mapsto> n\<lparr>entries := entries n @ [e]\<rparr>)) r lv {l} {}"
proof (rule linkedI)
  let ?T = "T(l \<mapsto> n\<lparr>entries := entries n @ [e]\<rparr>)"
  note D = linkedD [OF L]
  show "finite (dom ?T)" using D(1) by simp
  show "\<exists>m. ?T r = Some m \<and> parent_id m = 0" using D(5) l(1) by auto
  show "node_ok s r lv j m" if "?T j = Some m" for j m
  proof (cases "j = l")
    case True
    with that D(2) [OF l(1)] l(2) e show ?thesis by (auto simp: node_ok_def)
  next
    case False
    with that D(2) show ?thesis by simp
  qed
  show "child_ok ?T lv {l} {} j x" if "?T j = Some m" "\<not> is_leaf m" "x \<in> set (entries m)" for j m x
  proof -
    have "j \<noteq> l" using that(1,2) l(2) by (auto split: if_splits)
    with that have "T j = Some m" by simp
    from D(3) [OF this that(2,3)] l(1) show ?thesis by (auto simp: child_ok_def)
  qed
  show "parent_ok ?T j m" if "?T j = Some m" "j \<noteq> r" "j \<notin> {}" for j m
  proof -
    obtain m0 where m0: "T j = Some m0" "parent_id m = parent_id m0"
      using \<open>?T j = Some m\<close> l(1) by (cases "j = l") auto
    then obtain p where p: "T (parent_id m0) = Some p" "\<not> is_leaf p" "j \<in> slot ` set (entries p)"
      using D(4) [OF m0(1) \<open>j \<noteq> r\<close>] by (auto simp: parent_ok_def)
    moreover have "parent_id m0 \<noteq> l" using p(1,2) l by auto
    ultimately show ?thesis by (simp add: parent_ok_def m0(2))
  qed
qed simp

lemma push_leaf_items:
  assumes "finite (dom T)" and "T l = Some n" "is_leaf n"
  shows "leaf_items (T(l \<mapsto> n\<lparr>entries := entries n @ [e]\<rparr>)) = add_mset (extent e, slot e) (leaf_items T)"
  using leaf_items_upd [OF assms(1,2), of "n\<lparr>entries := entries n @ [e]\<rparr>"] assms(3)
  by (simp add: node_items_def)

section \<open>Refreshing the entry of a child\<close>

lemma refresh_slots [simp]: "map slot (refresh i x es) = map slot es"
  by (induction es) auto

lemma refresh_slot_set [simp]: "slot ` set (refresh i x es) = slot ` set es"
  by (metis refresh_slots list.set_map)

lemma refresh_length [simp]: "length (refresh i x es) = length es"
  by (metis refresh_slots length_map)

lemma refresh_set:
  "distinct (map slot es) \<Longrightarrow> e \<in> set (refresh i x es) \<Longrightarrow>
     (slot e = i \<and> extent e = x) \<or> (slot e \<noteq> i \<and> e \<in> set es)"
proof (induction es)
  case (Cons a es)
  then show ?case by (cases "slot a = i") (auto simp: image_iff)
qed simp

lemma refresh_linked:
  assumes L: "linked s T r lv {i} D" and i: "T i = Some n" "i \<noteq> r" "i \<notin> D"
    and p: "T (parent_id n) = Some p"
    and x: "ext_wf s x" "\<And>e. e \<in> set (entries n) \<Longrightarrow> ext_box (extent e) \<subseteq> ext_box x"
  shows "linked s (T(parent_id n \<mapsto> p\<lparr>entries := refresh i x (entries p)\<rparr>)) r lv {parent_id n} D"
proof (rule linkedI)
  let ?P = "parent_id n" and ?p = "p\<lparr>entries := refresh i x (entries p)\<rparr>"
  let ?T = "T(?P \<mapsto> ?p)"
  note D = linkedD [OF L]
  have P: "\<not> is_leaf p" "?P \<noteq> i"
    by (rule linked_parent [OF L i]; use p in auto)+
  have old: "\<exists>m0. T j = Some m0 \<and> parent_id m = parent_id m0 \<and> is_leaf m = is_leaf m0 \<and>
      slot ` set (entries m) = slot ` set (entries m0)" if "?T j = Some m" for j m
    using that p by (cases "j = ?P") clarsimp+
  have up: "\<exists>m'. ?T j = Some m' \<and> parent_id m' = parent_id m \<and> is_leaf m' = is_leaf m \<and>
      slot ` set (entries m') = slot ` set (entries m)" if "T j = Some m" for j m
    using that p by (cases "j = ?P") clarsimp+
  have dist: "distinct (map slot (entries p))" using D(2) [OF p] P(1) by (simp add: node_ok_def)
  show "finite (dom ?T)" using D(1) by simp
  show "\<exists>m. ?T r = Some m \<and> parent_id m = 0" using D(5) up by metis
  show "r \<notin> D" by (rule D(6))
  show "node_ok s r lv j m" if "?T j = Some m" for j m
  proof (cases "j = ?P")
    case True
    then have m: "m = ?p" using that by simp
    have "\<forall>e \<in> set (entries ?p). ext_wf s (extent e)"
      using refresh_set [OF dist] D(2) [OF p] x(1) by (auto simp: node_ok_def)
    moreover have "entries p \<noteq> [] \<longrightarrow> entries ?p \<noteq> []" by (cases "entries p") auto
    ultimately show ?thesis using D(2) [OF p] P(1) by (simp add: node_ok_def True m)
  next
    case False
    with that D(2) show ?thesis by simp
  qed
  show "child_ok ?T lv {?P} D j e" if "?T j = Some m" "\<not> is_leaf m" "e \<in> set (entries m)" for j m e
  proof (cases "j = ?P \<and> slot e = i")
    case True
    then have m: "m = ?p" "e \<in> set (refresh i x (entries p))" using that by auto
    then have ex: "extent e = x" using refresh_set [OF dist m(2)] True by simp
    have "lv ?P = Suc (lv i)" by (rule linked_parent [OF L i]) simp
    then show ?thesis using True i x(2) P(2) by (auto simp: child_ok_def covers_def ex)
  next
    case False
    obtain m0 where m0: "T j = Some m0" "\<not> is_leaf m0" "e \<in> set (entries m0)"
    proof (cases "j = ?P")
      case True
      then have "e \<in> set (refresh i x (entries p))"
        using \<open>?T j = Some m\<close> \<open>e \<in> set (entries m)\<close> by auto
      then have "e \<in> set (entries p)" using refresh_set [OF dist] False True by blast
      then show ?thesis using \<open>j = ?P\<close> p P(1) by (intro that) auto
    next
      case nP: False
      with \<open>?T j = Some m\<close> have "T j = Some m" by simp
      then show ?thesis using \<open>\<not> is_leaf m\<close> \<open>e \<in> set (entries m)\<close> by (rule that)
    qed
    obtain c where c: "T (slot e) = Some c" "parent_id c = j" "Suc (lv (slot e)) = lv j"
        "slot e \<notin> D" "slot e \<noteq> i \<longrightarrow> covers c e"
      using D(3) [OF m0] by (auto simp: child_ok_def)
    have "slot e \<noteq> i" using False c(1,2) i(1) by auto
    with c p show ?thesis by (auto simp: child_ok_def)
  qed
  show "parent_ok ?T j m" if "?T j = Some m" "j \<noteq> r" "j \<notin> D" for j m
  proof -
    obtain m0 where m0: "T j = Some m0" "parent_id m = parent_id m0" using old [OF \<open>?T j = Some m\<close>] by blast
    then obtain q where q: "T (parent_id m0) = Some q" "\<not> is_leaf q" "j \<in> slot ` set (entries q)"
      using D(4) [OF m0(1) \<open>j \<noteq> r\<close> \<open>j \<notin> D\<close>] by (auto simp: parent_ok_def)
    from up [OF q(1)] q show ?thesis unfolding parent_ok_def m0(2) by blast
  qed
qed

lemma inner_items [simp]: "\<not> is_leaf p \<Longrightarrow> node_items p = {#}"
  by (simp add: node_items_def)

section \<open>Adopting a new half\<close>

lemma adopt_linked:
  assumes L: "linked s T r lv {i} {nn}" and b: "T nn = Some b" and p: "T i = Some p" "\<not> is_leaf p"
    and lev: "Suc (lv nn) = lv i"
    and x: "ext_wf s x" "\<And>e. e \<in> set (entries b) \<Longrightarrow> ext_box (extent e) \<subseteq> ext_box x"
  shows "linked s (T(nn \<mapsto> b\<lparr>parent_id := i\<rparr>,
    i \<mapsto> p\<lparr>entries := entries p @ [\<lparr>extent = x, slot = nn\<rparr>]\<rparr>)) r lv {i} {}"
proof (rule linkedI)
  let ?p = "p\<lparr>entries := entries p @ [\<lparr>extent = x, slot = nn\<rparr>]\<rparr>"
  let ?T = "T(nn \<mapsto> b\<lparr>parent_id := i\<rparr>, i \<mapsto> ?p)"
  note D = linkedD [OF L]
  have ne: "nn \<noteq> i" using lev by auto
  have nr: "nn \<noteq> r" using D(6) by simp
  have fresh: "nn \<notin> slot ` set (entries p)" using D(3) [OF p] by (auto simp: child_ok_def)
  have up: "\<exists>m'. ?T j = Some m' \<and> is_leaf m' = is_leaf m \<and> set (entries m) \<subseteq> set (entries m') \<and>
      (j \<noteq> nn \<longrightarrow> parent_id m' = parent_id m) \<and> (j \<noteq> i \<longrightarrow> entries m' = entries m)"
    if "T j = Some m" for j m
    using that p b ne by (cases "j = i"; cases "j = nn") auto
  show "finite (dom ?T)" using D(1) by simp
  show "\<exists>m. ?T r = Some m \<and> parent_id m = 0" using D(5) up nr by metis
  show "r \<notin> {}" by simp
  show "node_ok s r lv j m" if "?T j = Some m" for j m
  proof (cases "j = i")
    case True
    with that D(2) [OF p(1)] p(2) fresh x(1) show ?thesis by (auto simp: node_ok_def)
  next
    case False
    with that D(2) [OF b] D(2) [of j m] ne show ?thesis
      by (cases "j = nn") (auto simp: node_ok_def)
  qed
  show "child_ok ?T lv {i} {} j e" if "?T j = Some m" "\<not> is_leaf m" "e \<in> set (entries m)" for j m e
  proof (cases "j = i \<and> slot e = nn")
    case True
    have "e = \<lparr>extent = x, slot = nn\<rparr>" using that fresh True by auto
    then have "extent e = x" by simp
    then show ?thesis using True ne lev x(2) by (auto simp: child_ok_def covers_def)
  next
    case False
    obtain m0 where m0: "T j = Some m0" "\<not> is_leaf m0" "e \<in> set (entries m0)"
    proof (cases "j = i")
      case True
      then show ?thesis using False p \<open>?T j = Some m\<close> \<open>e \<in> set (entries m)\<close> by (intro that [of p]) auto
    next
      case nP: False
      then show ?thesis using b \<open>?T j = Some m\<close> \<open>\<not> is_leaf m\<close> \<open>e \<in> set (entries m)\<close>
        by (cases "j = nn") (auto intro!: that)
    qed
    obtain c where c: "T (slot e) = Some c" "parent_id c = j" "Suc (lv (slot e)) = lv j"
        "slot e \<noteq> nn" "slot e \<noteq> i \<longrightarrow> covers c e"
      using D(3) [OF m0] by (auto simp: child_ok_def)
    with up [OF c(1)] show ?thesis by (auto simp: child_ok_def covers_def)
  qed
  show "parent_ok ?T j m" if "?T j = Some m" "j \<noteq> r" "j \<notin> {}" for j m
  proof (cases "j = nn")
    case True
    with that ne p show ?thesis by (auto simp: parent_ok_def)
  next
    case False
    obtain m0 where m0: "T j = Some m0" "parent_id m = parent_id m0"
      using \<open>?T j = Some m\<close> False p by (cases "j = i") auto
    then obtain q where q: "T (parent_id m0) = Some q" "\<not> is_leaf q" "j \<in> slot ` set (entries q)"
      using D(4) [OF m0(1) \<open>j \<noteq> r\<close>] False by (auto simp: parent_ok_def)
    from up [OF q(1)] q show ?thesis unfolding parent_ok_def m0(2) by blast
  qed
qed

section \<open>A new root\<close>

lemma grow_root_linked:
  assumes L: "linked s T r lv {r} {nn}" and a: "T r = Some a" and b: "T nn = Some b"
    and lev: "lv nn = lv r" and p: "T p = None" "0 < p"
    and x: "ext_wf s x" "\<And>e. e \<in> set (entries a) \<Longrightarrow> ext_box (extent e) \<subseteq> ext_box x"
    and y: "ext_wf s y" "\<And>e. e \<in> set (entries b) \<Longrightarrow> ext_box (extent e) \<subseteq> ext_box y"
    and ne: "entries a \<noteq> []"
  shows "linked s (T(p \<mapsto> \<lparr>nid = p, parent_id = 0, is_leaf = False,
      entries = [\<lparr>extent = x, slot = r\<rparr>, \<lparr>extent = y, slot = nn\<rparr>]\<rparr>,
    r \<mapsto> a\<lparr>parent_id := p\<rparr>, nn \<mapsto> b\<lparr>parent_id := p\<rparr>)) p (lv(p := Suc (lv r))) {} {}"
proof (rule linkedI)
  let ?n = "\<lparr>nid = p, parent_id = 0, is_leaf = False,
    entries = [\<lparr>extent = x, slot = r\<rparr>, \<lparr>extent = y, slot = nn\<rparr>]\<rparr>"
  let ?T = "T(p \<mapsto> ?n, r \<mapsto> a\<lparr>parent_id := p\<rparr>, nn \<mapsto> b\<lparr>parent_id := p\<rparr>)" and ?lv = "lv(p := Suc (lv r))"
  note D = linkedD [OF L]
  have d: "r \<noteq> nn" "p \<noteq> r" "p \<noteq> nn" using D(6) a b p by auto
  have up: "\<exists>m'. ?T j = Some m' \<and> is_leaf m' = is_leaf m \<and> entries m' = entries m \<and> j \<noteq> p \<and>
      (j \<noteq> nn \<and> j \<noteq> r \<longrightarrow> parent_id m' = parent_id m)"
    if "T j = Some m" for j m
    using that a b d p by (cases "j = r"; cases "j = nn") auto
  have old: "\<exists>m0. T j = Some m0 \<and> is_leaf m = is_leaf m0 \<and> entries m = entries m0 \<and> nid m = nid m0 \<and>
      parent_id m = (if j = r \<or> j = nn then p else parent_id m0)" if "?T j = Some m" "j \<noteq> p" for j m
    using that a b d by (cases "j = r"; cases "j = nn") auto
  show "finite (dom ?T)" using D(1) by simp
  show "\<exists>m. ?T p = Some m \<and> parent_id m = 0" using d by simp
  show "p \<notin> {}" by simp
  show "node_ok s p ?lv j m" if "?T j = Some m" for j m
  proof (cases "j = p")
    case True
    with that d p(2) x(1) y(1) show ?thesis by (auto simp: node_ok_def)
  next
    case False
    obtain m0 where "T j = Some m0" "is_leaf m = is_leaf m0" "entries m = entries m0" "nid m = nid m0"
      using old [OF \<open>?T j = Some m\<close> False] by blast
    with D(2) [of j m0] False ne a show ?thesis by (cases "j = r") (auto simp: node_ok_def)
  qed
  show "child_ok ?T ?lv {} {} j e" if "?T j = Some m" "\<not> is_leaf m" "e \<in> set (entries m)" for j m e
  proof (cases "j = p")
    case True
    then have "m = ?n" using that(1) d by simp
    then consider "slot e = r" "extent e = x" | "slot e = nn" "extent e = y"
      using \<open>e \<in> set (entries m)\<close> by auto
    then show ?thesis
    proof cases
      case 1
      have "covers (a\<lparr>parent_id := p\<rparr>) e" by (simp add: covers_def 1 x(2))
      then show ?thesis using True d by (simp add: child_ok_def 1)
    next
      case 2
      have "covers (b\<lparr>parent_id := p\<rparr>) e" by (simp add: covers_def 2 y(2))
      then show ?thesis using True d lev by (simp add: child_ok_def 2)
    qed
  next
    case False
    obtain m0 where m0: "T j = Some m0" "is_leaf m = is_leaf m0" "entries m = entries m0"
      using old [OF \<open>?T j = Some m\<close> False] by blast
    then have i: "\<not> is_leaf m0" "e \<in> set (entries m0)" using that(2,3) by simp_all
    obtain c where c: "T (slot e) = Some c" "Suc (lv (slot e)) = lv j" "slot e \<noteq> nn"
        "slot e \<noteq> r \<longrightarrow> covers c e" "parent_id c = j"
      using D(3) [OF m0(1) i] by (auto simp: child_ok_def)
    have "slot e \<noteq> r" using linked_child_parent(5) [OF L m0(1) i c(1)] .
    with up [OF c(1)] c False show ?thesis by (auto simp: child_ok_def covers_def)
  qed
  show "parent_ok ?T j m" if "?T j = Some m" "j \<noteq> p" "j \<notin> {}" for j m
  proof (cases "j = r \<or> j = nn")
    case True
    with that d show ?thesis by (auto simp: parent_ok_def split: if_splits)
  next
    case False
    obtain m0 where m0: "T j = Some m0" "parent_id m = parent_id m0"
      using old [OF \<open>?T j = Some m\<close> \<open>j \<noteq> p\<close>] False by auto
    then obtain q where q: "T (parent_id m0) = Some q" "\<not> is_leaf q" "j \<in> slot ` set (entries q)"
      using D(4) [OF m0(1)] False by (auto simp: parent_ok_def)
    from up [OF q(1)] obtain q' where "?T (parent_id m0) = Some q'" "is_leaf q' = is_leaf q"
      "entries q' = entries q" by blast
    then show ?thesis unfolding parent_ok_def m0(2) using q(2,3) by metis
  qed
qed

end
