(* ===== verification/R_Tree_Correct.thy ===== *)
theory R_Tree_Correct
  imports R_Tree_Insert
begin

text \<open>
  The insertion as a whole returns a tree of the same kind with one more item, and a search
  returns exactly the items whose extents meet the query. Nodes other than the root hold between
  32 and 63 entries.
\<close>

section \<open>Well-formed trees\<close>

definition sized :: "'s table \<Rightarrow> int \<Rightarrow> int set \<Rightarrow> bool" where
  "sized T r X \<longleftrightarrow> (\<forall>i n. T i = Some n \<longrightarrow> i \<notin> X \<longrightarrow>
     length (entries n) < 64 \<and> (i \<noteq> r \<longrightarrow> 32 \<le> length (entries n)) \<and>
     (\<not> is_leaf n \<longrightarrow> 2 \<le> length (entries n)))"

definition ids_below :: "'s table \<Rightarrow> int \<Rightarrow> bool" where
  "ids_below T g \<longleftrightarrow> 0 < g \<and> (\<forall>i. T i \<noteq> None \<longrightarrow> i \<le> g)"

definition tree_ok :: "'s \<Rightarrow> 's rtree \<Rightarrow> bool" where
  "tree_ok s t \<longleftrightarrow> (\<exists>lv. linked s (node_at t) (root_id t) lv {} {}) \<and>
     sized (node_at t) (root_id t) {} \<and> ids_below (node_at t) (node_id_gen t)"

abbreviation rt_items :: "'s rtree \<Rightarrow> ('s geoextent \<times> int) multiset" where
  "rt_items t \<equiv> leaf_items (node_at t)"

text \<open>The state in which \<open>adjust_tree\<close> is called for the node \<open>i\<close> and its new half.\<close>

definition adjusting :: "'s \<Rightarrow> 's rtree \<Rightarrow> (int \<Rightarrow> nat) \<Rightarrow> int \<Rightarrow> int option \<Rightarrow> bool" where
  "adjusting s t lv i nn \<longleftrightarrow>
     linked s (node_at t) (root_id t) lv {i} (set_option nn) \<and>
     sized (node_at t) (root_id t) {} \<and> ids_below (node_at t) (node_id_gen t) \<and>
     (\<exists>n. node_at t i = Some n \<and> entries n \<noteq> [] \<and> (nn \<noteq> None \<longrightarrow> 32 \<le> length (entries n))) \<and>
     (\<forall>ll. nn = Some ll \<longrightarrow> lv ll = lv i \<and> ll \<noteq> i \<and>
        (\<exists>b. node_at t ll = Some b \<and> 32 \<le> length (entries b)))"

lemma ids_below_put:
  "ids_below T g \<Longrightarrow> i \<le> h \<Longrightarrow> g \<le> h \<Longrightarrow> ids_below (T(i \<mapsto> n)) h"
  by (force simp: ids_below_def)

lemma ids_below_fresh: "ids_below T g \<Longrightarrow> T (g + 1) = None"
  by (force simp: ids_below_def)

lemma sized_put:
  "sized T r X \<Longrightarrow> length (entries n) < 64 \<Longrightarrow> (i \<noteq> r \<Longrightarrow> 32 \<le> length (entries n)) \<Longrightarrow>
     (\<not> is_leaf n \<Longrightarrow> 2 \<le> length (entries n)) \<Longrightarrow> sized (T(i \<mapsto> n)) r (X - {i})"
  by (auto simp: sized_def)

lemma sized_put_same:
  "sized T r X \<Longrightarrow> T i = Some m \<Longrightarrow> length (entries n) = length (entries m) \<Longrightarrow> is_leaf n = is_leaf m \<Longrightarrow>
     sized (T(i \<mapsto> n)) r X"
  by (auto simp: sized_def)

section \<open>Splitting\<close>

lemma split_node_adjusting:
  assumes L: "linked s (node_at t) (root_id t) lv {l} {}" and l: "node_at t l = Some n"
    and len: "length (entries n) = 64"
    and sz: "sized (node_at t) (root_id t) {l}" and ids: "ids_below (node_at t) (node_id_gen t)"
  shows "\<exists>t' ll. split_node_q V l t = Some (t', ll) \<and> root_id t' = root_id t \<and> rt_items t' = rt_items t \<and>
    node_at t ll = None \<and> adjusting s t' (lv(ll := lv l)) l (Some ll)"
proof -
  let ?T = "node_at t" and ?ll = "node_id_gen t + 1"
  note D = linkedD [OF L]
  have fresh: "?T ?ll = None" using ids by (rule ids_below_fresh)
  have wf: "\<forall>e \<in> set (entries n). ext_wf s (extent e)" using D(2) [OF l] by (simp add: node_ok_def)
  obtain g1 g2 where g: "split_entries V (entries n) = (g1, g2)"
    by (cases "split_entries V (entries n)") auto
  have two: "2 \<le> length (entries n)" using len by simp
  note m = split_entries_mset [OF wf two g]
  have len32: "length g1 = 32" "length g2 = 32" using m(4) [OF len] by simp_all
  let ?T' = "split_table ?T l n (g1, g2) ?ll"
  obtain t' where t': "split_node_q V l t = Some (t', ?ll)" "root_id t' = root_id t"
    "node_id_gen t' = ?ll" "node_at t' = ?T'"
    using split_node_table [OF L l two fresh, of V] g by auto
  have pos: "0 < ?ll" using ids by (simp add: ids_below_def)
  have ne: "l \<noteq> ?ll" using l fresh by auto
  have "linked s ?T' (root_id t) (lv(?ll := lv l)) {l} {?ll}"
    by (rule split_table_linked [OF L l fresh pos]) (use m in auto)
  moreover have "leaf_items ?T' = leaf_items ?T"
    by (rule split_table_items [where T = ?T, OF D(1) l fresh]) (use m in auto)
  moreover have "sized ?T' (root_id t) {}"
    unfolding sized_def
  proof (intro allI impI)
    fix j k assume j: "?T' j = Some k"
    then show "length (entries k) < 64 \<and> (j \<noteq> root_id t \<longrightarrow> 32 \<le> length (entries k)) \<and>
      (\<not> is_leaf k \<longrightarrow> 2 \<le> length (entries k))"
    proof (cases rule: split_table_cases)
      case (3 m0)
      then show ?thesis using sz by (simp add: sized_def)
    qed (simp_all add: len32)
  qed
  moreover have "ids_below ?T' ?ll"
  proof -
    have "j = ?ll \<or> ?T j \<noteq> None" if "?T' j \<noteq> None" for j
      using that by (auto simp: split_table_def l split: if_splits)
    then show ?thesis using ids pos unfolding ids_below_def by fastforce
  qed
  moreover have "?T' l = Some (n\<lparr>entries := g1\<rparr>)"
    "\<exists>b. ?T' ?ll = Some b \<and> 32 \<le> length (entries b)"
    using ne len32 by simp_all
  ultimately have "adjusting s t' (lv(?ll := lv l)) l (Some ?ll)"
    unfolding adjusting_def t'(2-4) using ne len32 m(2) by simp
  moreover have "rt_items t' = rt_items t" using \<open>leaf_items ?T' = leaf_items ?T\<close> t'(4) by simp
  ultimately show ?thesis using t'(1,2) fresh by blast
qed

section \<open>One round of the adjustment\<close>

context srs_interface begin

lemma child_extent_covers:
  assumes "usable s" and "node_ok s r lv i n" and "entries n \<noteq> []"
  shows "ext_wf s (entries_extent V (entries n))"
    and "\<And>e. e \<in> set (entries n) \<Longrightarrow> ext_box (extent e) \<subseteq> ext_box (entries_extent V (entries n))"
  using assms entries_extent_covers [OF assms(1,3)] by (simp_all add: node_ok_def)

lemma adopt_adjusting:
  assumes U: "usable s" and L: "linked s (node_at t) (root_id t) lv {i} {nn}"
    and b: "node_at t nn = Some b" "32 \<le> length (entries b)" and p: "node_at t i = Some p" "\<not> is_leaf p"
    and lev: "Suc (lv nn) = lv i"
    and sz: "sized (node_at t) (root_id t) {}" and ids: "ids_below (node_at t) (node_id_gen t)"
  shows "\<exists>t' pp lv'. adopt V i nn t = Some (t', pp) \<and> root_id t' = root_id t \<and> rt_items t' = rt_items t \<and>
    adjusting s t' lv' i pp \<and> lv' i = lv i \<and> lv' (root_id t) = lv (root_id t)"
proof -
  note D = linkedD [OF L]
  have ne: "nn \<noteq> i" using lev by auto
  have bne: "entries b \<noteq> []" using b(2) by auto
  let ?x = "entries_extent V (entries b)"
  let ?p = "p\<lparr>entries := entries p @ [\<lparr>extent = ?x, slot = nn\<rparr>]\<rparr>"
  let ?t = "put_node i ?p (put_node nn (b\<lparr>parent_id := i\<rparr>) t)"
  note x = child_extent_covers [OF U D(2) [OF b(1)] bne]
  have push: "push_entry (entries p) (child_entry V nn b) = entries ?p"
    unfolding child_entry_def using x(1) by simp
  have L2: "linked s (node_at ?t) (root_id t) lv {i} {}"
    using adopt_linked [OF L b(1) p lev x] by simp
  have it: "rt_items ?t = rt_items t"
    using leaf_items_same [OF D(1) b(1), of "b\<lparr>parent_id := i\<rparr>"] D(1) p ne
    by (simp add: leaf_items_same [of "(node_at t)(nn \<mapsto> _)" i p] node_items_def)
  have lp: "2 \<le> length (entries p)" "length (entries p) < 64"
    "i \<noteq> root_id t \<longrightarrow> 32 \<le> length (entries p)"
    using sz p by (simp_all add: sized_def)
  have sz1: "sized ((node_at t)(nn \<mapsto> b\<lparr>parent_id := i\<rparr>)) (root_id t) {}"
    using sized_put_same [OF sz b(1)] by simp
  have ids2: "ids_below (node_at ?t) (node_id_gen ?t)"
    using ids b(1) p(1) by (auto simp: ids_below_def)
  show ?thesis
  proof (cases "length (entries ?p) \<ge> const_M")
    case False
    have "sized ((node_at t)(nn \<mapsto> b\<lparr>parent_id := i\<rparr>, i \<mapsto> ?p)) (root_id t) ({} - {i})"
      by (rule sized_put [OF sz1]) (use lp False in \<open>auto simp: const_M_def\<close>)
    then have "sized (node_at ?t) (root_id t) {}" by simp
    then have "adjusting s ?t lv i None"
      using L2 ids2 by (simp add: adjusting_def)
    then show ?thesis
      using False b p it
      by (intro exI [of _ ?t] exI [of _ None] exI [of _ lv]) (simp add: adopt_def push)
  next
    case True
    have sz2: "sized (node_at ?t) (root_id ?t) {i}"
      using sz1 by (auto simp: sized_def)
    have L3: "linked s (node_at ?t) (root_id ?t) lv {i} {}" using L2 by simp
    have "node_at ?t i = Some ?p" "length (entries ?p) = 64" using True lp by (simp_all add: const_M_def)
    from split_node_adjusting [OF L3 this sz2 ids2, of V] obtain t' ll where
      t': "split_node_q V i ?t = Some (t', ll)" "root_id t' = root_id t" "rt_items t' = rt_items ?t"
        "node_at ?t ll = None" "adjusting s t' (lv(ll := lv i)) i (Some ll)" by auto
    have "node_at ?t (root_id t) \<noteq> None" using linkedD(5) [OF L2] by auto
    then have "ll \<noteq> root_id t" "ll \<noteq> i" using t'(4) by auto
    then show ?thesis
      using True b p t' it
      by (intro exI [of _ t'] exI [of _ "Some ll"] exI [of _ "lv(ll := lv i)"]) (simp add: adopt_def push)
  qed
qed

lemma adjust_round_cases:
  assumes U: "usable s" and A: "adjusting s t lv i nn"
  shows "(\<exists>t'. adjust_round V i nn t = Some (t', None) \<and> tree_ok s t' \<and> rt_items t' = rt_items t) \<or>
    (\<exists>t' p pp lv'. adjust_round V i nn t = Some (t', Some (p, pp)) \<and> adjusting s t' lv' p pp \<and>
       rt_items t' = rt_items t \<and> root_id t' = root_id t \<and> lv' p = Suc (lv i) \<and>
       lv' (root_id t) = lv (root_id t) \<and> lv i < lv (root_id t))"
proof -
  let ?T = "node_at t" and ?r = "root_id t"
  have L: "linked s ?T ?r lv {i} (set_option nn)" and sz: "sized ?T ?r {}"
    and ids: "ids_below ?T (node_id_gen t)" using A by (simp_all add: adjusting_def)
  obtain n where n: "?T i = Some n" "entries n \<noteq> []" "nn \<noteq> None \<longrightarrow> 32 \<le> length (entries n)"
    using A by (auto simp: adjusting_def)
  have new: "lv ll = lv i \<and> ll \<noteq> i \<and> (\<exists>b. ?T ll = Some b \<and> 32 \<le> length (entries b))" if "nn = Some ll" for ll
    using A that by (simp add: adjusting_def)
  have iD: "i \<notin> set_option nn" using new by auto
  note D = linkedD [OF L]
  let ?x = "entries_extent V (entries n)"
  note x = child_extent_covers [OF U D(2) [OF n(1)] n(2)]
  show ?thesis
  proof (cases "i = ?r")
    case True
    then have pid: "parent_id n = 0" using D(5) n(1) by auto
    have top: "linked s ?T ?r lv {} D'" if "linked s ?T ?r lv {i} D'" for D'
    proof (rule linkedI)
      note D' = linkedD [OF that]
      show "child_ok ?T lv {} D' j e" if j: "?T j = Some m" "\<not> is_leaf m" "e \<in> set (entries m)" for j m e
      proof -
        have c: "child_ok ?T lv {i} D' j e" using D'(3) [OF j] .
        then obtain c where "?T (slot e) = Some c" by (auto simp: child_ok_def)
        then have "slot e \<noteq> i"
          using linked_child_parent(5) [OF \<open>linked s ?T ?r lv {i} D'\<close> j] True by simp
        then show ?thesis using c by (simp add: child_ok_def)
      qed
    qed (use linkedD [OF that] in auto)
    show ?thesis
    proof (cases nn)
      case None
      then have "tree_ok s t" using top L sz ids by (auto simp: tree_ok_def)
      then show ?thesis using None n(1) pid by (simp add: adjust_round_def)
    next
      case (Some ll)
      obtain b where b: "?T ll = Some b" "32 \<le> length (entries b)" "lv ll = lv i" "ll \<noteq> i"
        using new [OF Some] by auto
      have bne: "entries b \<noteq> []" using b(2) by auto
      let ?y = "entries_extent V (entries b)" and ?p = "node_id_gen t + 1"
      note y = child_extent_covers [OF U D(2) [OF b(1)] bne]
      have fresh: "?T ?p = None" "0 < ?p"
        using ids ids_below_fresh [OF ids] by (simp_all add: ids_below_def)
      let ?n = "\<lparr>nid = ?p, parent_id = 0, is_leaf = False,
        entries = [\<lparr>extent = ?x, slot = ?r\<rparr>, \<lparr>extent = ?y, slot = ll\<rparr>]\<rparr>"
      let ?t = "put_node ll (b\<lparr>parent_id := ?p\<rparr>) (put_node ?r (n\<lparr>parent_id := ?p\<rparr>)
        (put_node ?p ?n (t\<lparr>node_id_gen := ?p, root_id := ?p\<rparr>)))"
      have ne: "ll \<noteq> ?r" "?p \<noteq> ?r" "?p \<noteq> ll" using b(1,4) n(1) fresh(1) True by auto
      have len: "32 \<le> length (entries n)" using n(3) Some by simp
      have g: "grow_root V i ll t = Some ?t"
        using n(1) b(1) True pid x(1) y(1)
        by (simp add: grow_root_def child_entry_def Let_def)
      have "linked s (node_at ?t) ?p (lv(?p := Suc (lv ?r))) {} {}"
        using grow_root_linked [where s = s and r = ?r and lv = lv and T = ?T, OF _ _ b(1) _ fresh x y n(2)] L n(1) b(3) True Some by simp
      moreover have "sized (node_at ?t) ?p {}"
        using sz n(1) b(1,2) len True by (auto simp: sized_def)
      moreover have "ids_below (node_at ?t) ?p"
        using ids n(1) b(1) True by (auto simp: ids_below_def intro: order_trans)
      moreover have "rt_items ?t = rt_items t"
      proof -
        let ?T1 = "?T(?p \<mapsto> ?n)" and ?a = "n\<lparr>parent_id := ?p\<rparr>"
        have 1: "leaf_items ?T1 = leaf_items ?T"
          using leaf_items_new [OF D(1) fresh(1), of ?n] by simp
        have 2: "leaf_items (?T1(?r \<mapsto> ?a)) = leaf_items ?T1"
          by (rule leaf_items_same [of _ _ n]) (use D(1) n(1) ne True in \<open>auto simp: node_items_def\<close>)
        have 3: "leaf_items (?T1(?r \<mapsto> ?a, ll \<mapsto> b\<lparr>parent_id := ?p\<rparr>)) = leaf_items (?T1(?r \<mapsto> ?a))"
          by (rule leaf_items_same [of _ _ b]) (use D(1) b(1) ne in \<open>auto simp: node_items_def\<close>)
        show ?thesis using 1 2 3 by simp
      qed
      ultimately have "tree_ok s ?t" "rt_items ?t = rt_items t" unfolding tree_ok_def by auto
      then show ?thesis using Some n(1) pid g by (auto simp: adjust_round_def)
    qed
  next
    case False
    obtain p e where p: "?T (parent_id n) = Some p" "\<not> is_leaf p" "lv (parent_id n) = Suc (lv i)"
        "parent_id n \<noteq> 0" "parent_id n \<noteq> i"
      by (rule linked_parent [OF L n(1) False iD]) force
    let ?P = "parent_id n" and ?p = "p\<lparr>entries := refresh i ?x (entries p)\<rparr>"
    let ?t = "put_node ?P ?p t"
    have L1: "linked s (node_at ?t) ?r lv {?P} (set_option nn)"
      using refresh_linked [OF L n(1) False iD p(1) x] by simp
    have sz1: "sized (node_at ?t) ?r {}" using sized_put_same [OF sz p(1), of ?p] by simp
    have ids1: "ids_below (node_at ?t) (node_id_gen ?t)"
      using ids p(1) by (auto simp: ids_below_def)
    have it1: "rt_items ?t = rt_items t"
      using leaf_items_same [OF D(1) p(1), of ?p] p(2) by simp
    have "lv d \<le> lv i" if "d \<in> set_option nn" for d using that new by fastforce
    moreover have "i \<in> dom ?T" using n(1) by blast
    ultimately have lt: "lv i < lv ?r" using linked_level [OF L _ iD] False by blast
    show ?thesis
    proof (cases nn)
      case None
      have "2 \<le> length (entries ?p)" using sz p(1,2) by (simp add: sized_def)
      then have "entries ?p \<noteq> []" by fastforce
      then have "adjusting s ?t lv ?P None"
        using L1 sz1 ids1 None by (simp add: adjusting_def)
      then show ?thesis
        using None n(1) p it1 lt by (intro disjI2 exI [of _ ?t] exI [of _ ?P] exI [of _ None] exI [of _ lv])
          (simp add: adjust_round_def)
    next
      case (Some ll)
      obtain b where b: "?T ll = Some b" "32 \<le> length (entries b)" "lv ll = lv i" "ll \<noteq> i"
        using new [OF Some] by auto
      have ll: "ll \<noteq> ?P" using b(3) p(3) by auto
      have "\<exists>t' pp lv'. adopt V ?P ll ?t = Some (t', pp) \<and> root_id t' = root_id ?t \<and> rt_items t' = rt_items ?t \<and>
        adjusting s t' lv' ?P pp \<and> lv' ?P = lv ?P \<and> lv' (root_id ?t) = lv (root_id ?t)"
        by (rule adopt_adjusting [OF U, of ?t lv ?P ll b ?p])
          (use L1 Some b ll p sz1 ids1 in auto)
      then obtain t' pp lv' where "adopt V ?P ll ?t = Some (t', pp)" "root_id t' = ?r" "rt_items t' = rt_items t"
        "adjusting s t' lv' ?P pp" "lv' ?P = Suc (lv i)" "lv' ?r = lv ?r" using it1 p(3) by auto
      then show ?thesis
        using Some n(1) p lt by (intro disjI2 exI [of _ t'] exI [of _ ?P] exI [of _ pp] exI [of _ lv'])
          (simp add: adjust_round_def)
    qed
  qed
qed

text \<open>The adjustment ends at the root.\<close>

lemma adjust_tree_ok:
  assumes "usable s" and "adjusting s t lv i nn"
  shows "\<exists>t'. adjust_tree V i nn t = Some t' \<and> tree_ok s t' \<and> rt_items t' = rt_items t"
  using assms(2)
proof (induction "lv (root_id t) - lv i" arbitrary: t lv i nn rule: less_induct)
  case less
  from adjust_round_cases [OF assms(1) less.prems] show ?case
  proof (elim disjE exE conjE)
    fix t' assume "adjust_round V i nn t = Some (t', None)" "tree_ok s t'" "rt_items t' = rt_items t"
    then show ?thesis by (subst adjust_tree.simps) simp
  next
    fix t' p pp lv'
    assume r: "adjust_round V i nn t = Some (t', Some (p, pp))" "adjusting s t' lv' p pp"
      "rt_items t' = rt_items t" "root_id t' = root_id t" "lv' p = Suc (lv i)"
      "lv' (root_id t) = lv (root_id t)" "lv i < lv (root_id t)"
    have "lv' (root_id t') - lv' p < lv (root_id t) - lv i" using r(4-7) by simp
    from less.hyps [OF this r(2)] show ?thesis using r(1,3) by (subst adjust_tree.simps) simp
  qed
qed

end

end
