(* ===== verification/R_Tree_Search.thy ===== *)
theory R_Tree_Search
  imports R_Tree_Correct
begin

text \<open>
  Inserting into the tree and searching it, against the abstract view of an index as a bag of
  items. The locale \<open>spatial_index\<close> is the contract of an index; the tree is an instance of it.
\<close>

section \<open>Insertion\<close>

lemma best_entry_in:
  assumes "es \<noteq> []"
  shows "\<exists>e \<in> set es. best_entry V ex es = Some e"
proof -
  obtain e0 es' where es: "es = e0 # es'" using assms by (cases es) auto
  have "snd (foldl (best_step V ex) (dbl_max, e0) es) \<in> set es"
    by (rule foldl_invariant) (auto simp: best_step_def Let_def es)
  then show ?thesis by (simp add: best_entry_def es)
qed

lemma choose_leaf_ok:
  assumes "linked s (node_at t) r lv {} {}" and "node_at t i = Some n"
  shows "\<exists>l m. choose_leaf V t i ex = Some l \<and> node_at t l = Some m \<and> is_leaf m"
  using assms(2)
proof (induction "lv i" arbitrary: i n rule: less_induct)
  case less
  show ?case
  proof (cases "is_leaf n")
    case True
    then show ?thesis using less.prems by (subst choose_leaf.simps) simp
  next
    case False
    then have "entries n \<noteq> []" using linkedD(2) [OF assms(1) less.prems] by (simp add: node_ok_def)
    then obtain e where e: "e \<in> set (entries n)" "best_entry V ex (entries n) = Some e"
      using best_entry_in by blast
    obtain c where c: "node_at t (slot e) = Some c" "Suc (lv (slot e)) = lv i"
      using linkedD(3) [OF assms(1) less.prems False e(1)] by (auto simp: child_ok_def)
    then have "lv (slot e) < lv i" by simp
    from less.hyps [OF this c(1)] show ?thesis
      using less.prems False e(2) by (subst choose_leaf.simps) simp
  qed
qed

text \<open>The extent an item is stored with.\<close>

definition stored_extent :: "'s geoextent \<Rightarrow> 's geoextent" where
  "stored_extent ex = ext_copy (area_extent ex)"

lemma stored_extent_wf: "ext_wf s ex \<Longrightarrow> ext_wf s (stored_extent ex)"
  using expand_copy_wf [of s ex "0.0001" "0.0001"] ext_wf_copy [of s ex]
  by (simp add: stored_extent_def area_extent_def)

lemma stored_extent_covers: "ext_wf s ex \<Longrightarrow> ext_box ex \<subseteq> ext_box (stored_extent ex)"
  using ext_wf_copy [of s ex]
  by (auto simp: stored_extent_def area_extent_def ext_box_def ext_copy_def)

lemma stored_extent_area: "get_area ex \<noteq> 0 \<Longrightarrow> ext_wf s ex \<Longrightarrow> stored_extent ex = ex"
  by (simp add: stored_extent_def area_extent_def ext_wf_copy)

context srs_interface begin

lemma rtree_insert_ok:
  assumes U: "usable s" and t: "tree_ok s t" and x: "ext_wf s x"
  shows "\<exists>t'. rtree_insert V x d t = Some t' \<and> tree_ok s t' \<and>
    rt_items t' = add_mset (stored_extent x, d) (rt_items t)"
proof -
  let ?T = "node_at t" and ?e = "\<lparr>extent = stored_extent x, slot = d\<rparr>"
  obtain lv where L: "linked s ?T (root_id t) lv {} {}" and sz: "sized ?T (root_id t) {}"
    and ids: "ids_below ?T (node_id_gen t)" using t by (auto simp: tree_ok_def)
  note D = linkedD [OF L]
  obtain n0 where "?T (root_id t) = Some n0" using D(5) by blast
  from choose_leaf_ok [OF L this, of V "area_extent x"] obtain l n where
    l: "choose_leaf V t (root_id t) (area_extent x) = Some l" "?T l = Some n" "is_leaf n" by blast
  let ?n = "n\<lparr>entries := entries n @ [?e]\<rparr>"
  let ?t = "put_node l ?n t"
  have push: "push_entry (entries n) \<lparr>extent = area_extent x, slot = d\<rparr> = entries ?n"
    by (simp add: push_entry_def entry_copy_def stored_extent_def)
  have L1: "linked s (node_at ?t) (root_id t) lv {l} {}"
    using push_leaf_linked [where T = ?T, OF L l(2,3), of ?e] stored_extent_wf [OF x] by simp
  have it1: "rt_items ?t = add_mset (stored_extent x, d) (rt_items t)"
    using push_leaf_items [where T = ?T, OF D(1) l(2,3), of ?e] by simp
  have ids1: "ids_below (node_at ?t) (node_id_gen ?t)" using ids l(2) by (auto simp: ids_below_def)
  have len: "length (entries n) < 64" "l \<noteq> root_id t \<longrightarrow> 32 \<le> length (entries n)"
    using sz l(2) by (simp_all add: sized_def)
  have "\<exists>t'. rtree_insert V x d t = Some t' \<and> tree_ok s t' \<and> rt_items t' = rt_items ?t"
  proof (cases "length (entries ?n) \<ge> const_M")
    case False
    have "sized (?T(l \<mapsto> ?n)) (root_id t) ({} - {l})"
      by (rule sized_put [OF sz]) (use len l(3) False in \<open>auto simp: const_M_def\<close>)
    then have "adjusting s ?t lv l None" using L1 ids1 by (simp add: adjusting_def)
    from adjust_tree_ok [OF U this] show ?thesis
      using l False by (simp add: rtree_insert_def insert_at_def push)
  next
    case True
    have "node_at ?t l = Some ?n" "length (entries ?n) = 64" using True len by (simp_all add: const_M_def)
    moreover have "linked s (node_at ?t) (root_id ?t) lv {l} {}" "sized (node_at ?t) (root_id ?t) {l}"
      using L1 sz by (auto simp: sized_def)
    ultimately obtain t1 ll where "split_node_q V l ?t = Some (t1, ll)" "rt_items t1 = rt_items ?t"
      "adjusting s t1 (lv(ll := lv l)) l (Some ll)"
      using split_node_adjusting [of s ?t lv l ?n V] ids1 by blast
    then show ?thesis using adjust_tree_ok [OF U, of t1] l True
      by (fastforce simp: rtree_insert_def insert_at_def push)
  qed
  then show ?thesis unfolding it1 .
qed

end

lemma rtree_new_ok: "tree_ok s rtree_new" "rt_items rtree_new = {#}"
proof -
  have "linked s (node_at rtree_new) (root_id rtree_new) (\<lambda>_. 0) {} {}"
    by (auto simp: linked_def rtree_new_def node_ok_def)
  then show "tree_ok s rtree_new"
    by (auto simp: tree_ok_def rtree_new_def sized_def ids_below_def)
  show "rt_items rtree_new = {#}" by (simp add: leaf_items_def rtree_new_def node_items_def)
qed

section \<open>Search\<close>

text \<open>The items below a node of a given level.\<close>

fun below :: "'s table \<Rightarrow> nat \<Rightarrow> int \<Rightarrow> ('s geoextent \<times> int) multiset" where
  "below T 0 i = node_items (the (T i))"
| "below T (Suc k) i = (\<Sum>e \<leftarrow> entries (the (T i)). below T k (slot e))"

text \<open>Every level of the tree has all the items, so the root has.\<close>

lemma below_level:
  assumes L: "linked s T r lv {} {}" and "k < lv r"
  shows "(\<Sum>i \<in> {i \<in> dom T. lv i = Suc k}. below T (Suc k) i) = (\<Sum>i \<in> {i \<in> dom T. lv i = k}. below T k i)"
proof -
  note D = linkedD [OF L]
  let ?A = "{i \<in> dom T. lv i = Suc k}" and ?B = "{i \<in> dom T. lv i = k}"
  let ?C = "\<lambda>i. slot ` set (entries (the (T i)))"
  have inner: "\<exists>n. T i = Some n \<and> \<not> is_leaf n \<and> distinct (map slot (entries n))" if "i \<in> ?A" for i
  proof -
    obtain n where "T i = Some n" "lv i = Suc k" using \<open>i \<in> ?A\<close> by auto
    then show ?thesis using D(2) [of i n] by (simp add: node_ok_def)
  qed
  have sub: "?C i \<subseteq> ?B" if i: "i \<in> ?A" for i
  proof
    fix j assume j: "j \<in> ?C i"
    obtain n where n: "T i = Some n" "\<not> is_leaf n" using inner [OF i] by blast
    then obtain e where e: "e \<in> set (entries n)" "slot e = j" using j by auto
    show "j \<in> ?B" using D(3) [OF n e(1)] e(2) i by (auto simp: child_ok_def)
  qed
  have un: "?B = (\<Union>i \<in> ?A. ?C i)"
  proof
    show "?B \<subseteq> (\<Union>i \<in> ?A. ?C i)"
    proof
      fix j assume j: "j \<in> ?B"
      then obtain m where m: "T j = Some m" "lv j = k" by auto
      then have "j \<noteq> r" using assms(2) by auto
      then obtain p e where "T (parent_id m) = Some p" "e \<in> set (entries p)" "slot e = j"
        "lv (parent_id m) = Suc (lv j)" using linked_parent [OF L m(1)] by blast
      then show "j \<in> (\<Union>i \<in> ?A. ?C i)" using m(2) by (intro UN_I [of "parent_id m"]) auto
    qed
  qed (use sub in blast)
  have disj: "?C i \<inter> ?C j = {}" if "i \<in> ?A" "j \<in> ?A" "i \<noteq> j" for i j
  proof (rule ccontr)
    assume "?C i \<inter> ?C j \<noteq> {}"
    then obtain c where c: "c \<in> ?C i" "c \<in> ?C j" by blast
    obtain n m where nm: "T i = Some n" "\<not> is_leaf n" "T j = Some m" "\<not> is_leaf m"
      using inner [OF \<open>i \<in> ?A\<close>] inner [OF \<open>j \<in> ?A\<close>] by blast
    obtain e f where ef: "e \<in> set (entries n)" "slot e = c" "f \<in> set (entries m)" "slot f = c"
      using c nm by auto
    have "child_ok T lv {} {} i e" "child_ok T lv {} {} j f"
      using D(3) [OF nm(1,2) ef(1)] D(3) [OF nm(3,4) ef(3)] .
    then show False using ef \<open>i \<noteq> j\<close> by (auto simp: child_ok_def)
  qed
  have fin: "finite ?A" using D(1) by simp
  have "(\<Sum>i \<in> ?A. below T (Suc k) i) = (\<Sum>i \<in> ?A. \<Sum>j \<in> ?C i. below T k j)"
  proof (rule sum.cong [OF refl])
    fix i assume "i \<in> ?A"
    from inner [OF this] obtain n where n: "T i = Some n" "distinct (map slot (entries n))" by blast
    have "(\<Sum>e \<leftarrow> entries n. below T k (slot e)) = sum_list (map (below T k) (map slot (entries n)))"
      by (simp add: comp_def)
    also have "\<dots> = sum (below T k) (set (map slot (entries n)))"
      using n(2) by (rule sum_list_distinct_conv_sum_set)
    finally show "below T (Suc k) i = (\<Sum>j \<in> ?C i. below T k j)" using n(1) by simp
  qed
  also have "\<dots> = (\<Sum>j \<in> ?B. below T k j)"
    unfolding un by (rule sum.UNION_disjoint [symmetric]) (use fin disj in auto)
  finally show ?thesis .
qed

lemma below_root:
  assumes L: "linked s T r lv {} {}"
  shows "below T (lv r) r = leaf_items T"
proof -
  note D = linkedD [OF L]
  have lev: "k \<le> lv r \<Longrightarrow> (\<Sum>i \<in> {i \<in> dom T. lv i = k}. below T k i) = leaf_items T" for k
  proof (induction k)
    case 0
    have "(\<Sum>i \<in> {i \<in> dom T. lv i = 0}. node_items (the (T i))) = leaf_items T"
      unfolding leaf_items_def
    proof (rule sum.mono_neutral_left)
      show "\<forall>i \<in> dom T - {i \<in> dom T. lv i = 0}. node_items (the (T i)) = {#}"
        using D(2) by (fastforce simp: node_ok_def node_items_def)
    qed (use D(1) in auto)
    then show ?case by simp
  next
    case (Suc k)
    then show ?case using below_level [OF L, of k] by simp
  qed
  have "{i \<in> dom T. lv i = lv r} = {r}"
    using linked_level [OF L] D(5) by force
  with lev [of "lv r"] show ?thesis by simp
qed

lemma below_covered:
  assumes L: "linked s T r lv {} {}" and "T i = Some n" and "x \<in># below T (lv i) i"
  shows "ext_wf s (fst x) \<and> (\<exists>e \<in> set (entries n). ext_box (fst x) \<subseteq> ext_box (extent e))"
  using assms(2,3)
proof (induction "lv i" arbitrary: i n)
  case 0
  then have "is_leaf n" using linkedD(2) [OF L 0(2)] by (simp add: node_ok_def)
  with 0 linkedD(2) [OF L 0(2)] show ?case by (auto simp: node_items_def node_ok_def)
next
  case (Suc k)
  note n = \<open>T i = Some n\<close>
  have nl: "\<not> is_leaf n" using linkedD(2) [OF L n] Suc(2) by (simp add: node_ok_def)
  have "x \<in># (\<Sum>e \<leftarrow> entries n. below T k (slot e))"
    using Suc(4) n by (simp flip: Suc(2))
  then obtain e where e: "e \<in> set (entries n)" "x \<in># below T k (slot e)"
    by (auto simp: set_mset_sum_list)
  obtain c where c: "T (slot e) = Some c" "Suc (lv (slot e)) = lv i" "covers c e"
    using linkedD(3) [OF L n nl e(1)] by (auto simp: child_ok_def)
  have k: "k = lv (slot e)" using c(2) Suc(2) by simp
  from Suc(1) [OF k c(1)] e(2) k obtain e' where
    "ext_wf s (fst x)" "e' \<in> set (entries c)" "ext_box (fst x) \<subseteq> ext_box (extent e')" by auto
  then show ?case using c(3) e(1) unfolding covers_def by blast
qed

context srs_interface begin

abbreviation hits :: "'s geoextent \<Rightarrow> ('s geoextent \<times> int) multiset \<Rightarrow> int multiset" where
  "hits q M \<equiv> image_mset snd (filter_mset (\<lambda>x. intersects V (fst x) q) M)"

lemma find_entries_ok:
  assumes U: "usable s" and L: "linked s (node_at t) r lv {} {}" and q: "ext_wf s q"
    and "node_at t i = Some n"
  shows "\<exists>rs. find_entries V t q (is_leaf n) (entries n) acc = Some (acc @ rs) \<and>
    mset rs = hits q (below (node_at t) (lv i) i)"
  using assms(4)
proof (induction "lv i" arbitrary: i n acc rule: less_induct)
  case less
  let ?T = "node_at t"
  note D = linkedD [OF L]
  have ok: "node_ok s r lv i n" using D(2) [OF less.prems] .
  show ?case
  proof (cases "is_leaf n")
    case True
    have "\<exists>rs. find_entries V t q True es acc = Some (acc @ rs) \<and>
        mset rs = hits q (image_mset (\<lambda>e. (extent e, slot e)) (mset es))" for es acc
    proof (induction es arbitrary: acc)
      case (Cons e es)
      obtain rs where "find_entries V t q True es (if intersects V (extent e) q then acc @ [slot e] else acc) =
          Some ((if intersects V (extent e) q then acc @ [slot e] else acc) @ rs)"
        "mset rs = hits q (image_mset (\<lambda>e. (extent e, slot e)) (mset es))" using Cons.IH by blast
      then show ?case by (subst find_entries.simps) (auto split: if_splits)
    qed (subst find_entries.simps, simp)
    then show ?thesis using True ok less.prems by (simp add: node_ok_def node_items_def)
  next
    case False
    obtain k where k: "lv i = Suc k" using ok False by (cases "lv i") (auto simp: node_ok_def)
    have "\<exists>rs. find_entries V t q False es acc = Some (acc @ rs) \<and>
        mset rs = hits q (\<Sum>e \<leftarrow> es. below ?T k (slot e))" if "set es \<subseteq> set (entries n)" for es acc
      using that
    proof (induction es arbitrary: acc)
      case Nil
      show ?case by (subst find_entries.simps) simp
    next
      case (Cons e es)
      have e: "e \<in> set (entries n)" and es: "set es \<subseteq> set (entries n)" using Cons.prems by auto
      obtain c where c: "?T (slot e) = Some c" "Suc (lv (slot e)) = lv i" "covers c e"
        using D(3) [OF less.prems False e] by (auto simp: child_ok_def)
      have lev: "lv (slot e) < lv i" "lv (slot e) = k" using c(2) k by simp_all
      show ?case
      proof (cases "intersects V (extent e) q")
        case True
        obtain r1 where r1: "find_entries V t q (is_leaf c) (entries c) acc = Some (acc @ r1)"
          "mset r1 = hits q (below ?T k (slot e))" using less.hyps [OF lev(1) c(1)] lev(2) by blast
        obtain r2 where r2: "find_entries V t q False es (acc @ r1) = Some ((acc @ r1) @ r2)"
          "mset r2 = hits q (\<Sum>e \<leftarrow> es. below ?T k (slot e))" using Cons.IH [OF es] by blast
        show ?thesis
          by (subst find_entries.simps) (use True c(1) r1 r2 in auto)
      next
        case False
        have wfe: "ext_wf s (extent e)" using ok e by (simp add: node_ok_def)
        have none: "\<not> intersects V (fst x) q" if "x \<in># below ?T k (slot e)" for x
        proof -
          have "x \<in># below ?T (lv (slot e)) (slot e)" using that lev(2) by simp
          from below_covered [OF L c(1) this]
          have "ext_wf s (fst x)" "ext_box (fst x) \<subseteq> ext_box (extent e)"
            using c(3) by (auto simp: covers_def)
          then show ?thesis
            using False intersects_wf [OF wfe q U] intersects_wf [OF _ q U, of "fst x"] by blast
        qed
        then have h: "hits q (below ?T k (slot e)) = {#}"
          by (simp add: filter_mset_cong [OF refl, where g = "\<lambda>_. False"])
        show ?thesis using Cons.IH [OF es, of acc] False
          by (subst find_entries.simps) (simp add: h)
      qed
    qed
    from this [OF subset_refl, of acc] show ?thesis using False less.prems k by simp
  qed
qed

lemma rtree_find_ok:
  assumes "usable s" and "tree_ok s t" and "ext_wf s q"
  shows "\<exists>rs. rtree_find V t q = Some rs \<and> mset rs = hits q (rt_items t)"
proof -
  obtain lv where L: "linked s (node_at t) (root_id t) lv {} {}" using assms(2) by (auto simp: tree_ok_def)
  obtain n where n: "node_at t (root_id t) = Some n" using linkedD(5) [OF L] by blast
  from find_entries_ok [OF assms(1) L assms(3) n, of "[]"] show ?thesis
    using n below_root [OF L] by (simp add: rtree_find_def)
qed

end

section \<open>The contract of an index\<close>

locale spatial_index =
  fixes empty :: 't and insert :: "'e \<Rightarrow> int \<Rightarrow> 't \<Rightarrow> 't option" and find :: "'t \<Rightarrow> 'e \<Rightarrow> int list option"
    and bag :: "'t \<Rightarrow> ('e \<times> int) multiset" and invar :: "'t \<Rightarrow> bool"
    and stored :: "'e \<Rightarrow> 'e" and meets :: "'e \<Rightarrow> 'e \<Rightarrow> bool" and proper :: "'e \<Rightarrow> bool"
  assumes bag_empty: "bag empty = {#}" and invar_empty: "invar empty"
    and bag_insert: "invar t \<Longrightarrow> proper x \<Longrightarrow>
      \<exists>t'. insert x d t = Some t' \<and> invar t' \<and> bag t' = add_mset (stored x, d) (bag t)"
    and find_bag: "invar t \<Longrightarrow> proper q \<Longrightarrow>
      \<exists>rs. find t q = Some rs \<and> mset rs = image_mset snd (filter_mset (\<lambda>x. meets (fst x) q) (bag t))"
begin

fun insert_all :: "('e \<times> int) list \<Rightarrow> 't \<Rightarrow> 't option" where
  "insert_all [] t = Some t"
| "insert_all (x # xs) t = do { t1 \<leftarrow> insert (fst x) (snd x) t; insert_all xs t1 }"

lemma insert_all_bag:
  "invar t \<Longrightarrow> \<forall>x \<in> set xs. proper (fst x) \<Longrightarrow> \<exists>t'. insert_all xs t = Some t' \<and> invar t' \<and>
     bag t' = bag t + image_mset (\<lambda>x. (stored (fst x), snd x)) (mset xs)"
proof (induction xs arbitrary: t)
  case (Cons x xs)
  obtain t1 where t1: "insert (fst x) (snd x) t = Some t1" "invar t1"
    "bag t1 = add_mset (stored (fst x), snd x) (bag t)"
    using bag_insert [OF Cons.prems(1)] Cons.prems(2) by fastforce
  show ?case using Cons.IH [OF t1(2)] Cons.prems(2) t1(1,3) by simp
qed simp

text \<open>What is found after building an index from a list is the list, filtered.\<close>

lemma built_find:
  assumes "\<forall>x \<in> set xs. proper (fst x)" and "proper q"
  shows "\<exists>t rs. insert_all xs empty = Some t \<and> invar t \<and> find t q = Some rs \<and>
    mset rs = mset (map snd (filter (\<lambda>x. meets (stored (fst x)) q) xs))"
proof -
  obtain t where t: "insert_all xs empty = Some t" "invar t"
    "bag t = image_mset (\<lambda>x. (stored (fst x), snd x)) (mset xs)"
    using insert_all_bag [OF invar_empty assms(1)] by (auto simp: bag_empty)
  obtain rs where rs: "find t q = Some rs"
    "mset rs = image_mset snd (filter_mset (\<lambda>x. meets (fst x) q) (bag t))"
    using find_bag [OF t(2) assms(2)] by blast
  have "image_mset snd (filter_mset (\<lambda>x. meets (fst x) q) (bag t)) =
      mset (map snd (filter (\<lambda>x. meets (stored (fst x)) q) xs))"
    unfolding t(3) by (induction xs) auto
  with t rs show ?thesis by metis
qed

end

interpretation r_tree: spatial_index rtree_new "rtree_insert (ogr_vt L)" "rtree_find (ogr_vt L)" rt_items
  "tree_ok s" stored_extent "intersects (ogr_vt L)" "\<lambda>x. srs_usable s \<and> ext_wf s x" for L s
  by unfold_locales (auto simp: rtree_new_ok intro: ogr.rtree_insert_ok ogr.rtree_find_ok)

end
