(* ===== verification/R_Tree_File.thy ===== *)
theory R_Tree_File
  imports R_Tree_Search
begin

text \<open>
  The cache file of an R-tree (\<open>writeTo\<close> and \<open>readFrom\<close> of \<^verbatim>\<open>src/osgGIS/RTree.cpp.inline\<close>). A file
  is its list of lines, a line its fields; printing a coordinate with 13 digits is the parameter
  \<open>prec\<close>. A line whose fields do not have the expected types, on which the stream would fail,
  is \<open>None\<close>.
\<close>

section \<open>Writing and reading\<close>

datatype field = Int_Field int | Real_Field real | Bool_Field bool

datatype file_line = Text string | Fields "field list"

definition rtree_header :: string where
  "rtree_header = ''OSGGIS_RTREE_1.0''"

definition extent_fields :: "(real \<Rightarrow> real) \<Rightarrow> 's geoextent \<Rightarrow> field list" where
  "extent_fields prec e =
     [Real_Field (prec (get_xmin e)), Real_Field (prec (get_ymin e)),
      Real_Field (prec (get_xmax e)), Real_Field (prec (get_ymax e))]"

definition node_fields :: "(real \<Rightarrow> real) \<Rightarrow> 's rt_node \<Rightarrow> field list" where
  "node_fields prec n =
     [Int_Field (nid n), Int_Field (parent_id n), Bool_Field (is_leaf n),
      Int_Field (int (length (entries n)))] @
     concat (map (\<lambda>e. extent_fields prec (extent e) @ [Int_Field (slot e)]) (entries n))"

definition rtree_write :: "(real \<Rightarrow> real) \<Rightarrow> 's rtree \<Rightarrow> 's geoextent \<Rightarrow> file_line list" where
  "rtree_write prec t ex =
     Text rtree_header #
     Fields ([Int_Field (root_id t), Int_Field (node_id_gen t)] @ extent_fields prec ex) #
     map (\<lambda>(i, n). Fields (node_fields prec n)) (node_table t)"

fun read_entries :: "'s option \<Rightarrow> nat \<Rightarrow> field list \<Rightarrow> 's rt_entry list option" where
  "read_entries sr 0 fs = Some []"
| "read_entries sr (Suc n) (Real_Field a # Real_Field b # Real_Field c # Real_Field d # Int_Field k # fs) =
     map_option ((#) (entry_copy \<lparr>extent = ext_of_bounds a b c d sr, slot = k\<rparr>)) (read_entries sr n fs)"
| "read_entries sr (Suc n) _ = None"

fun read_node :: "'s option \<Rightarrow> field list \<Rightarrow> 's rt_node option" where
  "read_node sr (Int_Field i # Int_Field p # Bool_Field l # Int_Field n # fs) =
     map_option (\<lambda>es. \<lparr>nid = i, parent_id = p, is_leaf = l, entries = es\<rparr>) (read_entries sr (nat n) fs)"
| "read_node sr _ = None"

text \<open>The loop ends at an empty line, which is also what the end of the file reads as.\<close>

fun read_nodes :: "'s option \<Rightarrow> file_line list \<Rightarrow> 's rtree \<Rightarrow> 's rtree option" where
  "read_nodes sr [] t = Some t"
| "read_nodes sr (Fields [] # ls) t = Some t"
| "read_nodes sr (Fields (f # fs) # ls) t =
     do { n \<leftarrow> read_node sr (f # fs); read_nodes sr ls (put_node (nid n) n t) }"
| "read_nodes sr (Text x # ls) t = (if x = [] then Some t else None)"

text \<open>The result of \<open>readFrom\<close>, the tree and the extent; without the header it returns false.\<close>

fun rtree_read ::
  "'s option \<Rightarrow> file_line list \<Rightarrow> 's rtree \<Rightarrow> 's geoextent \<Rightarrow> (bool \<times> 's rtree \<times> 's geoextent) option" where
  "rtree_read sr (Text h # ls) t ex =
     (if h \<noteq> rtree_header then Some (False, t, ex)
      else case ls of
        Fields [Int_Field r, Int_Field g, Real_Field a, Real_Field b, Real_Field c, Real_Field d] # ns \<Rightarrow>
          do { t1 \<leftarrow> read_nodes sr ns (t\<lparr>root_id := r, node_id_gen := g\<rparr>);
               Some (True, t1, ext_of_bounds a b c d sr) }
      | _ \<Rightarrow> None)"
| "rtree_read sr _ t ex = Some (False, t, ex)"

section \<open>The table as the insertion keeps it\<close>

text \<open>The ids are in order, and the first node is never removed.\<close>

definition table_ok :: "'s rtree \<Rightarrow> bool" where
  "table_ok t \<longleftrightarrow> sorted_wrt (<) (map fst (node_table t)) \<and> node_at t 1 \<noteq> None"

lemma table_ok_put [intro]: "table_ok t \<Longrightarrow> table_ok (put_node i n t)"
  by (simp add: table_ok_def tab_put_sorted)

lemma table_ok_ids [simp]:
  "table_ok (t\<lparr>node_id_gen := g\<rparr>) = table_ok t" "table_ok (t\<lparr>root_id := r\<rparr>) = table_ok t"
  by (simp_all add: table_ok_def)

lemma table_ok_new: "table_ok rtree_new"
  by (simp add: table_ok_def rtree_new_def)

lemma table_ok_reparent: "table_ok t \<Longrightarrow> reparent p es t = Some t' \<Longrightarrow> table_ok t'"
  by (induction es arbitrary: t) (auto simp: bind_eq_Some_conv)

lemma table_ok_split: "table_ok t \<Longrightarrow> split_node_q V l t = Some (t', ll) \<Longrightarrow> table_ok t'"
  by (auto simp: split_node_q_def bind_eq_Some_conv Let_def split: if_splits intro!: table_ok_put
      dest!: table_ok_reparent [rotated])

lemma table_ok_adopt: "table_ok t \<Longrightarrow> adopt V p nn t = Some (t', pp) \<Longrightarrow> table_ok t'"
  by (auto simp: adopt_def bind_eq_Some_conv Let_def split: if_splits intro!: table_ok_put
      dest!: table_ok_split [rotated])

lemma table_ok_round: "table_ok t \<Longrightarrow> adjust_round V i nn t = Some (t', again) \<Longrightarrow> table_ok t'"
  by (auto simp: adjust_round_def grow_root_def bind_eq_Some_conv Let_def split: if_splits option.splits
      intro!: table_ok_put dest!: table_ok_adopt [rotated])

lemma table_ok_adjust:
  assumes "adjust_tree V i nn t = Some t'" and "table_ok t"
  shows "table_ok t'"
proof -
  have "table_ok t \<longrightarrow> table_ok t'"
    by (rule adjust_tree.raw_induct [where P = "\<lambda>V i nn t t'. table_ok t \<longrightarrow> table_ok t'", OF _ assms(1)])
      (fastforce simp: bind_eq_Some_conv dest: table_ok_round split: option.splits)
  with assms(2) show ?thesis by simp
qed

lemma table_ok_insert: "table_ok t \<Longrightarrow> rtree_insert V ex d t = Some t' \<Longrightarrow> table_ok t'"
  by (auto simp: rtree_insert_def insert_at_def bind_eq_Some_conv Let_def split: if_splits
      dest!: table_ok_adjust intro: table_ok_split)

lemma table_ok_insert_all: "table_ok t \<Longrightarrow> r_tree.insert_all L xs t = Some t' \<Longrightarrow> table_ok t'"
  by (induction xs arbitrary: t) (auto simp: bind_eq_Some_conv dest: table_ok_insert)


section \<open>Reading back what was written\<close>

definition rounded :: "(real \<Rightarrow> real) \<Rightarrow> 's option \<Rightarrow> 's geoextent \<Rightarrow> 's geoextent" where
  "rounded prec sr e =
     ext_of_bounds (prec (get_xmin e)) (prec (get_ymin e)) (prec (get_xmax e)) (prec (get_ymax e)) sr"

definition rounded_node :: "(real \<Rightarrow> real) \<Rightarrow> 's option \<Rightarrow> 's rt_node \<Rightarrow> 's rt_node" where
  "rounded_node prec sr n =
     n\<lparr>entries := map (\<lambda>e. \<lparr>extent = rounded prec sr (extent e), slot = slot e\<rparr>) (entries n)\<rparr>"

lemma rounded_node_simps [simp]:
  "nid (rounded_node prec sr n) = nid n" "parent_id (rounded_node prec sr n) = parent_id n"
  "is_leaf (rounded_node prec sr n) = is_leaf n"
  "slot ` set (entries (rounded_node prec sr n)) = slot ` set (entries n)"
  "map slot (entries (rounded_node prec sr n)) = map slot (entries n)"
  "length (entries (rounded_node prec sr n)) = length (entries n)"
  "entries (rounded_node prec sr n) = [] \<longleftrightarrow> entries n = []"
  by (simp_all add: rounded_node_def image_image comp_def)

lemma recalc_recalc [simp]: "recalc (recalc e) = recalc e"
  by (auto simp: recalc_def Let_def)

lemma copy_of_bounds [simp]: "ext_copy (ext_of_bounds a b c d sr) = ext_of_bounds a b c d sr"
  by (simp add: ext_copy_def ext_of_bounds_def Let_def)

lemma read_entries_written:
  "read_entries sr (length es)
     (concat (map (\<lambda>e. extent_fields prec (extent e) @ [Int_Field (slot e)]) es)) =
   Some (map (\<lambda>e. \<lparr>extent = rounded prec sr (extent e), slot = slot e\<rparr>) es)"
  by (induction es) (simp_all add: extent_fields_def rounded_def entry_copy_def)

lemma read_node_written: "read_node sr (node_fields prec n) = Some (rounded_node prec sr n)"
  by (simp add: node_fields_def read_entries_written [of sr _ prec] rounded_node_def)

lemma read_nodes_step:
  "fs \<noteq> [] \<Longrightarrow> read_nodes sr (Fields fs # ls) t =
     do { n \<leftarrow> read_node sr fs; read_nodes sr ls (put_node (nid n) n t) }"
  by (cases fs) simp_all

lemma read_nodes_written:
  "\<forall>(i, n) \<in> set ns. nid n = i \<Longrightarrow> \<exists>t'.
     read_nodes sr (map (\<lambda>(i, n). Fields (node_fields prec n)) ns) t = Some t' \<and>
     root_id t' = root_id t \<and> node_id_gen t' = node_id_gen t \<and>
     node_at t' = node_at t ++ map_of (rev (map (\<lambda>(i, n). (i, rounded_node prec sr n)) ns))"
proof (induction ns arbitrary: t)
  case (Cons x ns)
  obtain i n where x: "x = (i, n)" by (cases x) auto
  have r: "read_nodes sr (Fields (node_fields prec n) # ls) t =
      read_nodes sr ls (put_node i (rounded_node prec sr n) t)" for ls
  proof -
    have "node_fields prec n \<noteq> []" by (simp add: node_fields_def)
    then show ?thesis using Cons.prems by (simp add: read_nodes_step read_node_written x)
  qed
  let ?t = "put_node i (rounded_node prec sr n) t"
  have at: "map_of (tab_put i m (node_table t)) = node_at t ++ [i \<mapsto> m]" for m
    by (simp only: map_of_tab_put map_add_upd map_add_empty)
  have "\<forall>(i, n) \<in> set ns. nid n = i" using Cons.prems by simp
  from Cons.IH [OF this, of ?t] show ?case
    unfolding x list.map prod.case r put_node_simps at
    by (simp only: rev.simps map_of_append map_of.simps fst_conv snd_conv map_add_assoc)
qed simp

lemma rounded_wf: "mono prec \<Longrightarrow> ext_wf s e \<Longrightarrow> ext_wf s (rounded prec (Some s) e)"
  unfolding rounded_def by (intro ext_of_bounds_wf) (auto simp: ext_wf_observe ext_wfD monoD)

lemma rounded_mono:
  assumes "mono prec" and "ext_wf s e" "ext_wf s f" and "ext_box e \<subseteq> ext_box f"
  shows "ext_box (rounded prec sr e) \<subseteq> ext_box (rounded prec sr f)"
proof -
  have "px (sw f) \<le> px (sw e)" "px (ne e) \<le> px (ne f)" "py (sw f) \<le> py (sw e)" "py (ne e) \<le> py (ne f)"
    using ext_box_nonempty [OF assms(2)] assms(4) by (auto simp: ext_box_def pt_xy_def)
  then show ?thesis
    using monoD [OF assms(1)] assms(2,3)
    by (auto simp: ext_box_def rounded_def ext_wf_observe intro: order_trans)
qed

lemma rounded_linked:
  assumes L: "linked s T r lv {} {}" and m: "mono prec"
  shows "linked s (map_option (rounded_node prec (Some s)) \<circ> T) r lv {} {}" (is "linked s ?T r lv {} {}")
proof (rule linkedI)
  note D = linkedD [OF L]
  have old: "\<exists>n0. T i = Some n0 \<and> n = rounded_node prec (Some s) n0" if "?T i = Some n" for i n
    using that by auto
  show "finite (dom ?T)" using D(1) by (simp add: dom_map_option_comp)
  show "\<exists>n. ?T r = Some n \<and> parent_id n = 0" using D(5) by auto
  show "node_ok s r lv i n" if n: "?T i = Some n" for i n
  proof -
    obtain n0 where "T i = Some n0" "n = rounded_node prec (Some s) n0" using old [OF n] by blast
    moreover have "\<forall>e \<in> set (entries (rounded_node prec (Some s) n0)). ext_wf s (extent e)"
      if "node_ok s r lv i n0" using that rounded_wf [OF m, of s] by (auto simp: rounded_node_def node_ok_def)
    ultimately show ?thesis using D(2) by (auto simp: node_ok_def)
  qed
  show "parent_ok ?T i n" if n: "?T i = Some n" "i \<noteq> r" "i \<notin> {}" for i n
  proof -
    obtain n0 where n0: "T i = Some n0" "n = rounded_node prec (Some s) n0" using old [OF n(1)] by blast
    then show ?thesis using D(4) [OF n0(1) n(2)] by (auto simp: parent_ok_def)
  qed
  show "child_ok ?T lv {} {} i e" if n: "?T i = Some n" "\<not> is_leaf n" "e \<in> set (entries n)" for i n e
  proof -
    obtain n0 where n0: "T i = Some n0" "n = rounded_node prec (Some s) n0" using old [OF n(1)] by blast
    obtain e0 where e0: "e0 \<in> set (entries n0)" "slot e = slot e0"
      "extent e = rounded prec (Some s) (extent e0)" using n(3) n0(2) by (auto simp: rounded_node_def)
    have l0: "\<not> is_leaf n0" using n(2) n0(2) by simp
    obtain c where c: "T (slot e0) = Some c" "parent_id c = i" "Suc (lv (slot e0)) = lv i" "covers c e0"
      using D(3) [OF n0(1) l0 e0(1)] by (auto simp: child_ok_def)
    have wf: "\<forall>e' \<in> set (entries c). ext_wf s (extent e')" "ext_wf s (extent e0)"
      using D(2) [OF c(1)] D(2) [OF n0(1)] e0(1) by (simp_all add: node_ok_def)
    have "covers (rounded_node prec (Some s) c) e"
      using c(4) wf(1) rounded_mono [OF m _ wf(2), of _ "Some s"]
      by (simp add: covers_def rounded_node_def e0(3))
    then show ?thesis using c by (simp add: child_ok_def e0(2))
  qed
qed simp

lemma rounded_items:
  assumes "finite (dom T)"
  shows "leaf_items (map_option (rounded_node prec sr) \<circ> T) =
    image_mset (\<lambda>x. (rounded prec sr (fst x), snd x)) (leaf_items T)"
proof -
  have "leaf_items (map_option (rounded_node prec sr) \<circ> T) =
      (\<Sum>i \<in> dom T. image_mset (\<lambda>x. (rounded prec sr (fst x), snd x)) (node_items (the (T i))))"
    unfolding leaf_items_def
  proof (rule sum.cong)
    show "dom (map_option (rounded_node prec sr) \<circ> T) = dom T" by (rule dom_map_option_comp)
    fix i assume "i \<in> dom T"
    then obtain n where "T i = Some n" by blast
    then show "node_items (the ((map_option (rounded_node prec sr) \<circ> T) i)) =
        image_mset (\<lambda>x. (rounded prec sr (fst x), snd x)) (node_items (the (T i)))"
      by (simp add: node_items_def rounded_node_def multiset.map_comp comp_def)
  qed
  also have "\<dots> = image_mset (\<lambda>x. (rounded prec sr (fst x), snd x)) (leaf_items T)"
    using assms unfolding leaf_items_def by (induction rule: finite_induct) auto
  finally show ?thesis .
qed

lemma rtree_read_written:
  assumes t: "tree_ok s t" "table_ok t" and m: "mono prec"
  shows "\<exists>t'. rtree_read (Some s) (rtree_write prec t ex) rtree_new ex0 =
      Some (True, t', rounded prec (Some s) ex) \<and> tree_ok s t' \<and>
      rt_items t' = image_mset (\<lambda>x. (rounded prec (Some s) (fst x), snd x)) (rt_items t)"
proof -
  let ?R = "rounded_node prec (Some s)"
  obtain lv where L: "linked s (node_at t) (root_id t) lv {} {}" using t(1) by (auto simp: tree_ok_def)
  note D = linkedD [OF L]
  have dist: "distinct (map fst (node_table t))"
    using t(2) by (simp add: table_ok_def strict_sorted_iff)
  then have "\<forall>(i, n) \<in> set (node_table t). nid n = i"
    using D(2) by (force simp: node_ok_def)
  from read_nodes_written [OF this, of "Some s" prec
      "rtree_new\<lparr>root_id := root_id t, node_id_gen := node_id_gen t\<rparr>"]
  obtain t' where t': "read_nodes (Some s) (map (\<lambda>(i, n). Fields (node_fields prec n)) (node_table t))
      (rtree_new\<lparr>root_id := root_id t, node_id_gen := node_id_gen t\<rparr>) = Some t'"
    "root_id t' = root_id t" "node_id_gen t' = node_id_gen t"
    "node_at t' = node_at rtree_new ++ map_of (rev (map (\<lambda>(i, n). (i, ?R n)) (node_table t)))"
    by auto
  have "map_of (rev (map (\<lambda>(i, n). (i, ?R n)) (node_table t))) = map_of (map (\<lambda>(i, n). (i, ?R n)) (node_table t))"
    using dist by (intro map_of_inject_set [THEN iffD2]) (auto simp: comp_def case_prod_unfold simp flip: rev_map)
  also have "\<dots> = map_option ?R \<circ> node_at t"
    by (rule map_of_map)
  finally have "node_at t' = node_at rtree_new ++ (map_option ?R \<circ> node_at t)" using t'(4) by simp
  also have "\<dots> = map_option ?R \<circ> node_at t"
    using t(2) by (auto simp: table_ok_def rtree_new_def map_add_def fun_eq_iff split: option.splits)
  finally have at: "node_at t' = map_option ?R \<circ> node_at t" .
  have "rtree_read (Some s) (rtree_write prec t ex) rtree_new ex0 = Some (True, t', rounded prec (Some s) ex)"
    using t'(1) by (simp add: rtree_write_def extent_fields_def rounded_def)
  moreover have "tree_ok s t'"
    unfolding tree_ok_def t'(2,3) at
    using rounded_linked [OF L m] t(1) by (fastforce simp: tree_ok_def sized_def ids_below_def)
  ultimately show ?thesis using rounded_items [OF D(1)] at by auto
qed

end
