(* ===== verification/Spatial_Index.thy ===== *)
theory Spatial_Index
  imports R_Tree_File
begin

text \<open>
  \<^verbatim>\<open>src/osgGIS/SimpleSpatialIndex.cpp\<close>, \<^verbatim>\<open>RTreeSpatialIndex.cpp\<close> and \<^verbatim>\<open>FeatureLayer.cpp\<close>: the two
  indexes over a feature store and the layer that keeps one of them. The store is an interface of
  the program, here the record of what its operations return. \<open>None\<close> is a call through a null
  pointer.
\<close>

section \<open>Feature stores\<close>

record 's feature_store =
  store_name :: string
  store_srs :: "'s option"
  store_extent :: "'s geoextent"
  store_feature :: "int \<Rightarrow> 's feature option"
  store_cursor :: "'s cursor"
  store_mod_time :: int

definition extent_of_feature :: "'s srs_vt \<Rightarrow> 's feature \<Rightarrow> 's geoextent" where
  "extent_of_feature V f = fst (feature_get_extent V f)"

section \<open>The simple index\<close>

record 's simple_index =
  simple_store :: "'s feature_store"
  simple_extent :: "'s geoextent"

definition simple_index_new :: "'s srs_vt \<Rightarrow> 's feature_store \<Rightarrow> 's simple_index" where
  "simple_index_new V st =
     \<lparr>simple_store = st,
      simple_extent = fst (cursor_fold V (\<lambda>_. True)
        (\<lambda>f ex. expand_to_include_extent V ex (extent_of_feature V f)) (store_cursor st) ext_default)\<rparr>"

definition simple_index_cursor ::
  "'s srs_vt \<Rightarrow> 's simple_index \<Rightarrow> 's geoextent \<Rightarrow> bool \<Rightarrow> 's cursor" where
  "simple_index_cursor V ix q exact =
     (let os = fst (cursor_fold V (\<lambda>_. True)
            (\<lambda>f os. if intersects V (extent_of_feature V f) q then os @ [foid f] else os)
            (store_cursor (simple_store ix)) [])
      in cursor_new V os (Some (store_feature (simple_store ix))) q exact)"

section \<open>The R-tree index\<close>

record 's rtree_index =
  rtree_store :: "'s feature_store"
  rtree :: "'s rtree"
  rtree_extent :: "'s geoextent"

text \<open>One feature of the loop in \<open>buildIndex\<close>.\<close>

definition index_feature :: "'s srs_vt \<Rightarrow> 's feature \<Rightarrow> ('s rtree \<times> 's geoextent) option \<Rightarrow>
    ('s rtree \<times> 's geoextent) option" where
  "index_feature V f st =
     do { (t, ex) \<leftarrow> st;
          let fx = extent_of_feature V f
          in (if is_valid fx \<and> \<not> is_infinite fx
              then do { t1 \<leftarrow> rtree_insert V fx (foid f) t;
                        Some (t1, if is_valid ex then expand_to_include_extent V ex fx else fx) }
              else Some (t, ex)) }"

text \<open>
  \<open>buildIndex\<close>: \<open>work_dir\<close> tells whether there is a work directory, \<open>cached\<close> is the modification
  time and the lines of the cache file if it is there and can be opened. The result is the index
  and the cache file written, if one is.
\<close>

definition load_cached :: "bool \<Rightarrow> (int \<times> file_line list) option \<Rightarrow> 's feature_store \<Rightarrow> 's geoextent \<Rightarrow>
    (bool \<times> 's rtree \<times> 's geoextent) option" where
  "load_cached work_dir cached st ex =
     (case (if work_dir then cached else None) of
        None \<Rightarrow> Some (False, rtree_new, ex)
      | Some (mtime, ls) \<Rightarrow>
          if mtime > store_mod_time st then rtree_read (store_srs st) ls rtree_new ex
          else Some (False, rtree_new, ex))"

definition rtree_index_new :: "'s srs_vt \<Rightarrow> (real \<Rightarrow> real) \<Rightarrow> bool \<Rightarrow> (int \<times> file_line list) option \<Rightarrow>
    's feature_store \<Rightarrow> ('s rtree_index \<times> file_line list option) option" where
  "rtree_index_new V prec work_dir cached st =
     do { (loaded, t, ex) \<leftarrow> load_cached work_dir cached st ext_invalid;
          (if loaded then Some (\<lparr>rtree_store = st, rtree = t, rtree_extent = ex\<rparr>, None)
           else do {
             (t1, ex1) \<leftarrow> fst (cursor_fold V (\<lambda>_. True) (index_feature V) (store_cursor st)
                                (Some (rtree_new, ex)));
             Some (\<lparr>rtree_store = st, rtree = t1, rtree_extent = ex1\<rparr>,
                   if work_dir then Some (rtree_write prec t1 ex1) else None) }) }"

definition rtree_index_cursor ::
  "'s srs_vt \<Rightarrow> 's rtree_index \<Rightarrow> 's geoextent \<Rightarrow> bool \<Rightarrow> 's cursor option" where
  "rtree_index_cursor V ix q exact =
     do { s \<leftarrow> store_srs (rtree_store ix);
          let ex = ext_of_points V (vt_transform V s (sw q)) (vt_transform V s (ne q))
          in do { os \<leftarrow> rtree_find V (rtree ix) ex;
                  Some (cursor_new V os (Some (store_feature (rtree_store ix))) ex exact) } }"

section \<open>Feature layers\<close>

datatype 's index = Simple_Index "'s simple_index" | RTree_Index "'s rtree_index"

definition index_extent :: "'s index \<Rightarrow> 's geoextent" where
  "index_extent i = (case i of Simple_Index ix \<Rightarrow> simple_extent ix | RTree_Index ix \<Rightarrow> rtree_extent ix)"

definition index_cursor :: "'s srs_vt \<Rightarrow> 's index \<Rightarrow> 's geoextent \<Rightarrow> bool \<Rightarrow> 's cursor option" where
  "index_cursor V i q exact =
     (case i of Simple_Index ix \<Rightarrow> Some (simple_index_cursor V ix q exact)
      | RTree_Index ix \<Rightarrow> rtree_index_cursor V ix q exact)"

record 's feature_layer =
  layer_store :: "'s feature_store option"
  layer_index :: "'s index option"
  assigned_srs :: "'s option"

definition feature_layer_new :: "'s feature_store option \<Rightarrow> 's feature_layer" where
  "feature_layer_new st = \<lparr>layer_store = st, layer_index = None, assigned_srs = None\<rparr>"

text \<open>
  What the index is built from outside of the program: the printing of coordinates, the work
  directory and the cache file.
\<close>

record index_files =
  print_real :: "real \<Rightarrow> real"
  has_work_dir :: bool
  cache_file :: "(int \<times> file_line list) option"

definition assert_spatial_index ::
  "'s srs_vt \<Rightarrow> index_files \<Rightarrow> 's feature_layer \<Rightarrow> (bool \<times> 's feature_layer) option" where
  "assert_spatial_index V F l =
     (case (layer_store l, layer_index l) of
        (Some st, None) \<Rightarrow>
          do { (ix, _) \<leftarrow> rtree_index_new V (print_real F) (has_work_dir F) (cache_file F) st;
               Some (True, l\<lparr>layer_index := Some (RTree_Index ix)\<rparr>) }
      | (_, i) \<Rightarrow> Some (i \<noteq> None, l))"

definition layer_name :: "'s feature_layer \<Rightarrow> string option" where
  "layer_name l = map_option store_name (layer_store l)"

definition layer_extent ::
  "'s srs_vt \<Rightarrow> index_files \<Rightarrow> 's feature_layer \<Rightarrow> ('s geoextent \<times> 's feature_layer) option" where
  "layer_extent V F l =
     do { st \<leftarrow> layer_store l;
          (if is_valid (store_extent st) then Some (store_extent st, l)
           else do { (_, l1) \<leftarrow> assert_spatial_index V F l;
                     Some (case layer_index l1 of Some i \<Rightarrow> index_extent i | None \<Rightarrow> store_extent st, l1) }) }"

definition layer_feature :: "'s feature_layer \<Rightarrow> int \<Rightarrow> 's feature option" where
  "layer_feature l i = Option.bind (layer_store l) (\<lambda>st. store_feature st i)"

definition get_spatial_index ::
  "'s srs_vt \<Rightarrow> index_files \<Rightarrow> 's feature_layer \<Rightarrow> ('s index option \<times> 's feature_layer) option" where
  "get_spatial_index V F l =
     map_option (\<lambda>(_, l1). (layer_index l1, l1)) (assert_spatial_index V F l)"

definition set_spatial_index :: "'s srs_vt \<Rightarrow> 's index option \<Rightarrow> 's feature_layer \<Rightarrow> 's feature_layer" where
  "set_spatial_index V i l =
     (case (i, layer_store l) of
        (None, Some st) \<Rightarrow> l\<lparr>layer_index := Some (Simple_Index (simple_index_new V st))\<rparr>
      | _ \<Rightarrow> l\<lparr>layer_index := i\<rparr>)"

definition layer_srs :: "'s feature_layer \<Rightarrow> 's option" where
  "layer_srs l =
     (case assigned_srs l of Some s \<Rightarrow> Some s | None \<Rightarrow> Option.bind (layer_store l) store_srs)"

definition set_layer_srs :: "'s option \<Rightarrow> 's feature_layer \<Rightarrow> 's feature_layer" where
  "set_layer_srs s l = l\<lparr>assigned_srs := s\<rparr>"

text \<open>An empty cursor comes with the members its constructor leaves unset (\<open>u\<close>).\<close>

definition layer_cursor :: "bool \<times> nat \<Rightarrow> 's feature_layer \<Rightarrow> 's cursor" where
  "layer_cursor u l =
     (case layer_store l of Some st \<Rightarrow> store_cursor st | None \<Rightarrow> cursor_default (fst u) (snd u))"

definition layer_cursor_extent :: "'s srs_vt \<Rightarrow> index_files \<Rightarrow> bool \<times> nat \<Rightarrow> 's geoextent \<Rightarrow>
    's feature_layer \<Rightarrow> ('s cursor \<times> 's feature_layer) option" where
  "layer_cursor_extent V F u q l =
     (if is_infinite q then Some (layer_cursor u l, l)
      else do { (_, l1) \<leftarrow> assert_spatial_index V F l;
                (case layer_index l1 of
                   Some i \<Rightarrow> do { c \<leftarrow> index_cursor V i q False; Some (c, l1) }
                 | None \<Rightarrow> Some (cursor_default (fst u) (snd u), l1)) })"

definition layer_cursor_point :: "'s srs_vt \<Rightarrow> index_files \<Rightarrow> bool \<times> nat \<Rightarrow> 's geopoint \<Rightarrow>
    's feature_layer \<Rightarrow> ('s cursor \<times> 's feature_layer) option" where
  "layer_cursor_point V F u p l =
     (if point_valid p
      then do { (_, l1) \<leftarrow> assert_spatial_index V F l;
                i \<leftarrow> layer_index l1;
                c \<leftarrow> index_cursor V i (ext_of_points V p p) True;
                Some (c, l1) }
      else Some (cursor_default (fst u) (snd u), l))"

section \<open>Both indexes find the same features\<close>

text \<open>The features of a store as items of an index.\<close>

definition store_features :: "'s srs_vt \<Rightarrow> 's feature_store \<Rightarrow> 's feature list" where
  "store_features V st = pending V (store_cursor st)"

lemma prefetch_oids: "oids (cursor_new V os st ex m) = os"
  by (simp add: cursor_new_def reset_def prefetch_frame)

lemma simple_index_finds:
  assumes "cursor_ok (store_cursor st)"
  shows "simple_index_cursor V (simple_index_new V st) q exact =
    cursor_new V (map foid (filter (\<lambda>f. intersects V (extent_of_feature V f) q) (store_features V st)))
      (Some (store_feature st)) q exact"
proof -
  have "list_loop (\<lambda>_. True) (\<lambda>f os. if intersects V (extent_of_feature V f) q then os @ [foid f] else os) fs acc =
      acc @ map foid (filter (\<lambda>f. intersects V (extent_of_feature V f) q) fs)" for fs acc
    by (induction fs arbitrary: acc) simp_all
  then show ?thesis
    by (simp add: simple_index_cursor_def simple_index_new_def cursor_fold_pending [OF assms]
        store_features_def)
qed

lemma cache_not_used:
  "\<not> work_dir \<or> cached = None \<or> (\<exists>m ls. cached = Some (m, ls) \<and> m \<le> store_mod_time st) \<Longrightarrow>
     load_cached work_dir cached st ex = Some (False, rtree_new, ex)"
  by (auto simp: load_cached_def)

context srs_interface begin

lemma index_features_ok:
  assumes U: "usable s" and fs: "\<forall>f \<in> set fs. ext_wf s (extent_of_feature V f)"
    and t: "tree_ok s t" "table_ok t"
  shows "\<exists>t' ex'. list_loop (\<lambda>_. True) (index_feature V) fs (Some (t, ex)) = Some (t', ex') \<and>
    tree_ok s t' \<and> table_ok t' \<and>
    rt_items t' = rt_items t + mset (map (\<lambda>f. (stored_extent (extent_of_feature V f), foid f)) fs)"
  using fs t
proof (induction fs arbitrary: t ex)
  case (Cons f fs)
  have w: "ext_wf s (extent_of_feature V f)" using Cons.prems(1) by simp
  obtain t1 where t1: "rtree_insert V (extent_of_feature V f) (foid f) t = Some t1" "tree_ok s t1"
    "rt_items t1 = add_mset (stored_extent (extent_of_feature V f), foid f) (rt_items t)"
    using rtree_insert_ok [OF U Cons.prems(2) w] by blast
  let ?ex = "if is_valid ex then expand_to_include_extent V ex (extent_of_feature V f) else extent_of_feature V f"
  have step: "index_feature V f (Some (t, ex)) = Some (t1, ?ex)"
    using t1(1) ext_wfD(1,2) [OF w] by (simp add: index_feature_def Let_def)
  have "\<forall>f \<in> set fs. ext_wf s (extent_of_feature V f)" using Cons.prems(1) by simp
  from Cons.IH [OF this t1(2) table_ok_insert [OF Cons.prems(3) t1(1)], of ?ex] show ?case
    using t1(3) by (simp only: list_loop.simps if_True step) auto
qed simp

lemma query_in_srs:
  "usable s \<Longrightarrow> ext_wf s q \<Longrightarrow> ext_of_points V (vt_transform V s (sw q)) (vt_transform V s (ne q)) = q"
  using transform_extent_same [of s q] by (simp add: transform_extent_def)

lemma rtree_index_finds:
  assumes U: "usable s" and st: "store_srs st = Some s" "cursor_ok (store_cursor st)"
    and fs: "\<forall>f \<in> set (store_features V st). ext_wf s (extent_of_feature V f)"
    and q: "ext_wf s q"
    and cache: "\<not> work_dir \<or> cached = None \<or> (\<exists>m ls. cached = Some (m, ls) \<and> m \<le> store_mod_time st)"
  shows "\<exists>ix file os. rtree_index_new V prec work_dir cached st = Some (ix, file) \<and>
    rtree_store ix = st \<and> tree_ok s (rtree ix) \<and> table_ok (rtree ix) \<and>
    rtree_index_cursor V ix q exact = Some (cursor_new V os (Some (store_feature st)) q exact) \<and>
    mset os = mset (map foid
      (filter (\<lambda>f. intersects V (stored_extent (extent_of_feature V f)) q) (store_features V st)))"
proof -
  from index_features_ok [OF U fs rtree_new_ok(1) table_ok_new, of ext_invalid] obtain t ex where
    t: "list_loop (\<lambda>_. True) (index_feature V) (store_features V st) (Some (rtree_new, ext_invalid)) = Some (t, ex)"
      "tree_ok s t" "table_ok t"
      "rt_items t = mset (map (\<lambda>f. (stored_extent (extent_of_feature V f), foid f)) (store_features V st))"
    by (auto simp: rtree_new_ok)
  let ?ix = "\<lparr>rtree_store = st, rtree = t, rtree_extent = ex\<rparr>"
  have "rtree_index_new V prec work_dir cached st =
      Some (?ix, if work_dir then Some (rtree_write prec t ex) else None)"
    using t(1) by (simp add: rtree_index_new_def cache_not_used [OF cache]
        cursor_fold_pending [OF st(2)] store_features_def)
  moreover obtain os where os: "rtree_find V t q = Some os" "mset os = hits q (rt_items t)"
    using rtree_find_ok [OF U t(2) q] by blast
  moreover have "hits q (rt_items t) = mset (map foid
      (filter (\<lambda>f. intersects V (stored_extent (extent_of_feature V f)) q) (store_features V st)))"
  proof -
    have "hits q (mset (map (\<lambda>f. (stored_extent (extent_of_feature V f), foid f)) fs)) =
        mset (map foid (filter (\<lambda>f. intersects V (stored_extent (extent_of_feature V f)) q) fs))" for fs
      by (induction fs) auto
    then show ?thesis unfolding t(4) .
  qed
  moreover have "rtree_index_cursor V ?ix q exact = Some (cursor_new V os (Some (store_feature st)) q exact)"
    using os(1) st(1) by (simp add: rtree_index_cursor_def query_in_srs [OF U q] Let_def)
  ultimately show ?thesis using t(2,3) by auto
qed

end


section \<open>Layers\<close>

lemma store_cursor_oids [simp]:
  "oids (cursor_new V os st ex m) = os" "store (cursor_new V os st ex m) = st"
  by (simp_all add: cursor_new_def reset_def prefetch_frame)

context srs_interface begin

lemma layer_indexes_agree:
  assumes U: "usable s" and st: "store_srs st = Some s" "cursor_ok (store_cursor st)"
    and fs: "\<forall>f \<in> set (store_features V st). ext_wf s (extent_of_feature V f) \<and> get_area (extent_of_feature V f) \<noteq> 0"
    and q: "ext_wf s q" and F: "cache_file F = None"
  shows "\<exists>c1 l1 c2 l2.
    layer_cursor_extent V F u q (feature_layer_new (Some st)) = Some (c1, l1) \<and>
    layer_cursor_extent V F u q (set_spatial_index V None (feature_layer_new (Some st))) = Some (c2, l2) \<and>
    mset (oids c1) = mset (oids c2) \<and> store c1 = store c2 \<and>
    mset (oids c1) = mset (map foid
      (filter (\<lambda>f. intersects V (extent_of_feature V f) q) (store_features V st)))"
proof -
  have fin: "\<not> is_infinite q" using ext_wfD(2) [OF q] .
  have wf: "\<forall>f \<in> set (store_features V st). ext_wf s (extent_of_feature V f)" using fs by blast
  have "filter (\<lambda>f. intersects V (stored_extent (extent_of_feature V f)) q) (store_features V st) =
      filter (\<lambda>f. intersects V (extent_of_feature V f) q) (store_features V st)"
  proof (rule filter_cong [OF refl])
    fix f assume "f \<in> set (store_features V st)"
    with fs have "stored_extent (extent_of_feature V f) = extent_of_feature V f"
      by (intro stored_extent_area [of _ s]) simp_all
    then show "intersects V (stored_extent (extent_of_feature V f)) q = intersects V (extent_of_feature V f) q"
      by simp
  qed
  with rtree_index_finds [OF U st wf q, of "has_work_dir F" "cache_file F" "print_real F" False] F
  obtain ix fl os where ix: "rtree_index_new V (print_real F) (has_work_dir F) (cache_file F) st = Some (ix, fl)"
    "rtree_index_cursor V ix q False = Some (cursor_new V os (Some (store_feature st)) q False)"
    "mset os = mset (map foid (filter (\<lambda>f. intersects V (extent_of_feature V f) q) (store_features V st)))"
    by auto
  let ?l1 = "\<lparr>layer_store = Some st, layer_index = Some (RTree_Index ix), assigned_srs = None\<rparr>"
  have 1: "layer_cursor_extent V F u q (feature_layer_new (Some st)) =
      Some (cursor_new V os (Some (store_feature st)) q False, ?l1)"
    using fin ix(1,2) by (simp add: layer_cursor_extent_def assert_spatial_index_def feature_layer_new_def
        index_cursor_def)
  let ?l2 = "set_spatial_index V None (feature_layer_new (Some st))"
  have 2: "layer_cursor_extent V F u q ?l2 = Some (cursor_new V
      (map foid (filter (\<lambda>f. intersects V (extent_of_feature V f) q) (store_features V st)))
      (Some (store_feature st)) q False, ?l2)"
    using fin unfolding simple_index_finds [OF st(2), symmetric]
    by (simp add: layer_cursor_extent_def assert_spatial_index_def feature_layer_new_def
        index_cursor_def set_spatial_index_def)
  show ?thesis using 1 2 ix(3) by simp
qed

end

section \<open>The tree over OGR references\<close>

lemma insert_all_fold:
  "r_tree.insert_all L xs t =
     foldl (\<lambda>r x. Option.bind r (rtree_insert (ogr_vt L) (fst x) (snd x))) (Some t) xs"
proof -
  have none: "foldl (\<lambda>r x. Option.bind r (rtree_insert (ogr_vt L) (fst x) (snd x))) None xs = None" for xs
    by (induction xs) simp_all
  show ?thesis
  proof (induction xs arbitrary: t)
    case (Cons x xs)
    then show ?case
      by (cases "rtree_insert (ogr_vt L) (fst x) (snd x) t") (simp_all add: none)
  qed simp
qed

lemma built_tree_sized:
  assumes "srs_usable s" and "\<forall>x \<in> set xs. ext_wf s (fst x)"
  shows "r_tree.insert_all L xs rtree_new = Some t \<Longrightarrow> sized (node_at t) (root_id t) {}"
  using r_tree.insert_all_bag [of s rtree_new xs L] rtree_new_ok(1) [of s] assms
  by (auto simp: tree_ok_def)

lemma rtree_cached_find:
  assumes "srs_usable s" and "\<forall>x \<in> set xs. ext_wf s (fst x)" and "ext_wf s q" and "mono prec"
  shows "r_tree.insert_all L xs rtree_new = Some t \<Longrightarrow>
    \<exists>t' rs. rtree_read (Some s) (rtree_write prec t ex) rtree_new ex0 =
      Some (True, t', rounded prec (Some s) ex) \<and>
    rtree_find (ogr_vt L) t' q = Some rs \<and> mset rs = mset (map snd
      (filter (\<lambda>x. intersects (ogr_vt L) (rounded prec (Some s) (stored_extent (fst x))) q) xs))"
proof -
  assume b: "r_tree.insert_all L xs rtree_new = Some t"
  have t: "tree_ok s t" "rt_items t = image_mset (\<lambda>x. (stored_extent (fst x), snd x)) (mset xs)"
    using r_tree.insert_all_bag [of s rtree_new xs L] rtree_new_ok(1) [of s] assms(1,2) b
    by (auto simp: rtree_new_ok(2))
  have "table_ok t" using table_ok_insert_all [OF table_ok_new b] .
  from rtree_read_written [OF t(1) this assms(4), of ex ex0] obtain t' where
    t': "rtree_read (Some s) (rtree_write prec t ex) rtree_new ex0 = Some (True, t', rounded prec (Some s) ex)"
      "tree_ok s t'" "rt_items t' = image_mset (\<lambda>x. (rounded prec (Some s) (fst x), snd x)) (rt_items t)" by blast
  from ogr.rtree_find_ok [OF assms(1) t'(2) assms(3)] obtain rs where rs:
    "rtree_find (ogr_vt L) t' q = Some rs" "mset rs = ogr.hits L q (rt_items t')" by blast
  have "ogr.hits L q (rt_items t') = mset (map snd
      (filter (\<lambda>x. intersects (ogr_vt L) (rounded prec (Some s) (stored_extent (fst x))) q) xs))"
    unfolding t'(3) t(2) by (induction xs) auto
  with t'(1) rs show ?thesis by metis
qed

end
