(* ===== verification/Samples.thy ===== *)
theory Samples
  imports Quad_Key Filter_Graph Spatial_Index
begin

text \<open>
  Concrete values at which the theorems are instantiated: a library record whose matrices are
  trivial and whose angles are converted exactly, a geographic reference, boxes, shapes and
  features in it.
\<close>

definition sample_lib :: "unit lib" where
  "sample_lib =
     \<lparr>mat_mult = (\<lambda>v m. v), mat_is_identity = (\<lambda>m. True), mat_identity = (), mat_inverse = (\<lambda>m. ()),
      deg_to_rad = (\<lambda>d. d * (pi / 180)), rad_to_deg = (\<lambda>r. r * (180 / pi)),
      oct = (\<lambda>a b. None), geographic_of = (\<lambda>g. g), clone_oid = Suc\<rparr>"

definition sample_ogr :: "unit ogr_srs" where
  "sample_ogr = ogr_new sample_lib 0 (Some 1) True False 6378137 6356752 ()"

definition sample_srs :: "unit srs" where
  "sample_srs = Ogr sample_ogr"

definition sample_point :: "real \<Rightarrow> real \<Rightarrow> unit srs geopoint" where
  "sample_point x y = geopoint_2d x y (Some sample_srs)"

definition sample_box :: "real \<Rightarrow> real \<Rightarrow> real \<Rightarrow> real \<Rightarrow> unit srs geoextent" where
  "sample_box a b c d = ext_of_bounds a b c d (Some sample_srs)"

definition sample_shape :: "unit srs geoshape" where
  "sample_shape = add_part (shape_new shape_type.TYPE_LINE (Some sample_srs))
     [sample_point 0 0, sample_point 4 2]"

text \<open>A square in counter-clockwise order, not closed.\<close>

definition sample_square :: "unit srs geopoint list" where
  "sample_square = [sample_point 0 0, sample_point 4 0, sample_point 4 4, sample_point 0 4]"

definition sample_feature :: "unit srs feature" where
  "sample_feature = modify_shapes simple_feature (\<lambda>_. [sample_shape])"

lemma sample_usable [simp]: "srs_usable sample_srs"
  by (simp add: srs_usable_def sample_srs_def sample_ogr_def ogr_new_def)

lemma sample_point_simps [simp]:
  "px (sample_point x y) = x" "py (sample_point x y) = y" "point_valid (sample_point x y)"
  "spatial_ref (sample_point x y) = Some sample_srs"
  by (simp_all add: sample_point_def)

lemma sample_box_wf [simp]: "a \<le> c \<Longrightarrow> b \<le> d \<Longrightarrow> ext_wf sample_srs (sample_box a b c d)"
  by (simp add: sample_box_def ext_of_bounds_wf)

lemma sample_box_simps [simp]:
  "px (sw (sample_box a b c d)) = a" "py (sw (sample_box a b c d)) = b"
  "px (ne (sample_box a b c d)) = c" "py (ne (sample_box a b c d)) = d"
  by (simp_all add: sample_box_def)

lemma sample_shape_parts [simp]: "parts sample_shape = [[sample_point 0 0, sample_point 4 2]]"
  by (simp add: sample_shape_def add_part_def shape_new_def)

lemma sample_shape_cache [simp]: "cache_ok V sample_shape"
  by (simp add: sample_shape_def shape_ops_cache_ok)

lemma sample_shape_in [simp]: "shape_in V sample_srs sample_shape"
  by (simp add: shape_in_def)

lemma sample_feature_simps [simp]:
  "fshapes sample_feature = [sample_shape]" "fextent sample_feature = ext_invalid"
  by (simp_all add: sample_feature_def modify_shapes_def)

definition sample_map :: "unit srs quadmap" where
  "sample_map = quadmap_new (sample_box 0 0 8 8)"

lemma sample_map_bounds [simp]:
  "bounds sample_map = sample_box 0 0 8 8" "bounds (quadmap_copy sample_map) = sample_box 0 0 8 8"
proof -
  have c: "ext_copy (sample_box 0 0 8 8) = sample_box 0 0 8 8"
    by (rule ext_wf_copy [OF sample_box_wf]) simp_all
  show "bounds sample_map = sample_box 0 0 8 8" "bounds (quadmap_copy sample_map) = sample_box 0 0 8 8"
    by (simp_all add: sample_map_def quadmap_new_def quadmap_copy_def c)
qed

lemma sample_map_size [simp]: "get_cell_size sample_map n = (8 / 2 ^ n, 8 / 2 ^ n)"
proof -
  have "ext_wf sample_srs (sample_box 0 0 8 8)" by simp
  from ext_wf_observe [OF this] show ?thesis
    by (simp add: get_cell_size_eq get_width_def get_height_def)
qed

definition sample_env :: "(unit srs, unit) filter_env" where
  "sample_env = env_new () () () None"

definition sample_filter :: "filter_kind \<Rightarrow> unit filt" where
  "sample_filter k =
     \<lparr>fkind = k, fname = [], metering = 0, group_property_name = [], own = ()\<rparr>"

text \<open>A table whose node filters make a node of every feature: its identifier.\<close>

definition sample_vt :: "(unit srs, unit, int, unit, unit) filter_vt" where
  "sample_vt = (base_classes (\<lambda>_. 0))\<lparr>node_process_features := \<lambda>x fs e. (map foid fs, e, x)\<rparr>"

lemma sample_vt_simps [simp]:
  "feature_process sample_vt x fs e = (fs, e, x)"
  "node_process_features sample_vt x fs e = (map foid fs, e, x)"
  by (simp_all add: sample_vt_def base_classes_def process_each_identity)

text \<open>A feature with one attribute of the store, overridden by the user.\<close>

definition sample_attribute :: attribute where
  "sample_attribute =
     \<lparr>akey = [], atype = attr_type.TYPE_UNSPECIFIED, string_value = [], int_value = 0,
      double_value = 0, avalid = False\<rparr>"

definition sample_attributed :: "unit srs feature" where
  "sample_attributed = simple_feature
     \<lparr>store_attrs := [(''x'', attr_int sample_attribute ''x'' 1)],
      user_attrs := [(''x'', attr_int sample_attribute ''x'' 2)]\<rparr>"

lemma sample_attributed_simps [simp]:
  "smap_sorted (store_attrs sample_attributed)" "smap_sorted (user_attrs sample_attributed)"
  "store_attrs_loaded sample_attributed"
  "merged_attrs sample_attributed = [(''x'', attr_int sample_attribute ''x'' 2)]"
  by (simp_all add: sample_attributed_def simple_feature_def smap_sorted_def merged_attrs_def
      smap_put_def)

text \<open>A store of one feature whose extent is a box.\<close>

definition sample_boxed :: "unit srs feature" where
  "sample_boxed = simple_feature\<lparr>fextent := sample_box 0 0 4 2, foid := 7\<rparr>"

definition sample_store :: "unit srs feature_store" where
  "sample_store =
     \<lparr>store_name = ''sample'', store_srs = Some sample_srs, store_extent = ext_invalid,
      store_feature = (\<lambda>i. Some sample_boxed),
      store_cursor = cursor_new (ogr_vt sample_lib) [7] (Some (\<lambda>i. Some sample_boxed)) ext_infinite False,
      store_mod_time = 0\<rparr>"

definition sample_files :: index_files where
  "sample_files = \<lparr>print_real = (\<lambda>x. x), has_work_dir = True, cache_file = None\<rparr>"

lemma sample_boxed_id [simp]: "foid sample_boxed = 7"
  by (simp add: sample_boxed_def)

lemma sample_boxed_extent [simp]: "extent_of_feature V sample_boxed = sample_box 0 0 4 2"
proof -
  have "is_valid (sample_box 0 0 4 2)" by (rule ext_wfD(1) [OF sample_box_wf]) simp_all
  then show ?thesis by (simp add: extent_of_feature_def feature_get_extent_def sample_boxed_def)
qed

lemma sample_store_simps [simp]:
  "store_srs sample_store = Some sample_srs" "cursor_ok (store_cursor sample_store)"
  "store_features (ogr_vt sample_lib) sample_store = [sample_boxed]"
  "has_work_dir sample_files" "cache_file sample_files = None"
  by (simp_all add: sample_store_def cursor_new_ok store_features_def cursor_new_pending deliverable_def
      List.map_filter_simps sample_files_def)

lemma sample_box_area [simp]:
  "a \<le> c \<Longrightarrow> b \<le> d \<Longrightarrow> get_area (sample_box a b c d) = (c - a) * (d - b)"
  using ext_wf_observe(7) [OF sample_box_wf] by simp

lemma sample_boxes_meet [simp]:
  "intersects (ogr_vt sample_lib) (stored_extent (sample_box 0 0 2 2)) (sample_box 1 1 3 3)"
  "intersects (ogr_vt sample_lib) (sample_box 0 0 4 2) (sample_box 1 1 3 3)"
proof -
  have s: "stored_extent (sample_box 0 0 2 2) = sample_box 0 0 2 2"
    by (rule stored_extent_area [of _ sample_srs]) simp_all
  show "intersects (ogr_vt sample_lib) (stored_extent (sample_box 0 0 2 2)) (sample_box 1 1 3 3)"
    unfolding s by (subst ogr.intersects_wf [of sample_srs]) (auto simp: boxes_meet_iff [of sample_srs _ sample_srs])
  show "intersects (ogr_vt sample_lib) (sample_box 0 0 4 2) (sample_box 1 1 3 3)"
    by (subst ogr.intersects_wf [of sample_srs]) (auto simp: boxes_meet_iff [of sample_srs _ sample_srs])
qed

end
