(* ===== verification/Crop_Line.thy ===== *)
theory Crop_Line
  imports Filter_State
begin

text \<open>
  \<^verbatim>\<open>src/osgGIS/CropFilter.cpp\<close>, the part that is shared by the two cropping algorithms (the
  side of a boundary line a point is on, the intersection of a segment with such a line, the four
  sides of the window) and the cropping of lines and points, with the proof that cropping a line
  keeps exactly what lies in the window.
\<close>

section \<open>Boundary lines\<close>

text \<open>The third component of the cross product \<open>(s2 - s1) ^ (p - s1)\<close>.\<close>

definition line_side :: "'s geopoint \<Rightarrow> 's geopoint \<Rightarrow> 's geopoint \<Rightarrow> real" where
  "line_side s1 s2 p =
     (px s2 - px s1) * (py p - py s1) - (py s2 - py s1) * (px p - px s1)"

definition point_inside_or_on_line :: "'s geopoint \<Rightarrow> 's geopoint \<Rightarrow> 's geopoint \<Rightarrow> bool" where
  "point_inside_or_on_line p s1 s2 \<longleftrightarrow> line_side s1 s2 p \<ge> 0"

definition extent_inside_or_on_line :: "'s geoextent \<Rightarrow> 's geopoint \<Rightarrow> 's geopoint \<Rightarrow> bool" where
  "extent_inside_or_on_line e s1 s2 \<longleftrightarrow>
     point_inside_or_on_line (sw e) s1 s2 \<and> point_inside_or_on_line (ne e) s1 s2"

text \<open>
  The point where the segment from \<open>p1\<close> to \<open>p2\<close> meets the line through \<open>p3\<close> and \<open>p4\<close>; \<open>None\<close>
  is the result \<open>false\<close>. The point always has three dimensions.
\<close>

definition get_isect_point ::
  "'s geopoint \<Rightarrow> 's geopoint \<Rightarrow> 's geopoint \<Rightarrow> 's geopoint \<Rightarrow> 's geopoint option" where
  "get_isect_point p1 p2 p3 p4 =
     (let denom = (py p4 - py p3) * (px p2 - px p1) - (px p4 - px p3) * (py p2 - py p1)
      in if denom = 0 then None
         else let ua_num = (px p4 - px p3) * (py p1 - py p3) - (py p4 - py p3) * (px p1 - px p3);
                  ua = ua_num / denom
              in if ua < 0 \<or> ua > 1 then None
                 else let x = px p1 + ua * (px p2 - px p1);
                          y = py p1 + ua * (py p2 - py p1);
                          z = (if dim p1 > 2 then pz p1 + ua * (pz p2 - pz p1) else 0)
                      in Some (geopoint_3d x y z (spatial_ref p1)))"

text \<open>The ends of the side of the window a stage crops against, the window to its left.\<close>

datatype crop_side = SOUTH | EAST | NORTH | WEST

fun side_start :: "'s geoextent \<Rightarrow> crop_side \<Rightarrow> 's geopoint" where
  "side_start w SOUTH = sw w"
| "side_start w EAST = se w"
| "side_start w NORTH = ne w"
| "side_start w WEST = nw w"

fun side_end :: "'s geoextent \<Rightarrow> crop_side \<Rightarrow> 's geopoint" where
  "side_end w SOUTH = se w"
| "side_end w EAST = ne w"
| "side_end w NORTH = nw w"
| "side_end w WEST = sw w"

definition crop_sides :: "crop_side list" where
  "crop_sides = [SOUTH, EAST, NORTH, WEST]"

section \<open>Lines\<close>

record 's line_crop =
  line_inside :: bool
  line_prev :: "'s geopoint"
  line_current :: "'s geopoint list"
  line_parts :: "'s geopoint list list"

definition line_crop_start :: "'s line_crop" where
  "line_crop_start =
     \<lparr>line_inside = True, line_prev = geopoint_default, line_current = [], line_parts = []\<rparr>"

text \<open>One round of the loop over the points, for the point \<open>p\<close> at index \<open>i\<close>.\<close>

definition crop_line_step ::
  "'s geopoint \<Rightarrow> 's geopoint \<Rightarrow> nat \<Rightarrow> 's geopoint \<Rightarrow> 's line_crop \<Rightarrow> 's line_crop" where
  "crop_line_step s1 s2 i p st =
     (let st1 =
        (if point_inside_or_on_line p s1 s2 then
           (if line_inside st then st\<lparr>line_current := line_current st @ [p]\<rparr>
            else if point_valid (line_prev st) then
              (case get_isect_point (line_prev st) p s1 s2 of
                 None \<Rightarrow> st
               | Some q \<Rightarrow> st\<lparr>line_current := line_current st @ [q, p]\<rparr>)
            else st)\<lparr>line_inside := True\<rparr>
         else
           (if line_inside st \<and> i > 0 then
              (case get_isect_point (line_prev st) p s1 s2 of
                 None \<Rightarrow> st
               | Some q \<Rightarrow>
                   (let c = line_current st @ [q] in
                    st\<lparr>line_parts := (if length c > 1 then line_parts st @ [c] else line_parts st),
                       line_current := []\<rparr>))
            else st)\<lparr>line_inside := False\<rparr>)
      in st1\<lparr>line_prev := p\<rparr>)"

fun crop_line_loop ::
  "'s geopoint \<Rightarrow> 's geopoint \<Rightarrow> nat \<Rightarrow> 's geopoint list \<Rightarrow> 's line_crop \<Rightarrow> 's line_crop" where
  "crop_line_loop s1 s2 i [] st = st"
| "crop_line_loop s1 s2 i (p # ps) st = crop_line_loop s1 s2 (Suc i) ps (crop_line_step s1 s2 i p st)"

definition crop_line_stage :: "'s geopoint \<Rightarrow> 's geopoint \<Rightarrow> 's geopoint list \<Rightarrow> 's geopoint list list" where
  "crop_line_stage s1 s2 part =
     (let st = crop_line_loop s1 s2 0 part line_crop_start
      in line_parts st @ (if length (line_current st) > 1 then [line_current st] else []))"

definition crop_line_part :: "'s geopoint list \<Rightarrow> 's geoextent \<Rightarrow> 's geopoint list list" where
  "crop_line_part part w =
     foldl (\<lambda>working s. concat (map (crop_line_stage (side_start w s) (side_end w s)) working))
       [part] crop_sides"

section \<open>Points\<close>

fun filter_opt :: "('a \<Rightarrow> bool option) \<Rightarrow> 'a list \<Rightarrow> 'a list option" where
  "filter_opt f [] = Some []"
| "filter_opt f (x # xs) =
     do { b \<leftarrow> f x; ys \<leftarrow> filter_opt f xs; Some (if b then x # ys else ys) }"

text \<open>A part of points stays a part even when it has lost all of them.\<close>

definition crop_point_part ::
  "'s srs_vt \<Rightarrow> 's geopoint list \<Rightarrow> 's geoextent \<Rightarrow> 's geopoint list list option" where
  "crop_point_part V part w = map_option (\<lambda>ps. [ps]) (filter_opt (contains_point V w) part)"

section \<open>Intersections\<close>

text \<open>The point at parameter \<open>u\<close> of the way from \<open>a\<close> to \<open>b\<close>.\<close>

definition seg_at :: "'s geopoint \<Rightarrow> 's geopoint \<Rightarrow> real \<Rightarrow> real \<times> real" where
  "seg_at a b u = (px a + u * (px b - px a), py a + u * (py b - py a))"

definition seg :: "'s geopoint \<Rightarrow> 's geopoint \<Rightarrow> (real \<times> real) set" where
  "seg a b = seg_at a b ` {0..1}"

definition half_plane :: "'s geopoint \<Rightarrow> 's geopoint \<Rightarrow> (real \<times> real) set" where
  "half_plane s1 s2 =
     {(x, y). (px s2 - px s1) * (y - py s1) - (py s2 - py s1) * (x - px s1) \<ge> 0}"

lemma half_plane_pt: "pt_xy p \<in> half_plane s1 s2 \<longleftrightarrow> line_side s1 s2 p \<ge> 0"
  by (simp add: half_plane_def pt_xy_def line_side_def)

lemma half_plane_seg_at:
  "seg_at a b u \<in> half_plane s1 s2 \<longleftrightarrow>
     line_side s1 s2 a + u * (line_side s1 s2 b - line_side s1 s2 a) \<ge> 0"
  by (simp add: half_plane_def seg_at_def line_side_def algebra_simps)

lemma seg_ends: "pt_xy a \<in> seg a b" "pt_xy b \<in> seg a b"
  by (auto simp: seg_def seg_at_def pt_xy_def image_iff intro: bexI [of _ 0] bexI [of _ 1])

text \<open>The parameter of the intersection, by the sides of the two ends.\<close>

lemma isect_denom:
  "(py s2 - py s1) * (px b - px a) - (px s2 - px s1) * (py b - py a) =
     line_side s1 s2 a - line_side s1 s2 b"
  by (simp add: line_side_def algebra_simps)

lemma isect_exists:
  assumes "(line_side s1 s2 a \<ge> 0) \<noteq> (line_side s1 s2 b \<ge> 0)"
  obtains q u where "get_isect_point a b s1 s2 = Some q" and "0 \<le> u" and "u \<le> 1"
    and "pt_xy q = seg_at a b u" and "line_side s1 s2 a + u * (line_side s1 s2 b - line_side s1 s2 a) = 0"
proof -
  let ?a = "line_side s1 s2 a" and ?b = "line_side s1 s2 b"
  define u where "u = ?a / (?a - ?b)"
  have ne: "?a - ?b \<noteq> 0" using assms by auto
  have u: "0 \<le> u" "u \<le> 1" using assms by (auto simp: u_def field_simps divide_simps split: if_splits)
  let ?z = "if dim a > 2 then pz a + u * (pz b - pz a) else 0"
  let ?q = "geopoint_3d (px a + u * (px b - px a)) (py a + u * (py b - py a)) ?z (spatial_ref a)"
  have num: "(px s2 - px s1) * (py a - py s1) - (py s2 - py s1) * (px a - px s1) = ?a"
    by (simp add: line_side_def)
  have "get_isect_point a b s1 s2 = Some ?q"
    unfolding get_isect_point_def isect_denom num using ne u by (simp add: Let_def u_def)
  moreover have "?a + u * (?b - ?a) = 0" using ne by (simp add: u_def field_simps)
  ultimately show thesis using u by (intro that [of ?q u]) (simp_all add: pt_xy_def seg_at_def)
qed

text \<open>An intersection lies on its segment whatever the sides; its reference is that of the start.\<close>

lemma isect_on_segment:
  assumes "get_isect_point a b s1 s2 = Some q"
  shows "pt_xy q \<in> seg a b" and "spatial_ref q = spatial_ref a" and "dim q = 3"
proof -
  obtain u z where u: "0 \<le> u" "u \<le> 1"
    and q: "q = geopoint_3d (px a + u * (px b - px a)) (py a + u * (py b - py a)) z (spatial_ref a)"
    using assms by (auto simp: get_isect_point_def Let_def not_less split: if_splits)
  show "pt_xy q \<in> seg a b" using u by (auto simp: seg_def seg_at_def pt_xy_def q)
  show "spatial_ref q = spatial_ref a" "dim q = 3" by (simp_all add: q)
qed

section \<open>What a list of points covers\<close>

fun covered :: "'s geopoint list \<Rightarrow> (real \<times> real) set" where
  "covered (a # b # ps) = seg a b \<union> covered (b # ps)"
| "covered _ = {}"

definition covered_all :: "'s geopoint list list \<Rightarrow> (real \<times> real) set" where
  "covered_all ps = \<Union> (covered ` set ps)"

lemma covered_snoc: "covered (xs @ [a, b]) = covered (xs @ [a]) \<union> seg a b"
  by (induction xs rule: covered.induct) auto

lemma covered_add: "xs \<noteq> [] \<Longrightarrow> covered (xs @ [b]) = covered xs \<union> seg (last xs) b"
  using covered_snoc [of "butlast xs" "last xs" b] by (metis append.assoc append_Cons append_Nil append_butlast_last_id)

lemma covered_all_append [simp]: "covered_all (xs @ ys) = covered_all xs \<union> covered_all ys"
  and covered_all_Cons [simp]: "covered_all (x # ys) = covered x \<union> covered_all ys"
  and covered_all_Nil [simp]: "covered_all [] = {}"
  by (auto simp: covered_all_def)

lemma covered_short: "length ps \<le> 1 \<Longrightarrow> covered ps = {}"
  by (cases ps rule: covered.cases) auto

lemma covered_vertex: "2 \<le> length ps \<Longrightarrow> p \<in> set ps \<Longrightarrow> pt_xy p \<in> covered ps"
proof (induction ps rule: covered.induct)
  case (1 a b ps)
  show ?case
  proof (cases ps)
    case Nil
    with 1 seg_ends show ?thesis by auto
  next
    case (Cons c qs)
    with 1 seg_ends show ?thesis by auto
  qed
qed auto

text \<open>A segment that crosses the line, cut at the intersection.\<close>

lemma seg_from: 
  assumes "pt_xy q = seg_at a b u" "0 \<le> u" "u \<le> 1"
  shows "seg q b = seg_at a b ` {u..1}" and "seg a q = seg_at a b ` {0..u}"
proof -
  have q: "px q = px a + u * (px b - px a)" "py q = py a + u * (py b - py a)"
    using assms(1) by (simp_all add: pt_xy_def seg_at_def)
  have qb: "seg_at q b v = seg_at a b (u + v * (1 - u))" for v
    by (simp add: seg_at_def q algebra_simps)
  have aq: "seg_at a q v = seg_at a b (v * u)" for v
    by (simp add: seg_at_def q algebra_simps)
  have 1: "(\<lambda>v. u + v * (1 - u)) ` {0..1} = {u..1}"
  proof (intro equalityI subsetI)
    fix w assume w: "w \<in> {u..1}"
    show "w \<in> (\<lambda>v. u + v * (1 - u)) ` {0..1}"
    proof (cases "u = 1")
      case False
      with w assms show ?thesis
        by (intro image_eqI [of _ _ "(w - u) / (1 - u)"]) (auto simp: field_simps)
    qed (use w in \<open>auto intro: image_eqI [of _ _ 0]\<close>)
  next
    fix w assume "w \<in> (\<lambda>v. u + v * (1 - u)) ` {0..1}"
    then obtain v where v: "0 \<le> v" "v \<le> 1" "w = u + v * (1 - u)" by auto
    have "v * (1 - u) \<le> 1 * (1 - u)" using v assms by (intro mult_right_mono) auto
    then show "w \<in> {u..1}" using v assms by auto
  qed
  have 2: "(\<lambda>v. v * u) ` {0..1} = {0..u}"
  proof (intro equalityI subsetI)
    fix w assume w: "w \<in> {0..u}"
    show "w \<in> (\<lambda>v. v * u) ` {0..1}"
    proof (cases "u = 0")
      case False
      with w assms show ?thesis by (intro image_eqI [of _ _ "w / u"]) (auto simp: field_simps)
    qed (use w in \<open>auto intro: image_eqI [of _ _ 0]\<close>)
  next
    fix w assume "w \<in> (\<lambda>v. v * u) ` {0..1}"
    then obtain v where v: "0 \<le> v" "v \<le> 1" "w = v * u" by auto
    have "v * u \<le> 1 * u" using v assms by (intro mult_right_mono) auto
    then show "w \<in> {0..u}" using v assms by auto
  qed
  show "seg q b = seg_at a b ` {u..1}" unfolding seg_def qb 1 [symmetric] by (auto simp: image_image)
  show "seg a q = seg_at a b ` {0..u}" unfolding seg_def aq 2 [symmetric] by (auto simp: image_image)
qed

lemma seg_inside:
  "line_side s1 s2 a \<ge> 0 \<Longrightarrow> line_side s1 s2 b \<ge> 0 \<Longrightarrow> seg a b \<inter> half_plane s1 s2 = seg a b"
proof -
  assume a: "line_side s1 s2 a \<ge> 0" and b: "line_side s1 s2 b \<ge> 0"
  have "line_side s1 s2 a + u * (line_side s1 s2 b - line_side s1 s2 a) \<ge> 0" if "0 \<le> u" "u \<le> 1" for u
  proof -
    have "(1 - u) * line_side s1 s2 a + u * line_side s1 s2 b \<ge> 0" using a b that by simp
    then show ?thesis by (simp add: algebra_simps)
  qed
  then have "seg_at a b u \<in> half_plane s1 s2" if "0 \<le> u" "u \<le> 1" for u
    using that by (simp add: half_plane_seg_at)
  then show ?thesis by (auto simp: seg_def)
qed

lemma seg_outside:
  "line_side s1 s2 a < 0 \<Longrightarrow> line_side s1 s2 b < 0 \<Longrightarrow> seg a b \<inter> half_plane s1 s2 = {}"
proof -
  assume a: "line_side s1 s2 a < 0" and b: "line_side s1 s2 b < 0"
  have "line_side s1 s2 a + u * (line_side s1 s2 b - line_side s1 s2 a) < 0" if "0 \<le> u" "u \<le> 1" for u
  proof -
    have "(1 - u) * line_side s1 s2 a + u * line_side s1 s2 b < 0"
    proof (cases "u = 0")
      case False
      then have "u * line_side s1 s2 b < 0" using b that by (simp add: mult_pos_neg)
      moreover have "(1 - u) * line_side s1 s2 a \<le> 0" using a that by (simp add: mult_nonneg_nonpos)
      ultimately show ?thesis by simp
    qed (use a in simp)
    then show ?thesis by (simp add: algebra_simps)
  qed
  then have "seg_at a b u \<notin> half_plane s1 s2" if "0 \<le> u" "u \<le> 1" for u
    using that by (simp add: half_plane_seg_at not_le)
  then show ?thesis by (auto simp: seg_def)
qed

lemma seg_crossing:
  assumes "(line_side s1 s2 a \<ge> 0) \<noteq> (line_side s1 s2 b \<ge> 0)"
  obtains q where "get_isect_point a b s1 s2 = Some q"
    and "seg a b \<inter> half_plane s1 s2 = (if line_side s1 s2 a \<ge> 0 then seg a q else seg q b)"
proof -
  let ?a = "line_side s1 s2 a" and ?b = "line_side s1 s2 b"
  obtain q u where q: "get_isect_point a b s1 s2 = Some q" "0 \<le> u" "u \<le> 1" "pt_xy q = seg_at a b u"
    and z: "?a + u * (?b - ?a) = 0" using isect_exists [OF assms] by blast
  have g: "?a + v * (?b - ?a) = (v - u) * (?b - ?a)" for v using z by (simp add: algebra_simps)
  have *: "seg a b \<inter> half_plane s1 s2 = seg_at a b ` {v \<in> {0..1}. (v - u) * (?b - ?a) \<ge> 0}"
    by (auto simp: seg_def half_plane_seg_at g)
  have "{v \<in> {0..1}. (v - u) * (?b - ?a) \<ge> 0} = (if ?a \<ge> 0 then {0..u} else {u..1})"
    using assms q(2,3) by (auto simp: zero_le_mult_iff)
  with * seg_from [OF q(4,2,3)] show thesis by (intro that [OF q(1)]) auto
qed

section \<open>One stage\<close>

text \<open>
  The invariant of the loop once it has passed the points \<open>done\<close>: the finished parts and the
  current one cover what \<open>done\<close> covers on the right side of the line.
\<close>

definition line_loop_ok ::
  "'s geopoint \<Rightarrow> 's geopoint \<Rightarrow> 's geopoint list \<Rightarrow> 's line_crop \<Rightarrow> bool" where
  "line_loop_ok s1 s2 done st \<longleftrightarrow>
     done \<noteq> [] \<and> line_prev st = last done \<and>
     line_inside st = (line_side s1 s2 (last done) \<ge> 0) \<and>
     (if line_inside st then line_current st \<noteq> [] \<and> last (line_current st) = last done
      else line_current st = []) \<and>
     (\<forall>p \<in> set (line_parts st). 2 \<le> length p) \<and>
     covered_all (line_parts st) \<union> covered (line_current st) = covered done \<inter> half_plane s1 s2"

lemma line_loop_first:
  "line_loop_ok s1 s2 [p] (crop_line_step s1 s2 0 p line_crop_start)"
  by (simp add: line_loop_ok_def crop_line_step_def line_crop_start_def point_inside_or_on_line_def)

lemma line_loop_step:
  assumes ok: "line_loop_ok s1 s2 done st" and v: "\<forall>q \<in> set done. point_valid q" and i: "0 < i"
  shows "line_loop_ok s1 s2 (done @ [p]) (crop_line_step s1 s2 i p st)"
proof -
  let ?a = "last done"
  have d: "done \<noteq> []" "line_prev st = ?a" "line_inside st = (line_side s1 s2 ?a \<ge> 0)"
    and cov: "covered_all (line_parts st) \<union> covered (line_current st) = covered done \<inter> half_plane s1 s2"
    and two: "\<forall>p \<in> set (line_parts st). 2 \<le> length p"
    using ok by (simp_all add: line_loop_ok_def)
  have cur: "line_inside st \<Longrightarrow> line_current st \<noteq> [] \<and> last (line_current st) = ?a"
    "\<not> line_inside st \<Longrightarrow> line_current st = []"
    using ok by (simp_all add: line_loop_ok_def)
  have va: "point_valid ?a" using v d(1) by simp
  have new: "covered (done @ [p]) \<inter> half_plane s1 s2 =
      covered_all (line_parts st) \<union> covered (line_current st) \<union> (seg ?a p \<inter> half_plane s1 s2)"
    using covered_add [OF d(1), of p] cov by auto
  show ?thesis
  proof (cases "line_side s1 s2 ?a \<ge> 0"; cases "line_side s1 s2 p \<ge> 0")
    assume a: "line_side s1 s2 ?a \<ge> 0" and p: "line_side s1 s2 p \<ge> 0"
    show ?thesis
      using a p d cur two new seg_inside [OF a p] covered_add [of "line_current st" p]
      by (simp add: line_loop_ok_def crop_line_step_def point_inside_or_on_line_def Let_def Un_assoc)
  next
    assume a: "line_side s1 s2 ?a \<ge> 0" and p: "\<not> line_side s1 s2 p \<ge> 0"
    then obtain q where q: "get_isect_point ?a p s1 s2 = Some q"
      "seg ?a p \<inter> half_plane s1 s2 = seg ?a q" using seg_crossing [of s1 s2 ?a p] by auto
    show ?thesis
      using a p d cur two new q i covered_add [of "line_current st" q]
      by (auto simp: line_loop_ok_def crop_line_step_def point_inside_or_on_line_def Let_def Suc_le_eq)
  next
    assume a: "\<not> line_side s1 s2 ?a \<ge> 0" and p: "line_side s1 s2 p \<ge> 0"
    then obtain q where q: "get_isect_point ?a p s1 s2 = Some q"
      "seg ?a p \<inter> half_plane s1 s2 = seg q p" using seg_crossing [of s1 s2 ?a p] by auto
    show ?thesis
      using a p d cur two new q va
      by (simp add: line_loop_ok_def crop_line_step_def point_inside_or_on_line_def Let_def)
  next
    assume a: "\<not> line_side s1 s2 ?a \<ge> 0" and p: "\<not> line_side s1 s2 p \<ge> 0"
    then show ?thesis
      using d cur two new seg_outside [of s1 s2 ?a p]
      by (simp add: line_loop_ok_def crop_line_step_def point_inside_or_on_line_def Let_def not_le)
  qed
qed

lemma line_loop_all:
  assumes "line_loop_ok s1 s2 done st" and "\<forall>q \<in> set (done @ ps). point_valid q" and "0 < i"
  shows "line_loop_ok s1 s2 (done @ ps) (crop_line_loop s1 s2 i ps st)"
  using assms
proof (induction ps arbitrary: i "done" st)
  case (Cons p ps)
  have "line_loop_ok s1 s2 (done @ [p]) (crop_line_step s1 s2 i p st)"
    by (rule line_loop_step) (use Cons.prems in auto)
  from Cons.IH [OF this, of "Suc i"] Cons.prems show ?case by simp
qed simp

text \<open>A stage keeps of a line exactly what lies on the inner side.\<close>

lemma crop_line_stage_exact:
  assumes "\<forall>q \<in> set part. point_valid q"
  shows "covered_all (crop_line_stage s1 s2 part) = covered part \<inter> half_plane s1 s2"
    and "\<forall>p \<in> set (crop_line_stage s1 s2 part). 2 \<le> length p"
proof -
  have "covered_all (crop_line_stage s1 s2 part) = covered part \<inter> half_plane s1 s2 \<and>
    (\<forall>p \<in> set (crop_line_stage s1 s2 part). 2 \<le> length p)"
  proof (cases part)
    case Nil
    then show ?thesis by (simp add: crop_line_stage_def line_crop_start_def)
  next
    case (Cons p ps)
    define st where "st = crop_line_loop s1 s2 0 part line_crop_start"
    have "line_loop_ok s1 s2 ([p] @ ps) (crop_line_loop s1 s2 (Suc 0) ps (crop_line_step s1 s2 0 p line_crop_start))"
      by (rule line_loop_all [OF line_loop_first]) (use assms Cons in auto)
    then have "line_loop_ok s1 s2 part st" by (simp add: st_def Cons)
    then show ?thesis
      using covered_short [of "line_current st"]
      by (auto simp: line_loop_ok_def crop_line_stage_def Let_def simp flip: st_def)
  qed
  then show "covered_all (crop_line_stage s1 s2 part) = covered part \<inter> half_plane s1 s2"
    and "\<forall>p \<in> set (crop_line_stage s1 s2 part). 2 \<le> length p" by simp_all
qed

text \<open>What holds of the points of a part, and of intersections with them, holds of what is left.\<close>

definition isect_closed :: "'s geopoint \<Rightarrow> 's geopoint \<Rightarrow> ('s geopoint \<Rightarrow> bool) \<Rightarrow> bool" where
  "isect_closed s1 s2 Q \<longleftrightarrow> (\<forall>a b q. Q a \<longrightarrow> Q b \<longrightarrow> get_isect_point a b s1 s2 = Some q \<longrightarrow> Q q)"

lemma isect_closedD: "isect_closed s1 s2 Q \<Longrightarrow> Q a \<Longrightarrow> Q b \<Longrightarrow> get_isect_point a b s1 s2 = Some q \<Longrightarrow> Q q"
  unfolding isect_closed_def by meson

definition line_all :: "('s geopoint \<Rightarrow> bool) \<Rightarrow> 's line_crop \<Rightarrow> bool" where
  "line_all Q st \<longleftrightarrow> (\<forall>p \<in> set (line_current st). Q p) \<and> (\<forall>c \<in> set (line_parts st). \<forall>p \<in> set c. Q p)"

lemma line_step_all:
  assumes "isect_closed s1 s2 Q" and "line_all Q st" and "Q p" and "i > 0 \<Longrightarrow> Q (line_prev st)"
    and "i = 0 \<Longrightarrow> line_inside st"
  shows "line_all Q (crop_line_step s1 s2 i p st) \<and> Q (line_prev (crop_line_step s1 s2 i p st))"
proof -
  have q: "Q q" if "get_isect_point (line_prev st) p s1 s2 = Some q" "i > 0 \<or> \<not> line_inside st" for q
  proof -
    have "i > 0" using that(2) assms(5) by blast
    from isect_closedD [OF assms(1) assms(4) [OF this] assms(3) that(1)] show ?thesis .
  qed
  show ?thesis
  proof (cases "get_isect_point (line_prev st) p s1 s2")
    case None
    with assms(2,3) show ?thesis by (simp add: line_all_def crop_line_step_def Let_def)
  next
    case (Some c)
    with q [OF Some] assms(2,3) show ?thesis by (auto simp: line_all_def crop_line_step_def Let_def)
  qed
qed

lemma line_loop_keeps:
  assumes "isect_closed s1 s2 Q" and "line_all Q st" and "\<forall>p \<in> set ps. Q p" and "i > 0 \<Longrightarrow> Q (line_prev st)"
    and "i = 0 \<Longrightarrow> line_inside st"
  shows "line_all Q (crop_line_loop s1 s2 i ps st)"
  using assms(2-)
proof (induction ps arbitrary: i st)
  case (Cons p ps)
  then have "line_all Q (crop_line_step s1 s2 i p st) \<and> Q (line_prev (crop_line_step s1 s2 i p st))"
    by (intro line_step_all [OF assms(1)]) auto
  then show ?case using Cons by simp
qed simp

lemma crop_line_stage_all:
  assumes "isect_closed s1 s2 Q" and "\<forall>p \<in> set part. Q p" and "c \<in> set (crop_line_stage s1 s2 part)" and "p \<in> set c"
  shows "Q p"
proof -
  have "line_all Q (crop_line_loop s1 s2 0 part line_crop_start)"
    using assms(2) by (intro line_loop_keeps [OF assms(1)]) (simp_all add: line_all_def line_crop_start_def)
  then show ?thesis using assms(3,4) by (auto simp: line_all_def crop_line_stage_def Let_def split: if_splits)
qed

lemma isect_closed_valid: "isect_closed s1 s2 (\<lambda>p. point_valid p \<and> spatial_ref p = r)"
  by (auto simp: isect_closed_def point_valid_def isect_on_segment)

section \<open>The window\<close>

lemma window_sides:
  assumes "ext_wf s w" and "px (sw w) < px (ne w)" and "py (sw w) < py (ne w)"
  shows "ext_box w = (\<Inter>d \<in> set crop_sides. half_plane (side_start w d) (side_end w d))"
proof -
  have c: "se w = geopoint_2d (px (ne w)) (py (sw w)) (Some s)" "nw w = geopoint_2d (px (sw w)) (py (ne w)) (Some s)"
    using assms(1) by (simp_all add: ext_wf_def)
  let ?dx = "px (ne w) - px (sw w)" and ?dy = "py (ne w) - py (sw w)"
  have 0: "0 < ?dx" "0 < ?dy" using assms by simp_all
  have "(x, y) \<in> half_plane (sw w) (se w) \<longleftrightarrow> 0 \<le> ?dx * (y - py (sw w))" for x y
    by (simp add: half_plane_def c)
  then have 1: "(x, y) \<in> half_plane (sw w) (se w) \<longleftrightarrow> py (sw w) \<le> y" for x y
    using 0 by (simp add: zero_le_mult_iff)
  have "(x, y) \<in> half_plane (se w) (ne w) \<longleftrightarrow> 0 \<le> ?dy * (px (ne w) - x)" for x y
    by (simp add: half_plane_def c algebra_simps)
  then have 2: "(x, y) \<in> half_plane (se w) (ne w) \<longleftrightarrow> x \<le> px (ne w)" for x y
    using 0 by (simp add: zero_le_mult_iff)
  have "(x, y) \<in> half_plane (ne w) (nw w) \<longleftrightarrow> 0 \<le> ?dx * (py (ne w) - y)" for x y
    by (simp add: half_plane_def c algebra_simps)
  then have 3: "(x, y) \<in> half_plane (ne w) (nw w) \<longleftrightarrow> y \<le> py (ne w)" for x y
    using 0 by (simp add: zero_le_mult_iff)
  have "(x, y) \<in> half_plane (nw w) (sw w) \<longleftrightarrow> 0 \<le> ?dy * (x - px (sw w))" for x y
    by (simp add: half_plane_def c algebra_simps)
  then have 4: "(x, y) \<in> half_plane (nw w) (sw w) \<longleftrightarrow> px (sw w) \<le> x" for x y
    using 0 by (simp add: zero_le_mult_iff)
  show ?thesis by (auto simp: crop_sides_def ext_box_def 1 2 3 4)
qed

section \<open>All stages\<close>

lemma crop_line_stages:
  assumes "\<forall>c \<in> set cs. (\<forall>q \<in> set c. point_valid q \<and> spatial_ref q = r)"
  shows "covered_all (foldl (\<lambda>working d. concat (map (crop_line_stage (f d) (g d)) working)) cs ds) =
      covered_all cs \<inter> (\<Inter>d \<in> set ds. half_plane (f d) (g d)) \<and>
    ((\<forall>c \<in> set cs. 2 \<le> length c) \<or> ds \<noteq> [] \<longrightarrow>
      (\<forall>c \<in> set (foldl (\<lambda>working d. concat (map (crop_line_stage (f d) (g d)) working)) cs ds). 2 \<le> length c))"
  using assms
proof (induction ds arbitrary: cs)
  case (Cons d ds)
  let ?new = "concat (map (crop_line_stage (f d) (g d)) cs)"
  have v: "\<forall>c \<in> set ?new. (\<forall>q \<in> set c. point_valid q \<and> spatial_ref q = r)"
  proof (intro ballI)
    fix c q assume "c \<in> set ?new" "q \<in> set c"
    then obtain c0 where c0: "c0 \<in> set cs" "c \<in> set (crop_line_stage (f d) (g d) c0)" by auto
    then have "\<forall>q \<in> set c0. point_valid q \<and> spatial_ref q = r" using Cons.prems by blast
    from crop_line_stage_all [OF isect_closed_valid this c0(2) \<open>q \<in> set c\<close>]
    show "point_valid q \<and> spatial_ref q = r" .
  qed
  have two: "\<forall>c \<in> set ?new. 2 \<le> length c"
  proof
    fix c assume "c \<in> set ?new"
    then obtain c0 where c0: "c0 \<in> set cs" "c \<in> set (crop_line_stage (f d) (g d) c0)" by auto
    then have "\<forall>q \<in> set c0. point_valid q" using Cons.prems by blast
    with crop_line_stage_exact(2) [of c0] c0(2) show "2 \<le> length c" by blast
  qed
  have "covered_all ?new = covered_all cs \<inter> half_plane (f d) (g d)"
  proof -
    have "covered_all ?new = (\<Union>c \<in> set cs. covered_all (crop_line_stage (f d) (g d) c))"
      by (auto simp: covered_all_def)
    also have "\<dots> = (\<Union>c \<in> set cs. covered c \<inter> half_plane (f d) (g d))"
      using Cons.prems by (intro SUP_cong refl crop_line_stage_exact(1)) blast
    finally show ?thesis by (auto simp: covered_all_def)
  qed
  then show ?case using Cons.IH [OF v] two by auto
qed auto

text \<open>Cropping a line keeps exactly what lies in the window.\<close>

lemma crop_line_part_exact:
  assumes "ext_wf s w" and "px (sw w) < px (ne w)" and "py (sw w) < py (ne w)"
    and "\<forall>q \<in> set part. point_valid q \<and> spatial_ref q = r"
  shows "covered_all (crop_line_part part w) = covered part \<inter> ext_box w"
    and "\<forall>c \<in> set (crop_line_part part w). 2 \<le> length c"
proof -
  have "\<forall>c \<in> set [part]. (\<forall>q \<in> set c. point_valid q \<and> spatial_ref q = r)"
    using assms(4) by simp
  note * = crop_line_stages [OF this, of "side_start w" "side_end w" crop_sides, folded crop_line_part_def]
  show "covered_all (crop_line_part part w) = covered part \<inter> ext_box w"
    using * window_sides [OF assms(1-3)] by (simp add: covered_all_def)
  show "\<forall>c \<in> set (crop_line_part part w). 2 \<le> length c"
    using * by (simp add: crop_sides_def)
qed

end
