(* ===== verification/Crop_Polygon.thy ===== *)
theory Crop_Polygon
  imports Crop_Line
begin

text \<open>
  \<^verbatim>\<open>src/osgGIS/CropFilter.cpp\<close>, the cropping of polygons and \<open>CropFilter::process\<close>. A stage
  crops each part against one side of the window: it inserts the intersections with the side into
  the part, lists them in the order in which they are met (\<open>traversal_order\<close>) and in their order
  along the side (\<open>spatial_order\<close>), and walks from entry to exit, deferring parts that are not
  finished on a stack. Indexes and counters are \<open>unsigned int\<close>s that stay below the size of the
  part; \<open>None\<close> is a read outside a vector.
\<close>

section \<open>The lists of a stage\<close>

record 's crop_work =
  working :: "'s geopoint list"
  traversal_order :: "nat list"
  spatial_order :: "nat list"

text \<open>Whether the walk of \<open>spatialInsert\<close> passes the entry \<open>q\<close> on its way to the place of \<open>p\<close>.\<close>

fun insert_passes :: "crop_side \<Rightarrow> 's geopoint \<Rightarrow> 's geopoint \<Rightarrow> bool" where
  "insert_passes SOUTH p q = (px p < px q)"
| "insert_passes EAST p q = (py p < py q)"
| "insert_passes NORTH p q = (px p > px q)"
| "insert_passes WEST p q = (py p > py q)"

fun spatial_insert :: "nat list \<Rightarrow> nat \<Rightarrow> crop_side \<Rightarrow> 's geopoint list \<Rightarrow> nat list" where
  "spatial_insert [] v stage ps = [v]"
| "spatial_insert (i # is) v stage ps =
     (if insert_passes stage (ps ! v) (ps ! i) then i # spatial_insert is v stage ps else v # i # is)"

text \<open>\<open>findIndexOf\<close>: zero when there is none.\<close>

fun find_index_from :: "nat list \<Rightarrow> nat \<Rightarrow> nat \<Rightarrow> nat" where
  "find_index_from [] v i = 0"
| "find_index_from (x # xs) v i = (if x = v then i else find_index_from xs v (Suc i))"

definition find_index_of :: "nat list \<Rightarrow> nat \<Rightarrow> nat" where
  "find_index_of xs v = find_index_from xs v 0"

text \<open>An intersection found on the way from \<open>prev\<close> to \<open>p\<close>, then \<open>p\<close> itself.\<close>

definition work_add :: "'s geopoint \<Rightarrow> 's crop_work \<Rightarrow> 's crop_work" where
  "work_add p W = W\<lparr>working := working W @ [p]\<rparr>"

definition work_isect :: "crop_side \<Rightarrow> 's geopoint \<Rightarrow> 's crop_work \<Rightarrow> 's crop_work" where
  "work_isect stage q W =
     (let ws = working W @ [q]; v = length ws - 1
      in W\<lparr>working := ws, traversal_order := traversal_order W @ [v],
           spatial_order := spatial_insert (spatial_order W) v stage ws\<rparr>)"

fun work_from ::
  "crop_side \<Rightarrow> 's geopoint \<Rightarrow> 's geopoint \<Rightarrow> 's geopoint \<Rightarrow> 's geopoint list \<Rightarrow>
     's crop_work \<Rightarrow> 's crop_work" where
  "work_from stage s1 s2 prev [] W = W"
| "work_from stage s1 s2 prev (p # ps) W =
     (let W1 =
        (if point_inside_or_on_line prev s1 s2 \<noteq> point_inside_or_on_line p s1 s2
         then (case get_isect_point prev p s1 s2 of None \<Rightarrow> W | Some q \<Rightarrow> work_isect stage q W)
         else W)
      in work_from stage s1 s2 p ps (work_add p W1))"

text \<open>The first point of the closed part has no predecessor.\<close>

definition work_lists ::
  "crop_side \<Rightarrow> 's geopoint \<Rightarrow> 's geopoint \<Rightarrow> 's geopoint list \<Rightarrow> 's crop_work" where
  "work_lists stage s1 s2 ps =
     (let W = \<lparr>working = [], traversal_order = [], spatial_order = []\<rparr>
      in case ps of [] \<Rightarrow> W | p # rest \<Rightarrow> work_from stage s1 s2 p rest (work_add p W))"

section \<open>The walk\<close>

record 's deferred =
  def_part :: "'s geopoint list"
  part_start_ptr :: nat
  waiting_on_ptr :: nat

record 's walk =
  shape_ptr :: nat
  trav_ptr :: nat
  traversals :: nat
  part_stack :: "'s deferred list"
  current_part :: "'s geopoint list"
  start_ptr :: nat
  walk_parts :: "'s geopoint list list"

text \<open>The points from one index up to, not including, another one, around the end.\<close>

definition walk_points :: "'a list \<Rightarrow> nat \<Rightarrow> nat \<Rightarrow> 'a list" where
  "walk_points ws a b =
     map (\<lambda>k. ws ! ((a + k) mod length ws)) [0..<(b + length ws - a) mod length ws]"

definition next_traversal :: "'s crop_work \<Rightarrow> 's walk \<Rightarrow> nat" where
  "next_traversal W st = (trav_ptr st + 1) mod length (traversal_order W)"

text \<open>Step 4, outside: go to the next entry, and resume the part on the stack that waits for it.\<close>

definition walk_enter :: "'s crop_work \<Rightarrow> 's walk \<Rightarrow> 's walk" where
  "walk_enter W st =
     (let e = traversal_order W ! trav_ptr st;
          st1 = st\<lparr>shape_ptr := e, trav_ptr := next_traversal W st, traversals := traversals st + 1\<rparr>
      in case part_stack st1 of
           d # ds \<Rightarrow>
             if waiting_on_ptr d = e
             then st1\<lparr>current_part := def_part d, start_ptr := part_start_ptr d, part_stack := ds\<rparr>
             else st1\<lparr>current_part := [], start_ptr := e\<rparr>
         | [] \<Rightarrow> st1\<lparr>current_part := [], start_ptr := e\<rparr>)"

text \<open>
  Steps 5 to 7, inside: walk to the next exit; either the part is finished, or the next entry
  tells whether to go on with it, to stop at the beginning, or to defer it. The flag of the result
  is \<open>part_done\<close>.
\<close>

definition walk_exit :: "'s crop_work \<Rightarrow> 's walk \<Rightarrow> ('s walk \<times> bool) option" where
  "walk_exit W st =
     (let x = traversal_order W ! trav_ptr st;
          st1 = st\<lparr>trav_ptr := next_traversal W st, traversals := traversals st + 1, shape_ptr := x,
                   current_part := current_part st @ walk_points (working W) (shape_ptr st) x @ [working W ! x]\<rparr>;
          start_order = find_index_of (spatial_order W) (start_ptr st);
          exit_order = find_index_of (spatial_order W) x
      in if exit_order = start_order + 1
         then Some (st1\<lparr>walk_parts := walk_parts st1 @ [current_part st1]\<rparr>, True)
         else
           let e = traversal_order W ! trav_ptr st1;
               st2 = st1\<lparr>trav_ptr := next_traversal W st1, traversals := traversals st1 + 1\<rparr>
           in if traversals st2 \<ge> length (traversal_order W)
              then Some (st2\<lparr>current_part := current_part st2 @ [working W ! e]\<rparr>, False)
              else if exit_order = find_index_of (spatial_order W) e + 1
              then Some (st2\<lparr>shape_ptr := e\<rparr>, False)
              else if exit_order = 0 then None
              else Some (st2\<lparr>part_stack :=
                      \<lparr>def_part = current_part st2, part_start_ptr = start_ptr st2,
                       waiting_on_ptr = spatial_order W ! (exit_order - 1)\<rparr> # part_stack st2,
                    current_part := [], start_ptr := e, shape_ptr := e\<rparr>, False))"

text \<open>The two loops; \<open>inside\<close> says that the inner one runs.\<close>

lemma walk_enter_traversals [simp]: "traversals (walk_enter W st) = traversals st + 1"
  by (simp add: walk_enter_def Let_def split: list.split)

lemma walk_exit_traversals: "walk_exit W st = Some (st', b) \<Longrightarrow> traversals st < traversals st'"
  by (auto simp: walk_exit_def Let_def split: if_splits)

function walk_loop :: "'s crop_work \<Rightarrow> bool \<Rightarrow> 's walk \<Rightarrow> 's walk option" where
  "walk_loop W inside st =
     (if traversals st < length (traversal_order W) then
        (if inside then
           (case walk_exit W st of
              None \<Rightarrow> None
            | Some (st', part_done) \<Rightarrow> walk_loop W (\<not> part_done) st')
         else walk_loop W True (walk_enter W st))
      else Some st)"
  by pat_completeness auto
termination
  by (relation "measure (\<lambda>(W, inside, st). length (traversal_order W) - traversals st)")
    (auto dest: walk_exit_traversals)

declare walk_loop.simps [simp del]

text \<open>The parts still on the stack are complete, the top one first.\<close>

definition flush_parts :: "'s crop_work \<Rightarrow> 's walk \<Rightarrow> 's geopoint list list" where
  "flush_parts W st =
     walk_parts st @ map (\<lambda>d. def_part d @ [working W ! waiting_on_ptr d]) (part_stack st)"

definition walk_start :: "'s crop_work \<Rightarrow> 's walk" where
  "walk_start W =
     \<lparr>shape_ptr = hd (spatial_order W),
      trav_ptr = find_index_of (traversal_order W) (hd (spatial_order W)), traversals = 0,
      part_stack = [], current_part = [], start_ptr = hd (spatial_order W), walk_parts = []\<rparr>"

definition walk_all :: "'s crop_work \<Rightarrow> 's geopoint list list option" where
  "walk_all W = map_option (flush_parts W) (walk_loop W False (walk_start W))"

section \<open>Stages\<close>

text \<open>
  \<open>scrubPart\<close>; its test of the size is always true, so a part whose points are all equal is
  emptied, and then read.
\<close>

function scrub_part :: "'s srs_vt \<Rightarrow> 's geopoint list \<Rightarrow> 's geopoint list option" where
  "scrub_part V ps =
     (if ps = [] then None
      else if point_eq V (hd ps) (last ps) then scrub_part V (butlast ps) else Some ps)"
  by pat_completeness auto
termination by (relation "measure (\<lambda>(V, ps). length ps)") auto

declare scrub_part.simps [simp del]

definition crop_polygon_stage ::
  "'s srs_vt \<Rightarrow> 's geoextent \<Rightarrow> crop_side \<Rightarrow> 's geopoint list \<Rightarrow> 's geopoint list list option" where
  "crop_polygon_stage V w stage part =
     (let s1 = side_start w stage; s2 = side_end w stage
      in case scrub_part V part of
           None \<Rightarrow> None
         | Some input \<Rightarrow>
             if length input < 3 then Some []
             else let e = expand_to_include_points V ext_default input in
                  if extent_inside_or_on_line e s1 s2 then Some [input]
                  else if \<not> intersects V w e \<or> extent_inside_or_on_line e s2 s1 then Some []
                  else let closed = input @ [hd input]; W = work_lists stage s1 s2 closed in
                       if spatial_order W = [] then Some [closed] else walk_all W)"

fun concat_opt :: "('a \<Rightarrow> 'b list option) \<Rightarrow> 'a list \<Rightarrow> 'b list option" where
  "concat_opt f [] = Some []"
| "concat_opt f (x # xs) = do { ys \<leftarrow> f x; zs \<leftarrow> concat_opt f xs; Some (ys @ zs) }"

fun crop_polygon_stages ::
  "'s srs_vt \<Rightarrow> 's geoextent \<Rightarrow> crop_side list \<Rightarrow> 's geopoint list list \<Rightarrow> 's geopoint list list option" where
  "crop_polygon_stages V w [] inputs = Some inputs"
| "crop_polygon_stages V w (d # ds) inputs =
     do { outputs \<leftarrow> concat_opt (crop_polygon_stage V w d) inputs; crop_polygon_stages V w ds outputs }"

definition crop_polygon_part ::
  "'s srs_vt \<Rightarrow> 's geopoint list \<Rightarrow> 's geoextent \<Rightarrow> 's geopoint list list option" where
  "crop_polygon_part V part w =
     (if length part < 3 then Some []
      else case contains_points V w part of
             None \<Rightarrow> None
           | Some True \<Rightarrow> Some [part]
           | Some False \<Rightarrow> crop_polygon_stages V w crop_sides [part])"

section \<open>Features\<close>

text \<open>A part of an unsupported type is dropped.\<close>

definition crop_part ::
  "'s srs_vt \<Rightarrow> 's geopoint list \<Rightarrow> 's geoextent \<Rightarrow> shape_type \<Rightarrow> 's geopoint list list option" where
  "crop_part V part w t =
     (case t of
        TYPE_POLYGON \<Rightarrow> crop_polygon_part V part w
      | TYPE_LINE \<Rightarrow> Some (crop_line_part part w)
      | TYPE_POINT \<Rightarrow> crop_point_part V part w
      | _ \<Rightarrow> Some [])"

definition crop_shape ::
  "'s srs_vt \<Rightarrow> 's geoextent \<Rightarrow> 's geoshape \<Rightarrow> 's geoshape list option" where
  "crop_shape V w shape0 =
     (case get_extent V shape0 of (e, sh) \<Rightarrow>
        case contains_extent V w e of
          None \<Rightarrow> None
        | Some True \<Rightarrow> Some [sh]
        | Some False \<Rightarrow>
            if intersects V w e
            then do { cropped \<leftarrow> concat_opt (\<lambda>part. crop_part V part w (shape_type sh)) (parts sh);
                      Some [modify_parts sh (\<lambda>_. cropped)] }
            else Some [])"

definition crop_process ::
  "'s srs_vt \<Rightarrow> 's feature \<Rightarrow> ('s, 'o) filter_env \<Rightarrow> 's feature list option" where
  "crop_process V f0 env =
     (let w = feature_extent env;
          keep = (\<lambda>f. case feature_get_extent V f of (e, f') \<Rightarrow> Some (if is_valid e then [f'] else []))
      in if is_infinite w then keep f0
         else case feature_get_extent V f0 of (e, f) \<Rightarrow>
           case contains_extent V w e of
             None \<Rightarrow> None
           | Some True \<Rightarrow> keep f
           | Some False \<Rightarrow>
               if intersects V w e
               then do { shapes \<leftarrow> concat_opt (crop_shape V w) (fshapes f);
                         keep (modify_shapes f (\<lambda>_. shapes)) }
               else keep f)"

end
