(* ===== verification/Crop_Correct.thy ===== *)
theory Crop_Correct
  imports Crop_Polygon
begin

text \<open>
  Why the walk of \<^verbatim>\<open>CropFilter.cpp\<close> returns, and why the parts it makes lie inside: the
  crossings of a closed part alternate between entries and exits, the walk goes along the part from
  an entry to the next exit only, and when the first crossing along the side is an entry the
  exits never come first in the spatial order.
\<close>

section \<open>Positions in the lists\<close>

lemma find_index_from_bounds: "v \<in> set xs \<Longrightarrow> i \<le> find_index_from xs v i \<and> find_index_from xs v i < i + length xs"
  by (induction xs v i rule: find_index_from.induct) auto

lemma find_index_from_nth: "v \<in> set xs \<Longrightarrow> xs ! (find_index_from xs v i - i) = v"
proof (induction xs v i rule: find_index_from.induct)
  case (2 x xs v i)
  show ?case
  proof (cases "x = v")
    case False
    with 2 have "v \<in> set xs" by simp
    with find_index_from_bounds [OF this, of "Suc i"] 2(1) False show ?thesis
      by (simp add: Suc_diff_le nth_Cons split: nat.split) (metis Suc_diff_Suc Suc_le_lessD diff_Suc_Suc diff_is_0_eq' leD nat.inject)
  qed simp
qed simp

lemma find_index_of_nth:
  assumes "v \<in> set xs"
  shows "xs ! find_index_of xs v = v" and "find_index_of xs v < length xs"
  using find_index_from_nth [OF assms, of 0] find_index_from_bounds [OF assms, of 0]
  by (simp_all add: find_index_of_def)

lemma set_spatial_insert [simp]: "set (spatial_insert is v stage ps) = insert v (set is)"
  by (induction "is") auto

text \<open>How many of an ascending list of indexes are at most \<open>i\<close>.\<close>

definition upto_count :: "nat list \<Rightarrow> nat \<Rightarrow> nat" where
  "upto_count T i = length (filter (\<lambda>t. t \<le> i) T)"

lemma upto_count_snoc: "upto_count (T @ [t]) i = upto_count T i + (if t \<le> i then 1 else 0)"
  by (simp add: upto_count_def)

lemma upto_count_all: "\<forall>t \<in> set T. t \<le> i \<Longrightarrow> upto_count T i = length T"
  by (induction T) (auto simp: upto_count_def)

lemma upto_count_none: "\<forall>t \<in> set T. i < t \<Longrightarrow> upto_count T i = 0"
  by (induction T) (auto simp: upto_count_def)

lemma upto_count_between:
  assumes "sorted_wrt (<) T" and "j < length T" and "T ! j \<le> i" and "Suc j < length T \<Longrightarrow> i < T ! Suc j"
  shows "upto_count T i = Suc j"
proof -
  have *: "T ! m \<le> i \<longleftrightarrow> m \<le> j" if m: "m < length T" for m
  proof
    assume "T ! m \<le> i"
    show "m \<le> j"
    proof (rule ccontr)
      assume "\<not> m \<le> j"
      then have "Suc j \<le> m" by simp
      then have "T ! Suc j \<le> T ! m"
        using sorted_wrt_nth_less [OF assms(1), of "Suc j" m] m by (cases "Suc j = m") auto
      with \<open>T ! m \<le> i\<close> assms(4) \<open>Suc j \<le> m\<close> m show False by simp
    qed
  next
    assume "m \<le> j"
    then have "T ! m \<le> T ! j"
      using sorted_wrt_nth_less [OF assms(1), of m j] assms(2) by (cases "m = j") auto
    with assms(3) show "T ! m \<le> i" by simp
  qed
  have "upto_count T i = card {m. m < length T \<and> T ! m \<le> i}"
    by (simp add: upto_count_def length_filter_conv_card)
  also have "{m. m < length T \<and> T ! m \<le> i} = {..j}" using * assms(2) by auto
  finally show ?thesis by simp
qed

section \<open>Entries and exits alternate\<close>

text \<open>
  What holds of the lists after the points up to \<open>prev\<close>: \<open>b0\<close> is the side of the first point, and
  each intersection changes the side.
\<close>

definition alternating ::
  "('s geopoint \<Rightarrow> bool) \<Rightarrow> bool \<Rightarrow> ('s geopoint \<Rightarrow> bool) \<Rightarrow> 's crop_work \<Rightarrow> bool" where
  "alternating In b0 On W \<longleftrightarrow>
     sorted_wrt (<) (traversal_order W) \<and>
     (\<forall>t \<in> set (traversal_order W). Suc t \<notin> set (traversal_order W)) \<and>
     (\<forall>t \<in> set (traversal_order W). t < length (working W) \<and> On (working W ! t)) \<and>
     set (spatial_order W) = set (traversal_order W) \<and>
     (\<forall>i < length (working W). i \<notin> set (traversal_order W) \<longrightarrow>
        In (working W ! i) = (b0 \<noteq> odd (upto_count (traversal_order W) i)))"

definition last_is :: "'s geopoint \<Rightarrow> 's crop_work \<Rightarrow> bool" where
  "last_is p W \<longleftrightarrow> working W \<noteq> [] \<and> last (working W) = p \<and>
     length (working W) - 1 \<notin> set (traversal_order W)"

lemma alternating_last:
  assumes "alternating In b0 On W" and "last_is p W"
  shows "In p = (b0 \<noteq> odd (length (traversal_order W)))"
proof -
  let ?i = "length (working W) - 1"
  have "upto_count (traversal_order W) ?i = length (traversal_order W)"
    using assms(1) by (intro upto_count_all) (auto simp: alternating_def)
  moreover have "working W ! ?i = p" using assms(2) last_conv_nth [of "working W"] by (auto simp: last_is_def)
  ultimately show ?thesis using assms by (auto simp: alternating_def last_is_def)
qed

lemma work_add_alternating:
  assumes "alternating In b0 On W" and "In p = (b0 \<noteq> odd (length (traversal_order W)))"
  shows "alternating In b0 On (work_add p W)" and "last_is p (work_add p W)"
proof -
  let ?n = "length (working W)" and ?T = "traversal_order W"
  have lt: "\<forall>t \<in> set ?T. t < ?n" using assms(1) by (simp add: alternating_def)
  then have "upto_count ?T ?n = length ?T" by (intro upto_count_all) auto
  then show "alternating In b0 On (work_add p W)"
    using assms lt by (auto simp: alternating_def work_add_def nth_append less_Suc_eq)
  show "last_is p (work_add p W)" using lt by (auto simp: last_is_def work_add_def)
qed

lemma work_isect_alternating:
  assumes "alternating In b0 On W" and "last_is p W" and "On q"
  shows "alternating In b0 On (work_isect stage q W)"
proof -
  let ?n = "length (working W)" and ?T = "traversal_order W"
  have lt: "\<forall>t \<in> set ?T. t < ?n" using assms(1) by (simp add: alternating_def)
  moreover have "\<forall>t \<in> set ?T. Suc t \<noteq> ?n" using assms(2) by (metis diff_Suc_1 last_is_def)
  moreover have "Suc ?n \<notin> set ?T" using lt by auto
  ultimately show ?thesis
    using assms by (auto simp: alternating_def work_isect_def Let_def sorted_wrt_append nth_append
        less_Suc_eq upto_count_snoc)
qed

lemma work_isect_orders [simp]:
  "traversal_order (work_isect stage q W) = traversal_order W @ [length (working W)]"
  by (simp add: work_isect_def Let_def)

lemma work_from_alternating:
  fixes s1 s2
  defines "In \<equiv> (\<lambda>p. point_inside_or_on_line p s1 s2)"
  assumes "alternating In b0 (\<lambda>q. line_side s1 s2 q = 0) W" and "last_is prev W"
  shows "alternating In b0 (\<lambda>q. line_side s1 s2 q = 0) (work_from stage s1 s2 prev ps W) \<and>
    last_is (last (prev # ps)) (work_from stage s1 s2 prev ps W)"
  using assms(2,3)
proof (induction ps arbitrary: prev W)
  case (Cons p ps)
  note prev = alternating_last [OF Cons.prems]
  show ?case
  proof (cases "In prev = In p")
    case True
    with prev have "In p = (b0 \<noteq> odd (length (traversal_order W)))" by simp
    note * = work_add_alternating [OF Cons.prems(1) this]
    show ?thesis using Cons.IH [OF *] True by (simp add: In_def)
  next
    case False
    then have "(line_side s1 s2 prev \<ge> 0) \<noteq> (line_side s1 s2 p \<ge> 0)"
      by (simp add: In_def point_inside_or_on_line_def)
    then obtain q u where q: "get_isect_point prev p s1 s2 = Some q" "pt_xy q = seg_at prev p u"
      and z: "line_side s1 s2 prev + u * (line_side s1 s2 p - line_side s1 s2 prev) = 0"
      by (rule isect_exists)
    have xy: "px q = px prev + u * (px p - px prev)" "py q = py prev + u * (py p - py prev)"
      using q(2) by (simp_all add: pt_xy_def seg_at_def)
    have "line_side s1 s2 q = line_side s1 s2 prev + u * (line_side s1 s2 p - line_side s1 s2 prev)"
      unfolding line_side_def xy by (simp add: algebra_simps)
    then have "line_side s1 s2 q = 0" using z by simp
    note a = work_isect_alternating [where stage = stage, OF Cons.prems this]
    have "In p = (b0 \<noteq> odd (length (traversal_order (work_isect stage q W))))"
      using prev False by simp
    note * = work_add_alternating [OF a this]
    show ?thesis using Cons.IH [OF *] False q(1) by (simp add: In_def)
  qed
qed simp

lemma work_lists_alternating:
  fixes s1 s2
  defines "In \<equiv> (\<lambda>p. point_inside_or_on_line p s1 s2)"
  assumes "ps \<noteq> []"
  shows "alternating In (In (hd ps)) (\<lambda>q. line_side s1 s2 q = 0) (work_lists stage s1 s2 ps) \<and>
    last_is (last ps) (work_lists stage s1 s2 ps)"
proof -
  obtain p rest where ps: "ps = p # rest" using assms by (cases ps) auto
  let ?W = "\<lparr>working = [], traversal_order = [], spatial_order = []\<rparr>"
  have "alternating In (In p) (\<lambda>q. line_side s1 s2 q = 0) ?W" by (simp add: alternating_def)
  then have "alternating In (In p) (\<lambda>q. line_side s1 s2 q = 0) (work_add p ?W)" "last_is p (work_add p ?W)"
    using work_add_alternating [of In "In p" _ ?W p] by simp_all
  from work_from_alternating [OF this [unfolded In_def], of stage rest]
  show ?thesis by (simp add: ps work_lists_def In_def)
qed

text \<open>The points of the lists come from the part; a closed part has an even number of crossings.\<close>

lemma work_add_working [simp]: "working (work_add p W) = working W @ [p]"
  by (simp add: work_add_def)

lemma work_isect_working [simp]: "working (work_isect stage q W) = working W @ [q]"
  by (simp add: work_isect_def Let_def)

text \<open>The lists once the crossing on the way to \<open>p\<close> is in.\<close>

definition work_cross ::
  "crop_side \<Rightarrow> 's geopoint \<Rightarrow> 's geopoint \<Rightarrow> 's geopoint \<Rightarrow> 's geopoint \<Rightarrow> 's crop_work \<Rightarrow> 's crop_work" where
  "work_cross stage s1 s2 prev p W =
     (if point_inside_or_on_line prev s1 s2 \<noteq> point_inside_or_on_line p s1 s2
      then (case get_isect_point prev p s1 s2 of None \<Rightarrow> W | Some q \<Rightarrow> work_isect stage q W) else W)"

lemma work_from_Cons:
  "work_from stage s1 s2 prev (p # ps) W =
     work_from stage s1 s2 p ps (work_add p (work_cross stage s1 s2 prev p W))"
  by (simp add: work_cross_def)

lemma work_cross_working:
  "working (work_cross stage s1 s2 prev p W) = working W \<or>
     (\<exists>q. get_isect_point prev p s1 s2 = Some q \<and> working (work_cross stage s1 s2 prev p W) = working W @ [q])"
  by (simp add: work_cross_def split: option.split)

lemma work_from_points:
  assumes "isect_closed s1 s2 Q" and "\<forall>p \<in> set (working W). Q p" and "\<forall>p \<in> set (prev # ps). Q p"
  shows "\<forall>p \<in> set (working (work_from stage s1 s2 prev ps W)). Q p"
  using assms(2,3)
proof (induction ps arbitrary: prev W)
  case (Cons p ps)
  have Q: "Q prev" "Q p" using Cons.prems(2) by simp_all
  have "\<forall>p \<in> set (working (work_cross stage s1 s2 prev p W)). Q p"
    using work_cross_working [of stage s1 s2 prev p W] Cons.prems(1) isect_closedD [OF assms(1) Q]
    by auto
  then show ?case
    unfolding work_from_Cons using Cons.prems(2) by (intro Cons.IH) auto
qed simp

lemma work_lists_points:
  assumes "isect_closed s1 s2 Q" and "\<forall>p \<in> set ps. Q p"
  shows "\<forall>p \<in> set (working (work_lists stage s1 s2 ps)). Q p"
proof (cases ps)
  case (Cons p rest)
  show ?thesis
    using work_from_points [OF assms(1), of "work_add p \<lparr>working = [], traversal_order = [], spatial_order = []\<rparr>" p rest stage]
      assms(2) by (simp add: work_lists_def Cons)
qed (simp add: work_lists_def)

lemma work_from_has: "set (working W) \<union> set ps \<subseteq> set (working (work_from stage s1 s2 prev ps W))"
proof (induction ps arbitrary: prev W)
  case (Cons p ps)
  have "set (working W) \<union> {p} \<subseteq> set (working (work_add p (work_cross stage s1 s2 prev p W)))"
    using work_cross_working [of stage s1 s2 prev p W] by auto
  with Cons.IH [of "work_add p (work_cross stage s1 s2 prev p W)" p] show ?case
    unfolding work_from_Cons by auto
qed simp

lemma work_lists_has: "set ps \<subseteq> set (working (work_lists stage s1 s2 ps))"
proof (cases ps)
  case (Cons p rest)
  show ?thesis
    using work_from_has [of "work_add p \<lparr>working = [], traversal_order = [], spatial_order = []\<rparr>" rest stage s1 s2 p]
    by (simp add: work_lists_def Cons)
qed simp

lemma closed_even:
  assumes "alternating In (In (hd ps)) On W" and "last_is (last ps) W" and "last ps = hd ps"
  shows "even (length (traversal_order W))"
  using alternating_last [OF assms(1,2)] assms(3) by auto

section \<open>From an entry to the next exit\<close>

text \<open>The indexes the walk passes on the way from one crossing to the next, around the end.\<close>

lemma walk_points_index:
  assumes "p \<in> set (walk_points ws a b)" and "a < length ws" and "b < length ws"
  obtains i where "i < length ws" and "p = ws ! i" and "if a < b then a \<le> i \<and> i < b else a \<le> i \<or> i < b"
proof -
  let ?L = "length ws"
  obtain k where k: "k < (b + ?L - a) mod ?L" "p = ws ! ((a + k) mod ?L)"
    using assms(1) by (auto simp: walk_points_def)
  show thesis
  proof (cases "a < b")
    case True
    have "(b + ?L - a) mod ?L = b - a"
    proof -
      have "b + ?L - a = (b - a) + ?L" using True by simp
      moreover have "b - a < ?L" using assms(3) by simp
      ultimately show ?thesis by (simp only: mod_add_self2 mod_less)
    qed
    then have "a + k < b" using k(1) True by simp
    moreover then have "(a + k) mod ?L = a + k" using assms(3) by simp
    ultimately show thesis using k(2) True assms(3) by (intro that [of "a + k"]) simp_all
  next
    case False
    have kl: "k < b + ?L - a"
    proof (cases "a = b")
      case True
      then show ?thesis using k(1) by simp
    next
      case False
      then show ?thesis using k(1) \<open>\<not> a < b\<close> assms(2,3) by (simp add: mod_less)
    qed
    show thesis
    proof (cases "a + k < ?L")
      case True
      then show thesis using k(2) False by (intro that [of "a + k"]) simp_all
    next
      case F: False
      have lt: "a + k - ?L < b" "a + k - ?L < ?L" using F kl assms(3) by linarith+
      have "(a + k) mod ?L = (a + k - ?L) mod ?L" using F by (intro le_mod_geq) simp
      then have "(a + k) mod ?L = a + k - ?L" using lt(2) by simp
      then show thesis using k(2) lt False by (intro that [of "a + k - ?L"]) simp_all
    qed
  qed
qed

definition next_crossing :: "'s crop_work \<Rightarrow> nat \<Rightarrow> nat" where
  "next_crossing W j = (j + 1) mod length (traversal_order W)"

lemma next_crossing_parity:
  "j < length (traversal_order W) \<Longrightarrow> even (length (traversal_order W)) \<Longrightarrow>
     next_crossing W j < length (traversal_order W) \<and> even (next_crossing W j) = odd j"
  by (auto simp: next_crossing_def mod_if split: if_splits) (metis Suc_lessI even_Suc)+

text \<open>All points from the entry number \<open>j\<close> up to the next exit lie inside.\<close>

lemma entry_arc:
  assumes alt: "alternating In b0 On W" and "even (length (traversal_order W))"
    and on: "\<And>p. On p \<Longrightarrow> In p"
    and j: "j < length (traversal_order W)" and entry: "b0 = odd j"
    and p: "p \<in> set (walk_points (working W) (traversal_order W ! j) (traversal_order W ! next_crossing W j))"
  shows "In p"
proof -
  let ?T = "traversal_order W"
  have srt: "sorted_wrt (<) ?T" and T: "\<forall>t \<in> set ?T. t < length (working W) \<and> On (working W ! t)"
    and par: "\<forall>i < length (working W). i \<notin> set ?T \<longrightarrow> In (working W ! i) = (b0 \<noteq> odd (upto_count ?T i))"
    using alt by (simp_all add: alternating_def)
  have nx: "next_crossing W j < length ?T" using next_crossing_parity [OF j assms(2)] by blast
  have "?T ! j < length (working W)" "?T ! next_crossing W j < length (working W)"
    using T j nx by simp_all
  then obtain i where i: "i < length (working W)" "p = working W ! i"
    and btw: "if ?T ! j < ?T ! next_crossing W j then ?T ! j \<le> i \<and> i < ?T ! next_crossing W j
              else ?T ! j \<le> i \<or> i < ?T ! next_crossing W j"
    using walk_points_index [OF p] by blast
  show ?thesis
  proof (cases "i \<in> set ?T")
    case True
    then show ?thesis using T on i(2) by blast
  next
    case False
    have "odd (upto_count ?T i) \<noteq> b0"
    proof (cases "Suc j < length ?T")
      case True
      then have eq: "next_crossing W j = Suc j" by (simp add: next_crossing_def)
      have "?T ! j < ?T ! Suc j" using sorted_wrt_nth_less [OF srt, of j "Suc j"] True by simp
      with btw eq have "?T ! j \<le> i" "i < ?T ! Suc j" by auto
      then have "upto_count ?T i = Suc j" by (intro upto_count_between [OF srt j]) auto
      then show ?thesis using entry by simp
    next
      case last: False
      then have n: "length ?T = Suc j" using j by simp
      then have b0: b0 using entry assms(2) by simp
      have eq: "next_crossing W j = 0" using n by (simp add: next_crossing_def)
      have "?T ! 0 \<le> ?T ! j" using sorted_wrt_nth_less [OF srt, of 0 j] j by (cases j) auto
      with btw eq have "?T ! j \<le> i \<or> i < ?T ! 0" by auto
      then show ?thesis
      proof
        assume "?T ! j \<le> i"
        then have "upto_count ?T i = Suc j"
          by (intro upto_count_between [OF srt j]) (use n in auto)
        then show ?thesis using entry by simp
      next
        assume lt: "i < ?T ! 0"
        have "\<forall>t \<in> set ?T. i < t"
        proof
          fix t assume "t \<in> set ?T"
          then obtain m where "m < length ?T" "t = ?T ! m" by (auto simp: in_set_conv_nth)
          moreover then have "?T ! 0 \<le> ?T ! m"
            using sorted_wrt_nth_less [OF srt, of 0 m] by (cases m) auto
          ultimately show "i < t" using lt by simp
        qed
        then show ?thesis using b0 by (simp add: upto_count_none)
      qed
    qed
    then show ?thesis using par i False by auto
  qed
qed

section \<open>The walk\<close>

text \<open>
  The crossing with number \<open>e0\<close> is the first along the side. Outside, the next crossing is one
  of those of its parity; inside, the walk stands at such a crossing and the next one follows it.
\<close>

definition crossings_ok :: "('s geopoint \<Rightarrow> bool) \<Rightarrow> 's crop_work \<Rightarrow> nat \<Rightarrow> bool" where
  "crossings_ok R W e0 \<longleftrightarrow>
     even (length (traversal_order W)) \<and> distinct (traversal_order W) \<and>
     set (spatial_order W) = set (traversal_order W) \<and>
     e0 < length (traversal_order W) \<and> traversal_order W ! e0 = hd (spatial_order W) \<and>
     (\<forall>t \<in> set (traversal_order W). R (working W ! t)) \<and>
     (\<forall>j < length (traversal_order W). even j = even e0 \<longrightarrow>
        (\<forall>p \<in> set (walk_points (working W) (traversal_order W ! j) (traversal_order W ! next_crossing W j)). R p))"

definition walk_ok :: "('s geopoint \<Rightarrow> bool) \<Rightarrow> 's crop_work \<Rightarrow> 's walk \<Rightarrow> bool" where
  "walk_ok R W st \<longleftrightarrow>
     (\<forall>p \<in> set (current_part st). R p) \<and> (\<forall>c \<in> set (walk_parts st). \<forall>p \<in> set c. R p) \<and>
     (\<forall>d \<in> set (part_stack st). waiting_on_ptr d \<in> set (traversal_order W) \<and> (\<forall>p \<in> set (def_part d). R p))"

definition walk_at :: "'s crop_work \<Rightarrow> nat \<Rightarrow> bool \<Rightarrow> 's walk \<Rightarrow> bool" where
  "walk_at W e0 inside st \<longleftrightarrow>
     (if inside
      then (\<exists>j < length (traversal_order W). even j = even e0 \<and>
              shape_ptr st = traversal_order W ! j \<and> trav_ptr st = next_crossing W j)
      else trav_ptr st < length (traversal_order W) \<and> even (trav_ptr st) = even e0)"

lemma walk_enter_ok:
  assumes "walk_ok R W st" and "walk_at W e0 False st"
  shows "walk_ok R W (walk_enter W st)" and "walk_at W e0 True (walk_enter W st)"
proof -
  show "walk_ok R W (walk_enter W st)"
    using assms(1) by (auto simp: walk_ok_def walk_enter_def Let_def split: list.split)
  have "shape_ptr (walk_enter W st) = traversal_order W ! trav_ptr st"
    "trav_ptr (walk_enter W st) = next_crossing W (trav_ptr st)"
    by (simp_all add: walk_enter_def Let_def next_traversal_def next_crossing_def split: list.split)
  then show "walk_at W e0 True (walk_enter W st)" using assms(2) by (auto simp: walk_at_def)
qed

lemma walk_exit_ok:
  assumes W: "crossings_ok R W e0" and "walk_ok R W st" and at: "walk_at W e0 True st"
  obtains st' b where "walk_exit W st = Some (st', b)" and "walk_ok R W st'"
    and "traversals st' < length (traversal_order W) \<longrightarrow> walk_at W e0 (\<not> b) st'"
proof -
  let ?T = "traversal_order W" and ?S = "spatial_order W"
  let ?n = "length ?T"
  from at obtain j where j: "j < ?n" "even j = even e0" "shape_ptr st = ?T ! j" "trav_ptr st = next_crossing W j"
    by (auto simp: walk_at_def)
  let ?x = "next_crossing W j"
  let ?y = "next_crossing W ?x"
  have ev: "even ?n" and d: "distinct ?T" and S: "set ?S = set ?T" and e0: "e0 < ?n" "?T ! e0 = hd ?S"
    and R: "\<forall>t \<in> set ?T. R (working W ! t)"
    using W by (simp_all add: crossings_ok_def)
  have x: "?x < ?n" "even ?x = odd j" using next_crossing_parity [OF j(1) ev] by auto
  have y: "?y < ?n" "even ?y = odd ?x" using next_crossing_parity [OF x(1) ev] by auto
  have arc: "\<forall>p \<in> set (walk_points (working W) (?T ! j) (?T ! ?x)). R p"
    using W j by (simp add: crossings_ok_def)
  have xS: "?T ! ?x \<in> set ?S" using S x(1) by simp
  note fx = find_index_of_nth [OF xS]
  have x0: "find_index_of ?S (?T ! ?x) \<noteq> 0"
  proof
    assume "find_index_of ?S (?T ! ?x) = 0"
    with fx have "?T ! ?x = ?T ! e0" using e0(2) by (simp add: hd_conv_nth)
    then have "?x = e0" using d x(1) e0(1) by (simp add: nth_eq_iff_index_eq)
    with x(2) j(2) show False by simp
  qed
  have w: "?S ! (find_index_of ?S (?T ! ?x) - 1) \<in> set ?T"
    using fx(2) S by (metis less_imp_diff_less nth_mem)
  have nt: "next_traversal W st' = next_crossing W k" if "trav_ptr st' = k" for st' k
    using that by (simp add: next_traversal_def next_crossing_def)
  have nx: "next_traversal W st = ?y" using nt [OF j(4)] .
  let ?c = "current_part st @ walk_points (working W) (?T ! j) (?T ! ?x) @ [working W ! (?T ! ?x)]"
  let ?st1 = "st\<lparr>trav_ptr := ?y, traversals := traversals st + 1, shape_ptr := ?T ! ?x, current_part := ?c\<rparr>"
  let ?st2 = "?st1\<lparr>trav_ptr := next_crossing W ?y, traversals := traversals st + 2\<rparr>"
  have ok1: "walk_ok R W ?st1" and ok2: "walk_ok R W ?st2"
    using assms(2) arc R x(1) by (auto simp: walk_ok_def)
  have c: "\<forall>p \<in> set ?c. R p" and yR: "R (working W ! (?T ! ?y))"
    using assms(2) arc R x(1) y(1) by (auto simp: walk_ok_def)
  let ?so = "find_index_of ?S (start_ptr st)" and ?xo = "find_index_of ?S (?T ! ?x)" and ?yo = "find_index_of ?S (?T ! ?y)"
  have step: "walk_exit W st =
    (if ?xo = ?so + 1 then Some (?st1\<lparr>walk_parts := walk_parts st @ [?c]\<rparr>, True)
     else if traversals st + 2 \<ge> ?n then Some (?st2\<lparr>current_part := ?c @ [working W ! (?T ! ?y)]\<rparr>, False)
     else if ?xo = ?yo + 1 then Some (?st2\<lparr>shape_ptr := ?T ! ?y\<rparr>, False)
     else Some (?st2\<lparr>part_stack := \<lparr>def_part = ?c, part_start_ptr = start_ptr st,
            waiting_on_ptr = ?S ! (?xo - 1)\<rparr> # part_stack st,
          current_part := [], start_ptr := ?T ! ?y, shape_ptr := ?T ! ?y\<rparr>, False))"
    using x0 by (simp add: walk_exit_def Let_def j(3,4) nx nt)
  show thesis
  proof (cases "?xo = ?so + 1")
    case True
    show thesis
      by (rule that [of "?st1\<lparr>walk_parts := walk_parts st @ [?c]\<rparr>" True])
        (use True step assms(2) c y x j(2) in \<open>auto simp: walk_ok_def walk_at_def\<close>)
  next
    case nd: False
    show thesis
    proof (cases "traversals st + 2 \<ge> ?n")
      case True
      show thesis
        by (rule that [of "?st2\<lparr>current_part := ?c @ [working W ! (?T ! ?y)]\<rparr>" False])
          (use True nd step assms(2) c yR in \<open>auto simp: walk_ok_def\<close>)
    next
      case more: False
      have at2: "\<exists>k < ?n. even k = even e0 \<and> ?T ! ?y = ?T ! k \<and> next_crossing W ?y = next_crossing W k"
        using y x j(2) by (intro exI [of _ ?y]) auto
      show thesis
      proof (cases "?xo = ?yo + 1")
        case True
        show thesis
          by (rule that [of "?st2\<lparr>shape_ptr := ?T ! ?y\<rparr>" False])
            (use True nd more step ok2 at2 in \<open>auto simp: walk_ok_def walk_at_def\<close>)
      next
        case False
        let ?st3 = "?st2\<lparr>part_stack := \<lparr>def_part = ?c, part_start_ptr = start_ptr st,
            waiting_on_ptr = ?S ! (?xo - 1)\<rparr> # part_stack st,
          current_part := [], start_ptr := ?T ! ?y, shape_ptr := ?T ! ?y\<rparr>"
        have "walk_ok R W ?st3" using assms(2) c w by (simp add: walk_ok_def)
        moreover have "walk_exit W st = Some (?st3, False)" using False nd more step by simp
        moreover have "walk_at W e0 True ?st3" using at2 by (simp add: walk_at_def)
        ultimately show thesis by (intro that [of ?st3 False]) simp_all
      qed
    qed
  qed
qed

lemma walk_loop_ok:
  assumes "crossings_ok R W e0" and "walk_ok R W st"
    and "traversals st < length (traversal_order W) \<longrightarrow> walk_at W e0 inside st"
  shows "\<exists>st'. walk_loop W inside st = Some st' \<and> walk_ok R W st'"
  using assms
proof (induction W inside st rule: walk_loop.induct)
  case (1 W inside st)
  show ?case
  proof (cases "traversals st < length (traversal_order W)")
    case more: True
    show ?thesis
    proof (cases inside)
      case True
      with 1(5) more have "walk_at W e0 True st" by simp
      from walk_exit_ok [OF 1(3,4) this] obtain st' b where st': "walk_exit W st = Some (st', b)"
        "walk_ok R W st'" "traversals st' < length (traversal_order W) \<longrightarrow> walk_at W e0 (\<not> b) st'" .
      from 1(1) [OF more True st'(1) refl 1(3) st'(2,3)] st'(1) more True show ?thesis
        by (subst walk_loop.simps) simp
    next
      case False
      with 1(5) more have "walk_at W e0 False st" by simp
      note en = walk_enter_ok [OF 1(4) this]
      from 1(2) [OF more False 1(3) en(1)] en(2) more False show ?thesis
        by (subst walk_loop.simps) simp
    qed
  next
    case False
    then show ?thesis using 1(4) by (subst walk_loop.simps) simp
  qed
qed

lemma walk_all_ok:
  assumes "crossings_ok R W e0" and "spatial_order W \<noteq> []"
  shows "\<exists>outs. walk_all W = Some outs \<and> (\<forall>c \<in> set outs. \<forall>p \<in> set c. R p)"
proof -
  let ?T = "traversal_order W"
  have T: "e0 < length ?T" "?T ! e0 = hd (spatial_order W)" "distinct ?T" "\<forall>t \<in> set ?T. R (working W ! t)"
    using assms(1) by (simp_all add: crossings_ok_def)
  have "hd (spatial_order W) \<in> set ?T" using T(1,2) by (metis nth_mem)
  note f = find_index_of_nth [OF this]
  have "find_index_of ?T (hd (spatial_order W)) = e0"
    using f T by (metis nth_eq_iff_index_eq)
  then have "walk_at W e0 False (walk_start W)" using T(1) by (simp add: walk_at_def walk_start_def)
  moreover have "walk_ok R W (walk_start W)" by (simp add: walk_ok_def walk_start_def)
  ultimately obtain st where "walk_loop W False (walk_start W) = Some st" "walk_ok R W st"
    using walk_loop_ok [OF assms(1)] by blast
  then show ?thesis using T(4) by (auto simp: walk_all_def flush_parts_def walk_ok_def)
qed

section \<open>A stage\<close>

text \<open>
  The condition under which a part is cut rightly: the first crossing along the side is an entry,
  that is, the point after it in the part lies inside.
\<close>

definition entry_first :: "'s geopoint \<Rightarrow> 's geopoint \<Rightarrow> 's crop_work \<Rightarrow> bool" where
  "entry_first s1 s2 W \<longleftrightarrow> point_inside_or_on_line (working W ! (hd (spatial_order W) + 1)) s1 s2"

lemma entry_first_parity:
  assumes "alternating In b0 On W" and "last_is p W" and "spatial_order W \<noteq> []"
  obtains e0 where "e0 < length (traversal_order W)" and "traversal_order W ! e0 = hd (spatial_order W)"
    and "In (working W ! (hd (spatial_order W) + 1)) = (b0 = odd e0)"
proof -
  let ?T = "traversal_order W" and ?h = "hd (spatial_order W)"
  have "?h \<in> set (spatial_order W)" using assms(3) by simp
  then have h: "?h \<in> set ?T" using assms(1) by (simp add: alternating_def)
  then obtain e0 where e0: "e0 < length ?T" "?T ! e0 = ?h" by (auto simp: in_set_conv_nth)
  have srt: "sorted_wrt (<) ?T" and nx: "Suc ?h \<notin> set ?T" and lt: "?h < length (working W)"
    and par: "\<forall>i < length (working W). i \<notin> set ?T \<longrightarrow> In (working W ! i) = (b0 \<noteq> odd (upto_count ?T i))"
    using assms(1) h by (simp_all add: alternating_def)
  have "?h \<noteq> length (working W) - 1" using assms(2) h by (auto simp: last_is_def)
  then have "Suc ?h < length (working W)" using lt by simp
  with par nx have "In (working W ! Suc ?h) = (b0 \<noteq> odd (upto_count ?T (Suc ?h)))" by simp
  moreover have "upto_count ?T (Suc ?h) = Suc e0"
  proof (rule upto_count_between [OF srt e0(1)])
    show "Suc ?h < ?T ! Suc e0" if "Suc e0 < length ?T"
    proof -
      have "?h < ?T ! Suc e0" using sorted_wrt_nth_less [OF srt, of e0 "Suc e0"] that e0 by simp
      moreover have "?T ! Suc e0 \<noteq> Suc ?h" using nx that by (metis nth_mem)
      ultimately show ?thesis by simp
    qed
  qed (simp add: e0(2))
  ultimately show thesis using e0 by (intro that [of e0]) auto
qed

text \<open>So the walk over a closed part makes parts of points inside only.\<close>

lemma cut_ok:
  fixes s1 s2
  defines "In \<equiv> (\<lambda>p. point_inside_or_on_line p s1 s2)"
  assumes "isect_closed s1 s2 Q" and "\<forall>p \<in> set ps. Q p" and "ps \<noteq> []" and "last ps = hd ps"
    and "spatial_order (work_lists stage s1 s2 ps) \<noteq> []" and "entry_first s1 s2 (work_lists stage s1 s2 ps)"
  shows "\<exists>outs. walk_all (work_lists stage s1 s2 ps) = Some outs \<and> (\<forall>c \<in> set outs. \<forall>p \<in> set c. Q p \<and> In p)"
proof -
  let ?W = "work_lists stage s1 s2 ps"
  let ?On = "\<lambda>q. line_side s1 s2 q = 0"
  have alt: "alternating In (In (hd ps)) ?On ?W" and la: "last_is (last ps) ?W"
    using work_lists_alternating [OF assms(4), of s1 s2 stage] by (simp_all add: In_def)
  have ev: "even (length (traversal_order ?W))" by (rule closed_even [OF alt la assms(5)])
  obtain e0 where e0: "e0 < length (traversal_order ?W)" "traversal_order ?W ! e0 = hd (spatial_order ?W)"
    and en: "In (working ?W ! (hd (spatial_order ?W) + 1)) = (In (hd ps) = odd e0)"
    using entry_first_parity [OF alt la assms(6)] .
  have b: "In (hd ps) = odd e0" using en assms(7) by (simp add: entry_first_def In_def)
  have T: "\<forall>t \<in> set (traversal_order ?W). t < length (working ?W) \<and> ?On (working ?W ! t)"
    "sorted_wrt (<) (traversal_order ?W)" "set (spatial_order ?W) = set (traversal_order ?W)"
    using alt by (simp_all add: alternating_def)
  have Q: "\<forall>p \<in> set (working ?W). Q p" by (rule work_lists_points [OF assms(2,3)])
  have on: "In p" if "?On p" for p using that by (simp add: In_def point_inside_or_on_line_def)
  have wset: "set (walk_points ws a b) \<subseteq> set ws" if "ws \<noteq> []" for ws :: "'a geopoint list" and a b
    using that by (auto simp: walk_points_def)
  have ne: "working ?W \<noteq> []" using la by (simp add: last_is_def)
  have "crossings_ok (\<lambda>p. Q p \<and> In p) ?W e0"
    unfolding crossings_ok_def
  proof (intro conjI allI impI ballI)
    show "even (length (traversal_order ?W))" by (rule ev)
    show "distinct (traversal_order ?W)" using T(2) by (simp add: strict_sorted_iff)
    show "set (spatial_order ?W) = set (traversal_order ?W)" by (rule T(3))
    show "e0 < length (traversal_order ?W)" "traversal_order ?W ! e0 = hd (spatial_order ?W)" by (rule e0)+
    show "Q (working ?W ! t)" "In (working ?W ! t)" if "t \<in> set (traversal_order ?W)" for t
      using that T(1) Q on by auto
    fix j p assume j: "j < length (traversal_order ?W)" "even j = even e0"
      and p: "p \<in> set (walk_points (working ?W) (traversal_order ?W ! j) (traversal_order ?W ! next_crossing ?W j))"
    show "Q p" using p Q wset [OF ne] by blast
    have "In (hd ps) = odd j" using b j(2) by simp
    from entry_arc [OF alt ev on j(1) this p] show "In p" .
  qed
  from walk_all_ok [OF this assms(6)] show ?thesis .
qed

section \<open>The sides of the window\<close>

lemma side_half_plane:
  assumes "ext_wf s w" and "px (sw w) < px (ne w)" and "py (sw w) < py (ne w)"
  shows "point_inside_or_on_line p (side_start w d) (side_end w d) \<longleftrightarrow>
      (case d of SOUTH \<Rightarrow> py (sw w) \<le> py p | EAST \<Rightarrow> px p \<le> px (ne w)
       | NORTH \<Rightarrow> py p \<le> py (ne w) | WEST \<Rightarrow> px (sw w) \<le> px p)"
    and "point_inside_or_on_line p (side_end w d) (side_start w d) \<longleftrightarrow>
      (case d of SOUTH \<Rightarrow> py p \<le> py (sw w) | EAST \<Rightarrow> px (ne w) \<le> px p
       | NORTH \<Rightarrow> py (ne w) \<le> py p | WEST \<Rightarrow> px p \<le> px (sw w))"
proof -
  have c: "se w = geopoint_2d (px (ne w)) (py (sw w)) (Some s)" "nw w = geopoint_2d (px (sw w)) (py (ne w)) (Some s)"
    using assms(1) by (simp_all add: ext_wf_def)
  let ?dx = "px (ne w) - px (sw w)" and ?dy = "py (ne w) - py (sw w)"
  let ?r = "case d of SOUTH \<Rightarrow> ?dx * (py p - py (sw w)) | EAST \<Rightarrow> ?dy * (px (ne w) - px p)
       | NORTH \<Rightarrow> ?dx * (py (ne w) - py p) | WEST \<Rightarrow> ?dy * (px p - px (sw w))"
  have r: "line_side (side_start w d) (side_end w d) p = ?r"
    by (cases d) (simp_all add: line_side_def c algebra_simps)
  have rev: "line_side b a p = - line_side a b p" for a b :: "'a geopoint"
    by (simp add: line_side_def algebra_simps)
  have dx: "0 < ?dx" and dy: "0 < ?dy" using assms(2,3) by simp_all
  show "point_inside_or_on_line p (side_start w d) (side_end w d) \<longleftrightarrow>
      (case d of SOUTH \<Rightarrow> py (sw w) \<le> py p | EAST \<Rightarrow> px p \<le> px (ne w)
       | NORTH \<Rightarrow> py p \<le> py (ne w) | WEST \<Rightarrow> px (sw w) \<le> px p)"
    unfolding point_inside_or_on_line_def r using dx dy by (cases d) (simp_all add: zero_le_mult_iff)
  show "point_inside_or_on_line p (side_end w d) (side_start w d) \<longleftrightarrow>
      (case d of SOUTH \<Rightarrow> py p \<le> py (sw w) | EAST \<Rightarrow> px (ne w) \<le> px p
       | NORTH \<Rightarrow> py (ne w) \<le> py p | WEST \<Rightarrow> px p \<le> px (sw w))"
    unfolding point_inside_or_on_line_def rev [of "side_end w d"] r using dx dy
    by (cases d) (simp_all add: mult_le_0_iff)
qed

definition in_side :: "'s geoextent \<Rightarrow> crop_side \<Rightarrow> 's geopoint \<Rightarrow> bool" where
  "in_side w d p \<longleftrightarrow> point_inside_or_on_line p (side_start w d) (side_end w d)"

lemma in_all_sides:
  assumes "ext_wf s w" and "px (sw w) < px (ne w)" and "py (sw w) < py (ne w)"
  shows "(\<forall>d \<in> set crop_sides. in_side w d p) \<longleftrightarrow> pt_xy p \<in> ext_box w"
  by (auto simp: crop_sides_def in_side_def side_half_plane [OF assms] ext_box_def pt_xy_def)

lemma in_side_isect: "isect_closed s1 s2 (\<lambda>p. in_side w d p)"
proof -
  have "in_side w d q" if "in_side w d a" "in_side w d b" "get_isect_point a b s1 s2 = Some q" for a b q
    using seg_inside [of "side_start w d" "side_end w d" a b] isect_on_segment(1) [OF that(3)] that(1,2)
    by (auto simp: in_side_def point_inside_or_on_line_def simp flip: half_plane_pt)
  then show ?thesis unfolding isect_closed_def by meson
qed

lemma isect_closed_conj:
  "isect_closed s1 s2 P \<Longrightarrow> isect_closed s1 s2 Q \<Longrightarrow> isect_closed s1 s2 (\<lambda>p. P p \<and> Q p)"
  unfolding isect_closed_def by meson

text \<open>The extent of a part touches it on each of its four sides.\<close>

context srs_interface begin

lemma part_extent:
  assumes "\<forall>p \<in> set ps. point_valid p \<and> spatial_ref p = Some s" and "usable s" and "ps \<noteq> []"
  defines "e \<equiv> expand_to_include_points V ext_default ps"
  shows "\<forall>p \<in> set ps. pt_xy p \<in> ext_box e" and "\<exists>p \<in> set ps. px p = px (sw e)"
    and "\<exists>p \<in> set ps. py p = py (sw e)" and "\<exists>p \<in> set ps. px p = px (ne e)" and "\<exists>p \<in> set ps. py p = py (ne e)"
proof -
  obtain q qs where ps: "ps = q # qs" using assms(3) by (cases ps) auto
  have "usable_images V s qs = qs"
    using usable_same_srs [OF assms(2), of qs] assms(1) by (simp add: ps)
  then have h: "px (sw e) = Min (px ` set ps)" "py (sw e) = Min (py ` set ps)"
    "px (ne e) = Max (px ` set ps)" "py (ne e) = Max (py ` set ps)"
    using points_extent_hull [of q s qs] assms(1) by (simp_all add: ps e_def)
  show "\<forall>p \<in> set ps. pt_xy p \<in> ext_box e" by (simp add: ext_box_def pt_xy_def h)
  have "f ` set ps \<noteq> {}" for f :: "'s geopoint \<Rightarrow> real" using assms(3) by simp
  note m = Min_in [OF _ this] Max_in [OF _ this]
  show "\<exists>p \<in> set ps. px p = px (sw e)" using m(1) [of px] by (auto simp: h image_iff)
  show "\<exists>p \<in> set ps. py p = py (sw e)" using m(1) [of py] by (auto simp: h image_iff)
  show "\<exists>p \<in> set ps. px p = px (ne e)" using m(2) [of px] by (auto simp: h image_iff)
  show "\<exists>p \<in> set ps. py p = py (ne e)" using m(2) [of py] by (auto simp: h image_iff)
qed

end

end
