(* ===== verification/Crop_Window.thy ===== *)
theory Crop_Window
  imports Crop_Correct
begin

text \<open>
  What \<^verbatim>\<open>CropFilter.cpp\<close> promises of a whole polygon part: when every part that reaches a side of
  the window is cut with an entry first, the crop returns, and all its points lie in the window.
\<close>

section \<open>When a part can be cut\<close>

text \<open>
  \<open>scrubPart\<close> leaves something, and if the part has to be cut, its first crossing along the side is
  an entry. Both can be computed.
\<close>

definition cut_ready :: "'s srs_vt \<Rightarrow> 's geoextent \<Rightarrow> crop_side \<Rightarrow> 's geopoint list \<Rightarrow> bool" where
  "cut_ready V w d part =
     (let s1 = side_start w d; s2 = side_end w d
      in case scrub_part V part of
           None \<Rightarrow> False
         | Some input \<Rightarrow>
             length input < 3 \<or>
             extent_inside_or_on_line (expand_to_include_points V ext_default input) s1 s2 \<or>
             entry_first s1 s2 (work_lists d s1 s2 (input @ [hd input])))"

fun stages_ready :: "'s srs_vt \<Rightarrow> 's geoextent \<Rightarrow> crop_side list \<Rightarrow> 's geopoint list list \<Rightarrow> bool" where
  "stages_ready V w [] inputs = True"
| "stages_ready V w (d # ds) inputs =
     (list_all (cut_ready V w d) inputs \<and>
      (case concat_opt (crop_polygon_stage V w d) inputs of
         None \<Rightarrow> False | Some outputs \<Rightarrow> stages_ready V w ds outputs))"

lemma scrub_part_sub: "scrub_part V ps = Some qs \<Longrightarrow> qs \<noteq> [] \<and> set qs \<subseteq> set ps"
proof (induction V ps rule: scrub_part.induct)
  case (1 V ps)
  show ?case
  proof (cases "ps \<noteq> [] \<and> point_eq V (hd ps) (last ps)")
    case True
    then have "scrub_part V (butlast ps) = Some qs" using 1(2) by (subst (asm) scrub_part.simps) simp
    with 1(1) True show ?thesis by (auto dest: in_set_butlastD)
  next
    case False
    then show ?thesis using 1(2) by (subst (asm) scrub_part.simps) (auto split: if_splits)
  qed
qed

lemma extent_side:
  assumes "ext_wf s w" and "px (sw w) < px (ne w)" and "py (sw w) < py (ne w)"
  shows "extent_inside_or_on_line e (side_start w d) (side_end w d) \<longleftrightarrow> in_side w d (sw e) \<and> in_side w d (ne e)"
    and "extent_inside_or_on_line e (side_end w d) (side_start w d) \<longleftrightarrow>
      (case d of SOUTH \<Rightarrow> py (sw e) \<le> py (sw w) \<and> py (ne e) \<le> py (sw w)
       | EAST \<Rightarrow> px (ne w) \<le> px (sw e) \<and> px (ne w) \<le> px (ne e)
       | NORTH \<Rightarrow> py (ne w) \<le> py (sw e) \<and> py (ne w) \<le> py (ne e)
       | WEST \<Rightarrow> px (sw e) \<le> px (sw w) \<and> px (ne e) \<le> px (sw w))"
    and "in_side w d p \<longleftrightarrow>
      (case d of SOUTH \<Rightarrow> py (sw w) \<le> py p | EAST \<Rightarrow> px p \<le> px (ne w)
       | NORTH \<Rightarrow> py p \<le> py (ne w) | WEST \<Rightarrow> px (sw w) \<le> px p)"
proof -
  show "extent_inside_or_on_line e (side_start w d) (side_end w d) \<longleftrightarrow> in_side w d (sw e) \<and> in_side w d (ne e)"
    by (simp only: extent_inside_or_on_line_def in_side_def)
  show "extent_inside_or_on_line e (side_end w d) (side_start w d) \<longleftrightarrow>
      (case d of SOUTH \<Rightarrow> py (sw e) \<le> py (sw w) \<and> py (ne e) \<le> py (sw w)
       | EAST \<Rightarrow> px (ne w) \<le> px (sw e) \<and> px (ne w) \<le> px (ne e)
       | NORTH \<Rightarrow> py (ne w) \<le> py (sw e) \<and> py (ne w) \<le> py (ne e)
       | WEST \<Rightarrow> px (sw e) \<le> px (sw w) \<and> px (ne e) \<le> px (sw w))"
    unfolding extent_inside_or_on_line_def side_half_plane [OF assms] by (cases d) simp_all
  show "in_side w d p \<longleftrightarrow>
      (case d of SOUTH \<Rightarrow> py (sw w) \<le> py p | EAST \<Rightarrow> px p \<le> px (ne w)
       | NORTH \<Rightarrow> py p \<le> py (ne w) | WEST \<Rightarrow> px (sw w) \<le> px p)"
    unfolding in_side_def side_half_plane [OF assms] by (rule refl)
qed

text \<open>A feature that misses the window is passed on as it is.\<close>

lemma crop_process_disjoint:
  assumes "\<not> is_infinite (feature_extent env)" and "feature_get_extent V f0 = (e, f)" and "is_valid e"
    and "contains_extent V (feature_extent env) e = Some False"
    and "\<not> intersects V (feature_extent env) e"
  shows "crop_process V f0 env = Some [f]"
proof -
  have "is_valid (fextent f) \<and> fextent f = e"
    using assms(2,3) by (auto simp: feature_get_extent_def invalid_unusable split: if_splits list.splits prod.splits)
  then have "feature_get_extent V f = (e, f)" using assms(3) by (simp add: feature_get_extent_def)
  then show ?thesis using assms by (simp add: crop_process_def Let_def)
qed

context srs_interface begin

text \<open>A part that is neither all inside nor all outside has a crossing.\<close>

lemma crossing_exists:
  assumes wf: "ext_wf s w" "px (sw w) < px (ne w)" "py (sw w) < py (ne w)" and "usable s"
    and ps: "\<forall>p \<in> set ps. point_valid p \<and> spatial_ref p = Some s" and ne: "ps \<noteq> []"
  defines "e \<equiv> expand_to_include_points V ext_default ps"
  assumes out: "\<not> extent_inside_or_on_line e (side_start w d) (side_end w d)"
    and ins: "\<not> extent_inside_or_on_line e (side_end w d) (side_start w d)"
  shows "spatial_order (work_lists d (side_start w d) (side_end w d) (ps @ [hd ps])) \<noteq> []"
proof
  let ?W = "work_lists d (side_start w d) (side_end w d) (ps @ [hd ps])"
  let ?In = "\<lambda>p. point_inside_or_on_line p (side_start w d) (side_end w d)"
  assume "spatial_order ?W = []"
  moreover have alt: "alternating ?In (?In (hd (ps @ [hd ps]))) (\<lambda>q. line_side (side_start w d) (side_end w d) q = 0) ?W"
    using work_lists_alternating [of "ps @ [hd ps]" "side_start w d" "side_end w d" d] by simp
  ultimately have T: "traversal_order ?W = []" by (simp add: alternating_def)
  have same: "?In p = ?In (hd ps)" if p: "p \<in> set ps" for p
  proof -
    have "p \<in> set (working ?W)" using work_lists_has [of "ps @ [hd ps]" d] p by auto
    then obtain i where "i < length (working ?W)" "p = working ?W ! i" by (auto simp: in_set_conv_nth)
    then show ?thesis using alt T ne by (simp add: alternating_def upto_count_def)
  qed
  note ext = part_extent [OF ps assms(4) ne, folded e_def]
  note side = extent_side [OF wf]
  show False
  proof (cases "?In (hd ps)")
    case True
    with same have "\<forall>p \<in> set ps. in_side w d p" by (simp add: in_side_def)
    then have "in_side w d (sw e) \<and> in_side w d (ne e)"
      unfolding side(3) using ext(2-5) by (cases d; simp) metis+
    with out show False unfolding side(1) by contradiction
  next
    case False
    with same have "\<forall>p \<in> set ps. \<not> in_side w d p" by (simp add: in_side_def)
    then have "extent_inside_or_on_line e (side_end w d) (side_start w d)"
      unfolding side(2,3) using ext(2-5) by (cases d; simp) (metis less_imp_le not_le)+
    with ins show False by contradiction
  qed
qed

text \<open>One stage, for a property of points that survives intersections.\<close>

lemma crop_stage_ok:
  assumes wf: "ext_wf s w" "px (sw w) < px (ne w)" "py (sw w) < py (ne w)" and "usable s"
    and Q: "isect_closed (side_start w d) (side_end w d) Q" "\<And>p. Q p \<Longrightarrow> point_valid p \<and> spatial_ref p = Some s"
    and "\<forall>p \<in> set part. Q p" and "cut_ready V w d part"
  shows "\<exists>outs. crop_polygon_stage V w d part = Some outs \<and> (\<forall>c \<in> set outs. \<forall>p \<in> set c. Q p \<and> in_side w d p)"
proof -
  from assms(8) obtain input where sc: "scrub_part V part = Some input"
    and ready: "length input < 3 \<or>
             extent_inside_or_on_line (expand_to_include_points V ext_default input) (side_start w d) (side_end w d) \<or>
             entry_first (side_start w d) (side_end w d) (work_lists d (side_start w d) (side_end w d) (input @ [hd input]))"
    by (auto simp: cut_ready_def Let_def split: option.splits)
  have ne: "input \<noteq> []" and Qi: "\<forall>p \<in> set input. Q p" using scrub_part_sub [OF sc] assms(7) by auto
  then have ps: "\<forall>p \<in> set input. point_valid p \<and> spatial_ref p = Some s" using Q(2) by blast
  let ?e = "expand_to_include_points V ext_default input"
  let ?W = "work_lists d (side_start w d) (side_end w d) (input @ [hd input])"
  consider (small) "length input < 3"
    | (inside) "\<not> length input < 3" "extent_inside_or_on_line ?e (side_start w d) (side_end w d)"
    | (outside) "\<not> length input < 3" "\<not> extent_inside_or_on_line ?e (side_start w d) (side_end w d)"
        "\<not> intersects V w ?e \<or> extent_inside_or_on_line ?e (side_end w d) (side_start w d)"
    | (cut) "\<not> length input < 3" "\<not> extent_inside_or_on_line ?e (side_start w d) (side_end w d)"
        "intersects V w ?e" "\<not> extent_inside_or_on_line ?e (side_end w d) (side_start w d)"
    by blast
  then show ?thesis
  proof cases
    case small
    then show ?thesis by (simp add: crop_polygon_stage_def Let_def sc)
  next
    case inside
    have "in_side w d p" if p: "p \<in> set input" for p
      using bspec [OF part_extent(1) [OF ps assms(4) ne] p] inside(2)
      unfolding extent_side [OF wf] by (cases d) (auto simp: ext_box_def pt_xy_def)
    then show ?thesis using inside Qi by (simp add: crop_polygon_stage_def Let_def sc)
  next
    case outside
    then show ?thesis by (auto simp: crop_polygon_stage_def Let_def sc)
  next
    case cut
    have so: "spatial_order ?W \<noteq> []" by (rule crossing_exists [OF wf assms(4) ps ne cut(2,4)])
    have "\<forall>p \<in> set (input @ [hd input]). Q p" using Qi ne by simp
    moreover have "entry_first (side_start w d) (side_end w d) ?W" using ready cut by simp
    ultimately have "\<exists>outs. walk_all ?W = Some outs \<and> (\<forall>c \<in> set outs. \<forall>p \<in> set c. Q p \<and> in_side w d p)"
      using cut_ok [OF Q(1), of "input @ [hd input]" d] so ne by (simp add: in_side_def)
    moreover have "crop_polygon_stage V w d part = walk_all ?W"
      using cut so by (simp add: crop_polygon_stage_def Let_def sc)
    ultimately show ?thesis by simp
  qed
qed

lemma concat_opt_ok:
  assumes "\<And>x. x \<in> set xs \<Longrightarrow> \<exists>ys. f x = Some ys \<and> (\<forall>y \<in> set ys. P y)"
  shows "\<exists>ys. concat_opt f xs = Some ys \<and> (\<forall>y \<in> set ys. P y)"
  using assms
proof (induction xs)
  case (Cons x xs)
  obtain ys where "f x = Some ys" "\<forall>y \<in> set ys. P y" using Cons.prems [of x] by auto
  moreover obtain zs where "concat_opt f xs = Some zs" "\<forall>y \<in> set zs. P y" using Cons by auto
  ultimately show ?case by auto
qed simp

lemma crop_stages_ok:
  assumes wf: "ext_wf s w" "px (sw w) < px (ne w)" "py (sw w) < py (ne w)" and "usable s"
    and "\<And>p. Q p \<Longrightarrow> point_valid p \<and> spatial_ref p = Some s" and "\<And>s1 s2. isect_closed s1 s2 Q"
    and "\<forall>c \<in> set inputs. \<forall>p \<in> set c. Q p" and "stages_ready V w ds inputs"
  shows "\<exists>outs. crop_polygon_stages V w ds inputs = Some outs \<and>
    (\<forall>c \<in> set outs. \<forall>p \<in> set c. Q p \<and> (\<forall>d \<in> set ds. in_side w d p))"
  using assms(5-)
proof (induction ds arbitrary: inputs Q)
  case (Cons d ds)
  have "\<exists>outs. crop_polygon_stage V w d part = Some outs \<and> (\<forall>c \<in> set outs. \<forall>p \<in> set c. Q p \<and> in_side w d p)"
    if "part \<in> set inputs" for part
    by (rule crop_stage_ok [OF wf assms(4) Cons.prems(2,1)]) (use that Cons.prems(3,4) in \<open>auto simp: list_all_iff\<close>)
  then obtain outs where
    outs: "concat_opt (crop_polygon_stage V w d) inputs = Some outs"
    and q: "\<forall>c \<in> set outs. \<forall>p \<in> set c. Q p \<and> in_side w d p"
    using concat_opt_ok [of inputs "crop_polygon_stage V w d" "\<lambda>c. \<forall>p \<in> set c. Q p \<and> in_side w d p"] by blast
  have "stages_ready V w ds outs" using Cons.prems(4) outs by simp
  moreover have "isect_closed s1 s2 (\<lambda>p. Q p \<and> in_side w d p)" for s1 s2
    by (rule isect_closed_conj [OF Cons.prems(2) in_side_isect])
  ultimately have "\<exists>outs'. crop_polygon_stages V w ds outs = Some outs' \<and>
    (\<forall>c \<in> set outs'. \<forall>p \<in> set c. (Q p \<and> in_side w d p) \<and> (\<forall>d \<in> set ds. in_side w d p))"
    using q Cons.prems(1) by (intro Cons.IH) auto
  then show ?case using outs by auto
qed simp

lemma contains_points_same:
  "ext_wf s w \<Longrightarrow> usable s \<Longrightarrow> \<forall>p \<in> set ps. point_valid p \<and> spatial_ref p = Some s \<Longrightarrow>
     contains_points V w ps = Some (list_all (near_box w) ps)"
  unfolding contains_points_def by (rule all_opt_Some) (simp add: contains_point_wf_eq transform_same)

lemma crop_polygon_in_window:
  assumes wf: "ext_wf s w" "px (sw w) < px (ne w)" "py (sw w) < py (ne w)" and "usable s"
    and ps: "\<forall>p \<in> set part. point_valid p \<and> spatial_ref p = Some s"
    and "stages_ready V w crop_sides [part]"
  shows "\<exists>outs. crop_polygon_part V part w = Some outs \<and>
    (\<forall>c \<in> set outs. \<forall>p \<in> set c. near_box w p) \<and>
    (contains_points V w part = Some False \<longrightarrow> (\<forall>c \<in> set outs. \<forall>p \<in> set c. pt_xy p \<in> ext_box w))"
proof -
  have "contains_points V w part = Some (list_all (near_box w) part)"
    by (rule contains_points_same [OF wf(1) assms(4) ps])
  moreover have "\<exists>outs. crop_polygon_stages V w crop_sides [part] = Some outs \<and>
    (\<forall>c \<in> set outs. \<forall>p \<in> set c. pt_xy p \<in> ext_box w)"
    using crop_stages_ok [OF wf assms(4) _ isect_closed_valid, of "Some s" "[part]" crop_sides] ps assms(6)
      in_all_sides [OF wf] by auto
  ultimately show ?thesis
  proof (cases "list_all (near_box w) part")
    case True
    with \<open>contains_points V w part = _\<close> show ?thesis by (auto simp: crop_polygon_part_def list_all_iff)
  next
    case False
    with \<open>contains_points V w part = _\<close> have "contains_points V w part = Some False" by simp
    then show ?thesis using \<open>\<exists>outs. _\<close> by (auto simp: crop_polygon_part_def intro: box_near)
  qed
qed

section \<open>Stages on concrete parts\<close>

text \<open>What a stage does, by the sides of the points instead of extents.\<close>

lemma stage_accepts:
  assumes wf: "ext_wf s w" "px (sw w) < px (ne w)" "py (sw w) < py (ne w)" and "usable s"
    and "scrub_part V part = Some input" and "3 \<le> length input"
    and ps: "\<forall>p \<in> set input. point_valid p \<and> spatial_ref p = Some s" and "\<forall>p \<in> set input. in_side w d p"
  shows "crop_polygon_stage V w d part = Some [input]" and "cut_ready V w d part"
proof -
  have ne: "input \<noteq> []" using assms(6) by auto
  note ext = part_extent [OF ps assms(4) ne]
  have "extent_inside_or_on_line (expand_to_include_points V ext_default input) (side_start w d) (side_end w d)"
    using assms(8) ext(2-5) unfolding extent_side [OF wf] by (cases d; simp) metis+
  then show "crop_polygon_stage V w d part = Some [input]" "cut_ready V w d part"
    using assms(5,6) by (simp_all add: crop_polygon_stage_def cut_ready_def Let_def)
qed

lemma stage_cuts:
  assumes wf: "ext_wf s w" "px (sw w) < px (ne w)" "py (sw w) < py (ne w)" and "usable s"
    and "scrub_part V part = Some input" and "3 \<le> length input"
    and ps: "\<forall>p \<in> set input. point_valid p \<and> spatial_ref p = Some s"
    and out: "\<exists>p \<in> set input. \<not> in_side w d p"
    and inw: "\<exists>p \<in> set input. px (sw w) < px p \<and> px p < px (ne w) \<and> py (sw w) < py p \<and> py p < py (ne w)"
  shows "crop_polygon_stage V w d part =
    walk_all (work_lists d (side_start w d) (side_end w d) (input @ [hd input]))"
proof -
  have ne: "input \<noteq> []" using assms(6) by auto
  let ?e = "expand_to_include_points V ext_default input"
  note ext = part_extent [OF ps assms(4) ne]
  have we: "ext_wf s ?e" using points_extent_wf [of "hd input" s "tl input"] ps ne by simp
  have 1: "\<not> extent_inside_or_on_line ?e (side_start w d) (side_end w d)"
    using out ext(1) unfolding extent_side [OF wf] by (cases d) (auto simp: ext_box_def pt_xy_def)
  have 2: "\<not> extent_inside_or_on_line ?e (side_end w d) (side_start w d)"
    using inw ext(1) unfolding extent_side [OF wf] by (cases d) (force simp: ext_box_def pt_xy_def)+
  from inw obtain p where p: "p \<in> set input" "pt_xy p \<in> ext_box w" by (auto simp: ext_box_def pt_xy_def)
  then have 3: "intersects V w ?e"
    unfolding intersects_wf [OF wf(1) we assms(4)] using ext(1) by blast
  show ?thesis
    using 1 2 3 assms(5,6) crossing_exists [OF wf assms(4) ps ne 1 2]
    by (simp add: crop_polygon_stage_def Let_def)
qed

end

end
