(* ===== verification/Crop_Samples.thy ===== *)
theory Crop_Samples
  imports Samples Crop_Window
begin

text \<open>
  A triangle that reaches out of a square window on the east side, in both directions, and what
  the crop of \<^verbatim>\<open>CropFilter.cpp\<close> makes of it: the part inside of the counter-clockwise one,
  the part outside of the clockwise one.
\<close>

definition sample_triangle :: "unit srs geopoint list" where
  "sample_triangle = [sample_point 1 1, sample_point 6 1, sample_point 1 3]"

definition sample_cut :: "unit srs geopoint list" where
  "sample_cut = [geopoint_3d 4 (9 / 5) 0 (Some sample_srs), sample_point 1 3, sample_point 1 1, sample_point 1 1,
     geopoint_3d 4 1 0 (Some sample_srs)]"

definition sample_waste :: "unit srs geopoint list" where
  "sample_waste = [geopoint_3d 4 (9 / 5) 0 (Some sample_srs), sample_point 6 1,
     geopoint_3d 4 1 0 (Some sample_srs)]"

lemmas sample_window = sample_box_wf [of 0 4 0 4]

lemma sample_window_corner [simp]: "se (sample_box 0 0 4 4) = geopoint_2d 4 0 (Some sample_srs)"
  using sample_window by (simp add: ext_wf_def)

lemma sample_in_side:
  "in_side (sample_box 0 0 4 4) d p \<longleftrightarrow>
      (case d of SOUTH \<Rightarrow> 0 \<le> py p | EAST \<Rightarrow> px p \<le> 4 | NORTH \<Rightarrow> py p \<le> 4 | WEST \<Rightarrow> 0 \<le> px p)"
  using extent_side(3) [OF sample_window, of d p] by (cases d) simp_all

lemma sample_scrub:
  "scrub_part V sample_triangle = Some sample_triangle"
  "scrub_part V (rev sample_triangle) = Some (rev sample_triangle)"
  "scrub_part V sample_cut = Some sample_cut" "scrub_part V sample_waste = Some sample_waste"
  by (subst scrub_part.simps; simp add: sample_triangle_def sample_cut_def sample_waste_def point_eq_def sample_point_def)+

lemma sample_walk:
  "walk_all (work_lists EAST (geopoint_2d 4 0 (Some sample_srs)) (ne (sample_box 0 0 4 4))
     (sample_triangle @ [hd sample_triangle])) = Some [sample_cut]"
  by (simp add: sample_triangle_def sample_cut_def work_lists_def point_inside_or_on_line_def line_side_def get_isect_point_def Let_def,
      simp add: work_add_def work_isect_def Let_def walk_all_def walk_start_def find_index_of_def,
      simp add: walk_loop.simps walk_enter_def walk_exit_def next_traversal_def Let_def walk_points_def find_index_of_def flush_parts_def sample_point_def upt_rec)

lemma sample_walk_rev:
  "walk_all (work_lists EAST (geopoint_2d 4 0 (Some sample_srs)) (ne (sample_box 0 0 4 4))
     (rev sample_triangle @ [hd (rev sample_triangle)])) = Some [sample_waste]"
  by (simp add: sample_triangle_def sample_waste_def work_lists_def point_inside_or_on_line_def line_side_def get_isect_point_def Let_def,
      simp add: work_add_def work_isect_def Let_def walk_all_def walk_start_def find_index_of_def,
      simp add: walk_loop.simps walk_enter_def walk_exit_def next_traversal_def Let_def walk_points_def find_index_of_def flush_parts_def sample_point_def upt_rec)

lemma sample_valid:
  "\<forall>p \<in> set sample_triangle. point_valid p \<and> spatial_ref p = Some sample_srs"
  "\<forall>p \<in> set (rev sample_triangle). point_valid p \<and> spatial_ref p = Some sample_srs"
  "\<forall>p \<in> set sample_cut. point_valid p \<and> spatial_ref p = Some sample_srs"
  "\<forall>p \<in> set sample_waste. point_valid p \<and> spatial_ref p = Some sample_srs"
  by (simp_all add: sample_triangle_def sample_cut_def sample_waste_def)

lemmas sample_accepts = ogr.stage_accepts [of sample_srs "sample_box 0 0 4 4", simplified]
lemmas sample_cuts = ogr.stage_cuts [of sample_srs "sample_box 0 0 4 4", simplified]

text \<open>A part whose points are on the inner side of every side but the east one.\<close>

lemma sample_other_sides:
  assumes "ps \<in> {sample_triangle, rev sample_triangle, sample_waste, sample_cut}" and "d \<noteq> EAST"
  shows "crop_polygon_stage (ogr_vt L) (sample_box 0 0 4 4) d ps = Some [ps]"
    and "cut_ready (ogr_vt L) (sample_box 0 0 4 4) d ps"
proof -
  have "scrub_part (ogr_vt L) ps = Some ps" and v: "\<forall>p \<in> set ps. point_valid p \<and> spatial_ref p = Some sample_srs"
    and "3 \<le> length ps" and "\<forall>p \<in> set ps. in_side (sample_box 0 0 4 4) d p"
    using assms sample_scrub [of "ogr_vt L"] sample_valid
    by (auto simp: sample_in_side sample_triangle_def sample_cut_def sample_waste_def split: crop_side.split)
  note * = sample_accepts [OF this(1,3,2,4)]
  show "crop_polygon_stage (ogr_vt L) (sample_box 0 0 4 4) d ps = Some [ps]"
    and "cut_ready (ogr_vt L) (sample_box 0 0 4 4) d ps" by (rule *)+
qed

lemma sample_east:
  "crop_polygon_stage (ogr_vt L) (sample_box 0 0 4 4) EAST sample_triangle = Some [sample_cut]"
  "crop_polygon_stage (ogr_vt L) (sample_box 0 0 4 4) EAST (rev sample_triangle) = Some [sample_waste]"
proof -
  have o: "\<exists>p \<in> set sample_triangle. \<not> in_side (sample_box 0 0 4 4) EAST p"
    "\<exists>p \<in> set (rev sample_triangle). \<not> in_side (sample_box 0 0 4 4) EAST p"
    by (simp_all add: sample_in_side sample_triangle_def)
  have i: "\<exists>p \<in> set sample_triangle. 0 < px p \<and> px p < 4 \<and> 0 < py p \<and> py p < 4"
    "\<exists>p \<in> set (rev sample_triangle). 0 < px p \<and> px p < 4 \<and> 0 < py p \<and> py p < 4"
    by (simp_all add: sample_triangle_def)
  have l: "3 \<le> length sample_triangle" "3 \<le> length (rev sample_triangle)"
    by (simp_all add: sample_triangle_def)
  show "crop_polygon_stage (ogr_vt L) (sample_box 0 0 4 4) EAST sample_triangle = Some [sample_cut]"
    using sample_cuts [OF sample_scrub(1) l(1) sample_valid(1) o(1) i(1)] sample_walk by simp
  show "crop_polygon_stage (ogr_vt L) (sample_box 0 0 4 4) EAST (rev sample_triangle) = Some [sample_waste]"
    using sample_cuts [OF sample_scrub(2) l(2) sample_valid(2) o(2) i(2)] sample_walk_rev by simp
qed

lemma sample_outside:
  "contains_points (ogr_vt L) (sample_box 0 0 4 4) sample_triangle = Some False"
  "contains_points (ogr_vt L) (sample_box 0 0 4 4) (rev sample_triangle) = Some False"
  using ogr.contains_points_same [OF sample_window sample_usable sample_valid(1), of L]
    ogr.contains_points_same [OF sample_window sample_usable sample_valid(2), of L]
  by (simp_all add: sample_triangle_def near_box_def le_eps_iff epsilon_def)

lemma sample_cropped:
  "crop_polygon_part (ogr_vt L) sample_triangle (sample_box 0 0 4 4) = Some [sample_cut]"
  "crop_polygon_part (ogr_vt L) (rev sample_triangle) (sample_box 0 0 4 4) = Some [sample_waste]"
proof -
  have l: "\<not> length sample_triangle < 3" by (simp add: sample_triangle_def)
  show "crop_polygon_part (ogr_vt L) sample_triangle (sample_box 0 0 4 4) = Some [sample_cut]"
    "crop_polygon_part (ogr_vt L) (rev sample_triangle) (sample_box 0 0 4 4) = Some [sample_waste]"
    using l by (simp_all add: crop_polygon_part_def sample_outside crop_sides_def sample_other_sides sample_east)
qed

lemma sample_entry:
  "entry_first (geopoint_2d 4 0 (Some sample_srs)) (ne (sample_box 0 0 4 4))
     (work_lists EAST (geopoint_2d 4 0 (Some sample_srs)) (ne (sample_box 0 0 4 4))
       (sample_triangle @ [hd sample_triangle]))"
  by (simp add: sample_triangle_def entry_first_def work_lists_def point_inside_or_on_line_def line_side_def get_isect_point_def Let_def,
      simp add: work_add_def work_isect_def Let_def)

lemma sample_ready: "stages_ready (ogr_vt L) (sample_box 0 0 4 4) crop_sides [sample_triangle]"
proof -
  have "cut_ready (ogr_vt L) (sample_box 0 0 4 4) EAST sample_triangle"
    using sample_entry by (simp add: cut_ready_def Let_def sample_scrub)
  then show ?thesis by (simp add: crop_sides_def sample_other_sides sample_east)
qed

end
