(* ===== verification/Xml_Dom.thy ===== *)
theory Xml_Dom
  imports Geom_Utils
begin

text \<open>
  \<^verbatim>\<open>src/osgGISProjects/XmlDOM.cpp\<close> and \<^verbatim>\<open>XmlDocument.cpp\<close>: documents as trees of elements and
  texts, the handlers that build a tree from the events of the expat parser, and the writer. The
  parser itself is not part of the repository; it is an argument, a function from the text of a
  stream to the events it reports, or \<open>None\<close> for an error.
\<close>

section \<open>Nodes\<close>

type_synonym xml_attrs = "(string \<times> string) list"

datatype xml = XmlElement string xml_attrs "xml list" | XmlText string

fun xml_name :: "xml \<Rightarrow> string" where
  "xml_name (XmlElement n as cs) = n"
| "xml_name (XmlText t) = []"

fun xml_attrs_of :: "xml \<Rightarrow> xml_attrs" where
  "xml_attrs_of (XmlElement n as cs) = as"
| "xml_attrs_of (XmlText t) = []"

fun xml_children :: "xml \<Rightarrow> xml list" where
  "xml_children (XmlElement n as cs) = cs"
| "xml_children (XmlText t) = []"

definition new_element :: "string \<Rightarrow> xml" where
  "new_element n = XmlElement n [] []"

text \<open>\<open>getAttrs()[k] = v\<close> and \<open>getChildren().push_back( c )\<close>.\<close>

fun set_attr :: "string \<Rightarrow> string \<Rightarrow> xml \<Rightarrow> xml" where
  "set_attr k v (XmlElement n as cs) = XmlElement n (smap_put k v as) cs"
| "set_attr k v (XmlText t) = XmlText t"

fun add_child :: "xml \<Rightarrow> xml \<Rightarrow> xml" where
  "add_child c (XmlElement n as cs) = XmlElement n as (cs @ [c])"
| "add_child c (XmlText t) = XmlText t"

definition get_attr :: "xml \<Rightarrow> string \<Rightarrow> string" where
  "get_attr e k = (case map_of (xml_attrs_of e) k of None \<Rightarrow> [] | Some v \<Rightarrow> v)"

text \<open>Elements are looked up by name without regard to case.\<close>

fun is_element_named :: "string \<Rightarrow> xml \<Rightarrow> bool" where
  "is_element_named n (XmlElement m as cs) = (to_lower m = to_lower n)"
| "is_element_named n (XmlText t) = False"

definition get_sub_elements :: "xml \<Rightarrow> string \<Rightarrow> xml list" where
  "get_sub_elements e n = filter (is_element_named n) (xml_children e)"

definition get_sub_element :: "xml \<Rightarrow> string \<Rightarrow> xml option" where
  "get_sub_element e n = find (is_element_named n) (xml_children e)"

fun text_value :: "xml \<Rightarrow> string" where
  "text_value (XmlText t) = t"
| "text_value (XmlElement n as cs) = []"

definition get_text :: "xml \<Rightarrow> string" where
  "get_text e = trim (concat (map text_value (xml_children e)))"

definition get_sub_element_text :: "xml \<Rightarrow> string \<Rightarrow> string" where
  "get_sub_element_text e n = (case get_sub_element e n of None \<Rightarrow> [] | Some c \<Rightarrow> get_text c)"

section \<open>Reading\<close>

datatype xml_event = Start_Element string xml_attrs | End_Element string | Char_Data string

text \<open>
  \<open>getAttributes\<close> reads pairs of names and values; a name that occurs again is overwritten.
\<close>

definition get_attributes :: "(string \<times> string) list \<Rightarrow> xml_attrs" where
  "get_attributes ps = foldl (\<lambda>m (k, v). smap_put k v m) [] ps"

text \<open>
  The stack holds the elements that are open, the innermost first, with the children they have so
  far; the code links a child into its parent when it is opened, which shows only in a document
  that ends early, so \<open>link_open\<close> does it then. An end without a start is \<open>None\<close>.
\<close>

fun handle_event :: "xml list \<Rightarrow> xml_event \<Rightarrow> xml list option" where
  "handle_event [] ev = None"
| "handle_event (cur # below) (Start_Element tag ps) =
     Some (XmlElement (to_lower tag) (get_attributes ps) [] # cur # below)"
| "handle_event (cur # below) (Char_Data t) =
     Some ((if length t > 0 then add_child (XmlText t) cur else cur) # below)"
| "handle_event [cur] (End_Element tag) = None"
| "handle_event (cur # parent # below) (End_Element tag) = Some (add_child cur parent # below)"

fun handle_events :: "xml list \<Rightarrow> xml_event list \<Rightarrow> xml list option" where
  "handle_events st [] = Some st"
| "handle_events st (ev # evs) = do { st' \<leftarrow> handle_event st ev; handle_events st' evs }"

fun link_open :: "xml list \<Rightarrow> xml option" where
  "link_open [] = None"
| "link_open [e] = Some e"
| "link_open (e # parent # below) = link_open (add_child e parent # below)"

definition new_document :: xml where
  "new_document = new_element ''Document''"

text \<open>\<open>XmlDocument::load\<close>; the outer \<open>None\<close> is undefined, the inner a null pointer.\<close>

definition load_document :: "(string \<Rightarrow> xml_event list option) \<Rightarrow> string \<Rightarrow> xml option option" where
  "load_document expat s =
     (case expat s of
        None \<Rightarrow> Some None
      | Some evs \<Rightarrow> do { st \<leftarrow> handle_events [new_document] evs; doc \<leftarrow> link_open st; Some (Some doc) })"

section \<open>Writing\<close>

definition newline :: string where
  "newline = [char_of (10 :: nat)]"

definition quote :: string where
  "quote = [char_of (34 :: nat)]"

definition indentation :: "nat \<Rightarrow> string" where
  "indentation depth = replicate (depth * 4) (CHR '' '')"

definition store_attr :: "string \<times> string \<Rightarrow> string" where
  "store_attr a = '' '' @ fst a @ ''='' @ quote @ snd a @ quote"

fun store_node :: "nat \<Rightarrow> xml \<Rightarrow> string" where
  "store_node depth (XmlElement n as cs) =
     indentation depth @ ''<'' @ n @ concat (map store_attr as) @
     (if cs = [] then ''/>'' @ newline
      else ''>'' @ newline @ concat (map (store_node (Suc depth)) cs) @
        indentation depth @ ''</'' @ n @ ''>'' @ newline)"
| "store_node depth (XmlText t) = indentation depth @ t @ newline"

definition store_document :: "xml \<Rightarrow> string" where
  "store_document doc =
     ''<?xml version='' @ quote @ ''1.0'' @ quote @ ''?>'' @ newline @
     concat (map (store_node 0) (xml_children doc))"

section \<open>Facts on nodes\<close>

lemma set_attr_simps [simp]:
  "xml_name (set_attr k v e) = xml_name e" "xml_children (set_attr k v e) = xml_children e"
  by (cases e; simp)+

lemma add_child_simps [simp]:
  "xml_name (add_child c e) = xml_name e" "xml_attrs_of (add_child c e) = xml_attrs_of e"
  by (cases e; simp)+

definition well_formed_element :: "xml \<Rightarrow> bool" where
  "well_formed_element e \<longleftrightarrow> (\<exists>n as cs. e = XmlElement n as cs \<and> smap_sorted as)"

lemma wf_new_element [simp]: "well_formed_element (new_element n)"
  by (simp add: well_formed_element_def new_element_def)

lemma wf_set_attr [simp]: "well_formed_element e \<Longrightarrow> well_formed_element (set_attr k v e)"
  by (auto simp: well_formed_element_def smap_sorted_put)

lemma wf_add_child [simp]: "well_formed_element e \<Longrightarrow> well_formed_element (add_child c e)"
  by (auto simp: well_formed_element_def)

lemma get_set_attr [simp]:
  "well_formed_element e \<Longrightarrow> get_attr (set_attr k v e) k' = (if k' = k then v else get_attr e k')"
  by (auto simp: well_formed_element_def get_attr_def map_of_smap_put)

lemma get_attr_new [simp]: "get_attr (new_element n) k = []"
  by (simp add: get_attr_def new_element_def)

lemma get_attr_add_child [simp]: "get_attr (add_child c e) k = get_attr e k"
  by (simp add: get_attr_def)

lemma children_add_child [simp]:
  "well_formed_element e \<Longrightarrow> xml_children (add_child c e) = xml_children e @ [c]"
  by (auto simp: well_formed_element_def)

lemma children_new [simp]: "xml_children (new_element n) = []"
  by (simp add: new_element_def)

lemma name_new [simp]: "xml_name (new_element n) = n"
  by (simp add: new_element_def)

section \<open>Reading builds the tree\<close>

text \<open>The events of a node, and the node that the handlers make of them.\<close>

fun node_events :: "xml \<Rightarrow> xml_event list" where
  "node_events (XmlElement n as cs) =
     Start_Element n as # concat (map node_events cs) @ [End_Element n]"
| "node_events (XmlText t) = [Char_Data t]"

fun read_node_as :: "xml \<Rightarrow> xml list" where
  "read_node_as (XmlElement n as cs) =
     [XmlElement (to_lower n) (get_attributes as) (concat (map read_node_as cs))]"
| "read_node_as (XmlText t) = (if t = [] then [] else [XmlText t])"

lemma handle_events_append:
  "handle_events st (evs @ fs) = Option.bind (handle_events st evs) (\<lambda>st'. handle_events st' fs)"
  by (induction evs arbitrary: st) (auto split: Option.bind_splits)

lemma handle_node:
  "handle_events (XmlElement m bs ds # below) (node_events x) =
     Some (XmlElement m bs (ds @ read_node_as x) # below)"
proof (induction x arbitrary: m bs ds below rule: node_events.induct)
  case (1 n as cs)
  have "handle_events (XmlElement m' bs' ds' # below') (concat (map node_events xs)) =
      Some (XmlElement m' bs' (ds' @ concat (map read_node_as xs)) # below')"
    if "set xs \<subseteq> set cs" for m' bs' ds' below' xs
    using that
    by (induction xs arbitrary: ds') (simp_all add: handle_events_append 1)
  then show ?case by (simp add: handle_events_append)
qed simp

lemma load_events:
  "handle_events [new_document] (concat (map node_events xs)) =
     Some [XmlElement ''Document'' [] (concat (map read_node_as xs))]"
proof -
  have "handle_events [XmlElement m bs ds] (concat (map node_events xs)) =
      Some [XmlElement m bs (ds @ concat (map read_node_as xs))]" for m bs ds
    by (induction xs arbitrary: ds) (simp_all add: handle_events_append handle_node)
  then show ?thesis by (simp add: new_document_def new_element_def)
qed

end
