(* ===== verification/Registry.thy ===== *)
theory Registry
  imports Strings_Util
begin

text \<open>
  \<^verbatim>\<open>src/osgGIS/Registry.cpp\<close>: the factories of filters and resources by type name, and the
  work directory. A factory makes a new object each time it is asked, so the model keeps the object
  it makes. Creating feature layers, factories of stores and the global mutex are not modelled.
\<close>

record ('f, 'z) registry =
  filter_factories :: "(string \<times> 'f) list"
  resource_factories :: "(string \<times> 'z) list"
  reg_work_dir :: string

definition reg_normalize :: "string \<Rightarrow> string" where
  "reg_normalize s = to_lower (replace_char (CHR ''-'') (CHR ''_'') s)"

definition add_filter_type :: "('f, 'z) registry \<Rightarrow> string \<Rightarrow> 'f \<Rightarrow> ('f, 'z) registry" where
  "add_filter_type R type f =
     R\<lparr>filter_factories := smap_put (reg_normalize type) f (filter_factories R)\<rparr>"

definition create_filter_by_type :: "('f, 'z) registry \<Rightarrow> string \<Rightarrow> 'f option" where
  "create_filter_by_type R type = map_of (filter_factories R) (reg_normalize type)"

definition add_resource_type :: "('f, 'z) registry \<Rightarrow> string \<Rightarrow> 'z \<Rightarrow> ('f, 'z) registry" where
  "add_resource_type R type z =
     R\<lparr>resource_factories := smap_put (reg_normalize type) z (resource_factories R)\<rparr>"

definition create_resource_by_type :: "('f, 'z) registry \<Rightarrow> string \<Rightarrow> 'z option" where
  "create_resource_by_type R type = map_of (resource_factories R) (reg_normalize type)"

definition set_work_directory :: "('f, 'z) registry \<Rightarrow> string \<Rightarrow> ('f, 'z) registry" where
  "set_work_directory R d = R\<lparr>reg_work_dir := d\<rparr>"

definition has_work_directory :: "('f, 'z) registry \<Rightarrow> bool" where
  "has_work_directory R \<longleftrightarrow> length (reg_work_dir R) > 0"

section \<open>The registry as a store of named factories\<close>

lemma replace_then_lower: "replace_char (CHR ''-'') (CHR ''_'') (reg_normalize s) = reg_normalize s"
proof -
  have "lower_char c \<noteq> CHR ''-''" if "c \<noteq> CHR ''-''" for c
  proof
    assume e: "lower_char c = CHR ''-''"
    then have "(of_char (lower_char c) :: nat) = 45" by simp
    moreover have "(of_char (lower_char c) :: nat) = of_char c + 32" if "65 \<le> (of_char c :: nat) \<and> (of_char c :: nat) \<le> 90"
      using that by (simp add: lower_char_def Let_def take_bit_eq_mod)
    ultimately have "lower_char c = c" by (auto simp: lower_char_def Let_def)
    with e \<open>c \<noteq> CHR ''-''\<close> show False by simp
  qed
  then show ?thesis by (auto simp: reg_normalize_def to_lower_def replace_char_def)
qed

lemma reg_normalize_idem [simp]: "reg_normalize (reg_normalize s) = reg_normalize s"
  using replace_then_lower [of s] by (simp add: reg_normalize_def)

text \<open>
  Both tables are the store of \<open>Strings_Util\<close>: a later factory of the same name, up to case and
  dashes, replaces the earlier one.
\<close>

definition factory_lookup :: "(string \<times> 'f) list \<Rightarrow> string \<Rightarrow> (string \<times> 'f) option" where
  "factory_lookup t n = map_option (Pair (reg_normalize n)) (map_of t (reg_normalize n))"

definition factory_store :: "(string \<times> 'f) list \<Rightarrow> string \<times> 'f \<Rightarrow> (string \<times> 'f) list" where
  "factory_store t v = smap_put (reg_normalize (fst v)) (snd v) t"

interpretation factories: named_store reg_normalize fst factory_lookup factory_store
    "\<lambda>v. reg_normalize (fst v) = fst v" smap_sorted
  by unfold_locales (auto simp: factory_lookup_def factory_store_def map_of_smap_put smap_sorted_put)

lemma create_filter_lookup:
  "create_filter_by_type R type = map_option snd (factory_lookup (filter_factories R) type)"
  by (simp add: create_filter_by_type_def factory_lookup_def option.map_comp comp_def option.map_ident)

lemma add_filter_store:
  "filter_factories (add_filter_type R type f) = factory_store (filter_factories R) (reg_normalize type, f)"
  by (simp add: add_filter_type_def factory_store_def)

lemma create_added:
  assumes "smap_sorted (filter_factories R)"
  shows "create_filter_by_type (add_filter_type R type f) name =
    (if reg_normalize name = reg_normalize type then Some f else create_filter_by_type R name)"
  using factories.lookup_store [OF assms, of "(reg_normalize type, f)" name]
  by (simp add: create_filter_lookup add_filter_store)

end
