(* ===== verification/Project.thy ===== *)
theory Project
  imports Property Registry
begin

text \<open>
  The project model of \<^verbatim>\<open>src/osgGISProjects\<close>: \<^verbatim>\<open>Project.cpp\<close>, \<^verbatim>\<open>Source.cpp\<close>,
  \<^verbatim>\<open>Terrain.cpp\<close>, \<^verbatim>\<open>BuildLayer.cpp\<close>, \<^verbatim>\<open>BuildLayerSlice.cpp\<close>, \<^verbatim>\<open>BuildTarget.cpp\<close>,
  \<^verbatim>\<open>RuntimeMap.cpp\<close>, \<^verbatim>\<open>RuntimeMapLayer.cpp\<close>, with \<^verbatim>\<open>Script.cpp\<close> and the common part of
  \<^verbatim>\<open>Resource.cpp\<close> of \<^verbatim>\<open>src/osgGIS\<close>. An object that another one points at is an element of one of the
  lists of the project, so a pointer is the position of the element, and a null pointer \<open>None\<close>.
  A filter is a value of type \<open>'f\<close>, the state of a concrete resource class one of type \<open>'z\<close>.
\<close>

record script =
  scr_name :: string
  scr_language :: string
  scr_code :: string

record 'f graph =
  gr_name :: string
  gr_filters :: "'f list"

record 'z resource =
  res_name :: string
  res_uri :: string
  res_base :: string
  res_tags :: "(string \<times> unit) list"
  res_own :: 'z

record 's terrain =
  ter_name :: string
  ter_uri :: string
  ter_base :: string
  ter_srs :: "'s option"

datatype source_type = TYPE_FEATURE | TYPE_RASTER

record source =
  src_name :: string
  src_uri :: string
  src_base :: string
  src_type :: source_type
  src_graph :: "nat option"
  src_parent :: "nat option"

datatype 'r slice = Slice (sl_min: real) (sl_max: real) (sl_graph: "nat option")
  (sl_source: "nat option") (sl_props: "'r property list") (sl_subs: "'r slice list")

datatype layer_type = TYPE_SIMPLE | TYPE_GRIDDED | TYPE_CORRELATED | TYPE_QUADTREE

record 'r layer =
  bl_name :: string
  bl_base :: string
  bl_type :: layer_type
  bl_source :: "nat option"
  bl_terrain :: "nat option"
  bl_path :: string
  bl_slices :: "'r slice list"
  bl_props :: "'r property list"
  bl_env_props :: "'r property list"

record target =
  tgt_name :: string
  tgt_terrain :: "nat option"
  tgt_layers :: "nat list"

record map_layer =
  ml_layer :: "nat option"
  ml_search :: "nat option"
  ml_searchable :: bool
  ml_visible :: bool

record runtime_map =
  map_name :: string
  map_terrain :: "nat option"
  map_layers :: "map_layer list"

record ('f, 'z, 's, 'r) project =
  prj_uri :: string
  prj_name :: string
  prj_work_dir :: string
  prj_scripts :: "script list"
  prj_resources :: "'z resource list"
  prj_graphs :: "'f graph list"
  prj_terrains :: "'s terrain list"
  prj_sources :: "source list"
  prj_layers :: "'r layer list"
  prj_targets :: "target list"
  prj_maps :: "runtime_map list"

definition project_new :: "('f, 'z, 's, 'r) project" where
  "project_new =
     \<lparr>prj_uri = [], prj_name = [], prj_work_dir = [], prj_scripts = [], prj_resources = [],
      prj_graphs = [], prj_terrains = [], prj_sources = [], prj_layers = [], prj_targets = [],
      prj_maps = []\<rparr>"

section \<open>Constructors of the parts\<close>

text \<open>The largest finite \<open>float\<close>.\<close>

definition flt_max :: real where
  "flt_max = (2 - 1 / 2 ^ 23) * 2 ^ 127"

definition slice_new :: "'r slice" where
  "slice_new = Slice 0 flt_max None None [] []"

definition slice_max_range :: "real \<Rightarrow> real" where
  "slice_max_range v = (if v < 0 then flt_max else v)"

definition layer_new :: "'r layer" where
  "layer_new =
     \<lparr>bl_name = [], bl_base = [], bl_type = TYPE_SIMPLE, bl_source = None, bl_terrain = None,
      bl_path = [], bl_slices = [], bl_props = [], bl_env_props = []\<rparr>"

definition map_layer_new :: map_layer where
  "map_layer_new = \<lparr>ml_layer = None, ml_search = None, ml_searchable = False, ml_visible = True\<rparr>"

definition get_search_layer :: "map_layer \<Rightarrow> nat option" where
  "get_search_layer m = (case ml_search m of None \<Rightarrow> ml_layer m | Some l \<Rightarrow> Some l)"

definition is_intermediate :: "source \<Rightarrow> bool" where
  "is_intermediate s \<longleftrightarrow> src_parent s \<noteq> None"

definition add_layer :: "nat \<Rightarrow> target \<Rightarrow> target" where
  "add_layer l t = t\<lparr>tgt_layers := tgt_layers t @ [l]\<rparr>"

definition add_tag :: "string \<Rightarrow> 'z resource \<Rightarrow> 'z resource" where
  "add_tag t r = r\<lparr>res_tags := smap_put (to_lower t) () (res_tags r)\<rparr>"

definition get_tags :: "'z resource \<Rightarrow> string list" where
  "get_tags r = map fst (res_tags r)"

definition contains_tag :: "string \<Rightarrow> 'z resource \<Rightarrow> bool" where
  "contains_tag t r \<longleftrightarrow> to_lower t \<in> set (get_tags r)"

section \<open>Projects\<close>

text \<open>All the lookups return the first element of the name.\<close>

fun find_named :: "('a \<Rightarrow> string) \<Rightarrow> 'a list \<Rightarrow> string \<Rightarrow> nat option" where
  "find_named nm [] key = None"
| "find_named nm (x # xs) key = (if nm x = key then Some 0 else map_option Suc (find_named nm xs key))"

definition get_filter_graph :: "('f, 'z, 's, 'r) project \<Rightarrow> string \<Rightarrow> nat option" where
  "get_filter_graph p key = find_named gr_name (prj_graphs p) key"

definition get_source :: "('f, 'z, 's, 'r) project \<Rightarrow> string \<Rightarrow> nat option" where
  "get_source p key = find_named src_name (prj_sources p) key"

definition get_terrain :: "('f, 'z, 's, 'r) project \<Rightarrow> string \<Rightarrow> nat option" where
  "get_terrain p key = find_named ter_name (prj_terrains p) key"

definition get_layer :: "('f, 'z, 's, 'r) project \<Rightarrow> string \<Rightarrow> nat option" where
  "get_layer p key = find_named bl_name (prj_layers p) key"

definition get_target :: "('f, 'z, 's, 'r) project \<Rightarrow> string \<Rightarrow> nat option" where
  "get_target p key = find_named tgt_name (prj_targets p) key"

definition get_map :: "('f, 'z, 's, 'r) project \<Rightarrow> string \<Rightarrow> nat option" where
  "get_map p key = find_named map_name (prj_maps p) key"

definition get_working_directory :: "('f, 'z, 's, 'r) project \<Rightarrow> string" where
  "get_working_directory p =
     (if length (prj_work_dir p) > 0 then prj_work_dir p else ''work_'' @ prj_name p)"

text \<open>
  \<open>merge\<close> appends the objects of another project. Pointers among them stay what they are, so
  positions move by the number of objects that were there. The maps are not merged.
\<close>

definition shift :: "nat \<Rightarrow> nat option \<Rightarrow> nat option" where
  "shift n = map_option ((+) n)"

primrec shift_slice :: "nat \<Rightarrow> nat \<Rightarrow> 'r slice \<Rightarrow> 'r slice" where
  "shift_slice g s (Slice a b gr so ps subs) =
     Slice a b (shift g gr) (shift s so) ps (map (shift_slice g s) subs)"

definition merge :: "('f, 'z, 's, 'r) project \<Rightarrow> ('f, 'z, 's, 'r) project \<Rightarrow> ('f, 'z, 's, 'r) project" where
  "merge p src =
     (let g = length (prj_graphs p); s = length (prj_sources p);
          t = length (prj_terrains p); l = length (prj_layers p)
      in p\<lparr>prj_scripts := prj_scripts p @ prj_scripts src,
           prj_graphs := prj_graphs p @ prj_graphs src,
           prj_sources := prj_sources p @
             map (\<lambda>x. x\<lparr>src_graph := shift g (src_graph x), src_parent := shift s (src_parent x)\<rparr>) (prj_sources src),
           prj_terrains := prj_terrains p @ prj_terrains src,
           prj_layers := prj_layers p @
             map (\<lambda>x. x\<lparr>bl_source := shift s (bl_source x), bl_terrain := shift t (bl_terrain x),
                        bl_slices := map (shift_slice g s) (bl_slices x)\<rparr>) (prj_layers src),
           prj_targets := prj_targets p @
             map (\<lambda>x. x\<lparr>tgt_terrain := shift t (tgt_terrain x),
                        tgt_layers := map ((+) l) (tgt_layers x)\<rparr>) (prj_targets src),
           prj_resources := prj_resources p @ prj_resources src\<rparr>)"

section \<open>References\<close>

text \<open>Every pointer of a project is null or points into the project.\<close>

definition points_into :: "'a list \<Rightarrow> nat option \<Rightarrow> bool" where
  "points_into xs r \<longleftrightarrow> (case r of None \<Rightarrow> True | Some i \<Rightarrow> i < length xs)"

primrec slice_refs_ok :: "'f graph list \<Rightarrow> source list \<Rightarrow> 'r slice \<Rightarrow> bool" where
  "slice_refs_ok gs ss (Slice a b gr so ps subs) \<longleftrightarrow>
     points_into gs gr \<and> points_into ss so \<and> list_all id (map (slice_refs_ok gs ss) subs)"

definition refs_ok :: "('f, 'z, 's, 'r) project \<Rightarrow> bool" where
  "refs_ok p \<longleftrightarrow>
     list_all (\<lambda>x. points_into (prj_graphs p) (src_graph x) \<and> points_into (prj_sources p) (src_parent x)) (prj_sources p) \<and>
     list_all (\<lambda>x. points_into (prj_sources p) (bl_source x) \<and> points_into (prj_terrains p) (bl_terrain x) \<and>
       list_all (slice_refs_ok (prj_graphs p) (prj_sources p)) (bl_slices x)) (prj_layers p) \<and>
     list_all (\<lambda>x. points_into (prj_terrains p) (tgt_terrain x) \<and>
       list_all (\<lambda>l. l < length (prj_layers p)) (tgt_layers x)) (prj_targets p) \<and>
     list_all (\<lambda>m. points_into (prj_terrains p) (map_terrain m) \<and>
       list_all (\<lambda>x. points_into (prj_layers p) (ml_layer x) \<and> points_into (prj_layers p) (ml_search x)) (map_layers m))
       (prj_maps p)"

lemma points_into_simps [simp]:
  "points_into xs None" "points_into xs (Some i) \<longleftrightarrow> i < length xs"
  by (simp_all add: points_into_def)

lemma points_into_append: "points_into xs r \<Longrightarrow> points_into (xs @ ys) r"
  by (cases r) auto

lemma points_into_shift: "points_into ys r \<Longrightarrow> points_into (xs @ ys) (shift (length xs) r)"
  by (cases r) (auto simp: shift_def)

lemma points_into_map [simp]: "points_into (map f xs) r = points_into xs r"
  by (cases r) auto

lemma find_named_bound: "find_named nm xs key = Some i \<Longrightarrow> i < length xs \<and> nm (xs ! i) = key"
  by (induction xs arbitrary: i) (auto split: if_splits)

lemma find_named_points [simp]: "points_into xs (find_named nm xs key)"
  by (cases "find_named nm xs key") (auto dest: find_named_bound)

text \<open>With distinct names a position is found again by its name.\<close>

lemma find_named_distinct: "distinct (map nm xs) \<Longrightarrow> i < length xs \<Longrightarrow> find_named nm xs (nm (xs ! i)) = Some i"
proof (induction xs arbitrary: i)
  case (Cons x xs)
  then show ?case by (cases i) (auto simp: image_iff dest: nth_mem)
qed simp

lemma find_named_none: "key \<notin> nm ` set xs \<Longrightarrow> find_named nm xs key = None"
  by (induction xs) auto

end
