(* ===== verification/Xml_Serializer.thy ===== *)
theory Xml_Serializer
  imports Xml_Dom Project
begin

text \<open>
  \<^verbatim>\<open>src/osgGISProjects/XmlSerializer.cpp\<close>: a project is decoded from an XML document and
  encoded into one. What is not in the repository, or is virtual in it, is the argument \<open>F\<close>: the
  properties of filters and resources, well-known text of spatial references, reading and printing
  of floating-point numbers, path functions, files and the parser. \<open>None\<close> is a null
  dereference; where the code returns a null pointer the result is an option inside.
\<close>

section \<open>The platform\<close>

record ('f, 'z, 's, 'r) platform =
  pf_registry :: "('f, 'z) registry"
  filter_type :: "'f \<Rightarrow> string"
  filter_set :: "'f \<Rightarrow> 'r property \<Rightarrow> 'f"
  filter_get :: "'f \<Rightarrow> 'r property list"
  resource_type :: "'z \<Rightarrow> string"
  resource_set :: "'z \<Rightarrow> 'r property \<Rightarrow> 'z"
  resource_get :: "'z \<Rightarrow> 'r property list"
  resource_srs :: "'z \<Rightarrow> 's option"
  resource_set_srs :: "'z \<Rightarrow> 's option \<Rightarrow> 'z"
  resource_add_part :: "'z \<Rightarrow> string \<Rightarrow> 'z"
  srs_from_wkt :: "string \<Rightarrow> 's option"
  srs_wkt :: "'s \<Rightarrow> string"
  read_float :: "string \<Rightarrow> real"
  print_float :: "real \<Rightarrow> string"
  file_path :: "string \<Rightarrow> string"
  abs_path :: "string \<Rightarrow> string \<Rightarrow> string"
  open_file :: "string \<Rightarrow> string option"
  expat :: "string \<Rightarrow> xml_event list option"

fun fold_opt :: "('a \<Rightarrow> 'b \<Rightarrow> 'a option) \<Rightarrow> 'a \<Rightarrow> 'b list \<Rightarrow> 'a option" where
  "fold_opt f a [] = Some a"
| "fold_opt f a (x # xs) = do { a' \<leftarrow> f a x; fold_opt f a' xs }"

fun collect_opt :: "('a \<Rightarrow> 'b option) \<Rightarrow> 'a list \<Rightarrow> 'b list option" where
  "collect_opt f [] = Some []"
| "collect_opt f (x # xs) = do { y \<leftarrow> f x; ys \<leftarrow> collect_opt f xs; Some (y # ys) }"

definition base_uri :: "('f, 'z, 's, 'r) platform \<Rightarrow> ('f, 'z, 's, 'r) project \<Rightarrow> string" where
  "base_uri F p = file_path F (prj_uri p)"

section \<open>Decoding\<close>

definition decode_property :: "xml \<Rightarrow> 'r property" where
  "decode_property e = prop_string (get_attr e ''name'') (get_attr e ''value'')"

definition decode_properties :: "xml \<Rightarrow> string \<Rightarrow> 'r property list" where
  "decode_properties e n = map decode_property (get_sub_elements e n)"

definition decode_script :: "xml \<Rightarrow> script" where
  "decode_script e =
     \<lparr>scr_name = get_attr e ''name'', scr_language = get_attr e ''language'', scr_code = get_text e\<rparr>"

text \<open>A type that is not known is tried again with a suffix.\<close>

definition create_with_suffix :: "(string \<Rightarrow> 'a option) \<Rightarrow> string \<Rightarrow> string \<Rightarrow> 'a option" where
  "create_with_suffix create suffix type =
     (case create type of
        Some f \<Rightarrow> Some f
      | None \<Rightarrow> if \<not> ends_with type suffix False then create (type @ suffix) else None)"

definition decode_filter :: "('f, 'z, 's, 'r) platform \<Rightarrow> xml \<Rightarrow> 'f option" where
  "decode_filter F e =
     (case create_with_suffix (create_filter_by_type (pf_registry F)) ''Filter'' (get_attr e ''type'') of
        None \<Rightarrow> None
      | Some f \<Rightarrow> Some (foldl (filter_set F) f (decode_properties e ''property'')))"

text \<open>
  A graph that inherits is a copy of its parent, name included; without a project the parent is
  looked up through a null pointer.
\<close>

definition decode_filter_graph ::
  "('f, 'z, 's, 'r) platform \<Rightarrow> ('f, 'z, 's, 'r) project option \<Rightarrow> xml \<Rightarrow> 'f graph option option" where
  "decode_filter_graph F proj e =
     (if length (get_attr e ''inherits'') > 0
      then (case proj of
              None \<Rightarrow> None
            | Some p \<Rightarrow> Some (map_option ((!) (prj_graphs p)) (get_filter_graph p (get_attr e ''inherits''))))
      else Some (Some
        \<lparr>gr_name = get_attr e ''name'',
         gr_filters = List.map_filter (decode_filter F) (get_sub_elements e ''filter'')\<rparr>))"

text \<open>\<open>istream_iterator\<close>: the words between white space.\<close>

fun words_from :: "string \<Rightarrow> string \<Rightarrow> string list" where
  "words_from w [] = (if w = [] then [] else [w])"
| "words_from w (c # s) =
     (if is_space c then (if w = [] then words_from [] s else w # words_from [] s)
      else words_from (w @ [c]) s)"

definition words_of :: "string \<Rightarrow> string list" where
  "words_of s = words_from [] s"

definition resource_new :: "'z \<Rightarrow> 'z resource" where
  "resource_new z = \<lparr>res_name = [], res_uri = [], res_base = [], res_tags = [], res_own = z\<rparr>"

text \<open>The tags are added one by one and once more as a whole.\<close>

definition decode_tags :: "xml \<Rightarrow> 'z resource \<Rightarrow> 'z resource" where
  "decode_tags e r =
     (let csv = get_attr e ''tags'';
          r1 = (if length csv > 0 then foldl (\<lambda>r t. add_tag t r) r (words_of csv) else r)
      in add_tag csv r1)"

definition parse_srs_resource :: "('f, 'z, 's, 'r) platform \<Rightarrow> xml \<Rightarrow> 'z \<Rightarrow> 'z" where
  "parse_srs_resource F e z =
     (if resource_srs F z = None \<and> length (get_text e) > 0
      then resource_set_srs F z (srs_from_wkt F (get_text e)) else z)"

definition parse_raster_resource :: "('f, 'z, 's, 'r) platform \<Rightarrow> xml \<Rightarrow> 'z \<Rightarrow> 'z" where
  "parse_raster_resource F e z =
     foldl (\<lambda>z c. resource_add_part F z (get_text c)) z (get_sub_elements e ''uri'')"

definition decode_resource ::
  "('f, 'z, 's, 'r) platform \<Rightarrow> ('f, 'z, 's, 'r) project \<Rightarrow> xml \<Rightarrow> 'z resource option" where
  "decode_resource F p e =
     (case create_with_suffix (create_resource_by_type (pf_registry F)) ''Resource'' (get_attr e ''type'') of
        None \<Rightarrow> None
      | Some z \<Rightarrow>
          (let z1 = foldl (resource_set F) z (decode_properties e ''property'');
               z2 = (if resource_type F z = ''SRSResource'' then parse_srs_resource F e z1
                     else if resource_type F z = ''RasterResource'' then parse_raster_resource F e z1
                     else z1);
               r = (resource_new z2)\<lparr>res_base := base_uri F p, res_name := get_attr e ''name'',
                      res_uri := get_sub_element_text e ''uri''\<rparr>
           in Some (decode_tags e r)))"

definition find_srs_resource :: "('f, 'z, 's, 'r) platform \<Rightarrow> 'z resource list \<Rightarrow> string \<Rightarrow> 'z resource option" where
  "find_srs_resource F rs n =
     find (\<lambda>r. resource_type F (res_own r) = ''SRSResource'' \<and> res_name r = n) rs"

definition decode_terrain ::
  "('f, 'z, 's, 'r) platform \<Rightarrow> ('f, 'z, 's, 'r) project \<Rightarrow> xml \<Rightarrow> 's terrain" where
  "decode_terrain F p e =
     \<lparr>ter_name = get_attr e ''name'', ter_uri = get_sub_element_text e ''uri'', ter_base = base_uri F p,
      ter_srs = (case find_srs_resource F (prj_resources p) (get_attr e ''srs'') of
                   None \<Rightarrow> None | Some r \<Rightarrow> resource_srs F (res_own r))\<rparr>"

text \<open>The first pass over the sources creates them, the second connects them.\<close>

definition decode_source ::
  "('f, 'z, 's, 'r) platform \<Rightarrow> ('f, 'z, 's, 'r) project \<Rightarrow> xml \<Rightarrow> source" where
  "decode_source F p e =
     \<lparr>src_name = get_attr e ''name'', src_uri = get_sub_element_text e ''uri'', src_base = base_uri F p,
      src_type = (if get_attr e ''type'' = ''raster'' then TYPE_RASTER else TYPE_FEATURE),
      src_graph = get_filter_graph p (get_attr e ''graph''), src_parent = None\<rparr>"

definition connect_source ::
  "('f, 'z, 's, 'r) project \<Rightarrow> xml \<Rightarrow> ('f, 'z, 's, 'r) project option" where
  "connect_source p e =
     (case get_source p (get_attr e ''name'') of
        None \<Rightarrow> None
      | Some i \<Rightarrow> Some (p\<lparr>prj_sources :=
          (prj_sources p)[i := (prj_sources p ! i)\<lparr>src_parent := get_source p (get_attr e ''parent'')\<rparr>]\<rparr>))"

lemma sub_element_size: "c \<in> set (get_sub_elements e n) \<Longrightarrow> size c < size e"
proof (cases e)
  case (XmlElement m as cs)
  assume "c \<in> set (get_sub_elements e n)"
  then have "c \<in> set cs" by (simp add: get_sub_elements_def XmlElement)
  then have "size c \<le> size_list size cs" by (rule size_list_estimation') simp
  then show ?thesis by (simp add: XmlElement)
qed (simp add: get_sub_elements_def)

text \<open>The recursion takes only what it needs of the project: the two lookups by name.\<close>

function decode_slice_with ::
  "(string \<Rightarrow> real) \<Rightarrow> (string \<Rightarrow> nat option) \<Rightarrow> (string \<Rightarrow> nat option) \<Rightarrow> xml \<Rightarrow> 'r slice" where
  "decode_slice_with rf gr so e =
     Slice (if length (get_attr e ''min_range'') > 0 then rf (get_attr e ''min_range'') else 0)
       (if length (get_attr e ''max_range'') > 0 then slice_max_range (rf (get_attr e ''max_range''))
        else flt_max)
       (gr (get_attr e ''graph'')) (so (get_attr e ''source'')) (decode_properties e ''property'')
       (map (decode_slice_with rf gr so) (get_sub_elements e ''slice''))"
  by pat_completeness auto

termination
  by (relation "measure (\<lambda>(rf, gr, so, e). size e)") (auto dest: sub_element_size)

declare decode_slice_with.simps [simp del]

definition decode_slice ::
  "('f, 'z, 's, 'r) platform \<Rightarrow> ('f, 'z, 's, 'r) project \<Rightarrow> xml \<Rightarrow> 'r slice" where
  "decode_slice F p e = decode_slice_with (read_float F) (get_filter_graph p) (get_source p) e"

definition decode_layer_type :: "string \<Rightarrow> layer_type" where
  "decode_layer_type t =
     (if t = ''correlated'' then TYPE_CORRELATED else if t = ''gridded'' then TYPE_GRIDDED
      else if t = ''quadtree'' \<or> t = ''new'' then TYPE_QUADTREE else TYPE_SIMPLE)"

definition decode_layer ::
  "('f, 'z, 's, 'r) platform \<Rightarrow> ('f, 'z, 's, 'r) project \<Rightarrow> xml \<Rightarrow> 'r layer" where
  "decode_layer F p e =
     \<lparr>bl_name = get_attr e ''name'', bl_base = base_uri F p, bl_type = decode_layer_type (get_attr e ''type''),
      bl_source = get_source p (get_attr e ''source''), bl_terrain = get_terrain p (get_attr e ''terrain''),
      bl_path = get_attr e ''target'', bl_slices = map (decode_slice F p) (get_sub_elements e ''slice''),
      bl_props = decode_properties e ''property'', bl_env_props = decode_properties e ''env_property''\<rparr>"

definition decode_target :: "('f, 'z, 's, 'r) project \<Rightarrow> xml \<Rightarrow> target" where
  "decode_target p e =
     \<lparr>tgt_name = get_attr e ''name'', tgt_terrain = get_terrain p (get_attr e ''terrain''),
      tgt_layers = List.map_filter
        (\<lambda>c. if length (get_text c) > 0 then get_layer p (get_text c) else None) (get_sub_elements e ''layer'')\<rparr>"

definition decode_map_layer :: "('f, 'z, 's, 'r) project \<Rightarrow> xml \<Rightarrow> map_layer" where
  "decode_map_layer p e =
     \<lparr>ml_layer = get_layer p (get_attr e ''layer''), ml_search = get_layer p (get_attr e ''searchlayer''),
      ml_searchable = (get_attr e ''searchable'' = ''true''), ml_visible = (get_attr e ''visible'' \<noteq> ''false'')\<rparr>"

definition decode_map :: "('f, 'z, 's, 'r) project \<Rightarrow> xml \<Rightarrow> runtime_map" where
  "decode_map p e =
     \<lparr>map_name = get_attr e ''name'', map_terrain = get_terrain p (get_attr e ''terrain''),
      map_layers = map (decode_map_layer p) (get_sub_elements e ''maplayer'')\<rparr>"

section \<open>The parts of a project, in the order they are read\<close>

definition read_script :: "('f, 'z, 's, 'r) project \<Rightarrow> xml \<Rightarrow> ('f, 'z, 's, 'r) project option" where
  "read_script p e = Some (p\<lparr>prj_scripts := prj_scripts p @ [decode_script e]\<rparr>)"

definition read_resource ::
  "('f, 'z, 's, 'r) platform \<Rightarrow> ('f, 'z, 's, 'r) project \<Rightarrow> xml \<Rightarrow> ('f, 'z, 's, 'r) project option" where
  "read_resource F p e =
     Some (case decode_resource F p e of
             None \<Rightarrow> p | Some r \<Rightarrow> p\<lparr>prj_resources := prj_resources p @ [r]\<rparr>)"

definition read_graph ::
  "('f, 'z, 's, 'r) platform \<Rightarrow> ('f, 'z, 's, 'r) project \<Rightarrow> xml \<Rightarrow> ('f, 'z, 's, 'r) project option" where
  "read_graph F p e =
     do { g \<leftarrow> decode_filter_graph F (Some p) e;
          Some (case g of None \<Rightarrow> p | Some g \<Rightarrow> p\<lparr>prj_graphs := prj_graphs p @ [g]\<rparr>) }"

definition read_terrain ::
  "('f, 'z, 's, 'r) platform \<Rightarrow> ('f, 'z, 's, 'r) project \<Rightarrow> xml \<Rightarrow> ('f, 'z, 's, 'r) project option" where
  "read_terrain F p e = Some (p\<lparr>prj_terrains := prj_terrains p @ [decode_terrain F p e]\<rparr>)"

text \<open>Each source is also added as a resource, so that filters can find it.\<close>

definition source_resource :: "'z \<Rightarrow> string \<Rightarrow> source \<Rightarrow> 'z resource" where
  "source_resource z base s = (resource_new z)\<lparr>res_base := base, res_uri := src_uri s, res_name := src_name s\<rparr>"

definition read_source ::
  "('f, 'z, 's, 'r) platform \<Rightarrow> ('f, 'z, 's, 'r) project \<Rightarrow> xml \<Rightarrow> ('f, 'z, 's, 'r) project option" where
  "read_source F p e =
     (let s = decode_source F p e; p1 = p\<lparr>prj_sources := prj_sources p @ [s]\<rparr>
      in do { z \<leftarrow> create_resource_by_type (pf_registry F) ''FeatureLayerResource'';
              Some (p1\<lparr>prj_resources := prj_resources p1 @ [source_resource z (base_uri F p1) s]\<rparr>) })"

text \<open>Each layer gets a target of its own.\<close>

definition layer_target :: "string \<Rightarrow> nat \<Rightarrow> target" where
  "layer_target n l = add_layer l \<lparr>tgt_name = n, tgt_terrain = None, tgt_layers = []\<rparr>"

definition read_layer ::
  "('f, 'z, 's, 'r) platform \<Rightarrow> ('f, 'z, 's, 'r) project \<Rightarrow> xml \<Rightarrow> ('f, 'z, 's, 'r) project option" where
  "read_layer F p e =
     (let l = decode_layer F p e
      in Some (p\<lparr>prj_layers := prj_layers p @ [l],
                 prj_targets := prj_targets p @ [layer_target (bl_name l) (length (prj_layers p))]\<rparr>))"

definition read_target :: "('f, 'z, 's, 'r) project \<Rightarrow> xml \<Rightarrow> ('f, 'z, 's, 'r) project option" where
  "read_target p e = Some (p\<lparr>prj_targets := prj_targets p @ [decode_target p e]\<rparr>)"

definition read_map :: "('f, 'z, 's, 'r) project \<Rightarrow> xml \<Rightarrow> ('f, 'z, 's, 'r) project option" where
  "read_map p e = Some (p\<lparr>prj_maps := prj_maps p @ [decode_map p e]\<rparr>)"

text \<open>\<open>decodeInclude\<close>, given what loads a project from a location.\<close>

definition read_include ::
  "('f, 'z, 's, 'r) platform \<Rightarrow> (string \<Rightarrow> ('f, 'z, 's, 'r) project option option) \<Rightarrow>
     ('f, 'z, 's, 'r) project \<Rightarrow> xml \<Rightarrow> ('f, 'z, 's, 'r) project option" where
  "read_include F load p e =
     (if length (get_text e) > 0
      then do { i \<leftarrow> load (abs_path F (base_uri F p) (get_text e));
                Some (case i of None \<Rightarrow> p | Some q \<Rightarrow> merge p q) }
      else Some p)"

definition project_start :: "xml \<Rightarrow> string \<Rightarrow> ('f, 'z, 's, 'r) project" where
  "project_start e uri =
     project_new\<lparr>prj_uri := uri, prj_name := get_attr e ''name'', prj_work_dir := get_attr e ''workdir''\<rparr>"

definition decode_project_with ::
  "('f, 'z, 's, 'r) platform \<Rightarrow> (string \<Rightarrow> ('f, 'z, 's, 'r) project option option) \<Rightarrow>
     xml \<Rightarrow> string \<Rightarrow> ('f, 'z, 's, 'r) project option" where
  "decode_project_with F load e uri =
     do { p0 \<leftarrow> fold_opt (read_include F load) (project_start e uri) (get_sub_elements e ''include'');
          p1 \<leftarrow> fold_opt read_script p0 (get_sub_elements e ''script'');
          p2 \<leftarrow> fold_opt (read_resource F) p1 (get_sub_elements e ''resource'');
          p3 \<leftarrow> fold_opt (read_graph F) p2 (get_sub_elements e ''graph'');
          p4 \<leftarrow> fold_opt (read_terrain F) p3 (get_sub_elements e ''terrain'');
          p5 \<leftarrow> fold_opt (read_source F) p4 (get_sub_elements e ''source'');
          p6 \<leftarrow> fold_opt connect_source p5 (get_sub_elements e ''source'');
          p7 \<leftarrow> fold_opt (read_layer F) p6 (get_sub_elements e ''layer'');
          p8 \<leftarrow> fold_opt read_target p7 (get_sub_elements e ''target'');
          fold_opt read_map p8 (get_sub_elements e ''map'') }"

section \<open>Documents\<close>

definition read_project_with ::
  "(xml \<Rightarrow> string \<Rightarrow> ('f, 'z, 's, 'r) project option) \<Rightarrow> xml \<Rightarrow> string \<Rightarrow>
     ('f, 'z, 's, 'r) project option option" where
  "read_project_with decode doc uri =
     (case get_sub_element doc ''project'' of
        None \<Rightarrow> Some None | Some e \<Rightarrow> map_option Some (decode e uri))"

definition load_uri :: "('f, 'z, 's, 'r) platform \<Rightarrow> string \<Rightarrow> xml option option" where
  "load_uri F uri =
     (case open_file F uri of None \<Rightarrow> Some None | Some s \<Rightarrow> load_document (expat F) s)"

definition load_project_with ::
  "('f, 'z, 's, 'r) platform \<Rightarrow> (xml \<Rightarrow> string \<Rightarrow> ('f, 'z, 's, 'r) project option) \<Rightarrow> string \<Rightarrow>
     ('f, 'z, 's, 'r) project option option" where
  "load_project_with F decode uri =
     do { doc \<leftarrow> load_uri F uri;
          case doc of None \<Rightarrow> Some None | Some d \<Rightarrow> read_project_with decode d uri }"

text \<open>
  A project includes others, which include others; the first argument bounds the depth, and
  \<open>None\<close> is also the result of going deeper (in the code, of files that include each other).
\<close>

primrec decode_project ::
  "nat \<Rightarrow> ('f, 'z, 's, 'r) platform \<Rightarrow> xml \<Rightarrow> string \<Rightarrow> ('f, 'z, 's, 'r) project option" where
  "decode_project 0 F = (\<lambda>e uri. None)"
| "decode_project (Suc n) F = decode_project_with F (load_project_with F (decode_project n F))"

definition load_project ::
  "nat \<Rightarrow> ('f, 'z, 's, 'r) platform \<Rightarrow> string \<Rightarrow> ('f, 'z, 's, 'r) project option option" where
  "load_project n F uri = load_project_with F (decode_project n F) uri"

definition read_project ::
  "nat \<Rightarrow> ('f, 'z, 's, 'r) platform \<Rightarrow> xml \<Rightarrow> string \<Rightarrow> ('f, 'z, 's, 'r) project option option" where
  "read_project n F doc uri = read_project_with (decode_project n F) doc uri"

definition read_filter_graph ::
  "('f, 'z, 's, 'r) platform \<Rightarrow> xml \<Rightarrow> 'f graph option option" where
  "read_filter_graph F doc =
     (case get_sub_element doc ''graph'' of None \<Rightarrow> Some None | Some e \<Rightarrow> decode_filter_graph F None e)"

end
