(* ===== verification/Xml_Writer.thy ===== *)
theory Xml_Writer
  imports Xml_Serializer
begin

text \<open>
  The writing half of \<^verbatim>\<open>src/osgGISProjects/XmlSerializer.cpp\<close>: encoders of the parts of a project,
  and documents made of them. Pointers are written as the names of what they point at. \<open>None\<close> is
  undefined behaviour: a null pointer that the encoder follows.
\<close>

section \<open>Building elements\<close>

definition add_children :: "xml list \<Rightarrow> xml \<Rightarrow> xml" where
  "add_children cs e = foldl (\<lambda>e c. add_child c e) e cs"

text \<open>An attribute that is written under a condition, or for a pointer that is not null.\<close>

definition attr_if :: "bool \<Rightarrow> string \<Rightarrow> string \<Rightarrow> xml \<Rightarrow> xml" where
  "attr_if b k v e = (if b then set_attr k v e else e)"

definition attr_ref :: "string \<Rightarrow> (nat \<Rightarrow> string) \<Rightarrow> nat option \<Rightarrow> xml \<Rightarrow> xml" where
  "attr_ref k nm r e = (case r of None \<Rightarrow> e | Some i \<Rightarrow> set_attr k (nm i) e)"

section \<open>Names of what is pointed at\<close>

definition graph_name :: "('f, 'z, 's, 'r) project \<Rightarrow> nat \<Rightarrow> string" where
  "graph_name p i = gr_name (prj_graphs p ! i)"

definition source_name :: "('f, 'z, 's, 'r) project \<Rightarrow> nat \<Rightarrow> string" where
  "source_name p i = src_name (prj_sources p ! i)"

definition terrain_name :: "('f, 'z, 's, 'r) project \<Rightarrow> nat \<Rightarrow> string" where
  "terrain_name p i = ter_name (prj_terrains p ! i)"

definition build_layer_name :: "('f, 'z, 's, 'r) project \<Rightarrow> nat \<Rightarrow> string" where
  "build_layer_name p i = bl_name (prj_layers p ! i)"

section \<open>Encoders\<close>

definition encode_property :: "'r property \<Rightarrow> xml" where
  "encode_property p =
     set_attr ''value'' (pvalue p) (set_attr ''name'' (pname p) (new_element ''property''))"

definition encode_filter :: "('f, 'z, 's, 'r) platform \<Rightarrow> 'f \<Rightarrow> xml" where
  "encode_filter F f =
     add_children (map encode_property (filter_get F f))
       (set_attr ''type'' (filter_type F f) (new_element ''filter''))"

definition encode_filter_graph :: "('f, 'z, 's, 'r) platform \<Rightarrow> 'f graph \<Rightarrow> xml" where
  "encode_filter_graph F g =
     add_children (map (encode_filter F) (gr_filters g)) (set_attr ''name'' (gr_name g) (new_element ''graph''))"

definition encode_script :: "script \<Rightarrow> xml" where
  "encode_script s =
     add_child (XmlText (scr_code s))
       (set_attr ''language'' (scr_language s) (set_attr ''name'' (scr_name s) (new_element ''script'')))"

definition encode_uri :: "string \<Rightarrow> xml" where
  "encode_uri u = add_child (XmlText u) (new_element ''uri'')"

definition tags_text :: "'z resource \<Rightarrow> string" where
  "tags_text r = concat (map (\<lambda>t. t @ '' '') (get_tags r))"

definition resource_element :: "('f, 'z, 's, 'r) platform \<Rightarrow> 'z resource \<Rightarrow> xml" where
  "resource_element F r =
     add_child (encode_uri (res_uri r))
       (attr_if (tags_text r \<noteq> []) ''tags'' (tags_text r)
         (set_attr ''name'' (res_name r)
           (set_attr ''type'' (resource_type F (res_own r)) (new_element ''resource''))))"

text \<open>
  Resources that stand for a source are not written, the inner \<open>None\<close>. The loop over the properties
  compares iterators of two temporaries, each \<open>getProperties()\<close> making its own: it is undefined
  unless there are no properties.
\<close>

definition encode_resource :: "('f, 'z, 's, 'r) platform \<Rightarrow> 'z resource \<Rightarrow> xml option option" where
  "encode_resource F r =
     (if resource_type F (res_own r) = ''FeatureLayerResource'' then Some None
      else if resource_get F (res_own r) \<noteq> [] then None
      else if resource_type F (res_own r) = ''SRSResource''
      then (case resource_srs F (res_own r) of
              None \<Rightarrow> None
            | Some s \<Rightarrow> Some (Some (add_child (XmlText (srs_wkt F s)) (resource_element F r))))
      else Some (Some (resource_element F r)))"

definition encode_source :: "('f, 'z, 's, 'r) project \<Rightarrow> source \<Rightarrow> xml" where
  "encode_source p s =
     add_child (encode_uri (src_uri s))
       (attr_ref ''parent'' (source_name p) (src_parent s)
         (attr_ref ''graph'' (graph_name p) (src_graph s)
           (set_attr ''type'' (if src_type s = TYPE_RASTER then ''raster'' else ''feature'')
             (set_attr ''name'' (src_name s) (new_element ''source'')))))"

definition encode_terrain :: "'s terrain \<Rightarrow> xml" where
  "encode_terrain t =
     add_child (encode_uri (ter_uri t)) (set_attr ''name'' (ter_name t) (new_element ''terrain''))"

lemma collect_opt_cong [fundef_cong]:
  "xs = ys \<Longrightarrow> (\<And>x. x \<in> set ys \<Longrightarrow> f x = g x) \<Longrightarrow> collect_opt f xs = collect_opt g ys"
proof -
  assume "xs = ys" and "\<And>x. x \<in> set ys \<Longrightarrow> f x = g x"
  then show ?thesis by (induction ys arbitrary: xs) auto
qed

text \<open>A slice without a filter graph is followed through its null pointer.\<close>

fun encode_slice_with ::
  "(real \<Rightarrow> string) \<Rightarrow> (nat \<Rightarrow> string) \<Rightarrow> (nat \<Rightarrow> string) \<Rightarrow> 'r slice \<Rightarrow> xml option" where
  "encode_slice_with pf gn sn (Slice a b gr so ps subs) =
     do { g \<leftarrow> gr; cs \<leftarrow> collect_opt (encode_slice_with pf gn sn) subs;
          Some (add_children (map encode_property ps @ cs)
            (attr_ref ''source'' sn so
              (set_attr ''graph'' (gn g)
                (attr_if (b < flt_max) ''max_range'' (pf b)
                  (attr_if (a > 0) ''min_range'' (pf a) (new_element ''slice'')))))) }"

definition encode_slice ::
  "('f, 'z, 's, 'r) platform \<Rightarrow> ('f, 'z, 's, 'r) project \<Rightarrow> 'r slice \<Rightarrow> xml option" where
  "encode_slice F p sl = encode_slice_with (print_float F) (graph_name p) (source_name p) sl"

definition encode_layer_type :: "layer_type \<Rightarrow> xml \<Rightarrow> xml" where
  "encode_layer_type t e =
     (case t of TYPE_CORRELATED \<Rightarrow> set_attr ''type'' ''correlated'' e
      | TYPE_GRIDDED \<Rightarrow> set_attr ''type'' ''gridded'' e
      | TYPE_QUADTREE \<Rightarrow> set_attr ''type'' ''quadtree'' e
      | TYPE_SIMPLE \<Rightarrow> e)"

definition encode_layer ::
  "('f, 'z, 's, 'r) platform \<Rightarrow> ('f, 'z, 's, 'r) project \<Rightarrow> 'r layer \<Rightarrow> xml option" where
  "encode_layer F p l =
     do { s \<leftarrow> bl_source l; t \<leftarrow> bl_terrain l; cs \<leftarrow> collect_opt (encode_slice F p) (bl_slices l);
          Some (add_children (cs @ map encode_property (bl_props l))
            (set_attr ''target'' (bl_path l)
              (set_attr ''terrain'' (terrain_name p t)
                (set_attr ''source'' (source_name p s)
                  (encode_layer_type (bl_type l) (set_attr ''name'' (bl_name l) (new_element ''layer'')))))))}"

definition encode_layer_name :: "('f, 'z, 's, 'r) project \<Rightarrow> nat \<Rightarrow> xml" where
  "encode_layer_name p i = add_child (XmlText (build_layer_name p i)) (new_element ''layer'')"

text \<open>A target of the name of a layer is taken for the one that the layer gets when it is read.\<close>

definition encode_target :: "('f, 'z, 's, 'r) project \<Rightarrow> target \<Rightarrow> xml option" where
  "encode_target p t =
     (case get_layer p (tgt_name t) of
        Some _ \<Rightarrow> None
      | None \<Rightarrow> Some (add_children (map (encode_layer_name p) (tgt_layers t))
          (attr_ref ''terrain'' (terrain_name p) (tgt_terrain t)
            (set_attr ''name'' (tgt_name t) (new_element ''target'')))))"

definition bool_text :: "bool \<Rightarrow> string" where
  "bool_text b = (if b then ''true'' else ''false'')"

definition encode_map_layer :: "('f, 'z, 's, 'r) project \<Rightarrow> map_layer \<Rightarrow> xml option" where
  "encode_map_layer p m =
     do { l \<leftarrow> ml_layer m; s \<leftarrow> get_search_layer m;
          Some (set_attr ''searchable'' (bool_text (ml_searchable m))
            (set_attr ''visible'' (bool_text (ml_visible m))
              (set_attr ''searchlayer'' (build_layer_name p s)
                (set_attr ''layer'' (build_layer_name p l) (new_element ''maplayer''))))) }"

definition encode_map :: "('f, 'z, 's, 'r) project \<Rightarrow> runtime_map \<Rightarrow> xml option" where
  "encode_map p m =
     do { cs \<leftarrow> collect_opt (encode_map_layer p) (map_layers m);
          Some (add_children cs
            (attr_ref ''terrain'' (terrain_name p) (map_terrain m)
              (set_attr ''name'' (map_name m) (new_element ''map'')))) }"

definition encode_project :: "('f, 'z, 's, 'r) platform \<Rightarrow> ('f, 'z, 's, 'r) project \<Rightarrow> xml option" where
  "encode_project F p =
     do { rs \<leftarrow> collect_opt (encode_resource F) (prj_resources p);
          ls \<leftarrow> collect_opt (encode_layer F p) (prj_layers p);
          ms \<leftarrow> collect_opt (encode_map p) (prj_maps p);
          Some (add_children
            (map encode_script (prj_scripts p) @ List.map_filter id rs @
             map (encode_filter_graph F) (prj_graphs p) @ map encode_terrain (prj_terrains p) @
             map (encode_source p) (prj_sources p) @ ls @
             List.map_filter (encode_target p) (prj_targets p) @ ms)
            (set_attr ''workdir'' (get_working_directory p)
              (set_attr ''name'' (prj_name p) (new_element ''project'')))) }"

section \<open>Documents\<close>

definition write_filter_graph :: "('f, 'z, 's, 'r) platform \<Rightarrow> 'f graph option \<Rightarrow> xml" where
  "write_filter_graph F g =
     (case g of None \<Rightarrow> new_document | Some g \<Rightarrow> add_child (encode_filter_graph F g) new_document)"

definition write_project ::
  "('f, 'z, 's, 'r) platform \<Rightarrow> ('f, 'z, 's, 'r) project option \<Rightarrow> xml option" where
  "write_project F p =
     (case p of None \<Rightarrow> Some new_document
      | Some p \<Rightarrow> map_option (\<lambda>e. add_child e new_document) (encode_project F p))"

text \<open>The result and what is written to the file, if it could be opened.\<close>

definition write_project_uri ::
  "('f, 'z, 's, 'r) platform \<Rightarrow> bool \<Rightarrow> ('f, 'z, 's, 'r) project option \<Rightarrow> (bool \<times> string option) option" where
  "write_project_uri F opened p =
     (if opened then map_option (\<lambda>doc. (True, Some (store_document doc))) (write_project F p)
      else Some (False, None))"

section \<open>Elements as they are read back\<close>

lemma wf_attr_if [simp]: "well_formed_element e \<Longrightarrow> well_formed_element (attr_if b k v e)"
  by (simp add: attr_if_def)

lemma wf_attr_ref [simp]: "well_formed_element e \<Longrightarrow> well_formed_element (attr_ref k nm r e)"
  by (simp add: attr_ref_def split: option.split)

lemma wf_layer_type [simp]: "well_formed_element e \<Longrightarrow> well_formed_element (encode_layer_type t e)"
  by (simp add: encode_layer_type_def split: layer_type.split)

lemma wf_add_children [simp]: "well_formed_element e \<Longrightarrow> well_formed_element (add_children cs e)"
  unfolding add_children_def by (induction cs arbitrary: e) simp_all

lemma get_attr_if [simp]:
  "well_formed_element e \<Longrightarrow> get_attr (attr_if b k v e) k' = (if b \<and> k' = k then v else get_attr e k')"
  by (simp add: attr_if_def)

lemma get_attr_ref [simp]:
  "well_formed_element e \<Longrightarrow> get_attr (attr_ref k nm r e) k' =
     (case r of None \<Rightarrow> get_attr e k' | Some i \<Rightarrow> if k' = k then nm i else get_attr e k')"
  by (simp add: attr_ref_def split: option.split)

lemma get_attr_layer_type [simp]:
  "well_formed_element e \<Longrightarrow> k' \<noteq> ''type'' \<Longrightarrow> get_attr (encode_layer_type t e) k' = get_attr e k'"
  by (simp add: encode_layer_type_def split: layer_type.split)

lemma get_attr_add_children [simp]: "get_attr (add_children cs e) k = get_attr e k"
  unfolding add_children_def by (induction cs arbitrary: e) simp_all

lemma children_simps [simp]:
  "xml_children (attr_if b k v e) = xml_children e"
  "xml_children (attr_ref k nm r e) = xml_children e"
  "xml_children (encode_layer_type t e) = xml_children e"
  by (simp_all add: attr_if_def attr_ref_def encode_layer_type_def split: option.split layer_type.split)

lemma children_add_children [simp]:
  "well_formed_element e \<Longrightarrow> xml_children (add_children cs e) = xml_children e @ cs"
  unfolding add_children_def by (induction cs arbitrary: e) simp_all

lemma name_simps [simp]:
  "xml_name (attr_if b k v e) = xml_name e"
  "xml_name (attr_ref k nm r e) = xml_name e"
  "xml_name (encode_layer_type t e) = xml_name e"
  by (simp_all add: attr_if_def attr_ref_def encode_layer_type_def split: option.split layer_type.split)

lemma name_add_children [simp]: "xml_name (add_children cs e) = xml_name e"
  unfolding add_children_def by (induction cs arbitrary: e) simp_all

text \<open>Lists of elements of one name, and what a lookup by name makes of them.\<close>

definition all_named :: "string \<Rightarrow> xml list \<Rightarrow> bool" where
  "all_named n cs \<longleftrightarrow> (\<forall>c \<in> set cs. well_formed_element c \<and> xml_name c = n)"

lemma filter_named:
  "all_named m cs \<Longrightarrow> filter (is_element_named n) cs = (if to_lower m = to_lower n then cs else [])"
proof (induction cs)
  case (Cons c cs)
  then have "is_element_named n c \<longleftrightarrow> to_lower m = to_lower n"
    by (auto simp: all_named_def well_formed_element_def)
  with Cons show ?case by (simp add: all_named_def)
qed simp

lemma all_named_map [simp]:
  "(\<And>x. x \<in> set xs \<Longrightarrow> well_formed_element (f x) \<and> xml_name (f x) = n) \<Longrightarrow> all_named n (map f xs)"
  by (simp add: all_named_def)

lemma wf_encode [simp]:
  "well_formed_element (encode_property pr)" "well_formed_element (encode_filter F f)"
  "well_formed_element (encode_filter_graph F g)" "well_formed_element (encode_script s)"
  "well_formed_element (encode_uri u)" "well_formed_element (resource_element F r)"
  "well_formed_element (encode_source p so)" "well_formed_element (encode_terrain t)"
  "well_formed_element (encode_layer_name p i)"
  by (simp_all add: encode_property_def encode_filter_def encode_filter_graph_def encode_script_def
      encode_uri_def resource_element_def encode_source_def encode_terrain_def encode_layer_name_def)

lemma name_encode [simp]:
  "xml_name (encode_property pr) = ''property''" "xml_name (encode_filter F f) = ''filter''"
  "xml_name (encode_filter_graph F g) = ''graph''" "xml_name (encode_script s) = ''script''"
  "xml_name (encode_uri u) = ''uri''" "xml_name (resource_element F r) = ''resource''"
  "xml_name (encode_source p so) = ''source''" "xml_name (encode_terrain t) = ''terrain''"
  "xml_name (encode_layer_name p i) = ''layer''"
  by (simp_all add: encode_property_def encode_filter_def encode_filter_graph_def encode_script_def
      encode_uri_def resource_element_def encode_source_def encode_terrain_def encode_layer_name_def)

lemma sub_elements_encode [simp]:
  "filter (is_element_named n) (map encode_property ps) =
     (if to_lower n = ''property'' then map encode_property ps else [])"
  by (simp add: filter_named [where m = "''property''"] to_lower_def lower_char_def Let_def eq_commute)

end
