(* ===== verification/Project_Refs.thy ===== *)
theory Project_Refs
  imports Xml_Serializer
begin

text \<open>
  What reading a project guarantees: every pointer of the result is null or points at an object of the
  project, through included projects too; no null pointer is followed; and how deep includes go.
\<close>

section \<open>Pointers into lists that grow\<close>

lemma points_into_grow: "points_into xs r \<Longrightarrow> length xs \<le> length ys \<Longrightarrow> points_into ys r"
  by (cases r) auto

lemma slice_refs_grow:
  "slice_refs_ok gs ss sl \<Longrightarrow> length gs \<le> length gs' \<Longrightarrow> length ss \<le> length ss' \<Longrightarrow> slice_refs_ok gs' ss' sl"
proof (induction sl)
  case (Slice a b gr so ps subs)
  then show ?case by (auto simp: list_all_iff intro: points_into_grow)
qed

lemma slice_refs_shift:
  "slice_refs_ok gs' ss' sl \<Longrightarrow> slice_refs_ok (gs @ gs') (ss @ ss') (shift_slice (length gs) (length ss) sl)"
proof (induction sl)
  case (Slice a b gr so ps subs)
  then show ?case by (auto simp: list_all_iff points_into_shift)
qed

text \<open>The four parts of \<open>refs_ok\<close>, given the lists they point into.\<close>

definition source_ok :: "'f graph list \<Rightarrow> source list \<Rightarrow> source \<Rightarrow> bool" where
  "source_ok gs ss x \<longleftrightarrow> points_into gs (src_graph x) \<and> points_into ss (src_parent x)"

definition layer_ok :: "'f graph list \<Rightarrow> source list \<Rightarrow> 's terrain list \<Rightarrow> 'r layer \<Rightarrow> bool" where
  "layer_ok gs ss ts x \<longleftrightarrow> points_into ss (bl_source x) \<and> points_into ts (bl_terrain x) \<and>
     list_all (slice_refs_ok gs ss) (bl_slices x)"

definition target_ok :: "'s terrain list \<Rightarrow> 'r layer list \<Rightarrow> target \<Rightarrow> bool" where
  "target_ok ts ls x \<longleftrightarrow> points_into ts (tgt_terrain x) \<and> list_all (\<lambda>l. l < length ls) (tgt_layers x)"

definition map_ok :: "'s terrain list \<Rightarrow> 'r layer list \<Rightarrow> runtime_map \<Rightarrow> bool" where
  "map_ok ts ls m \<longleftrightarrow> points_into ts (map_terrain m) \<and>
     list_all (\<lambda>x. points_into ls (ml_layer x) \<and> points_into ls (ml_search x)) (map_layers m)"

lemma refs_ok_parts:
  "refs_ok p \<longleftrightarrow>
     list_all (source_ok (prj_graphs p) (prj_sources p)) (prj_sources p) \<and>
     list_all (layer_ok (prj_graphs p) (prj_sources p) (prj_terrains p)) (prj_layers p) \<and>
     list_all (target_ok (prj_terrains p) (prj_layers p)) (prj_targets p) \<and>
     list_all (map_ok (prj_terrains p) (prj_layers p)) (prj_maps p)"
  by (simp add: refs_ok_def source_ok_def [abs_def] layer_ok_def [abs_def] target_ok_def [abs_def] map_ok_def [abs_def])

lemma source_ok_grow:
  "source_ok gs ss x \<Longrightarrow> length gs \<le> length gs' \<Longrightarrow> length ss \<le> length ss' \<Longrightarrow> source_ok gs' ss' x"
  by (auto simp: source_ok_def intro: points_into_grow)

lemma layer_ok_grow:
  "layer_ok gs ss ts x \<Longrightarrow> length gs \<le> length gs' \<Longrightarrow> length ss \<le> length ss' \<Longrightarrow>
     length ts \<le> length ts' \<Longrightarrow> layer_ok gs' ss' ts' x"
  by (auto simp: layer_ok_def list_all_iff intro: points_into_grow slice_refs_grow)

lemma target_ok_grow:
  "target_ok ts ls x \<Longrightarrow> length ts \<le> length ts' \<Longrightarrow> length ls \<le> length ls' \<Longrightarrow> target_ok ts' ls' x"
  by (auto simp: target_ok_def list_all_iff intro: points_into_grow)

lemma map_ok_grow:
  "map_ok ts ls x \<Longrightarrow> length ts \<le> length ts' \<Longrightarrow> length ls \<le> length ls' \<Longrightarrow> map_ok ts' ls' x"
  by (auto simp: map_ok_def list_all_iff intro: points_into_grow)

text \<open>What a project holds stays right when its lists grow into those of another project.\<close>

lemma refs_ok_grow:
  assumes "refs_ok p" and "length (prj_graphs p) \<le> length (prj_graphs q)"
    and "length (prj_sources p) \<le> length (prj_sources q)"
    and "length (prj_terrains p) \<le> length (prj_terrains q)"
    and "length (prj_layers p) \<le> length (prj_layers q)"
  shows "list_all (source_ok (prj_graphs q) (prj_sources q)) (prj_sources p)"
    and "list_all (layer_ok (prj_graphs q) (prj_sources q) (prj_terrains q)) (prj_layers p)"
    and "list_all (target_ok (prj_terrains q) (prj_layers q)) (prj_targets p)"
    and "list_all (map_ok (prj_terrains q) (prj_layers q)) (prj_maps p)"
  using assms(1) unfolding refs_ok_parts list_all_iff
  by (meson assms(2-5) source_ok_grow layer_ok_grow target_ok_grow map_ok_grow)+

section \<open>Merging\<close>

lemma merge_source_ok:
  "source_ok gs' ss' x \<Longrightarrow> source_ok (gs @ gs') (ss @ map f ss')
     (x\<lparr>src_graph := shift (length gs) (src_graph x), src_parent := shift (length ss) (src_parent x)\<rparr>)"
  by (auto simp: source_ok_def points_into_shift)

lemma merge_layer_ok:
  "layer_ok gs' ss' ts' x \<Longrightarrow> layer_ok (gs @ gs') (ss @ map f ss') (ts @ ts')
     (x\<lparr>bl_source := shift (length ss) (bl_source x), bl_terrain := shift (length ts) (bl_terrain x),
        bl_slices := map (shift_slice (length gs) (length ss)) (bl_slices x)\<rparr>)"
proof -
  assume ok: "layer_ok gs' ss' ts' x"
  have "slice_refs_ok (gs @ gs') (ss @ map f ss') (shift_slice (length gs) (length ss) sl)"
    if "sl \<in> set (bl_slices x)" for sl
  proof -
    have "slice_refs_ok gs' ss' sl" using ok that by (simp add: layer_ok_def list_all_iff)
    from slice_refs_shift [OF this] show ?thesis by (rule slice_refs_grow) simp_all
  qed
  with ok show ?thesis by (simp add: layer_ok_def list_all_iff points_into_shift)
qed

lemma merge_target_ok:
  "target_ok ts' ls' x \<Longrightarrow> target_ok (ts @ ts') (ls @ map f ls')
     (x\<lparr>tgt_terrain := shift (length ts) (tgt_terrain x), tgt_layers := map ((+) (length ls)) (tgt_layers x)\<rparr>)"
  by (auto simp: target_ok_def list_all_iff points_into_shift)

lemma merge_refs_ok:
  assumes p: "refs_ok p" and q: "refs_ok q"
  shows "refs_ok (merge p q)"
proof -
  have q': "\<And>x. x \<in> set (prj_sources q) \<Longrightarrow> source_ok (prj_graphs q) (prj_sources q) x"
    "\<And>x. x \<in> set (prj_layers q) \<Longrightarrow> layer_ok (prj_graphs q) (prj_sources q) (prj_terrains q) x"
    "\<And>x. x \<in> set (prj_targets q) \<Longrightarrow> target_ok (prj_terrains q) (prj_layers q) x"
    using q by (simp_all add: refs_ok_parts list_all_iff)
  from refs_ok_grow [OF p, of "merge p q"] show ?thesis
    unfolding refs_ok_parts
    by (simp add: merge_def Let_def list_all_iff ball_Un)
      (simp add: q' merge_source_ok merge_layer_ok merge_target_ok)
qed

section \<open>Reading the parts\<close>

lemma decode_slice_refs:
  "slice_refs_ok (prj_graphs p) (prj_sources p) (decode_slice F p e)"
proof -
  have "slice_refs_ok (prj_graphs p) (prj_sources p)
      (decode_slice_with rf (get_filter_graph p) (get_source p) e)" for rf :: "string \<Rightarrow> real"
  proof (induction rf "get_filter_graph p" "get_source p" e rule: decode_slice_with.induct)
    case (1 rf e)
    have "get_filter_graph p = find_named gr_name (prj_graphs p)"
      and "get_source p = find_named src_name (prj_sources p)"
      by (auto simp: get_filter_graph_def get_source_def)
    with 1 show ?case
      by (subst decode_slice_with.simps) (simp add: list_all_iff)
  qed
  then show ?thesis by (simp add: decode_slice_def)
qed

lemmas lookup_defs = get_filter_graph_def get_source_def get_terrain_def get_layer_def

lemma decode_layer_ok: "layer_ok (prj_graphs p) (prj_sources p) (prj_terrains p) (decode_layer F p e)"
  by (simp add: layer_ok_def decode_layer_def list_all_iff decode_slice_refs) (simp add: lookup_defs)

lemma decode_source_ok: "source_ok (prj_graphs p) ss (decode_source F p e)"
  by (simp add: source_ok_def decode_source_def lookup_defs)

lemma get_layer_bound: "get_layer p n = Some l \<Longrightarrow> l < length (prj_layers p)"
  by (auto simp: get_layer_def dest: find_named_bound)

lemma in_map_filter: "y \<in> set (List.map_filter f xs) \<longleftrightarrow> (\<exists>x \<in> set xs. f x = Some y)"
  by (induction xs) (auto simp: map_filter_simps split: option.split)

lemma decode_target_ok: "target_ok (prj_terrains p) (prj_layers p) (decode_target p e)"
proof -
  have "l < length (prj_layers p)" if "l \<in> set (tgt_layers (decode_target p e))" for l
    using that
    by (auto simp: decode_target_def in_map_filter split: if_splits dest!: get_layer_bound)
  moreover have "points_into (prj_terrains p) (tgt_terrain (decode_target p e))"
    by (simp add: decode_target_def lookup_defs)
  ultimately show ?thesis by (simp add: target_ok_def list_all_iff)
qed

lemma decode_map_ok: "map_ok (prj_terrains p) (prj_layers p) (decode_map p e)"
  by (simp add: map_ok_def decode_map_def decode_map_layer_def list_all_iff lookup_defs)

text \<open>Each step of the reading keeps the pointers right.\<close>

lemma read_script_ok: "refs_ok p \<Longrightarrow> read_script p e = Some q \<Longrightarrow> refs_ok q"
  by (auto simp: read_script_def refs_ok_def)

lemma read_resource_ok: "refs_ok p \<Longrightarrow> read_resource F p e = Some q \<Longrightarrow> refs_ok q"
  by (auto simp: read_resource_def refs_ok_def split: option.splits)

lemma read_graph_ok:
  assumes "refs_ok p" and "read_graph F p e = Some q"
  shows "refs_ok q"
proof -
  obtain gs where "q = p\<lparr>prj_graphs := prj_graphs p @ gs\<rparr>"
    using assms(2) by (auto simp: read_graph_def split: Option.bind_splits option.splits intro: that [of "[]"])
  with refs_ok_grow [OF assms(1), of q] show ?thesis by (simp add: refs_ok_parts)
qed

lemma read_terrain_ok: "refs_ok p \<Longrightarrow> read_terrain F p e = Some q \<Longrightarrow> refs_ok q"
  using refs_ok_grow [of p q] by (auto simp: read_terrain_def refs_ok_parts)

lemma read_source_ok:
  assumes "refs_ok p" and "read_source F p e = Some q"
  shows "refs_ok q"
proof -
  obtain r where "q = p\<lparr>prj_sources := prj_sources p @ [decode_source F p e], prj_resources := prj_resources p @ [r]\<rparr>"
    using assms(2) by (auto simp: read_source_def Let_def split: Option.bind_splits)
  with refs_ok_grow [OF assms(1), of q] show ?thesis by (simp add: refs_ok_parts decode_source_ok)
qed

lemma connect_source_ok:
  assumes "refs_ok p" and "connect_source p e = Some q"
  shows "refs_ok q"
proof -
  obtain i where i: "q = p\<lparr>prj_sources := (prj_sources p)
      [i := (prj_sources p ! i)\<lparr>src_parent := get_source p (get_attr e ''parent'')\<rparr>]\<rparr>"
    and bound: "i < length (prj_sources p)"
    using assms(2)
    by (auto simp: connect_source_def get_source_def split: option.splits dest: find_named_bound)
  have same: "length (prj_sources q) = length (prj_sources p)" using i by simp
  have "source_ok (prj_graphs q) (prj_sources q) x" if "x \<in> set (prj_sources q)" for x
  proof -
    have "x \<in> set ((prj_sources p)[i := (prj_sources p ! i)\<lparr>src_parent := get_source p (get_attr e ''parent'')\<rparr>])"
      using that unfolding i by simp
    from subsetD [OF set_update_subset_insert this] consider "x \<in> set (prj_sources p)"
      | "x = (prj_sources p ! i)\<lparr>src_parent := get_source p (get_attr e ''parent'')\<rparr>"
      by auto
    then show ?thesis
    proof cases
      case 1
      with refs_ok_grow(1) [OF assms(1), of q] i same show ?thesis by (simp add: list_all_iff)
    next
      case 2
      have "source_ok (prj_graphs p) (prj_sources p) (prj_sources p ! i)"
        using assms(1) bound by (simp add: refs_ok_parts list_all_iff)
      moreover have "points_into (prj_sources q) (get_source p n)" for n
        using points_into_grow [OF find_named_points [of "prj_sources p" src_name n], of "prj_sources q"] same
        by (simp add: get_source_def)
      ultimately show ?thesis using 2 i by (simp add: source_ok_def)
    qed
  qed
  with refs_ok_grow [OF assms(1), of q] i show ?thesis by (simp add: refs_ok_parts list_all_iff)
qed

lemma read_layer_ok:
  assumes "refs_ok p" and "read_layer F p e = Some q"
  shows "refs_ok q"
proof -
  have q: "q = p\<lparr>prj_layers := prj_layers p @ [decode_layer F p e],
      prj_targets := prj_targets p @ [layer_target (bl_name (decode_layer F p e)) (length (prj_layers p))]\<rparr>"
    using assms(2) by (simp add: read_layer_def Let_def)
  have new: "target_ok ts (prj_layers p @ [l]) (layer_target n (length (prj_layers p)))"
    for n l and ts :: "'c terrain list"
    by (simp add: target_ok_def layer_target_def add_layer_def)
  have "layer_ok (prj_graphs q) (prj_sources q) (prj_terrains q) (decode_layer F p e)"
    using q decode_layer_ok [of p F e] by simp
  with refs_ok_grow [OF assms(1), of q] q new show ?thesis by (simp add: refs_ok_parts)
qed

lemma read_target_ok: "refs_ok p \<Longrightarrow> read_target p e = Some q \<Longrightarrow> refs_ok q"
  by (auto simp: read_target_def refs_ok_parts decode_target_ok)

lemma read_map_ok: "refs_ok p \<Longrightarrow> read_map p e = Some q \<Longrightarrow> refs_ok q"
  by (auto simp: read_map_def refs_ok_parts decode_map_ok)

lemma read_include_ok:
  assumes "\<And>u q. load u = Some (Some q) \<Longrightarrow> refs_ok q"
    and "refs_ok p" and "read_include F load p e = Some q"
  shows "refs_ok q"
  using assms(2,3) by (auto simp: read_include_def split: if_splits Option.bind_splits option.splits
      intro: merge_refs_ok assms(1))

lemma fold_opt_inv:
  assumes "\<And>a x a'. I a \<Longrightarrow> f a x = Some a' \<Longrightarrow> I a'"
  shows "I a \<Longrightarrow> fold_opt f a xs = Some a' \<Longrightarrow> I a'"
  by (induction xs arbitrary: a) (auto split: Option.bind_splits intro: assms)

lemma project_start_ok: "refs_ok (project_start e uri)"
  by (simp add: refs_ok_def project_start_def project_new_def)

lemma decode_project_with_ok:
  assumes load: "\<And>u q. load u = Some (Some q) \<Longrightarrow> refs_ok q"
    and "decode_project_with F load e uri = Some p"
  shows "refs_ok p"
proof -
  obtain p0 p1 p2 p3 p4 p5 p6 p7 p8
    where s: "fold_opt (read_include F load) (project_start e uri) (get_sub_elements e ''include'') = Some p0"
      "fold_opt read_script p0 (get_sub_elements e ''script'') = Some p1"
      "fold_opt (read_resource F) p1 (get_sub_elements e ''resource'') = Some p2"
      "fold_opt (read_graph F) p2 (get_sub_elements e ''graph'') = Some p3"
      "fold_opt (read_terrain F) p3 (get_sub_elements e ''terrain'') = Some p4"
      "fold_opt (read_source F) p4 (get_sub_elements e ''source'') = Some p5"
      "fold_opt connect_source p5 (get_sub_elements e ''source'') = Some p6"
      "fold_opt (read_layer F) p6 (get_sub_elements e ''layer'') = Some p7"
      "fold_opt read_target p7 (get_sub_elements e ''target'') = Some p8"
      "fold_opt read_map p8 (get_sub_elements e ''map'') = Some p"
    using assms(2) by (auto simp: decode_project_with_def split: Option.bind_splits)
  have "refs_ok p0"
    using project_start_ok s(1)
    by (rule fold_opt_inv [where I = refs_ok, rotated]) (rule read_include_ok [OF load])
  then have "refs_ok p1" using s(2)
    by (rule fold_opt_inv [where I = refs_ok, rotated]) (rule read_script_ok)
  then have "refs_ok p2" using s(3)
    by (rule fold_opt_inv [where I = refs_ok, rotated]) (rule read_resource_ok)
  then have "refs_ok p3" using s(4)
    by (rule fold_opt_inv [where I = refs_ok, rotated]) (rule read_graph_ok)
  then have "refs_ok p4" using s(5)
    by (rule fold_opt_inv [where I = refs_ok, rotated]) (rule read_terrain_ok)
  then have "refs_ok p5" using s(6)
    by (rule fold_opt_inv [where I = refs_ok, rotated]) (rule read_source_ok)
  then have "refs_ok p6" using s(7)
    by (rule fold_opt_inv [where I = refs_ok, rotated]) (rule connect_source_ok)
  then have "refs_ok p7" using s(8)
    by (rule fold_opt_inv [where I = refs_ok, rotated]) (rule read_layer_ok)
  then have "refs_ok p8" using s(9)
    by (rule fold_opt_inv [where I = refs_ok, rotated]) (rule read_target_ok)
  then show ?thesis using s(10)
    by (rule fold_opt_inv [where I = refs_ok, rotated]) (rule read_map_ok)
qed

lemma load_project_with_ok:
  assumes "\<And>e u p. dec e u = Some p \<Longrightarrow> refs_ok p" and "load_project_with F dec u = Some (Some p)"
  shows "refs_ok p"
  using assms(2)
  by (auto simp: load_project_with_def read_project_with_def split: Option.bind_splits option.splits
      intro: assms(1))

lemma decode_project_ok: "decode_project n F e uri = Some p \<Longrightarrow> refs_ok p"
proof (induction n arbitrary: e uri p)
  case (Suc n)
  show ?case
  proof (rule decode_project_with_ok)
    show "decode_project_with F (load_project_with F (decode_project n F)) e uri = Some p"
      using Suc.prems by simp
    show "refs_ok q" if "load_project_with F (decode_project n F) u = Some (Some q)" for u q
      using Suc.IH that by (rule load_project_with_ok)
  qed
qed simp

section \<open>No null pointer is followed\<close>

text \<open>
  The only null pointer that reading a project can follow is that of a resource type that is not
  registered: a source is added as a resource of it.
\<close>

lemma fold_opt_total:
  assumes "\<And>a x. f a x \<noteq> None"
  shows "fold_opt f a xs \<noteq> None"
  by (induction xs arbitrary: a) (use assms in \<open>auto split: Option.bind_splits\<close>)

lemma read_graph_total: "read_graph F p e \<noteq> None"
  by (simp add: read_graph_def decode_filter_graph_def)

lemma read_source_total:
  "create_resource_by_type (pf_registry F) ''FeatureLayerResource'' \<noteq> None \<Longrightarrow> read_source F p e \<noteq> None"
  by (auto simp: read_source_def Let_def)

lemma bind_total: "m \<noteq> None \<Longrightarrow> (\<And>x. m = Some x \<Longrightarrow> f x \<noteq> None) \<Longrightarrow> Option.bind m f \<noteq> None"
  by auto

text \<open>The locations that the includes of an element stand for, in a project at a location.\<close>

definition include_uris :: "('f, 'z, 's, 'r) platform \<Rightarrow> xml \<Rightarrow> string \<Rightarrow> string list" where
  "include_uris F e uri =
     map (\<lambda>c. abs_path F (file_path F uri) (get_text c))
       (filter (\<lambda>c. length (get_text c) > 0) (get_sub_elements e ''include''))"

lemma merge_uri [simp]: "prj_uri (merge p q) = prj_uri p"
  by (simp add: merge_def Let_def)

lemma read_include_uri: "read_include F load p e = Some q \<Longrightarrow> prj_uri q = prj_uri p"
  by (auto simp: read_include_def split: if_splits Option.bind_splits option.splits)

lemma read_includes_total:
  assumes "\<And>c. c \<in> set es \<Longrightarrow> length (get_text c) > 0 \<Longrightarrow>
      load (abs_path F (file_path F (prj_uri p)) (get_text c)) \<noteq> None"
  shows "fold_opt (read_include F load) p es \<noteq> None"
  using assms
proof (induction es arbitrary: p)
  case (Cons c es)
  have "read_include F load p c \<noteq> None"
    using Cons.prems [of c] by (auto simp: read_include_def base_uri_def)
  moreover have "fold_opt (read_include F load) q es \<noteq> None" if "read_include F load p c = Some q" for q
    using Cons.prems read_include_uri [OF that] by (intro Cons.IH) simp
  ultimately show ?case by auto
qed simp

text \<open>The second pass over the sources finds each of them by name, as the first has added it.\<close>

lemma find_named_in: "key \<in> nm ` set xs \<Longrightarrow> find_named nm xs key \<noteq> None"
  by (induction xs) auto

lemma connect_source_names:
  "connect_source p e = Some q \<Longrightarrow> map src_name (prj_sources q) = map src_name (prj_sources p)"
  by (auto simp: connect_source_def get_source_def map_update split: option.splits
      dest!: find_named_bound) (metis length_map list_update_id nth_map)

lemma connect_sources_total:
  "(\<And>e. e \<in> set es \<Longrightarrow> get_attr e ''name'' \<in> src_name ` set (prj_sources p)) \<Longrightarrow>
     fold_opt connect_source p es \<noteq> None"
proof (induction es arbitrary: p)
  case (Cons e es)
  have "get_source p (get_attr e ''name'') \<noteq> None"
    using Cons.prems [of e] unfolding get_source_def by (intro find_named_in) simp
  then obtain q where q: "connect_source p e = Some q" by (auto simp: connect_source_def)
  from connect_source_names [OF this]
  have "src_name ` set (prj_sources q) = src_name ` set (prj_sources p)"
    by (metis list.set_map)
  then have "fold_opt connect_source q es \<noteq> None" using Cons.prems by (intro Cons.IH) simp
  with q show ?case by simp
qed simp

lemma read_sources_names:
  "fold_opt (read_source F) p es = Some q \<Longrightarrow>
     map src_name (prj_sources q) = map src_name (prj_sources p) @ map (\<lambda>e. get_attr e ''name'') es"
proof (induction es arbitrary: p)
  case (Cons e es)
  then obtain p' where p': "read_source F p e = Some p'" "fold_opt (read_source F) p' es = Some q"
    by (auto split: Option.bind_splits)
  have "prj_sources p' = prj_sources p @ [decode_source F p e]"
    using p'(1) by (auto simp: read_source_def Let_def split: Option.bind_splits)
  with Cons.IH [OF p'(2)] show ?case by (simp add: decode_source_def)
qed simp

lemma decode_project_with_total:
  assumes load: "\<And>u. u \<in> set (include_uris F e uri) \<Longrightarrow> load u \<noteq> None"
    and reg: "create_resource_by_type (pf_registry F) ''FeatureLayerResource'' \<noteq> None"
  shows "decode_project_with F load e uri \<noteq> None"
proof -
  have inc: "fold_opt (read_include F load) (project_start e uri) (get_sub_elements e ''include'') \<noteq> None"
    by (rule read_includes_total) (simp add: load include_uris_def project_start_def)
  have connect: "fold_opt connect_source q es \<noteq> None" if "fold_opt (read_source F) p es = Some q" for p q es
  proof (rule connect_sources_total)
    show "get_attr e ''name'' \<in> src_name ` set (prj_sources q)" if "e \<in> set es" for e
      using arg_cong [OF read_sources_names [OF \<open>fold_opt (read_source F) p es = Some q\<close>], of set] that
      by auto
  qed
  note steps = fold_opt_total [of read_script] fold_opt_total [of "read_resource F"]
    fold_opt_total [of "read_graph F"] fold_opt_total [of "read_terrain F"]
    fold_opt_total [of "read_source F"] fold_opt_total [of "read_layer F"]
    fold_opt_total [of read_target] fold_opt_total [of read_map]
  show ?thesis
    unfolding decode_project_with_def
    by (intro bind_total inc connect steps read_graph_total read_source_total [OF reg]; assumption?)
      (simp_all add: read_script_def read_resource_def read_terrain_def read_layer_def
        read_target_def read_map_def Let_def)
qed

section \<open>How deep includes go\<close>

text \<open>What the document at a location includes.\<close>

definition includes_of :: "('f, 'z, 's, 'r) platform \<Rightarrow> string \<Rightarrow> string list" where
  "includes_of F uri =
     (case load_uri F uri of
        Some (Some doc) \<Rightarrow>
          (case get_sub_element doc ''project'' of None \<Rightarrow> [] | Some e \<Rightarrow> include_uris F e uri)
      | _ \<Rightarrow> [])"

text \<open>If included documents have a smaller rank, fuel above the rank is enough.\<close>

lemma load_project_total:
  assumes parse: "\<And>u. load_uri F u \<noteq> None"
    and reg: "create_resource_by_type (pf_registry F) ''FeatureLayerResource'' \<noteq> None"
    and rank: "\<And>u v. v \<in> set (includes_of F u) \<Longrightarrow> rank v < (rank u :: nat)"
  shows "rank uri < n \<Longrightarrow> load_project n F uri \<noteq> None"
proof (induction n arbitrary: uri)
  case (Suc n)
  obtain d where d: "load_uri F uri = Some d" using parse [of uri] by auto
  show ?case
  proof (cases "\<exists>doc e. d = Some doc \<and> get_sub_element doc ''project'' = Some e")
    case True
    then obtain doc e where doc: "d = Some doc" "get_sub_element doc ''project'' = Some e" by auto
    have "load_project_with F (decode_project n F) u \<noteq> None" if "u \<in> set (include_uris F e uri)" for u
    proof -
      have "u \<in> set (includes_of F uri)" using that d doc by (simp add: includes_of_def)
      from rank [OF this] Suc.prems have "rank u < n" by simp
      from Suc.IH [OF this] show ?thesis by (simp add: load_project_def)
    qed
    then have "decode_project_with F (load_project_with F (decode_project n F)) e uri \<noteq> None"
      by (rule decode_project_with_total [OF _ reg])
    then obtain p where "decode_project (Suc n) F e uri = Some p" by auto
    with d doc show ?thesis
      by (simp add: load_project_def load_project_with_def read_project_with_def)
  next
    case False
    with d show ?thesis
      by (auto simp: load_project_def load_project_with_def read_project_with_def split: option.split)
  qed
qed simp

text \<open>More fuel does not change a result.\<close>

lemma read_includes_mono:
  assumes "\<And>u r. load u = Some r \<Longrightarrow> load' u = Some r"
  shows "fold_opt (read_include F load) p es = Some q \<Longrightarrow> fold_opt (read_include F load') p es = Some q"
proof (induction es arbitrary: p)
  case (Cons c es)
  then obtain p' where "read_include F load p c = Some p'" "fold_opt (read_include F load) p' es = Some q"
    by (auto split: Option.bind_splits)
  moreover from this(1) have "read_include F load' p c = Some p'"
    by (auto simp: read_include_def bind_eq_Some_conv dest: assms split: if_splits)
  ultimately show ?case using Cons.IH by simp
qed simp

lemma load_project_with_mono:
  assumes "\<And>e p. dec e u = Some p \<Longrightarrow> dec' e u = Some p" and "load_project_with F dec u = Some r"
  shows "load_project_with F dec' u = Some r"
proof -
  obtain d where d: "load_uri F u = Some d"
    using assms(2) by (auto simp: load_project_with_def bind_eq_Some_conv)
  show ?thesis
  proof (cases "\<exists>doc e. d = Some doc \<and> get_sub_element doc ''project'' = Some e")
    case True
    then obtain doc e where doc: "d = Some doc" "get_sub_element doc ''project'' = Some e" by auto
    with assms(2) d obtain p where "dec e u = Some p" "r = Some p"
      by (auto simp: load_project_with_def read_project_with_def)
    with assms(1) d doc show ?thesis by (simp add: load_project_with_def read_project_with_def)
  next
    case False
    with assms(2) d show ?thesis
      by (auto simp: load_project_with_def read_project_with_def split: option.splits)
  qed
qed

lemma decode_project_Suc: "decode_project n F e uri = Some p \<Longrightarrow> decode_project (Suc n) F e uri = Some p"
proof (induction n arbitrary: e uri p)
  case (Suc n)
  have "load_project_with F (decode_project (Suc n) F) u = Some r"
    if "load_project_with F (decode_project n F) u = Some r" for u r
    using Suc.IH that by (rule load_project_with_mono)
  from read_includes_mono [OF this] Suc.prems show ?case
    unfolding decode_project.simps decode_project_with_def
    by (auto simp: bind_eq_Some_conv simp del: decode_project.simps)
qed simp

lemma load_project_Suc: "load_project n F uri = Some r \<Longrightarrow> load_project (Suc n) F uri = Some r"
  unfolding load_project_def by (rule load_project_with_mono) (rule decode_project_Suc)

text \<open>Documents that include each other are never loaded, whatever the fuel.\<close>

lemma read_includes_stuck:
  assumes "c \<in> set es" and "length (get_text c) > 0"
    and "load (abs_path F (file_path F (prj_uri p)) (get_text c)) = None"
  shows "fold_opt (read_include F load) p es = None"
  using assms
proof (induction es arbitrary: p)
  case (Cons d es)
  show ?case
  proof (cases "read_include F load p d")
    case (Some q)
    have "c \<noteq> d" using Some Cons.prems by (auto simp: read_include_def base_uri_def)
    with Cons.prems Some show ?thesis by (simp add: Cons.IH read_include_uri)
  qed simp
qed simp

lemma in_includes_of:
  assumes "v \<in> set (includes_of F u)"
  shows "\<exists>doc e. load_uri F u = Some (Some doc) \<and> get_sub_element doc ''project'' = Some e \<and>
    v \<in> set (include_uris F e u)"
proof (cases "load_uri F u")
  case (Some d)
  with assms show ?thesis by (auto simp: includes_of_def split: option.splits) (metis option.inject)
qed (use assms in \<open>simp add: includes_of_def\<close>)

lemma load_project_cycle:
  assumes "\<And>u. u \<in> S \<Longrightarrow> \<exists>v \<in> set (includes_of F u). v \<in> S"
  shows "u \<in> S \<Longrightarrow> load_project n F u = None"
proof (induction n arbitrary: u)
  case (Suc n)
  obtain v where v: "v \<in> set (includes_of F u)" "v \<in> S" using assms [OF Suc.prems] by auto
  from in_includes_of [OF v(1)] obtain doc e
    where doc: "load_uri F u = Some (Some doc)" "get_sub_element doc ''project'' = Some e"
      and "v \<in> set (include_uris F e u)" by auto
  then obtain c where c: "c \<in> set (get_sub_elements e ''include'')" "length (get_text c) > 0"
    "v = abs_path F (file_path F u) (get_text c)"
    by (auto simp: include_uris_def)
  have "load_project_with F (decode_project n F) v = None"
    using Suc.IH [OF v(2)] by (simp add: load_project_def)
  then have "fold_opt (read_include F (load_project_with F (decode_project n F))) (project_start e u)
      (get_sub_elements e ''include'') = None"
    by (intro read_includes_stuck [OF c(1,2)]) (simp add: c(3) project_start_def)
  with doc show ?case
    by (simp add: load_project_def load_project_with_def read_project_with_def decode_project_with_def)
next
  case 0
  then obtain v where "v \<in> set (includes_of F u)" using assms by auto
  from in_includes_of [OF this] show ?case
    by (auto simp: load_project_def load_project_with_def read_project_with_def)
qed

end
