(* ===== verification/Project_Roundtrip.thy ===== *)
theory Project_Roundtrip
  imports Xml_Writer Project_Refs
begin

text \<open>
  Writing a project and reading the result back: which projects survive, and what a resource loses.
\<close>

section \<open>Elements and their names\<close>

lemma lower_names [simp]:
  "to_lower ''property'' = ''property''" "to_lower ''env_property'' = ''env_property''"
  "to_lower ''uri'' = ''uri''" "to_lower ''filter'' = ''filter''" "to_lower ''script'' = ''script''"
  "to_lower ''resource'' = ''resource''" "to_lower ''graph'' = ''graph''"
  "to_lower ''terrain'' = ''terrain''" "to_lower ''source'' = ''source''"
  "to_lower ''layer'' = ''layer''" "to_lower ''target'' = ''target''" "to_lower ''map'' = ''map''"
  "to_lower ''maplayer'' = ''maplayer''" "to_lower ''slice'' = ''slice''"
  "to_lower ''include'' = ''include''" "to_lower ''project'' = ''project''"
  by (simp_all add: to_lower_def lower_char_def Let_def)

lemma named_element: "well_formed_element c \<Longrightarrow> is_element_named n c \<longleftrightarrow> to_lower (xml_name c) = to_lower n"
  by (auto simp: well_formed_element_def)

lemma get_text_element [simp]:
  "get_text (add_child (XmlText t) (new_element n)) = trim t"
  by (simp add: get_text_def)

lemma get_text_encode [simp]:
  "get_text (encode_uri u) = trim u" "get_text (encode_script s) = trim (scr_code s)"
  "get_text (encode_layer_name p i) = trim (build_layer_name p i)"
  by (simp_all add: get_text_def encode_uri_def encode_script_def encode_layer_name_def)

lemma get_sub_element_uri:
  "well_formed_element e \<Longrightarrow> xml_children e = [] \<Longrightarrow>
     get_sub_element_text (add_child (encode_uri u) e) ''uri'' = trim u"
  by (simp add: get_sub_element_text_def get_sub_element_def named_element)

section \<open>What can be saved\<close>

definition prop_plain :: "'r property \<Rightarrow> bool" where
  "prop_plain pr \<longleftrightarrow> pvalid pr \<and> pref pr = None \<and> normalize (pname pr) = pname pr"

definition names_ok :: "('a \<Rightarrow> string) \<Rightarrow> 'a list \<Rightarrow> bool" where
  "names_ok nm xs \<longleftrightarrow> distinct (map nm xs) \<and> list_all (\<lambda>x. nm x \<noteq> []) xs"

definition trimmed :: "string \<Rightarrow> bool" where
  "trimmed t \<longleftrightarrow> trim t = t"

definition float_ok :: "('f, 'z, 's, 'r) platform \<Rightarrow> real \<Rightarrow> bool" where
  "float_ok F v \<longleftrightarrow> print_float F v \<noteq> [] \<and> read_float F (print_float F v) = v"

definition filter_ok :: "('f, 'z, 's, 'r) platform \<Rightarrow> 'f \<Rightarrow> bool" where
  "filter_ok F f \<longleftrightarrow> list_all prop_plain (filter_get F f) \<and>
     (case create_with_suffix (create_filter_by_type (pf_registry F)) ''Filter'' (filter_type F f) of
        None \<Rightarrow> False | Some f0 \<Rightarrow> foldl (filter_set F) f0 (filter_get F f) = f)"

definition resource_ok :: "('f, 'z, 's, 'r) platform \<Rightarrow> ('f, 'z, 's, 'r) project \<Rightarrow> 'z resource \<Rightarrow> bool" where
  "resource_ok F p r \<longleftrightarrow>
     (if resource_type F (res_own r) = ''FeatureLayerResource'' then True
      else resource_get F (res_own r) = [] \<and> resource_type F (res_own r) \<noteq> ''SRSResource'' \<and>
        (case decode_resource F p (resource_element F r) of
           None \<Rightarrow> True | Some r' \<Rightarrow> resource_type F (res_own r') \<noteq> ''SRSResource''))"

primrec slice_ok :: "(real \<Rightarrow> bool) \<Rightarrow> 'r slice \<Rightarrow> bool" where
  "slice_ok fl (Slice a b gr so ps subs) \<longleftrightarrow>
     (a = 0 \<or> 0 < a \<and> fl a) \<and> (b = flt_max \<or> 0 \<le> b \<and> b < flt_max \<and> fl b) \<and> gr \<noteq> None \<and>
     list_all prop_plain ps \<and> list_all id (map (slice_ok fl) subs)"

definition layer_saves :: "('f, 'z, 's, 'r) platform \<Rightarrow> string \<Rightarrow> 'r layer \<Rightarrow> bool" where
  "layer_saves F base l \<longleftrightarrow>
     bl_base l = base \<and> bl_source l \<noteq> None \<and> bl_terrain l \<noteq> None \<and> bl_env_props l = [] \<and>
     list_all prop_plain (bl_props l) \<and> list_all (slice_ok (float_ok F)) (bl_slices l)"

definition layer_targets :: "('f, 'z, 's, 'r) project \<Rightarrow> target list" where
  "layer_targets p =
     map (\<lambda>i. layer_target (build_layer_name p i) i) [0..<length (prj_layers p)]"

definition targets_save :: "('f, 'z, 's, 'r) project \<Rightarrow> bool" where
  "targets_save p \<longleftrightarrow>
     take (length (prj_layers p)) (prj_targets p) = layer_targets p \<and>
     list_all (\<lambda>t. get_layer p (tgt_name t) = None) (drop (length (prj_layers p)) (prj_targets p))"

definition map_saves :: "runtime_map \<Rightarrow> bool" where
  "map_saves m \<longleftrightarrow> list_all (\<lambda>x. ml_layer x \<noteq> None \<and> ml_search x \<noteq> None) (map_layers m)"

definition savable :: "('f, 'z, 's, 'r) platform \<Rightarrow> ('f, 'z, 's, 'r) project \<Rightarrow> bool" where
  "savable F p \<longleftrightarrow>
     refs_ok p \<and> prj_work_dir p \<noteq> [] \<and>
     names_ok gr_name (prj_graphs p) \<and> names_ok src_name (prj_sources p) \<and>
     names_ok ter_name (prj_terrains p) \<and> names_ok bl_name (prj_layers p) \<and>
     list_all (\<lambda>l. trimmed (bl_name l)) (prj_layers p) \<and>
     list_all (\<lambda>s. trimmed (scr_code s)) (prj_scripts p) \<and>
     list_all (resource_ok F p) (prj_resources p) \<and>
     list_all (\<lambda>g. list_all (filter_ok F) (gr_filters g)) (prj_graphs p) \<and>
     list_all (\<lambda>t. trimmed (ter_uri t) \<and> ter_base t = base_uri F p \<and> ter_srs t = None) (prj_terrains p) \<and>
     list_all (\<lambda>s. trimmed (src_uri s) \<and> src_base s = base_uri F p) (prj_sources p) \<and>
     list_all (layer_saves F (base_uri F p)) (prj_layers p) \<and>
     targets_save p \<and> list_all map_saves (prj_maps p)"

section \<open>Parts that come back\<close>

lemma decode_encode_property: "prop_plain pr \<Longrightarrow> decode_property (encode_property pr) = pr"
  by (simp add: prop_plain_def decode_property_def encode_property_def prop_string_def)

lemma decode_encode_properties:
  "list_all prop_plain ps \<Longrightarrow> map decode_property (map encode_property ps) = ps"
  by (induction ps) (simp_all add: decode_encode_property)

lemma decode_encode_filter: "filter_ok F f \<Longrightarrow> decode_filter F (encode_filter F f) = Some f"
  by (simp add: filter_ok_def decode_filter_def encode_filter_def decode_properties_def get_sub_elements_def
      decode_encode_properties del: map_map split: option.splits)

lemma decode_encode_filters:
  "list_all (filter_ok F) fs \<Longrightarrow> List.map_filter (decode_filter F) (map (encode_filter F) fs) = fs"
  by (induction fs) (simp_all add: map_filter_simps decode_encode_filter)

lemma decode_encode_graph:
  "list_all (filter_ok F) (gr_filters g) \<Longrightarrow>
     decode_filter_graph F q (encode_filter_graph F g) = Some (Some g)"
  by (simp add: decode_filter_graph_def encode_filter_graph_def get_sub_elements_def
      filter_named [where m = "''filter''"] decode_encode_filters)

lemma decode_encode_script: "trimmed (scr_code s) \<Longrightarrow> decode_script (encode_script s) = s"
  by (simp add: decode_script_def trimmed_def) (simp add: encode_script_def)

lemma decode_encode_terrain:
  assumes "trimmed (ter_uri t) \<and> ter_base t = base_uri F q \<and> ter_srs t = None"
    and "find_srs_resource F (prj_resources q) [] = None"
  shows "decode_terrain F q (encode_terrain t) = t"
  using assms by (simp add: decode_terrain_def encode_terrain_def get_sub_element_uri trimmed_def)

text \<open>A pointer is found again by the name of what it points at.\<close>

definition name_of :: "('a \<Rightarrow> string) \<Rightarrow> 'a list \<Rightarrow> nat option \<Rightarrow> string" where
  "name_of nm xs r = (case r of None \<Rightarrow> [] | Some i \<Rightarrow> nm (xs ! i))"

lemma find_empty: "names_ok nm xs \<Longrightarrow> find_named nm xs [] = None"
  unfolding names_ok_def list_all_iff by (rule find_named_none) force

lemma find_name_of: "names_ok nm xs \<Longrightarrow> points_into xs r \<Longrightarrow> find_named nm xs (name_of nm xs r) = r"
  by (cases r) (simp_all add: name_of_def find_empty, simp add: names_ok_def find_named_distinct)

lemma get_attr_ref_name:
  "well_formed_element e \<Longrightarrow> get_attr e k = [] \<Longrightarrow>
     get_attr (attr_ref k (\<lambda>i. nm (xs ! i)) r e) k = name_of nm xs r"
  by (simp add: name_of_def split: option.split)

lemma name_defs:
  "graph_name p = (\<lambda>i. gr_name (prj_graphs p ! i))" "source_name p = (\<lambda>i. src_name (prj_sources p ! i))"
  "terrain_name p = (\<lambda>i. ter_name (prj_terrains p ! i))"
  "build_layer_name p = (\<lambda>i. bl_name (prj_layers p ! i))"
  by (simp_all add: fun_eq_iff graph_name_def source_name_def terrain_name_def build_layer_name_def)

lemma source_attrs:
  "get_attr (encode_source p s) ''name'' = src_name s"
  "get_attr (encode_source p s) ''graph'' = name_of gr_name (prj_graphs p) (src_graph s)"
  "get_attr (encode_source p s) ''parent'' = name_of src_name (prj_sources p) (src_parent s)"
  "get_attr (encode_source p s) ''type'' = (if src_type s = TYPE_RASTER then ''raster'' else ''feature'')"
  "get_sub_element_text (encode_source p s) ''uri'' = trim (src_uri s)"
  by (simp_all add: encode_source_def name_defs name_of_def get_sub_element_uri split: option.split)

lemma decode_encode_source:
  assumes "names_ok gr_name (prj_graphs q)" and "points_into (prj_graphs q) (src_graph s)"
    and "trimmed (src_uri s)" and "src_base s = base_uri F q" and "prj_graphs p = prj_graphs q"
  shows "decode_source F q (encode_source p s) = s\<lparr>src_parent := None\<rparr>"
  using assms by (cases "src_type s")
    (simp_all add: decode_source_def source_attrs trimmed_def get_filter_graph_def find_name_of)

text \<open>Slices, by induction over their sub-slices.\<close>

lemma collect_opt_all:
  "(\<And>x. x \<in> set xs \<Longrightarrow> f x \<noteq> None) \<Longrightarrow> collect_opt f xs = Some (map (\<lambda>x. the (f x)) xs)"
  by (induction xs) fastforce+

definition slice_element ::
  "(real \<Rightarrow> string) \<Rightarrow> (nat \<Rightarrow> string) \<Rightarrow> (nat \<Rightarrow> string) \<Rightarrow> 'r slice \<Rightarrow> xml" where
  "slice_element pf gn sn sl = the (encode_slice_with pf gn sn sl)"

lemma encode_slice_some: "slice_ok fl sl \<Longrightarrow> encode_slice_with pf gn sn sl = Some (slice_element pf gn sn sl)"
proof (induction sl)
  case (Slice a b gr so ps subs)
  then have "collect_opt (encode_slice_with pf gn sn) subs =
      Some (map (\<lambda>x. the (encode_slice_with pf gn sn x)) subs)"
    by (intro collect_opt_all) (simp add: list_all_iff)
  with Slice.prems show ?case by (auto simp: slice_element_def)
qed

lemma slice_element_simps:
  assumes "slice_ok fl (Slice a b (Some g) so ps subs)"
  shows "slice_element pf gn sn (Slice a b (Some g) so ps subs) =
    add_children (map encode_property ps @ map (slice_element pf gn sn) subs)
      (attr_ref ''source'' sn so
        (set_attr ''graph'' (gn g)
          (attr_if (b < flt_max) ''max_range'' (pf b)
            (attr_if (a > 0) ''min_range'' (pf a) (new_element ''slice'')))))"
proof -
  have "collect_opt (encode_slice_with pf gn sn) subs =
      Some (map (\<lambda>x. the (encode_slice_with pf gn sn x)) subs)"
    using assms by (intro collect_opt_all) (simp add: list_all_iff encode_slice_some [of fl])
  then show ?thesis by (simp add: slice_element_def [abs_def])
qed

lemma slice_element_named:
  assumes "slice_ok fl sl"
  shows "well_formed_element (slice_element pf gn sn sl) \<and> xml_name (slice_element pf gn sn sl) = ''slice''"
proof -
  obtain a b g so ps subs where sl: "sl = Slice a b (Some g) so ps subs"
    using assms by (cases sl) auto
  with assms show ?thesis by (simp add: slice_element_simps [of fl])
qed

lemma slice_elements_named:
  "list_all (slice_ok fl) sls \<Longrightarrow> all_named ''slice'' (map (slice_element pf gn sn) sls)"
  by (rule all_named_map) (auto simp: list_all_iff slice_element_named [of fl])

lemma decode_slice_element:
  assumes gs: "names_ok gr_name gs" and ss: "names_ok src_name ss"
    and fl: "\<And>v. fl v \<Longrightarrow> pf v \<noteq> [] \<and> rf (pf v) = v"
  shows "slice_ok fl sl \<Longrightarrow> slice_refs_ok gs ss sl \<Longrightarrow>
    decode_slice_with rf (find_named gr_name gs) (find_named src_name ss)
      (slice_element pf (\<lambda>i. gr_name (gs ! i)) (\<lambda>i. src_name (ss ! i)) sl) = sl"
proof (induction sl)
  case (Slice a b gr so ps subs)
  let ?gn = "\<lambda>i. gr_name (gs ! i)" and ?sn = "\<lambda>i. src_name (ss ! i)"
  obtain g where g: "gr = Some g" using Slice.prems(1) by auto
  note el = slice_element_simps [OF Slice.prems(1) [unfolded g], of pf ?gn ?sn]
  let ?e = "slice_element pf ?gn ?sn (Slice a b gr so ps subs)"
  have attrs: "get_attr ?e ''min_range'' = (if a > 0 then pf a else [])"
    "get_attr ?e ''max_range'' = (if b < flt_max then pf b else [])"
    "get_attr ?e ''graph'' = name_of gr_name gs gr"
    "get_attr ?e ''source'' = name_of src_name ss so"
    by (simp_all add: el g name_of_def split: option.split)
  have subs: "list_all (slice_ok fl) subs" using Slice.prems(1) by (simp add: list_all_iff)
  have children: "xml_children ?e = map encode_property ps @ map (slice_element pf ?gn ?sn) subs"
    by (simp add: el g)
  have props: "decode_properties ?e ''property'' = ps"
    using Slice.prems(1) slice_elements_named [OF subs, of pf ?gn ?sn]
    by (simp add: decode_properties_def get_sub_elements_def children filter_named [where m = "''slice''"]
        decode_encode_properties del: map_map)
  have slices: "get_sub_elements ?e ''slice'' = map (slice_element pf ?gn ?sn) subs"
    using slice_elements_named [OF subs, of pf ?gn ?sn]
    by (simp add: get_sub_elements_def children filter_named [where m = "''slice''"])
  have decoded: "map (decode_slice_with rf (find_named gr_name gs) (find_named src_name ss))
      (map (slice_element pf ?gn ?sn) subs) = subs"
    using Slice.IH subs Slice.prems(2) by (simp add: list_all_iff map_idI)
  have min: "(if length (get_attr ?e ''min_range'') > 0 then rf (get_attr ?e ''min_range'') else 0) = a"
    using Slice.prems(1) fl [of a] by (auto simp: attrs)
  have max: "(if length (get_attr ?e ''max_range'') > 0 then slice_max_range (rf (get_attr ?e ''max_range''))
      else flt_max) = b"
    using Slice.prems(1) fl [of b] by (auto simp: attrs slice_max_range_def)
  have "points_into gs gr" "points_into ss so" using Slice.prems(2) by simp_all
  then have "find_named gr_name gs (get_attr ?e ''graph'') = gr"
    "find_named src_name ss (get_attr ?e ''source'') = so"
    unfolding attrs by (simp_all add: find_name_of gs ss)
  with min max props slices decoded show ?case by (subst decode_slice_with.simps) simp
qed

section \<open>Layers, targets and maps\<close>

text \<open>Two projects that agree on everything a part can point at.\<close>

definition same_parts :: "('f, 'z, 's, 'r) project \<Rightarrow> ('f, 'z, 's, 'r) project \<Rightarrow> bool" where
  "same_parts p q \<longleftrightarrow>
     prj_uri q = prj_uri p \<and> prj_graphs q = prj_graphs p \<and> prj_terrains q = prj_terrains p \<and>
     prj_sources q = prj_sources p"

definition layer_element :: "('f, 'z, 's, 'r) platform \<Rightarrow> ('f, 'z, 's, 'r) project \<Rightarrow> 'r layer \<Rightarrow> xml" where
  "layer_element F p l = the (encode_layer F p l)"

lemma layer_element_simps:
  assumes "layer_saves F base l" and "bl_source l = Some s" and "bl_terrain l = Some t"
  shows "encode_layer F p l = Some (layer_element F p l)"
    and "layer_element F p l =
      add_children (map (slice_element (print_float F) (graph_name p) (source_name p)) (bl_slices l) @
          map encode_property (bl_props l))
        (set_attr ''target'' (bl_path l)
          (set_attr ''terrain'' (terrain_name p t)
            (set_attr ''source'' (source_name p s)
              (encode_layer_type (bl_type l) (set_attr ''name'' (bl_name l) (new_element ''layer''))))))"
proof -
  have ok: "list_all (slice_ok (float_ok F)) (bl_slices l)" using assms(1) by (simp add: layer_saves_def)
  have "collect_opt (encode_slice F p) (bl_slices l) = Some (map (\<lambda>x. the (encode_slice F p x)) (bl_slices l))"
    using ok by (intro collect_opt_all) (simp add: list_all_iff encode_slice_def encode_slice_some [of "float_ok F"])
  then have cs: "collect_opt (encode_slice F p) (bl_slices l) =
      Some (map (slice_element (print_float F) (graph_name p) (source_name p)) (bl_slices l))"
    by (simp add: encode_slice_def slice_element_def [abs_def])
  show "encode_layer F p l = Some (layer_element F p l)"
    using assms(2,3) cs by (simp add: encode_layer_def layer_element_def)
  show "layer_element F p l =
      add_children (map (slice_element (print_float F) (graph_name p) (source_name p)) (bl_slices l) @
          map encode_property (bl_props l))
        (set_attr ''target'' (bl_path l)
          (set_attr ''terrain'' (terrain_name p t)
            (set_attr ''source'' (source_name p s)
              (encode_layer_type (bl_type l) (set_attr ''name'' (bl_name l) (new_element ''layer''))))))"
    using assms(2,3) cs by (simp add: encode_layer_def layer_element_def)
qed

lemma decode_encode_layer_type:
  "well_formed_element e \<Longrightarrow> get_attr e ''type'' = [] \<Longrightarrow>
     decode_layer_type (get_attr (encode_layer_type t e) ''type'') = t"
  by (cases t) (simp_all add: encode_layer_type_def decode_layer_type_def)

lemma decode_layer_element:
  assumes names: "names_ok gr_name (prj_graphs p)" "names_ok src_name (prj_sources p)"
      "names_ok ter_name (prj_terrains p)"
    and ok: "layer_ok (prj_graphs p) (prj_sources p) (prj_terrains p) l"
    and saves: "layer_saves F (base_uri F p) l" and same: "same_parts p q"
  shows "decode_layer F q (layer_element F p l) = l"
proof -
  obtain s t where st: "bl_source l = Some s" "bl_terrain l = Some t"
    using saves by (auto simp: layer_saves_def)
  note el = layer_element_simps(2) [OF saves st, of p]
  let ?e = "layer_element F p l"
  have slices_ok: "list_all (slice_ok (float_ok F)) (bl_slices l)" using saves by (simp add: layer_saves_def)
  note named = slice_elements_named [OF slices_ok, of "print_float F" "graph_name p" "source_name p"]
  have slices: "get_sub_elements ?e ''slice'' =
      map (slice_element (print_float F) (graph_name p) (source_name p)) (bl_slices l)"
    using named by (simp add: get_sub_elements_def el filter_named [where m = "''slice''"])
  have decoded: "decode_slice F q (slice_element (print_float F) (graph_name p) (source_name p) sl) = sl"
    if "sl \<in> set (bl_slices l)" for sl
  proof -
    have "get_filter_graph q = find_named gr_name (prj_graphs p)" "get_source q = find_named src_name (prj_sources p)"
      using same by (simp_all add: fun_eq_iff same_parts_def lookup_defs)
    moreover have "slice_ok (float_ok F) sl" "slice_refs_ok (prj_graphs p) (prj_sources p) sl"
      using slices_ok ok that by (simp_all add: layer_ok_def list_all_iff)
    ultimately show ?thesis
      unfolding decode_slice_def name_defs
      using decode_slice_element [OF names(1,2), where fl = "float_ok F" and pf = "print_float F"
          and rf = "read_float F" and sl = sl]
      by (simp add: float_ok_def)
  qed
  have props: "decode_properties ?e ''property'' = bl_props l" "decode_properties ?e ''env_property'' = []"
    using named saves
    by (simp_all add: decode_properties_def get_sub_elements_def el layer_saves_def
        filter_named [where m = "''slice''"] decode_encode_properties del: map_map)
  have refs: "find_named src_name (prj_sources p) (src_name (prj_sources p ! s)) = Some s"
    "find_named ter_name (prj_terrains p) (ter_name (prj_terrains p ! t)) = Some t"
    using names(2,3) ok st by (simp_all add: names_ok_def layer_ok_def find_named_distinct)
  have attrs: "get_attr ?e ''name'' = bl_name l" "get_attr ?e ''target'' = bl_path l"
    "get_attr ?e ''source'' = src_name (prj_sources p ! s)"
    "get_attr ?e ''terrain'' = ter_name (prj_terrains p ! t)"
    "decode_layer_type (get_attr ?e ''type'') = bl_type l"
    by (simp_all add: el name_defs decode_encode_layer_type)
  have "base_uri F q = bl_base l" "bl_env_props l = []"
    using same saves by (simp_all add: same_parts_def base_uri_def layer_saves_def)
  then show ?thesis
    using same st refs
    by (simp add: decode_layer_def attrs props slices decoded map_idI lookup_defs same_parts_def)
qed

definition target_element :: "('f, 'z, 's, 'r) project \<Rightarrow> target \<Rightarrow> xml" where
  "target_element p t =
     add_children (map (encode_layer_name p) (tgt_layers t))
       (attr_ref ''terrain'' (terrain_name p) (tgt_terrain t)
         (set_attr ''name'' (tgt_name t) (new_element ''target'')))"

lemma encode_target_eq:
  "encode_target p t = (if get_layer p (tgt_name t) = None then Some (target_element p t) else None)"
  by (simp add: encode_target_def target_element_def split: option.split)

lemma decode_layer_names:
  assumes "names_ok bl_name (prj_layers p)" and "list_all (\<lambda>l. trimmed (bl_name l)) (prj_layers p)"
    and "prj_layers q = prj_layers p"
  shows "list_all (\<lambda>l. l < length (prj_layers p)) ls \<Longrightarrow>
    List.map_filter (\<lambda>c. if length (get_text c) > 0 then get_layer q (get_text c) else None)
      (map (encode_layer_name p) ls) = ls"
proof (induction ls)
  case (Cons l ls)
  then have "prj_layers p ! l \<in> set (prj_layers p)" by simp
  then have "trim (build_layer_name p l) = bl_name (prj_layers p ! l)" "bl_name (prj_layers p ! l) \<noteq> []"
    using assms(1,2) by (simp_all add: names_ok_def list_all_iff trimmed_def build_layer_name_def)
  moreover have "find_named bl_name (prj_layers p) (bl_name (prj_layers p ! l)) = Some l"
    using assms(1) Cons.prems by (simp add: names_ok_def find_named_distinct)
  ultimately show ?case
    using Cons by (simp add: map_filter_simps lookup_defs assms(3))
qed (simp add: map_filter_simps)

lemma decode_target_element:
  assumes layers: "names_ok bl_name (prj_layers p)" "list_all (\<lambda>l. trimmed (bl_name l)) (prj_layers p)"
    and terrains: "names_ok ter_name (prj_terrains p)"
    and ok: "target_ok (prj_terrains p) (prj_layers p) t"
    and same: "prj_layers q = prj_layers p" "prj_terrains q = prj_terrains p"
  shows "decode_target q (target_element p t) = t"
proof -
  let ?e = "target_element p t"
  have attrs: "get_attr ?e ''name'' = tgt_name t"
    "get_attr ?e ''terrain'' = name_of ter_name (prj_terrains p) (tgt_terrain t)"
    by (simp_all add: target_element_def name_defs name_of_def split: option.split)
  have children: "get_sub_elements ?e ''layer'' = map (encode_layer_name p) (tgt_layers t)"
    by (simp add: get_sub_elements_def target_element_def filter_named [where m = "''layer''"])
  have "find_named ter_name (prj_terrains p) (name_of ter_name (prj_terrains p) (tgt_terrain t)) = tgt_terrain t"
    using ok by (intro find_name_of terrains) (simp add: target_ok_def)
  moreover have "list_all (\<lambda>l. l < length (prj_layers p)) (tgt_layers t)" using ok by (simp add: target_ok_def)
  ultimately show ?thesis
    by (simp add: decode_target_def attrs children get_terrain_def same(2)
        decode_layer_names [OF layers same(1), simplified])
qed

definition map_element :: "('f, 'z, 's, 'r) project \<Rightarrow> runtime_map \<Rightarrow> xml" where
  "map_element p m = the (encode_map p m)"

lemma decode_map_layer_element:
  assumes "names_ok bl_name (prj_layers p)" and "prj_layers q = prj_layers p"
    and "ml_layer x = Some l" and "ml_search x = Some s"
    and "l < length (prj_layers p)" and "s < length (prj_layers p)"
  shows "\<exists>e. encode_map_layer p x = Some e \<and> well_formed_element e \<and> xml_name e = ''maplayer'' \<and>
    decode_map_layer q e = x"
  using assms
  by (cases x) (simp add: encode_map_layer_def decode_map_layer_def get_search_layer_def bool_text_def
      get_layer_def build_layer_name_def names_ok_def find_named_distinct)

lemma map_layers_roundtrip:
  assumes names: "names_ok bl_name (prj_layers p)" and same: "prj_layers q = prj_layers p"
  shows "list_all (\<lambda>x. points_into (prj_layers p) (ml_layer x) \<and> points_into (prj_layers p) (ml_search x)) xs \<Longrightarrow>
    list_all (\<lambda>x. ml_layer x \<noteq> None \<and> ml_search x \<noteq> None) xs \<Longrightarrow>
    \<exists>es. collect_opt (encode_map_layer p) xs = Some es \<and> all_named ''maplayer'' es \<and>
      map (decode_map_layer q) es = xs"
proof (induction xs)
  case (Cons x xs)
  from Cons obtain es where es: "collect_opt (encode_map_layer p) xs = Some es" "all_named ''maplayer'' es"
    "map (decode_map_layer q) es = xs" by auto
  from Cons.prems obtain l s where "ml_layer x = Some l" "ml_search x = Some s"
    "l < length (prj_layers p)" "s < length (prj_layers p)" by auto
  from decode_map_layer_element [OF names same this] es show ?case
    by (auto simp: all_named_def)
qed (simp add: all_named_def)

lemma decode_map_element:
  assumes names: "names_ok bl_name (prj_layers p)" "names_ok ter_name (prj_terrains p)"
    and ok: "map_ok (prj_terrains p) (prj_layers p) m" and saves: "map_saves m"
    and same: "prj_layers q = prj_layers p" "prj_terrains q = prj_terrains p"
  shows "encode_map p m = Some (map_element p m) \<and> well_formed_element (map_element p m) \<and>
    xml_name (map_element p m) = ''map'' \<and> decode_map q (map_element p m) = m"
proof -
  obtain es where es: "collect_opt (encode_map_layer p) (map_layers m) = Some es"
    "all_named ''maplayer'' es" "map (decode_map_layer q) es = map_layers m"
    using map_layers_roundtrip [OF names(1) same(1), of "map_layers m"] ok saves
    by (auto simp: map_ok_def map_saves_def)
  have el: "encode_map p m = Some (map_element p m)"
    "map_element p m = add_children es (attr_ref ''terrain'' (terrain_name p) (map_terrain m)
      (set_attr ''name'' (map_name m) (new_element ''map'')))"
    using es(1) by (simp_all add: map_element_def encode_map_def)
  have attrs: "get_attr (map_element p m) ''name'' = map_name m"
    "get_attr (map_element p m) ''terrain'' = name_of ter_name (prj_terrains p) (map_terrain m)"
    by (simp_all add: el(2) name_defs name_of_def split: option.split)
  have "find_named ter_name (prj_terrains p) (name_of ter_name (prj_terrains p) (map_terrain m)) = map_terrain m"
    using ok by (intro find_name_of names) (simp add: map_ok_def)
  moreover have "get_sub_elements (map_element p m) ''maplayer'' = es"
    using es(2) by (simp add: get_sub_elements_def el(2) filter_named [where m = "''maplayer''"])
  ultimately have "decode_map q (map_element p m) = m"
    using es(3) by (simp add: decode_map_def attrs get_terrain_def same(2))
  with el show ?thesis by simp
qed

section \<open>Reading a list of parts\<close>

text \<open>Each pass appends the parts of its list.\<close>

lemma read_scripts:
  "list_all (\<lambda>s. trimmed (scr_code s)) xs \<Longrightarrow>
     fold_opt read_script q (map encode_script xs) = Some (q\<lparr>prj_scripts := prj_scripts q @ xs\<rparr>)"
  by (induction xs arbitrary: q) (simp_all add: read_script_def decode_encode_script)

lemma read_graphs:
  "list_all (\<lambda>g. list_all (filter_ok F) (gr_filters g)) xs \<Longrightarrow>
     fold_opt (read_graph F) q (map (encode_filter_graph F) xs) = Some (q\<lparr>prj_graphs := prj_graphs q @ xs\<rparr>)"
  by (induction xs arbitrary: q) (simp_all add: read_graph_def decode_encode_graph)

lemma read_terrains:
  "find_srs_resource F (prj_resources q) [] = None \<Longrightarrow>
     list_all (\<lambda>t. trimmed (ter_uri t) \<and> ter_base t = base_uri F q \<and> ter_srs t = None) xs \<Longrightarrow>
     fold_opt (read_terrain F) q (map encode_terrain xs) = Some (q\<lparr>prj_terrains := prj_terrains q @ xs\<rparr>)"
  by (induction xs arbitrary: q) (simp_all add: read_terrain_def decode_encode_terrain base_uri_def)

lemma decode_resource_uri: "prj_uri q = prj_uri p \<Longrightarrow> decode_resource F q e = decode_resource F p e"
  by (simp only: decode_resource_def base_uri_def)

lemma read_resources:
  "fold_opt (read_resource F) q es =
     Some (q\<lparr>prj_resources := prj_resources q @ List.map_filter (decode_resource F q) es\<rparr>)"
proof (induction es arbitrary: q)
  case (Cons e es)
  have "read_resource F q e = Some (q\<lparr>prj_resources :=
      prj_resources q @ (case decode_resource F q e of None \<Rightarrow> [] | Some r \<Rightarrow> [r])\<rparr>)"
    by (simp add: read_resource_def split: option.split)
  moreover have "decode_resource F (q\<lparr>prj_resources := rs\<rparr>) = decode_resource F q" for rs
    by (rule ext) (rule decode_resource_uri, simp)
  ultimately show ?case
    by (simp add: Cons.IH map_filter_simps split: option.split)
qed (simp add: map_filter_simps)

lemma read_sources:
  assumes "create_resource_by_type (pf_registry F) ''FeatureLayerResource'' = Some z"
    and "names_ok gr_name (prj_graphs q)"
  shows "prj_graphs p = prj_graphs q \<Longrightarrow>
    list_all (\<lambda>s. points_into (prj_graphs q) (src_graph s) \<and> trimmed (src_uri s) \<and> src_base s = base_uri F q) xs \<Longrightarrow>
    fold_opt (read_source F) q (map (encode_source p) xs) =
      Some (q\<lparr>prj_sources := prj_sources q @ map (\<lambda>s. s\<lparr>src_parent := None\<rparr>) xs,
              prj_resources := prj_resources q @ map (source_resource z (base_uri F q)) xs\<rparr>)"
  using assms(2)
proof (induction xs arbitrary: q)
  case (Cons s xs)
  have d: "decode_source F q (encode_source p s) = s\<lparr>src_parent := None\<rparr>"
    using Cons.prems by (intro decode_encode_source) simp_all
  let ?q = "q\<lparr>prj_sources := prj_sources q @ [s\<lparr>src_parent := None\<rparr>],
    prj_resources := prj_resources q @ [source_resource z (base_uri F q) s]\<rparr>"
  have step: "read_source F q (encode_source p s) = Some ?q"
    by (simp add: read_source_def Let_def d assms(1) source_resource_def base_uri_def)
  have "fold_opt (read_source F) ?q (map (encode_source p) xs) =
      Some (?q\<lparr>prj_sources := prj_sources ?q @ map (\<lambda>s. s\<lparr>src_parent := None\<rparr>) xs,
              prj_resources := prj_resources ?q @ map (source_resource z (base_uri F ?q)) xs\<rparr>)"
    using Cons.prems by (intro Cons.IH) (simp_all add: base_uri_def)
  with step show ?case by (simp add: base_uri_def)
qed simp

lemma find_named_cong: "map nm xs = map nm ys \<Longrightarrow> find_named nm xs = find_named nm ys"
proof (induction xs arbitrary: ys)
  case (Cons x xs)
  then show ?case by (cases ys) (auto simp: fun_eq_iff)
qed simp

lemma connect_sources:
  assumes names: "names_ok src_name (prj_sources p)"
  shows "prj_sources p = ys @ xs \<Longrightarrow> prj_sources q = ys @ map (\<lambda>s. s\<lparr>src_parent := None\<rparr>) xs \<Longrightarrow>
    list_all (\<lambda>s. points_into (prj_sources p) (src_parent s)) xs \<Longrightarrow>
    fold_opt connect_source q (map (encode_source p) xs) = Some (q\<lparr>prj_sources := prj_sources p\<rparr>)"
proof (induction xs arbitrary: ys q)
  case (Cons s xs)
  have "map src_name (prj_sources q) = map src_name (prj_sources p)" using Cons.prems by simp
  then have find: "get_source q = find_named src_name (prj_sources p)"
    by (simp add: fun_eq_iff get_source_def find_named_cong [of src_name "prj_sources q" "prj_sources p"])
  have at: "prj_sources p ! length ys = s" "length ys < length (prj_sources p)"
    using Cons.prems(1) by simp_all
  have here: "get_source q (src_name s) = Some (length ys)"
    using find_named_distinct [of src_name "prj_sources p" "length ys"] names at
    by (simp add: find names_ok_def)
  have parent: "get_source q (name_of src_name (prj_sources p) (src_parent s)) = src_parent s"
    using Cons.prems(3) by (simp add: find find_name_of [OF names])
  let ?q = "q\<lparr>prj_sources := (ys @ [s]) @ map (\<lambda>s. s\<lparr>src_parent := None\<rparr>) xs\<rparr>"
  have "connect_source q (encode_source p s) = Some ?q"
    using Cons.prems(2) by (simp add: connect_source_def source_attrs here parent)
  moreover have "fold_opt connect_source ?q (map (encode_source p) xs) = Some (?q\<lparr>prj_sources := prj_sources p\<rparr>)"
    using Cons.prems by (intro Cons.IH [where ys = "ys @ [s]"]) simp_all
  ultimately show ?case by simp
qed simp

lemma read_layers:
  assumes names: "names_ok gr_name (prj_graphs p)" "names_ok src_name (prj_sources p)"
      "names_ok ter_name (prj_terrains p)"
    and ok: "list_all (layer_ok (prj_graphs p) (prj_sources p) (prj_terrains p)) (prj_layers p)"
    and saves: "list_all (layer_saves F (base_uri F p)) (prj_layers p)"
  shows "prj_layers p = ys @ xs \<Longrightarrow> prj_layers q = ys \<Longrightarrow> same_parts p q \<Longrightarrow>
    fold_opt (read_layer F) q (map (layer_element F p) xs) =
      Some (q\<lparr>prj_layers := prj_layers p,
              prj_targets := prj_targets q @
                map (\<lambda>i. layer_target (build_layer_name p i) i) [length ys..<length (prj_layers p)]\<rparr>)"
proof (induction xs arbitrary: ys q)
  case (Cons l xs)
  have "l \<in> set (prj_layers p)" using Cons.prems(1) by simp
  then have d: "decode_layer F q (layer_element F p l) = l"
    using ok saves Cons.prems(3) by (intro decode_layer_element names) (simp_all add: list_all_iff)
  have name: "bl_name l = build_layer_name p (length ys)"
    using Cons.prems(1) by (simp add: build_layer_name_def)
  let ?q = "q\<lparr>prj_layers := ys @ [l],
    prj_targets := prj_targets q @ [layer_target (build_layer_name p (length ys)) (length ys)]\<rparr>"
  have "read_layer F q (layer_element F p l) = Some ?q"
    using Cons.prems(2) by (simp add: read_layer_def d name)
  moreover have "fold_opt (read_layer F) ?q (map (layer_element F p) xs) =
      Some (?q\<lparr>prj_layers := prj_layers p,
              prj_targets := prj_targets ?q @
                map (\<lambda>i. layer_target (build_layer_name p i) i) [length (ys @ [l])..<length (prj_layers p)]\<rparr>)"
    using Cons.prems by (intro Cons.IH) (simp_all add: same_parts_def)
  moreover have "[length ys..<length (prj_layers p)] = length ys # [Suc (length ys)..<length (prj_layers p)]"
    using Cons.prems(1) by (intro upt_conv_Cons) simp
  ultimately show ?case by simp
qed simp

lemma read_targets:
  assumes layers: "names_ok bl_name (prj_layers p)" "list_all (\<lambda>l. trimmed (bl_name l)) (prj_layers p)"
    and terrains: "names_ok ter_name (prj_terrains p)"
  shows "list_all (target_ok (prj_terrains p) (prj_layers p)) ts \<Longrightarrow>
    prj_layers q = prj_layers p \<Longrightarrow> prj_terrains q = prj_terrains p \<Longrightarrow>
    fold_opt read_target q (map (target_element p) ts) = Some (q\<lparr>prj_targets := prj_targets q @ ts\<rparr>)"
  by (induction ts arbitrary: q)
    (simp_all add: read_target_def decode_target_element [OF layers terrains])

lemma read_maps:
  assumes names: "names_ok bl_name (prj_layers p)" "names_ok ter_name (prj_terrains p)"
  shows "list_all (map_ok (prj_terrains p) (prj_layers p)) ms \<Longrightarrow> list_all map_saves ms \<Longrightarrow>
    prj_layers q = prj_layers p \<Longrightarrow> prj_terrains q = prj_terrains p \<Longrightarrow>
    fold_opt read_map q (map (map_element p) ms) = Some (q\<lparr>prj_maps := prj_maps q @ ms\<rparr>)"
  by (induction ms arbitrary: q) (simp_all add: read_map_def decode_map_element [OF names])

section \<open>A whole project\<close>

definition written_resources :: "('f, 'z, 's, 'r) platform \<Rightarrow> ('f, 'z, 's, 'r) project \<Rightarrow> 'z resource list" where
  "written_resources F p =
     filter (\<lambda>r. resource_type F (res_own r) \<noteq> ''FeatureLayerResource'') (prj_resources p)"

text \<open>The resources after the round trip: what is read of those written, then those of the sources.\<close>

definition reread_resources ::
  "('f, 'z, 's, 'r) platform \<Rightarrow> 'z \<Rightarrow> ('f, 'z, 's, 'r) project \<Rightarrow> 'z resource list" where
  "reread_resources F z p =
     List.map_filter (decode_resource F p) (map (resource_element F) (written_resources F p)) @
     map (source_resource z (base_uri F p)) (prj_sources p)"

definition project_element :: "('f, 'z, 's, 'r) platform \<Rightarrow> ('f, 'z, 's, 'r) project \<Rightarrow> xml" where
  "project_element F p =
     add_children
       (map encode_script (prj_scripts p) @ map (resource_element F) (written_resources F p) @
        map (encode_filter_graph F) (prj_graphs p) @ map encode_terrain (prj_terrains p) @
        map (encode_source p) (prj_sources p) @ map (layer_element F p) (prj_layers p) @
        map (target_element p) (drop (length (prj_layers p)) (prj_targets p)) @
        map (map_element p) (prj_maps p))
       (set_attr ''workdir'' (get_working_directory p)
         (set_attr ''name'' (prj_name p) (new_element ''project'')))"

lemma collect_resources:
  "list_all (resource_ok F p) rs \<Longrightarrow> \<exists>es. collect_opt (encode_resource F) rs = Some es \<and>
     List.map_filter id es =
       map (resource_element F) (filter (\<lambda>r. resource_type F (res_own r) \<noteq> ''FeatureLayerResource'') rs)"
  by (induction rs) (auto simp: map_filter_simps resource_ok_def encode_resource_def)

lemma targets_written:
  assumes "targets_save p" and "names_ok bl_name (prj_layers p)"
  shows "List.map_filter (encode_target p) (prj_targets p) =
    map (target_element p) (drop (length (prj_layers p)) (prj_targets p))"
proof -
  have skip: "List.map_filter (encode_target p) (layer_targets p) = []"
  proof -
    have "encode_target p (layer_target (build_layer_name p i) i) = None" if "i < length (prj_layers p)" for i
      using find_named_distinct [of bl_name "prj_layers p" i] assms(2) that
      by (simp add: encode_target_eq layer_target_def add_layer_def get_layer_def build_layer_name_def names_ok_def)
    then have "\<forall>t \<in> set (layer_targets p). encode_target p t = None" by (auto simp: layer_targets_def)
    then show ?thesis by (simp add: map_filter_def filter_empty_conv)
  qed
  have keep: "List.map_filter (encode_target p) ts = map (target_element p) ts"
    if "list_all (\<lambda>t. get_layer p (tgt_name t) = None) ts" for ts
    using that by (induction ts) (simp_all add: map_filter_simps encode_target_eq)
  have split: "List.map_filter f (xs @ ys) = List.map_filter f xs @ List.map_filter f ys"
    for f and xs ys :: "target list"
    by (simp add: map_filter_def)
  have "List.map_filter (encode_target p) (prj_targets p) =
      List.map_filter (encode_target p) (layer_targets p) @
      List.map_filter (encode_target p) (drop (length (prj_layers p)) (prj_targets p))"
    using assms(1) split [of "encode_target p" "layer_targets p" "drop (length (prj_layers p)) (prj_targets p)"]
    by (metis append_take_drop_id targets_save_def)
  with skip keep assms(1) show ?thesis by (simp add: targets_save_def)
qed

lemma encode_project_element:
  assumes "savable F p"
  shows "encode_project F p = Some (project_element F p)"
proof -
  obtain es where es: "collect_opt (encode_resource F) (prj_resources p) = Some es"
    "List.map_filter id es = map (resource_element F) (written_resources F p)"
    using collect_resources [of F p "prj_resources p"] assms by (auto simp: savable_def written_resources_def)
  have "encode_layer F p l = Some (layer_element F p l)" if "l \<in> set (prj_layers p)" for l
  proof -
    have saves: "layer_saves F (base_uri F p) l" using assms that by (simp add: savable_def list_all_iff)
    then obtain s t where "bl_source l = Some s" "bl_terrain l = Some t" by (auto simp: layer_saves_def)
    from layer_element_simps(1) [OF saves this] show ?thesis .
  qed
  then have ls: "collect_opt (encode_layer F p) (prj_layers p) = Some (map (layer_element F p) (prj_layers p))"
    using collect_opt_all [of "prj_layers p" "encode_layer F p"] by simp
  have "encode_map p m = Some (map_element p m)" if "m \<in> set (prj_maps p)" for m
    using decode_map_element [of p m p] assms that
    by (simp add: savable_def refs_ok_parts list_all_iff)
  then have ms: "collect_opt (encode_map p) (prj_maps p) = Some (map (map_element p) (prj_maps p))"
    using collect_opt_all [of "prj_maps p" "encode_map p"] by simp
  have ts: "List.map_filter (encode_target p) (prj_targets p) =
      map (target_element p) (drop (length (prj_layers p)) (prj_targets p))"
    using assms by (intro targets_written) (simp_all add: savable_def)
  show ?thesis by (simp add: encode_project_def es ls ms ts project_element_def)
qed

lemma project_sub_elements:
  assumes "savable F p"
  shows "get_sub_elements (project_element F p) n =
    (if to_lower n = ''script'' then map encode_script (prj_scripts p) else []) @
    (if to_lower n = ''resource'' then map (resource_element F) (written_resources F p) else []) @
    (if to_lower n = ''graph'' then map (encode_filter_graph F) (prj_graphs p) else []) @
    (if to_lower n = ''terrain'' then map encode_terrain (prj_terrains p) else []) @
    (if to_lower n = ''source'' then map (encode_source p) (prj_sources p) else []) @
    (if to_lower n = ''layer'' then map (layer_element F p) (prj_layers p) else []) @
    (if to_lower n = ''target''
     then map (target_element p) (drop (length (prj_layers p)) (prj_targets p)) else []) @
    (if to_lower n = ''map'' then map (map_element p) (prj_maps p) else [])"
proof -
  have layer: "well_formed_element (layer_element F p l) \<and> xml_name (layer_element F p l) = ''layer''"
    if "l \<in> set (prj_layers p)" for l
  proof -
    have saves: "layer_saves F (base_uri F p) l" using assms that by (simp add: savable_def list_all_iff)
    then obtain s t where "bl_source l = Some s" "bl_terrain l = Some t" by (auto simp: layer_saves_def)
    from layer_element_simps(2) [OF saves this, of p] show ?thesis by simp
  qed
  have map: "well_formed_element (map_element p m) \<and> xml_name (map_element p m) = ''map''"
    if "m \<in> set (prj_maps p)" for m
    using decode_map_element [of p m p] assms that by (simp add: savable_def refs_ok_parts list_all_iff)
  have named: "all_named ''script'' (map encode_script (prj_scripts p))"
    "all_named ''resource'' (map (resource_element F) (written_resources F p))"
    "all_named ''graph'' (map (encode_filter_graph F) (prj_graphs p))"
    "all_named ''terrain'' (map encode_terrain (prj_terrains p))"
    "all_named ''source'' (map (encode_source p) (prj_sources p))"
    "all_named ''layer'' (map (layer_element F p) (prj_layers p))"
    "all_named ''target'' (map (target_element p) (drop (length (prj_layers p)) (prj_targets p)))"
    "all_named ''map'' (map (map_element p) (prj_maps p))"
    using layer map by (intro all_named_map; simp add: target_element_def)+
  note parts = named [THEN filter_named, of n]
  show ?thesis
    unfolding get_sub_elements_def project_element_def
    by (simp add: parts eq_commute [of _ "to_lower n"] del: map_map filter_map)
qed

lemma no_srs_resources:
  assumes "list_all (resource_ok F p) (prj_resources p)"
  shows "find_srs_resource F
    (List.map_filter (decode_resource F p) (map (resource_element F) (written_resources F p))) n = None"
proof -
  have "resource_type F (res_own r') \<noteq> ''SRSResource''"
    if "r \<in> set (written_resources F p)" "decode_resource F p (resource_element F r) = Some r'" for r r'
    using assms that by (auto simp: written_resources_def list_all_iff resource_ok_def)
  then show ?thesis
    unfolding find_srs_resource_def find_None_iff by (auto simp: in_map_filter)
qed

lemma decode_project_element:
  assumes saves: "savable F p"
    and z: "create_resource_by_type (pf_registry F) ''FeatureLayerResource'' = Some z"
  shows "decode_project_with F load (project_element F p) (prj_uri p) =
    Some (p\<lparr>prj_resources := reread_resources F z p\<rparr>)"
proof -
  let ?e = "project_element F p" and ?n = "length (prj_layers p)"
  note sub = project_sub_elements [OF saves]
  have names: "names_ok gr_name (prj_graphs p)" "names_ok src_name (prj_sources p)"
    "names_ok ter_name (prj_terrains p)" "names_ok bl_name (prj_layers p)"
    "list_all (\<lambda>l. trimmed (bl_name l)) (prj_layers p)"
    using saves by (simp_all add: savable_def)
  have refs: "list_all (source_ok (prj_graphs p) (prj_sources p)) (prj_sources p)"
    "list_all (layer_ok (prj_graphs p) (prj_sources p) (prj_terrains p)) (prj_layers p)"
    "list_all (target_ok (prj_terrains p) (prj_layers p)) (drop ?n (prj_targets p))"
    "list_all (map_ok (prj_terrains p) (prj_layers p)) (prj_maps p)"
    using saves by (auto simp: savable_def refs_ok_parts list_all_iff dest: in_set_dropD)
  let ?p0 = "project_new\<lparr>prj_uri := prj_uri p, prj_name := prj_name p, prj_work_dir := prj_work_dir p\<rparr>"
  let ?p1 = "?p0\<lparr>prj_scripts := prj_scripts p\<rparr>"
  let ?p2 = "?p1\<lparr>prj_resources := List.map_filter (decode_resource F p)
    (map (resource_element F) (written_resources F p))\<rparr>"
  let ?p3 = "?p2\<lparr>prj_graphs := prj_graphs p\<rparr>"
  let ?p4 = "?p3\<lparr>prj_terrains := prj_terrains p\<rparr>"
  let ?p5 = "?p4\<lparr>prj_sources := map (\<lambda>s. s\<lparr>src_parent := None\<rparr>) (prj_sources p),
    prj_resources := reread_resources F z p\<rparr>"
  let ?p6 = "?p5\<lparr>prj_sources := prj_sources p\<rparr>"
  let ?p7 = "?p6\<lparr>prj_layers := prj_layers p, prj_targets := layer_targets p\<rparr>"
  let ?p8 = "?p7\<lparr>prj_targets := prj_targets p\<rparr>"
  let ?p9 = "?p8\<lparr>prj_maps := prj_maps p\<rparr>"
  have start: "project_start ?e (prj_uri p) = ?p0"
    using saves by (simp add: project_start_def project_element_def get_working_directory_def savable_def)
  have p1: "fold_opt read_script ?p0 (get_sub_elements ?e ''script'') = Some ?p1"
    using saves by (simp add: sub read_scripts savable_def project_new_def)
  have "decode_resource F ?p1 = decode_resource F p" by (rule ext) (rule decode_resource_uri, simp)
  then have p2: "fold_opt (read_resource F) ?p1 (get_sub_elements ?e ''resource'') = Some ?p2"
    by (simp add: sub read_resources project_new_def)
  have p3: "fold_opt (read_graph F) ?p2 (get_sub_elements ?e ''graph'') = Some ?p3"
    using saves by (simp add: sub read_graphs savable_def project_new_def)
  have p4: "fold_opt (read_terrain F) ?p3 (get_sub_elements ?e ''terrain'') = Some ?p4"
    using read_terrains [of F ?p3 "prj_terrains p"] saves no_srs_resources [of F p "[]"]
    by (simp add: sub savable_def base_uri_def project_new_def)
  have p5: "fold_opt (read_source F) ?p4 (get_sub_elements ?e ''source'') = Some ?p5"
    using read_sources [OF z, of ?p4 p "prj_sources p"] names(1) saves refs(1)
    by (simp add: sub savable_def base_uri_def source_ok_def list_all_iff project_new_def
        reread_resources_def)
  have p6: "fold_opt connect_source ?p5 (get_sub_elements ?e ''source'') = Some ?p6"
    using connect_sources [OF names(2), of "[]" "prj_sources p" ?p5] refs(1)
    by (simp add: sub source_ok_def list_all_iff)
  have p7: "fold_opt (read_layer F) ?p6 (get_sub_elements ?e ''layer'') = Some ?p7"
    using read_layers [OF names(1-3) refs(2), of F "[]" "prj_layers p" ?p6] saves
    by (simp add: sub savable_def same_parts_def project_new_def layer_targets_def)
  have "layer_targets p @ drop ?n (prj_targets p) = prj_targets p"
    using saves by (metis append_take_drop_id savable_def targets_save_def)
  then have p8: "fold_opt read_target ?p7 (get_sub_elements ?e ''target'') = Some ?p8"
    using read_targets [OF names(4,5,3) refs(3), of ?p7] by (simp add: sub)
  have p9: "fold_opt read_map ?p8 (get_sub_elements ?e ''map'') = Some ?p9"
    using read_maps [OF names(4,3) refs(4), of ?p8] saves by (simp add: sub savable_def project_new_def)
  have "?p9 = p\<lparr>prj_resources := reread_resources F z p\<rparr>" by (cases p) simp
  moreover have "get_sub_elements ?e ''include'' = []" by (simp add: sub)
  ultimately show ?thesis
    by (simp only: decode_project_with_def start p1 p2 p3 p4 p5 p6 p7 p8 p9 fold_opt.simps bind.bind_lunit)
qed

lemma written_project_reads_back:
  assumes "savable F p" and "create_resource_by_type (pf_registry F) ''FeatureLayerResource'' = Some z"
  shows "\<exists>doc. write_project F (Some p) = Some doc \<and>
    read_project (Suc n) F doc (prj_uri p) = Some (Some (p\<lparr>prj_resources := reread_resources F z p\<rparr>))"
proof -
  let ?doc = "add_child (project_element F p) new_document"
  have "well_formed_element (project_element F p) \<and> xml_name (project_element F p) = ''project''"
    by (simp add: project_element_def)
  then have "get_sub_element ?doc ''project'' = Some (project_element F p)"
    by (simp add: get_sub_element_def new_document_def named_element)
  then have "read_project (Suc n) F ?doc (prj_uri p) =
      Some (Some (p\<lparr>prj_resources := reread_resources F z p\<rparr>))"
    by (simp add: read_project_def read_project_with_def decode_project_element [OF assms])
  then show ?thesis by (simp add: write_project_def encode_project_element [OF assms(1)])
qed

section \<open>Resources do not come back\<close>

lemma add_tag_tags: "set (get_tags (add_tag t r)) = insert (to_lower t) (set (get_tags r))"
  by (simp add: get_tags_def add_tag_def smap_put_def keys_smap_upd)

text \<open>The attribute as a whole becomes a tag, and is longer than any tag it was made of.\<close>

lemma decode_tags_whole: "to_lower (get_attr e ''tags'') \<in> set (get_tags (decode_tags e r))"
  by (simp add: decode_tags_def Let_def add_tag_tags)

lemma tag_in_text: "t \<in> set (get_tags r) \<Longrightarrow> length t < length (tags_text r)"
proof -
  assume "t \<in> set (get_tags r)"
  then have "length (t @ '' '') \<le> sum_list (map (\<lambda>t. length (t @ '' '')) (get_tags r))"
    by (intro member_le_sum_list) simp_all
  also have "\<dots> = length (tags_text r)" by (simp add: tags_text_def length_concat comp_def)
  finally show ?thesis by simp
qed

lemma resource_element_tags: "get_attr (resource_element F r) ''tags'' = tags_text r"
  by (simp add: resource_element_def)

lemma reread_tags_differ:
  assumes "decode_resource F p (resource_element F r) = Some r'"
  shows "set (get_tags r') \<noteq> set (get_tags r)"
proof
  assume same: "set (get_tags r') = set (get_tags r)"
  obtain r0 where "r' = decode_tags (resource_element F r) r0"
    using assms by (auto simp: decode_resource_def Let_def split: option.splits)
  with decode_tags_whole [of "resource_element F r" r0] same
  have "to_lower (tags_text r) \<in> set (get_tags r)" by (simp add: resource_element_tags)
  from tag_in_text [OF this] show False by (simp add: to_lower_def)
qed

text \<open>
  A resource of a spatial reference is never written: its only property is the well-known text, which
  it has exactly when it has a reference, and without one the encoder follows the null pointer.
\<close>

lemma srs_resource_never_written:
  assumes "resource_type F (res_own r) = ''SRSResource''"
    and "resource_get F (res_own r) = [] \<longleftrightarrow> resource_srs F (res_own r) = None"
  shows "encode_resource F r = None"
  using assms by (simp add: encode_resource_def split: option.split)

section \<open>The handlers of the parser keep documents\<close>

text \<open>Elements whose names are in lower case, with ordered attributes and no empty texts, are rebuilt.\<close>

fun normal_node :: "xml \<Rightarrow> bool" where
  "normal_node (XmlElement n as cs) \<longleftrightarrow> to_lower n = n \<and> smap_sorted as \<and> list_all normal_node cs"
| "normal_node (XmlText t) \<longleftrightarrow> t \<noteq> []"

lemma smap_put_last:
  "smap_sorted (m @ [(k, v)]) \<Longrightarrow> smap_put k v m = m @ [(k, v)]"
proof (induction m)
  case (Cons a m)
  obtain k' v' where a: "a = (k', v')" by (cases a)
  have "str_less k' k" using Cons.prems by (auto simp: a smap_sorted_def)
  moreover from this have "\<not> str_less k k'" using str_less_trans str_less_irrefl by blast
  ultimately show ?case using Cons by (auto simp: a smap_put_def smap_sorted_def)
qed (simp add: smap_put_def)

lemma get_attributes_sorted: "smap_sorted as \<Longrightarrow> get_attributes as = as"
proof (induction as rule: rev_induct)
  case (snoc a as)
  obtain k v where a: "a = (k, v)" by (cases a)
  have "smap_sorted as" using snoc.prems by (simp add: smap_sorted_def sorted_wrt_append)
  with snoc show ?case by (simp add: get_attributes_def a smap_put_last)
qed (simp add: get_attributes_def)

lemma read_normal_node: "normal_node x \<Longrightarrow> read_node_as x = [x]"
proof (induction x rule: normal_node.induct)
  case (1 n as cs)
  have "concat (map read_node_as xs) = xs" if "set xs \<subseteq> set cs" for xs
    using that 1 by (induction xs) (auto simp: list_all_iff)
  with 1(2) show ?case by (simp add: get_attributes_sorted)
qed simp

lemma load_normal_document:
  assumes "sax s = Some (concat (map node_events xs))" and "list_all normal_node xs"
  shows "load_document sax s = Some (Some (XmlElement ''Document'' [] xs))"
proof -
  have "concat (map read_node_as xs) = xs"
    using assms(2) by (induction xs) (simp_all add: read_normal_node)
  then show ?thesis by (simp add: load_document_def assms(1) load_events)
qed

end
