(* ===== verification/Project_Sample.thy ===== *)
theory Project_Sample
  imports Project_Roundtrip
begin

text \<open>
  A concrete platform and projects at which the theorems on reading and writing projects are applied.
  A filter of the platform is the list of its properties and a resource is its type.
\<close>

definition sample_registry :: "(unit property list, string) registry" where
  "sample_registry =
     \<lparr>filter_factories = [(''scalefilter'', [])],
      resource_factories = [(''featurelayerresource'', ''FeatureLayerResource''), (''modelresource'', ''ModelResource'')],
      reg_work_dir = []\<rparr>"

text \<open>Two documents: one that includes the other, and one that includes itself.\<close>

definition inner_document :: "xml list" where
  "inner_document =
     [XmlElement ''project'' [(''name'', ''inner'')]
       [XmlElement ''graph'' [(''name'', ''g'')] [],
        XmlElement ''source'' [(''graph'', ''g''), (''name'', ''s'')] [XmlElement ''uri'' [] [XmlText ''s.shp'']]]]"

definition outer_document :: "xml list" where
  "outer_document =
     [XmlElement ''project'' [(''name'', ''outer'')]
       [XmlElement ''include'' [] [XmlText ''inner''],
        XmlElement ''source'' [(''name'', ''t''), (''parent'', ''s'')] [],
        XmlElement ''layer'' [(''name'', ''l''), (''source'', ''t'')] []]]"

definition looping_document :: "xml list" where
  "looping_document = [XmlElement ''project'' [] [XmlElement ''include'' [] [XmlText ''loop'']]]"

definition sample_open :: "string \<Rightarrow> string option" where
  "sample_open u = (if u \<in> {''inner'', ''outer'', ''loop''} then Some u else None)"

definition sample_expat :: "string \<Rightarrow> xml_event list option" where
  "sample_expat s =
     (if s = ''inner'' then Some (concat (map node_events inner_document))
      else if s = ''outer'' then Some (concat (map node_events outer_document))
      else if s = ''loop'' then Some (concat (map node_events looping_document))
      else None)"

definition sample_platform :: "(unit property list, string, unit, unit) platform" where
  "sample_platform =
     \<lparr>pf_registry = sample_registry,
      filter_type = (\<lambda>f. ''ScaleFilter''), filter_set = (\<lambda>f p. f @ [p]), filter_get = (\<lambda>f. f),
      resource_type = (\<lambda>z. z), resource_set = (\<lambda>z p. z), resource_get = (\<lambda>z. []),
      resource_srs = (\<lambda>z. None), resource_set_srs = (\<lambda>z s. z), resource_add_part = (\<lambda>z u. z),
      srs_from_wkt = (\<lambda>t. Some ()), srs_wkt = (\<lambda>s. ''wkt''),
      read_float = (\<lambda>t. if t = ''1'' then 1 else 2), print_float = (\<lambda>v. if v = 1 then ''1'' else ''2''),
      file_path = (\<lambda>u. ''dir''), abs_path = (\<lambda>b u. u),
      open_file = sample_open, expat = sample_expat\<rparr>"

definition sample_project :: "(unit property list, string, unit, unit) project" where
  "sample_project =
     \<lparr>prj_uri = ''dir/p.xml'', prj_name = ''p'', prj_work_dir = ''work'',
      prj_scripts = [\<lparr>scr_name = ''f'', scr_language = ''lua'', scr_code = ''return 1''\<rparr>],
      prj_resources = [\<lparr>res_name = ''m'', res_uri = ''m.ive'', res_base = ''dir'', res_tags = [(''tree'', ())],
        res_own = ''ModelResource''\<rparr>],
      prj_graphs = [\<lparr>gr_name = ''g'', gr_filters = [[prop_string ''scale_by'' ''2'']]\<rparr>],
      prj_terrains = [\<lparr>ter_name = ''t'', ter_uri = ''t.ive'', ter_base = ''dir'', ter_srs = None\<rparr>],
      prj_sources =
        [\<lparr>src_name = ''a'', src_uri = ''a.shp'', src_base = ''dir'', src_type = TYPE_FEATURE,
          src_graph = None, src_parent = Some 1\<rparr>,
         \<lparr>src_name = ''b'', src_uri = ''b.tif'', src_base = ''dir'', src_type = TYPE_RASTER,
          src_graph = Some 0, src_parent = None\<rparr>],
      prj_layers =
        [\<lparr>bl_name = ''l'', bl_base = ''dir'', bl_type = TYPE_QUADTREE, bl_source = Some 0, bl_terrain = Some 0,
          bl_path = ''out'',
          bl_slices = [Slice 1 2 (Some 0) None [prop_string ''k'' ''v''] [Slice 0 flt_max (Some 0) (Some 1) [] []]],
          bl_props = [prop_string ''lod'' ''2''], bl_env_props = []\<rparr>],
      prj_targets =
        [\<lparr>tgt_name = ''l'', tgt_terrain = None, tgt_layers = [0]\<rparr>,
         \<lparr>tgt_name = ''all'', tgt_terrain = Some 0, tgt_layers = [0]\<rparr>],
      prj_maps =
        [\<lparr>map_name = ''world'', map_terrain = Some 0,
          map_layers = [\<lparr>ml_layer = Some 0, ml_search = Some 0, ml_searchable = True, ml_visible = False\<rparr>]\<rparr>]\<rparr>"

lemma sample_savable: "savable sample_platform sample_project"
  by code_simp

lemma sample_feature_resource:
  "create_resource_by_type (pf_registry sample_platform) ''FeatureLayerResource'' = Some ''FeatureLayerResource''"
  by code_simp

lemma sample_files [simp]: "open_file sample_platform = sample_open" "expat sample_platform = sample_expat"
  by (simp_all add: sample_platform_def)

lemma sample_load_some: "load_uri sample_platform u \<noteq> None"
proof -
  have "load_document sample_expat s \<noteq> None" if "s \<in> {''inner'', ''outer'', ''loop''}" for s
    using that by (auto simp: load_document_def sample_expat_def load_events)
  then show ?thesis
    by (auto simp: load_uri_def sample_open_def)
qed

lemma sample_outer:
  "load_project 2 sample_platform ''outer'' = Some (Some (the (the (load_project 2 sample_platform ''outer''))))"
  by code_simp

lemma sample_loop: "''loop'' \<in> set (includes_of sample_platform ''loop'')"
  by code_simp

lemma sample_reread:
  "decode_resource sample_platform sample_project (resource_element sample_platform
     (hd (prj_resources sample_project))) =
   Some (the (decode_resource sample_platform sample_project (resource_element sample_platform
     (hd (prj_resources sample_project)))))"
  by code_simp

lemma inner_document_normal: "list_all normal_node inner_document"
  by code_simp

text \<open>The documents of the platform that end: the platform without the one that includes itself.\<close>

definition finite_platform :: "(unit property list, string, unit, unit) platform" where
  "finite_platform = sample_platform\<lparr>open_file := (\<lambda>u. if u = ''loop'' then None else sample_open u)\<rparr>"

lemma finite_files [simp]:
  "open_file finite_platform = (\<lambda>u. if u = ''loop'' then None else sample_open u)"
  "expat finite_platform = sample_expat"
  by (simp_all add: finite_platform_def sample_platform_def)

definition sample_rank :: "string \<Rightarrow> nat" where
  "sample_rank u = (if u = ''outer'' then 1 else 0)"

lemma finite_load_some: "load_uri finite_platform u \<noteq> None"
  using sample_load_some [of u] by (cases "sample_open u") (auto simp: load_uri_def)

lemma finite_rank: "v \<in> set (includes_of finite_platform u) \<Longrightarrow> sample_rank v < sample_rank u"
proof -
  assume v: "v \<in> set (includes_of finite_platform u)"
  have none: "includes_of finite_platform w = []" if "w \<notin> {''inner'', ''outer''}" for w
    using that by (auto simp: includes_of_def load_uri_def sample_open_def)
  have "includes_of finite_platform ''inner'' = []" "includes_of finite_platform ''outer'' = [''inner'']"
    by code_simp+
  with v none [of u] have "u = ''outer'' \<and> v = ''inner''"
    by (cases "u = ''inner'' \<or> u = ''outer''") auto
  then show ?thesis by (simp add: sample_rank_def)
qed

lemma finite_feature_resource:
  "create_resource_by_type (pf_registry finite_platform) ''FeatureLayerResource'' \<noteq> None"
  by code_simp

end
