(* ===== verification/Buffer_Filter.thy ===== *)
theory Buffer_Filter
  imports Part_Filters Ogr_Srs Units
begin

text \<open>
  \<^verbatim>\<open>src/osgGIS/BufferFilter.cpp\<close>: the edges of a part are shifted sideways and each is intersected
  with the next one; the intersections are the new vertices. Whether a reference is geographic is a
  virtual method and an argument here.
\<close>

section \<open>Shifted segments\<close>

type_synonym vsegment = "vec3 \<times> vec3"

text \<open>\<open>osg::Vec3d::normalize\<close>\<close>

definition normalized :: "vec3 \<Rightarrow> vec3" where
  "normalized v =
     (case v of (x, y, z) \<Rightarrow>
       let n = sqrt (x\<^sup>2 + y\<^sup>2 + z\<^sup>2) in if n > 0 then (x / n, y / n, z / n) else v)"

definition direction :: "vec3 \<Rightarrow> vec3 \<Rightarrow> vec3" where
  "direction p q =
     (case (p, q) of ((x0, y0, z0), (x1, y1, z1)) \<Rightarrow> normalized (x1 - x0, y1 - y0, z1 - z0))"

definition shifted :: "real \<Rightarrow> vec3 \<Rightarrow> vec3 \<Rightarrow> vsegment" where
  "shifted b p q =
     (case (p, q, direction p q) of ((x0, y0, z0), (x1, y1, z1), (dx, dy, dz)) \<Rightarrow>
       ((x0 + b * dy, y0 - b * dx, z1), (x1 + b * dy, y1 - b * dx, z1)))"

definition end_cap :: "real \<Rightarrow> vec3 \<Rightarrow> vec3 \<Rightarrow> vsegment" where
  "end_cap b p q =
     (case (q, direction p q) of ((x1, y1, z1), (dx, dy, dz)) \<Rightarrow>
       ((x1 + b * dy, y1 - b * dx, z1), (x1 - b * dy, y1 + b * dx, z1)))"

text \<open>\<open>None\<close> is the result \<open>false\<close>, for lines that are nearly parallel.\<close>

definition line_intersection :: "vsegment \<Rightarrow> vsegment \<Rightarrow> vec3 option" where
  "line_intersection s0 s1 =
     (case (s0, s1) of (((x1, y1, z1), (x2, y2, z2)), ((x3, y3, z3), (x4, y4, z4))) \<Rightarrow>
       let denom = (y4 - y3) * (x2 - x1) - (x4 - x3) * (y2 - y1)
       in if \<bar>denom\<bar> \<ge> 0.001
          then let ua = ((x4 - x3) * (y1 - y3) - (y4 - y3) * (x1 - x3)) / denom
               in Some (x1 + ua * (x2 - x1), y1 + ua * (y2 - y1), z2)
          else None)"

text \<open>The edges of a closed and of an open part, and the pairs of neighbouring segments.\<close>

definition ring_pairs :: "'a list \<Rightarrow> ('a \<times> 'a) list" where
  "ring_pairs xs = zip xs (rotate1 xs)"

definition path_pairs :: "'a list \<Rightarrow> ('a \<times> 'a) list" where
  "path_pairs xs = zip xs (tl xs)"

definition intersections :: "(vsegment \<times> vsegment) list \<Rightarrow> vec3 list" where
  "intersections ps = List.map_filter (\<lambda>(s0, s1). line_intersection s0 s1) ps"

text \<open>A vertex of the new part: the reference and the dimension are those of the first point.\<close>

definition vertex_like :: "'s geopoint \<Rightarrow> vec3 \<Rightarrow> 's geopoint" where
  "vertex_like p v = (case v of (x, y, z) \<Rightarrow> set_dim (geopoint_3d x y z (spatial_ref p)) (int (dim p)))"

section \<open>Parts\<close>

definition polygon_segments :: "real \<Rightarrow> 's geopoint list \<Rightarrow> vsegment list" where
  "polygon_segments b part = map (\<lambda>(p, q). shifted b (xyz p) (xyz q)) (ring_pairs part)"

definition buffer_polygon_part :: "real \<Rightarrow> 's geopoint list \<Rightarrow> 's geopoint list list" where
  "buffer_polygon_part b part =
     (if length part < 3 then []
      else let new_part = map (vertex_like (hd part)) (intersections (ring_pairs (polygon_segments b part)))
           in if length new_part > 2 then [new_part] else [])"

text \<open>One way along a line, with the cap at its end.\<close>

definition one_way :: "real \<Rightarrow> 's geopoint list \<Rightarrow> vsegment list" where
  "one_way b part =
     map (\<lambda>(p, q). shifted b (xyz p) (xyz q)) (path_pairs part) @
     [end_cap b (xyz (last (butlast part))) (xyz (last part))]"

definition buffer_line_to_polygon :: "real \<Rightarrow> 's geopoint list \<Rightarrow> 's geopoint list list" where
  "buffer_line_to_polygon b part =
     (if length part < 2 then []
      else let segments = one_way b part @ one_way b (rev part);
               new_part = map (vertex_like (hd part)) (intersections (ring_pairs segments))
           in if length new_part > 2 then [new_part] else [])"

text \<open>The loop ends before the last segment, and adds the first and the last point in its rounds.\<close>

definition buffer_line_to_line :: "real \<Rightarrow> 's geopoint list \<Rightarrow> 's geopoint list list" where
  "buffer_line_to_line b part =
     (if length part < 2 then []
      else let segments = map (\<lambda>(p, q). shifted b (xyz p) (xyz q)) (path_pairs part);
               new_part = (if length segments < 2 then []
                  else map (vertex_like (hd part))
                    (fst (hd segments) # intersections (path_pairs segments) @ [snd (last segments)]))
           in if length new_part > 1 then [new_part] else [])"

section \<open>Shapes and features\<close>

definition buffer_parts :: "('s geopoint list \<Rightarrow> 's geopoint list list) \<Rightarrow> shape_type \<Rightarrow> 's geoshape \<Rightarrow> 's geoshape" where
  "buffer_parts f t sh = modify_parts (shape_new t (srs sh)) (\<lambda>_. concat (map f (parts sh)))"

definition buffer_shape :: "real \<Rightarrow> bool \<Rightarrow> 's geoshape \<Rightarrow> 's geoshape option" where
  "buffer_shape b to_polygon sh =
     (if shape_type sh = TYPE_POLYGON then Some (buffer_parts (buffer_polygon_part b) TYPE_POLYGON sh)
      else if shape_type sh = TYPE_LINE
      then Some (if to_polygon then buffer_parts (buffer_line_to_polygon b) TYPE_POLYGON sh
                 else buffer_parts (buffer_line_to_line b) TYPE_LINE sh)
      else None)"

text \<open>In a geographic reference the distance is turned into degrees at the centre of the feature.\<close>

definition buffer_degrees :: "(real \<Rightarrow> real) \<Rightarrow> real \<Rightarrow> 's geopoint \<Rightarrow> real" where
  "buffer_degrees deg2rad b c =
     (let bc = b / 1.4142;
          p1 = convert_linear_to_angular_vector deg2rad (bc, bc) METERS DEGREES (px c, py c)
      in sqrt ((fst p1 - px c)\<^sup>2 + (snd p1 - py c)\<^sup>2))"

definition buffer_process ::
  "(real \<Rightarrow> real) \<Rightarrow> 's srs_vt \<Rightarrow> ('s \<Rightarrow> bool) \<Rightarrow> real \<Rightarrow> bool \<Rightarrow> ('s, 'o) filter_env \<Rightarrow> 's feature \<Rightarrow>
     's feature list option" where
  "buffer_process deg2rad V geographic_srs distance to_polygon env f =
     do { s \<leftarrow> in_srs env;
          let f0 = modify_shapes f (\<lambda>shs. shs);
              (b, f1) = (if geographic_srs s
                 then (let (e, f1) = feature_get_extent V f0 in (buffer_degrees deg2rad distance (get_centroid e), f1))
                 else (distance, f0));
              new_shapes = List.map_filter (buffer_shape b to_polygon) (fshapes f1)
          in Some [if length new_shapes > 0 then modify_shapes f1 (\<lambda>_. new_shapes) else f1] }"

section \<open>Distances\<close>

text \<open>Signed distance of a point to the line through two others in the plane, to the right of it.\<close>

definition right_distance :: "'s geopoint \<Rightarrow> 's geopoint \<Rightarrow> 's geopoint \<Rightarrow> real" where
  "right_distance p q r =
     ((py q - py p) * (px r - px p) - (px q - px p) * (py r - py p)) /
       sqrt ((px q - px p)\<^sup>2 + (py q - py p)\<^sup>2)"

definition on_line :: "vsegment \<Rightarrow> vec3 \<Rightarrow> bool" where
  "on_line s v =
     (case (s, v) of (((x0, y0, z0), (x1, y1, z1)), (x, y, z)) \<Rightarrow>
       (x1 - x0) * (y - y0) - (y1 - y0) * (x - x0) = 0)"

lemma intersection_on_lines:
  assumes "line_intersection s0 s1 = Some v"
  shows "on_line s0 v \<and> on_line s1 v"
proof -
  obtain x1 y1 z1 x2 y2 z2 where s0: "s0 = ((x1, y1, z1), (x2, y2, z2))" by (metis prod.exhaust)
  obtain x3 y3 z3 x4 y4 z4 where s1: "s1 = ((x3, y3, z3), (x4, y4, z4))" by (metis prod.exhaust)
  define d where "d = (y4 - y3) * (x2 - x1) - (x4 - x3) * (y2 - y1)"
  define n where "n = (x4 - x3) * (y1 - y3) - (y4 - y3) * (x1 - x3)"
  have d: "d \<noteq> 0" and v: "v = (x1 + n / d * (x2 - x1), y1 + n / d * (y2 - y1), z2)"
    using assms by (auto simp: line_intersection_def s0 s1 d_def n_def Let_def split: if_splits)
  have "(x4 - x3) * (y1 + t * (y2 - y1) - y3) - (y4 - y3) * (x1 + t * (x2 - x1) - x3) = n - t * d" for t
    unfolding d_def n_def by (simp add: algebra_simps)
  from this [of "n / d"] show ?thesis using d by (simp add: on_line_def s0 s1 v)
qed

lemma intersection_proper:
  assumes "line_intersection s0 s1 = Some v"
  shows "fst s0 \<noteq> snd s0 \<and> fst s1 \<noteq> snd s1"
  using assms by (auto simp: line_intersection_def Let_def split: prod.splits if_splits)

text \<open>The shifted line of a level edge is the line at that distance to the right of the edge.\<close>

lemma shifted_distance:
  assumes "on_line (shifted b (xyz p) (xyz q)) v" and "pz p = pz q"
    and "fst (shifted b (xyz p) (xyz q)) \<noteq> snd (shifted b (xyz p) (xyz q))"
  shows "right_distance p q (vertex_like r v) = b"
proof -
  obtain x y z where v: "v = (x, y, z)" by (metis prod.exhaust)
  define X Y where "X = px q - px p" and "Y = py q - py p"
  define n where "n = sqrt (X\<^sup>2 + Y\<^sup>2)"
  have ne: "X \<noteq> 0 \<or> Y \<noteq> 0"
    using assms(3) by (auto simp: shifted_def xyz_def X_def Y_def split: prod.splits)
  then have n: "n > 0" "n * n = X * X + Y * Y"
    by (simp_all add: n_def sum_power2_gt_zero_iff power2_eq_square [symmetric])
  have d: "direction (xyz p) (xyz q) = (X / n, Y / n, 0)"
    using n(1) assms(2) by (simp add: direction_def normalized_def xyz_def X_def Y_def n_def Let_def)
  have "X * (y - (py p - b * (X / n))) - Y * (x - (px p + b * (Y / n))) = 0"
    using assms(1) by (simp add: on_line_def shifted_def d [unfolded xyz_def] v xyz_def X_def Y_def)
  moreover have "X * (y - (py p - b * (X / n))) - Y * (x - (px p + b * (Y / n))) =
      X * (y - py p) - Y * (x - px p) + b * ((X * X + Y * Y) / n)"
    by (simp add: algebra_simps add_divide_distrib)
  moreover have "(X * X + Y * Y) / n = n" using n by (simp add: divide_eq_eq)
  ultimately have "Y * (x - px p) - X * (y - py p) = b * n" by simp
  then show ?thesis
    using n by (simp add: right_distance_def vertex_like_def v set_dim_def X_def [symmetric] Y_def [symmetric] n_def [symmetric])
qed

lemma ring_pairs_map: "ring_pairs (map f xs) = map (\<lambda>(a, b). (f a, f b)) (ring_pairs xs)"
  unfolding ring_pairs_def rotate1_map zip_map_map by (rule refl)

lemma ring_pairs_nth: "i < length xs \<Longrightarrow> ring_pairs xs ! i = (xs ! i, xs ! (Suc i mod length xs))"
  by (simp add: ring_pairs_def nth_rotate1)

lemma length_ring_pairs [simp]: "length (ring_pairs xs) = length xs"
  by (simp add: ring_pairs_def)

text \<open>The corner of a part at one of its points, and what a vertex of the buffer is at it.\<close>

lemma buffered_vertex:
  assumes "new_part \<in> set (buffer_polygon_part b part)" and "v \<in> set new_part"
  obtains k w where "k < length part" and "v = vertex_like (hd part) w"
    and "line_intersection (polygon_segments b part ! k) (polygon_segments b part ! (Suc k mod length part)) = Some w"
proof -
  let ?s = "polygon_segments b part"
  have len: "length ?s = length part" by (simp add: polygon_segments_def)
  have "v \<in> vertex_like (hd part) ` set (intersections (ring_pairs ?s))"
    using assms by (auto simp: buffer_polygon_part_def Let_def split: if_splits)
  then obtain w where w: "v = vertex_like (hd part) w" "w \<in> set (intersections (ring_pairs ?s))" by auto
  then obtain p where p: "p \<in> set (ring_pairs ?s)" "line_intersection (fst p) (snd p) = Some w"
    by (force simp: intersections_def map_filter_def)
  then obtain k where "k < length (ring_pairs ?s)" "ring_pairs ?s ! k = p" by (meson in_set_conv_nth)
  with p(2) w(1) len show ?thesis by (intro that [of k w]) (auto simp: ring_pairs_nth)
qed

lemma polygon_segment_nth:
  "k < length part \<Longrightarrow> polygon_segments b part ! k = shifted b (xyz (part ! k)) (xyz (part ! (Suc k mod length part)))"
  by (simp add: polygon_segments_def ring_pairs_nth)

lemma buffered_polygon_distance:
  assumes level: "\<And>p q. p \<in> set part \<Longrightarrow> q \<in> set part \<Longrightarrow> pz p = pz q"
    and v: "new_part \<in> set (buffer_polygon_part b part)" "v \<in> set new_part"
  shows "\<exists>k < length part.
    let vertex = (\<lambda>i. part ! (i mod length part)) in
    right_distance (vertex k) (vertex (k + 1)) v = b \<and> right_distance (vertex (k + 1)) (vertex (k + 2)) v = b"
proof -
  obtain k w where k: "k < length part" and vw: "v = vertex_like (hd part) w"
    and w: "line_intersection (polygon_segments b part ! k) (polygon_segments b part ! (Suc k mod length part)) = Some w"
    using buffered_vertex [OF v] by blast
  have mem: "part ! (i mod length part) \<in> set part" for i
    by (rule nth_mem, rule mod_less_divisor) (use k in linarith)
  note lines = intersection_on_lines [OF w] and proper = intersection_proper [OF w]
  have one: "right_distance (part ! (i mod length part)) (part ! (Suc i mod length part)) v = b"
    if "i = k \<or> i = Suc k" for i
  proof -
    have seg: "polygon_segments b part ! (i mod length part) =
        shifted b (xyz (part ! (i mod length part))) (xyz (part ! (Suc i mod length part)))"
    proof -
      have "i mod length part < length part" using k by (intro mod_less_divisor) linarith
      from polygon_segment_nth [OF this] show ?thesis by (simp add: mod_Suc_eq)
    qed
    show ?thesis unfolding vw
    proof (rule shifted_distance)
      show "pz (part ! (i mod length part)) = pz (part ! (Suc i mod length part))" by (intro level mem)
      show "on_line (shifted b (xyz (part ! (i mod length part))) (xyz (part ! (Suc i mod length part)))) w"
        using lines that k unfolding seg [symmetric] by auto
      show "fst (shifted b (xyz (part ! (i mod length part))) (xyz (part ! (Suc i mod length part)))) \<noteq>
          snd (shifted b (xyz (part ! (i mod length part))) (xyz (part ! (Suc i mod length part))))"
        using proper that k unfolding seg [symmetric] by auto
    qed
  qed
  from one [of k] one [of "Suc k"] k show ?thesis by (auto simp: Let_def)
qed

text \<open>A line of two points has one shifted segment and is lost when lines stay lines.\<close>

lemma short_line_lost: "length part \<le> 2 \<Longrightarrow> buffer_line_to_line b part = []"
  by (simp add: buffer_line_to_line_def path_pairs_def Let_def)

lemma buffered_line_empty:
  assumes "shape_type sh = TYPE_LINE" and "\<And>p. p \<in> set (parts sh) \<Longrightarrow> length p \<le> 2"
  shows "buffer_shape b False sh = Some (shape_new TYPE_LINE (srs sh))"
proof -
  have "concat (map (buffer_line_to_line b) (parts sh)) = []" using assms(2) by (simp add: short_line_lost)
  then show ?thesis
    using assms(1) by (simp add: buffer_shape_def buffer_parts_def modify_parts_def shape_new_def)
qed

end
