(* ===== verification/Hull_Filter.thy ===== *)
theory Hull_Filter
  imports Part_Filters
begin

text \<open>
  \<^verbatim>\<open>src/osgGIS/ConvexHullFilter.cpp\<close>: the points of all features are sorted by their angle around the
  lowest one and scanned for left turns. \<open>std::sort\<close> is an argument, as the comparison it is given
  need not be an order (see below).
\<close>

section \<open>Sorting\<close>

text \<open>Parts of more than two points; the test for holes is commented out in the code.\<close>

definition collect_points :: "'s feature list \<Rightarrow> 's geopoint list" where
  "collect_points fs =
     concat (filter (\<lambda>p. length p > 2) (concat (map parts (concat (map fshapes fs)))))"

definition lesser_angle :: "'s geopoint \<Rightarrow> 's geopoint \<Rightarrow> 's geopoint \<Rightarrow> bool" where
  "lesser_angle p v0 v1 =
     (let k0x = px v0 - px p; k0y = py v0 - py p; k1x = px v1 - px p; k1y = py v1 - py p
      in if k0x > 0 \<and> k1x < 0 then True
         else if k1x > 0 \<and> k0x < 0 then False
         else if k0x > 0 \<and> k1x > 0 then k0y / k0x < k1y / k1x
         else if k0x < 0 \<and> k1x < 0 then k0y / (- k0x) > k1y / (- k1x)
         else False)"

fun lowest_from :: "nat \<Rightarrow> real \<Rightarrow> real \<Rightarrow> nat option \<Rightarrow> 's geopoint list \<Rightarrow> nat option" where
  "lowest_from k ymin xmin r [] = r"
| "lowest_from k ymin xmin r (p # ps) =
     (if py p < ymin \<or> py p = ymin \<and> px p < xmin then lowest_from (Suc k) (py p) (px p) (Some k) ps
      else lowest_from (Suc k) ymin xmin r ps)"

definition sort_points ::
  "(('s geopoint \<Rightarrow> 's geopoint \<Rightarrow> bool) \<Rightarrow> 's geopoint list \<Rightarrow> 's geopoint list) \<Rightarrow>
     's geopoint list \<Rightarrow> 's geopoint list" where
  "sort_points std_sort ps =
     (case lowest_from 0 dbl_max dbl_max None ps of
        None \<Rightarrow> ps
      | Some i \<Rightarrow>
          let p = ps ! i in p # std_sort (lesser_angle p) (take i ps @ drop (Suc i) ps) @ [p])"

section \<open>The scan\<close>

definition cross2d :: "'s geopoint \<Rightarrow> 's geopoint \<Rightarrow> 's geopoint \<Rightarrow> real" where
  "cross2d p0 p1 p2 = (px p1 - px p0) * (py p2 - py p0) - (py p1 - py p0) * (px p2 - px p0)"

text \<open>
  The loop of \<open>buildHull\<close>: the points before the iterator, the last one first, and those from it on.
  Where the turn is not to the left the point before the iterator is erased, and the same point is
  looked at again.
\<close>

function scan :: "'s geopoint list \<Rightarrow> 's geopoint list \<Rightarrow> 's geopoint list" where
  "scan st [] = rev st"
| "scan (p1 # p0 # st) (p2 # ps) =
     (if cross2d p0 p1 p2 > 0 then scan (p2 # p1 # p0 # st) ps else scan (p0 # st) (p2 # ps))"
| "scan [p1] (p2 # ps) = scan [p2, p1] ps"
| "scan [] (p2 # ps) = scan [p2] ps"
  by pat_completeness auto
termination by (relation "measure (\<lambda>(st, ps). 2 * length ps + length st)") auto

definition build_hull :: "'s geopoint list \<Rightarrow> bool \<Rightarrow> 's geopoint list" where
  "build_hull ps close_loop =
     (if length ps \<ge> 3
      then let h = scan [ps ! 1, ps ! 0] (drop 2 ps) in if close_loop then h else butlast h
      else ps)"

definition derive_type :: "'s feature list \<Rightarrow> shape_type" where
  "derive_type fs =
     (case fs of [] \<Rightarrow> TYPE_POLYGON
      | f # _ \<Rightarrow> (case fshapes f of [] \<Rightarrow> TYPE_POLYGON | sh # _ \<Rightarrow> shape_type sh))"

text \<open>The points of the hull and the shape of the one feature that \<open>process\<close> returns.\<close>

definition hull_points ::
  "(('s geopoint \<Rightarrow> 's geopoint \<Rightarrow> bool) \<Rightarrow> 's geopoint list \<Rightarrow> 's geopoint list) \<Rightarrow>
     's feature list \<Rightarrow> 's geopoint list" where
  "hull_points std_sort fs =
     build_hull (sort_points std_sort (collect_points fs)) (derive_type fs = TYPE_LINE)"

definition hull_shape ::
  "(('s geopoint \<Rightarrow> 's geopoint \<Rightarrow> bool) \<Rightarrow> 's geopoint list \<Rightarrow> 's geopoint list) \<Rightarrow>
     's option \<Rightarrow> 's feature list \<Rightarrow> 's geoshape" where
  "hull_shape std_sort s fs = add_part (shape_new (derive_type fs) s) (hull_points std_sort fs)"

definition hull_process ::
  "(('s geopoint \<Rightarrow> 's geopoint \<Rightarrow> bool) \<Rightarrow> 's geopoint list \<Rightarrow> 's geopoint list) \<Rightarrow>
     ('s, 'o) filter_env \<Rightarrow> 's feature list \<Rightarrow> 's feature list" where
  "hull_process std_sort env fs =
     [modify_shapes simple_feature (\<lambda>shs. shs @ [hull_shape std_sort (in_srs env) fs])]"

section \<open>The hull turns left everywhere\<close>

fun turns_left :: "'s geopoint list \<Rightarrow> bool" where
  "turns_left (a # b # c # ps) \<longleftrightarrow> cross2d a b c > 0 \<and> turns_left (b # c # ps)"
| "turns_left ps \<longleftrightarrow> True"

lemma turns_left_snoc:
  "turns_left (ps @ [a, b]) \<Longrightarrow> cross2d a b c > 0 \<Longrightarrow> turns_left (ps @ [a, b, c])"
proof (induction ps)
  case (Cons p ps)
  then show ?case
  proof (cases ps)
    case (Cons q qs)
    then show ?thesis using Cons.IH Cons.prems by (cases qs) auto
  qed auto
qed auto

lemma turns_left_butlast: "turns_left ps \<Longrightarrow> turns_left (butlast ps)"
proof (induction ps rule: turns_left.induct)
  case (1 a b c ps)
  then show ?case by (cases ps) auto
qed auto

lemma turns_left_prefix: "turns_left (ps @ qs) \<Longrightarrow> turns_left ps"
proof (induction qs rule: rev_induct)
  case (snoc q qs)
  then show ?case using turns_left_butlast [of "ps @ qs @ [q]"] by (simp add: butlast_append)
qed simp

lemma scan_turns_left: "turns_left (rev st) \<Longrightarrow> turns_left (scan st ps)"
proof (induction st ps rule: scan.induct)
  case (2 p1 p0 st p2 ps)
  then show ?case
    using turns_left_snoc [of "rev st" p0 p1 p2] turns_left_prefix [of "rev st @ [p0]" "[p1]"] by auto
qed auto

lemma build_hull_turns_left: "turns_left (build_hull ps c)"
proof (cases "length ps \<ge> 3")
  case True
  then show ?thesis
    using scan_turns_left [of "[ps ! 1, ps ! 0]" "drop 2 ps"] turns_left_butlast
    by (auto simp: build_hull_def Let_def)
next
  case False
  then obtain a b where "ps = [] \<or> ps = [a] \<or> ps = [a, b]"
    by (cases ps; cases "tl ps"; cases "tl (tl ps)") auto
  then show ?thesis using False by (auto simp: build_hull_def)
qed

text \<open>The hull is a part of the sorted points, in their order, and starts with the first of them.\<close>

lemma scan_subseq: "subseq (scan st ps) (rev st @ ps)"
proof (induction st ps rule: scan.induct)
  case (2 p1 p0 st p2 ps)
  have "subseq (rev (p0 # st) @ p2 # ps) (rev (p1 # p0 # st) @ p2 # ps)"
    by (simp add: subseq_append' list_emb_Cons)
  with 2 show ?case by (auto intro: subseq_order.trans)
qed auto

lemma build_hull_subseq: "subseq (build_hull ps c) ps"
proof (cases "length ps \<ge> 3")
  case True
  then obtain a b qs where ps: "ps = a # b # qs" by (cases ps; cases "tl ps") auto
  have h: "subseq (scan [b, a] qs) ps" using scan_subseq [of "[b, a]" qs] by (simp add: ps)
  have "subseq (butlast xs) xs" for xs :: "'a geopoint list"
    by (cases xs rule: rev_cases) (simp_all add: subseq_rev_drop_many prefix_imp_subseq)
  with h True show ?thesis
    by (auto simp: build_hull_def Let_def ps intro: subseq_order.trans)
qed (simp add: build_hull_def)

lemma lowest_from_bound: "lowest_from k y x r ps = Some i \<Longrightarrow> r = Some i \<or> k \<le> i \<and> i < k + length ps"
  by (induction k y x r ps rule: lowest_from.induct) (auto split: if_splits)

lemma sort_points_set:
  assumes "\<And>lt xs. set (std_sort lt xs) \<subseteq> set xs"
  shows "set (sort_points std_sort ps) \<subseteq> set ps"
proof (cases "lowest_from 0 dbl_max dbl_max None ps")
  case (Some i)
  have "i < length ps" using lowest_from_bound [OF Some] by simp
  then have "ps ! i \<in> set ps" by simp
  moreover have "set (std_sort lt (take i ps @ drop (Suc i) ps)) \<subseteq> set ps" for lt
    using assms [of lt "take i ps @ drop (Suc i) ps"] set_take_subset [of i ps] set_drop_subset [of "Suc i" ps]
    by auto
  ultimately show ?thesis using Some by (auto simp: sort_points_def Let_def)
qed (simp add: sort_points_def)

lemma hull_points_set:
  assumes "\<And>lt xs. set (std_sort lt xs) \<subseteq> set xs"
  shows "set (hull_points std_sort fs) \<subseteq> set (collect_points fs)"
proof -
  have "set (hull_points std_sort fs) \<subseteq> set (sort_points std_sort (collect_points fs))"
    unfolding hull_points_def
    using list_emb_set [OF build_hull_subseq] by blast
  with sort_points_set [of std_sort "collect_points fs"] assms show ?thesis by blast
qed

section \<open>The comparison\<close>

text \<open>
  For points above the lowest one, the leftmost of the lowest, that are not straight above it the
  comparison is the order by angle, which is the sign of the cross product.
\<close>

definition above :: "'s geopoint \<Rightarrow> 's geopoint \<Rightarrow> bool" where
  "above p v \<longleftrightarrow> py p < py v \<or> py p = py v \<and> px p < px v"

lemma lesser_angle_cross:
  assumes "above p a" and "above p b" and "px a \<noteq> px p" and "px b \<noteq> px p"
  shows "lesser_angle p a b \<longleftrightarrow> cross2d p a b > 0"
proof -
  define x0 y0 x1 y1 where d: "x0 = px a - px p" "y0 = py a - py p" "x1 = px b - px p" "y1 = py b - py p"
  have c: "cross2d p a b = x0 * y1 - y0 * x1" by (simp add: cross2d_def d)
  have y: "y0 \<ge> 0" "y1 \<ge> 0" "y0 = 0 \<Longrightarrow> x0 > 0" "y1 = 0 \<Longrightarrow> x1 > 0"
    using assms(1,2) by (auto simp: above_def d)
  have x: "x0 \<noteq> 0" "x1 \<noteq> 0" using assms(3,4) by (auto simp: d)
  have la: "lesser_angle p a b =
      (if x0 > 0 \<and> x1 < 0 then True else if x1 > 0 \<and> x0 < 0 then False
       else if x0 > 0 \<and> x1 > 0 then y0 / x0 < y1 / x1
       else if x0 < 0 \<and> x1 < 0 then y0 / (- x0) > y1 / (- x1) else False)"
    by (simp only: lesser_angle_def Let_def d)
  consider "x0 > 0" "x1 < 0" | "x1 > 0" "x0 < 0" | "x0 > 0" "x1 > 0" | "x0 < 0" "x1 < 0"
    using x by linarith
  then show ?thesis
  proof cases
    case 1
    then have "y1 > 0" using y by (metis less_eq_real_def not_less_iff_gr_or_eq)
    then have "x0 * y1 > 0" "y0 * x1 \<le> 0" using 1 y by (simp_all add: mult_nonneg_nonpos)
    then show ?thesis using 1 by (simp add: la c)
  next
    case 2
    then have "x0 * y1 \<le> 0" "y0 * x1 \<ge> 0" using y by (simp_all add: mult_nonpos_nonneg)
    then show ?thesis using 2 by (simp add: la c)
  next
    case 3
    then show ?thesis by (simp add: la c field_simps)
  next
    case 4
    then have "y0 / (- x0) > y1 / (- x1) \<longleftrightarrow> y1 * (- x0) < y0 * (- x1)" by (simp add: frac_less_eq field_simps)
    with 4 show ?thesis by (simp add: la c algebra_simps)
  qed
qed

text \<open>A point straight above the lowest one compares equal to every other: that is no order.\<close>

lemma vertical_incomparable:
  "px v = px p \<Longrightarrow> \<not> lesser_angle p v w \<and> \<not> lesser_angle p w v"
  by (simp add: lesser_angle_def Let_def)

end
