(* ===== verification/Combine_Lines.thy ===== *)
theory Combine_Lines
  imports Part_Filters Ogr_Srs "HOL-Library.Multiset"
begin

text \<open>
  \<^verbatim>\<open>src/osgGIS/CombineLinesFilter.cpp\<close>: lines that share an endpoint are joined until no two are
  left that do. The list of segments is what the iterator has passed and kept, and the queue from it
  on; a segment object is its value with its number, and the active ones are a list of numbers. The
  index is a \<open>std::map\<close> under the order of \<open>osg::Vec3d\<close>, so its keys are coordinates.
\<close>

section \<open>Segments\<close>

record 's line_seg =
  seg_id :: nat
  seg_points :: "'s geopoint list"

record 's combine_state =
  kept_segs :: "'s line_seg list"
  seg_queue :: "'s line_seg list"
  active_ids :: "nat list"
  next_seg_id :: nat
  end_map :: "vec3 \<Rightarrow> 's line_seg option"

definition seg_active :: "'s combine_state \<Rightarrow> 's line_seg \<Rightarrow> bool" where
  "seg_active st s \<longleftrightarrow> seg_id s \<in> set (active_ids st)"

fun number_segs :: "nat \<Rightarrow> 's geopoint list list \<Rightarrow> 's line_seg list" where
  "number_segs n [] = []"
| "number_segs n (p # ps) = \<lparr>seg_id = n, seg_points = p\<rparr> # number_segs (Suc n) ps"

definition collect_parts :: "'s feature list \<Rightarrow> 's geopoint list list" where
  "collect_parts fs =
     filter (\<lambda>p. length p > 0) (concat (map parts (concat (map fshapes fs))))"

definition combine_start :: "'s geopoint list list \<Rightarrow> 's combine_state" where
  "combine_start ps =
     \<lparr>kept_segs = [], seg_queue = number_segs 0 ps, active_ids = [0..<length ps],
      next_seg_id = length ps, end_map = (\<lambda>_. None)\<rparr>"

text \<open>Another active segment that the index holds at a point.\<close>

definition find_end :: "'s combine_state \<Rightarrow> 's line_seg \<Rightarrow> 's geopoint \<Rightarrow> 's line_seg option" where
  "find_end st s p =
     (case end_map st (xyz p) of
        None \<Rightarrow> None
      | Some ep \<Rightarrow> if seg_active st ep \<and> seg_id s \<noteq> seg_id ep then Some ep else None)"

definition join_front :: "'s srs_vt \<Rightarrow> 's geopoint list \<Rightarrow> 's geopoint list \<Rightarrow> 's geopoint list" where
  "join_front V s e = (if point_eq V (hd s) (hd e) then rev (tl s) @ e else e @ tl s)"

definition join_back :: "'s srs_vt \<Rightarrow> 's geopoint list \<Rightarrow> 's geopoint list \<Rightarrow> 's geopoint list" where
  "join_back V s e = (if point_eq V (last s) (hd e) then butlast s @ e else e @ rev (butlast s))"

text \<open>
  The new segment goes to the end of the list, the two old ones become inactive, and the entry that
  was found makes room for those of the new segment.
\<close>

definition put_combined ::
  "'s combine_state \<Rightarrow> 's line_seg list \<Rightarrow> 's line_seg \<Rightarrow> 's line_seg \<Rightarrow> vec3 \<Rightarrow> 's geopoint list \<Rightarrow> 's combine_state" where
  "put_combined st rest s ep key pts =
     (let new_seg = \<lparr>seg_id = next_seg_id st, seg_points = pts\<rparr>
      in st\<lparr>seg_queue := rest @ [new_seg],
            active_ids := next_seg_id st # filter (\<lambda>i. i \<noteq> seg_id s \<and> i \<noteq> seg_id ep) (active_ids st),
            next_seg_id := Suc (next_seg_id st),
            end_map := (end_map st)(key := None, xyz (hd pts) := Some new_seg, xyz (last pts) := Some new_seg)\<rparr>)"

definition keep_seg :: "'s srs_vt \<Rightarrow> 's combine_state \<Rightarrow> 's line_seg list \<Rightarrow> 's line_seg \<Rightarrow> 's combine_state" where
  "keep_seg V st rest s =
     (let a = hd (seg_points s); b = last (seg_points s); m = (end_map st)(xyz a := Some s)
      in st\<lparr>kept_segs := kept_segs st @ [s], seg_queue := rest,
            end_map := (if \<not> point_eq V a b then m(xyz b := Some s) else m)\<rparr>)"

definition combine_step :: "'s srs_vt \<Rightarrow> 's combine_state \<Rightarrow> 's line_seg \<Rightarrow> 's line_seg list \<Rightarrow> 's combine_state" where
  "combine_step V st s rest =
     (let ps = seg_points s
      in if \<not> seg_active st s then st\<lparr>seg_queue := rest\<rparr>
         else case find_end st s (hd ps) of
           Some ep \<Rightarrow> put_combined st rest s ep (xyz (hd ps)) (join_front V ps (seg_points ep))
         | None \<Rightarrow>
             (case (if length ps > 1 then find_end st s (last ps) else None) of
                Some ep \<Rightarrow> put_combined st rest s ep (xyz (last ps)) (join_back V ps (seg_points ep))
              | None \<Rightarrow> keep_seg V st rest s))"

lemma find_end_active: "find_end st s p = Some ep \<Longrightarrow>
    seg_active st ep \<and> seg_id s \<noteq> seg_id ep \<and> end_map st (xyz p) = Some ep"
  by (auto simp: find_end_def split: option.splits if_splits)

text \<open>Each round removes a segment from the queue or an active one from the whole.\<close>

lemma filter_two_less:
  assumes "a \<in> set xs" and "b \<in> set xs" and "a \<noteq> b"
  shows "Suc (length (filter (\<lambda>i. i \<noteq> a \<and> i \<noteq> b) xs)) < length xs"
proof -
  have "length (filter (\<lambda>i. i \<noteq> a \<and> i \<noteq> b) xs) = length (filter (\<lambda>i. i \<noteq> b) (filter (\<lambda>i. i \<noteq> a) xs))"
    by (induction xs) auto
  moreover have "length (filter (\<lambda>i. i \<noteq> b) (filter (\<lambda>i. i \<noteq> a) xs)) < length (filter (\<lambda>i. i \<noteq> a) xs)"
    using assms(2,3) by (intro length_filter_less [of b]) auto
  moreover have "length (filter (\<lambda>i. i \<noteq> a) xs) < length xs"
    using assms(1) by (intro length_filter_less [of a]) auto
  ultimately show ?thesis by linarith
qed

lemma put_combined_less:
  assumes "seg_active st s" and "seg_active st ep" and "seg_id s \<noteq> seg_id ep"
  shows "length (active_ids (put_combined st rest s ep key pts)) < length (active_ids st)"
  using filter_two_less [of "seg_id s" "active_ids st" "seg_id ep"] assms
  by (simp add: put_combined_def Let_def seg_active_def)

lemma combine_step_less:
  "length (active_ids (combine_step V st s rest)) < length (active_ids st) \<or>
   length (active_ids (combine_step V st s rest)) = length (active_ids st) \<and>
     seg_queue (combine_step V st s rest) = rest"
  by (auto simp: combine_step_def Let_def keep_seg_def dest!: find_end_active intro: put_combined_less
      split: option.split if_splits)

function combine_loop :: "'s srs_vt \<Rightarrow> 's combine_state \<Rightarrow> 's combine_state" where
  "combine_loop V st =
     (case seg_queue st of [] \<Rightarrow> st | s # rest \<Rightarrow> combine_loop V (combine_step V st s rest))"
  by pat_completeness auto
termination
proof (relation "measures [\<lambda>(V, st). length (active_ids st), \<lambda>(V, st). length (seg_queue st)]", goal_cases)
  case (2 V st s rest)
  then show ?case using combine_step_less [of V st s rest] by auto
qed simp

declare combine_loop.simps [simp del]

definition combined_segs :: "'s srs_vt \<Rightarrow> 's geopoint list list \<Rightarrow> 's geopoint list list" where
  "combined_segs V ps =
     (let st = combine_loop V (combine_start ps) in map seg_points (filter (seg_active st) (kept_segs st)))"

definition combine_process ::
  "'s srs_vt \<Rightarrow> ('s, 'o) filter_env \<Rightarrow> 's feature list \<Rightarrow> 's feature list" where
  "combine_process V env fs =
     map (\<lambda>p. modify_shapes simple_feature
        (\<lambda>shs. shs @ [modify_parts (shape_new TYPE_LINE (in_srs env)) (\<lambda>qs. qs @ [p])]))
       (combined_segs V (collect_parts fs))"

section \<open>Edges\<close>

text \<open>The edges of a line, without direction, as often as it has them.\<close>

fun edges :: "vec3 list \<Rightarrow> vec3 set multiset" where
  "edges (a # b # vs) = add_mset {a, b} (edges (b # vs))"
| "edges vs = {#}"

lemma edges_append:
  "us \<noteq> [] \<Longrightarrow> vs \<noteq> [] \<Longrightarrow> edges (us @ vs) = edges us + {#{last us, hd vs}#} + edges vs"
proof (induction us)
  case (Cons u us)
  then show ?case by (cases us; cases vs) auto
qed simp

lemma edges_rev [simp]: "edges (rev vs) = edges vs"
proof (induction vs rule: edges.induct)
  case (1 a b vs)
  have "edges (rev (b # vs) @ [a]) = edges (rev (b # vs)) + {#{last (rev (b # vs)), a}#} + edges [a]"
    using edges_append [of "rev (b # vs)" "[a]"] by simp
  with 1 show ?case by (simp add: insert_commute last_rev)
qed auto

lemma edges_Cons: "vs \<noteq> [] \<Longrightarrow> edges (a # vs) = add_mset {a, hd vs} (edges vs)"
  by (cases vs) auto

lemma edges_snoc: "vs \<noteq> [] \<Longrightarrow> edges (vs @ [a]) = add_mset {last vs, a} (edges vs)"
  using edges_append [of vs "[a]"] by simp

definition line_edges :: "'s geopoint list \<Rightarrow> vec3 set multiset" where
  "line_edges ps = edges (map xyz ps)"

text \<open>Joining two lines at a point they share keeps the edges of both.\<close>

lemma edges_join_front:
  assumes "s \<noteq> []" and "e \<noteq> []" and "hd s = hd e \<or> hd s = last e"
  shows "hd s = hd e \<Longrightarrow> edges (rev (tl s) @ e) = edges s + edges e"
    and "hd s = last e \<Longrightarrow> edges (e @ tl s) = edges s + edges e"
proof -
  obtain a vs where s: "s = a # vs" using assms(1) by (cases s) auto
  show "edges (rev (tl s) @ e) = edges s + edges e" if "hd s = hd e"
  proof (cases "vs = []")
    case False
    then show ?thesis using that assms(2)
      by (simp add: s edges_append edges_Cons last_rev insert_commute)
  qed (simp add: s)
  show "edges (e @ tl s) = edges s + edges e" if "hd s = last e"
  proof (cases "vs = []")
    case False
    then show ?thesis using that assms(2) by (simp add: s edges_append edges_Cons)
  qed (simp add: s)
qed

lemma edges_join_back:
  assumes "s \<noteq> []" and "e \<noteq> []"
  shows "last s = hd e \<Longrightarrow> edges (butlast s @ e) = edges s + edges e"
    and "last s = last e \<Longrightarrow> edges (e @ rev (butlast s)) = edges s + edges e"
proof -
  obtain a vs where s: "s = vs @ [a]" using assms(1) by (cases s rule: rev_cases) auto
  show "edges (butlast s @ e) = edges s + edges e" if "last s = hd e"
  proof (cases "vs = []")
    case False
    then show ?thesis using that assms(2) by (simp add: s edges_append edges_snoc)
  qed (simp add: s)
  show "edges (e @ rev (butlast s)) = edges s + edges e" if "last s = last e"
  proof (cases "vs = []")
    case False
    then show ?thesis using that assms(2)
      by (simp add: s edges_append edges_snoc hd_rev insert_commute)
  qed (simp add: s)
qed

section \<open>Combining keeps the edges\<close>

text \<open>
  The points are in one reference and of one dimension, so that equality of points is equality of
  coordinates, as the keys of the index see it.
\<close>

definition coordinates_decide :: "'s srs_vt \<Rightarrow> 's geopoint set \<Rightarrow> bool" where
  "coordinates_decide V ps \<longleftrightarrow> (\<forall>p \<in> ps. \<forall>q \<in> ps. point_eq V p q \<longleftrightarrow> xyz p = xyz q)"

definition all_segs :: "'s combine_state \<Rightarrow> 's line_seg list" where
  "all_segs st = kept_segs st @ seg_queue st"

definition active_edges :: "nat set \<Rightarrow> 's line_seg list \<Rightarrow> vec3 set multiset" where
  "active_edges A ss = (\<Sum>s \<leftarrow> filter (\<lambda>s. seg_id s \<in> A) ss. line_edges (seg_points s))"

definition seg_ends :: "'s line_seg \<Rightarrow> vec3 set" where
  "seg_ends s = {xyz (hd (seg_points s)), xyz (last (seg_points s))}"

definition combine_ok :: "'s geopoint set \<Rightarrow> 's combine_state \<Rightarrow> bool" where
  "combine_ok P st \<longleftrightarrow>
     distinct (map seg_id (all_segs st)) \<and>
     (\<forall>s \<in> set (all_segs st). seg_id s < next_seg_id st \<and> seg_points s \<noteq> [] \<and> set (seg_points s) \<subseteq> P) \<and>
     (\<forall>i \<in> set (active_ids st). i < next_seg_id st) \<and>
     (\<forall>k ep. end_map st k = Some ep \<longrightarrow> seg_id ep < next_seg_id st) \<and>
     (\<forall>k ep. end_map st k = Some ep \<longrightarrow> seg_active st ep \<longrightarrow> ep \<in> set (all_segs st) \<and> k \<in> seg_ends ep)"

lemma active_edges_append: "active_edges A (xs @ ys) = active_edges A xs + active_edges A ys"
  by (simp add: active_edges_def)

lemma active_edges_without:
  "distinct (map seg_id ss) \<Longrightarrow> s \<in> set ss \<Longrightarrow> seg_id s \<in> A \<Longrightarrow>
     active_edges A ss = line_edges (seg_points s) + active_edges (A - {seg_id s}) ss"
proof (induction ss)
  case (Cons t ss)
  show ?case
  proof (cases "t = s")
    case True
    have "filter (\<lambda>x. seg_id x \<in> A) ss = filter (\<lambda>x. seg_id x \<in> A - {seg_id s}) ss"
      using Cons.prems(1) True by (intro filter_cong) (auto, metis image_eqI)
    then show ?thesis using True Cons.prems by (simp add: active_edges_def)
  next
    case False
    then have "s \<in> set ss" using Cons.prems by simp
    moreover from this have "seg_id t \<noteq> seg_id s" using Cons.prems(1) by auto
    ultimately show ?thesis using Cons by (simp add: active_edges_def)
  qed
qed simp

lemma active_edges_cong:
  "(\<And>s. s \<in> set ss \<Longrightarrow> seg_id s \<in> A \<longleftrightarrow> seg_id s \<in> B) \<Longrightarrow> active_edges A ss = active_edges B ss"
  unfolding active_edges_def by (rule arg_cong [of _ _ sum_list], rule arg_cong [of _ _ "map _"], rule filter_cong) auto

lemma join_front_edges:
  assumes "coordinates_decide V P" and "set s \<subseteq> P" and "set e \<subseteq> P" and "s \<noteq> []" and "e \<noteq> []"
    and "xyz (hd s) \<in> {xyz (hd e), xyz (last e)}"
  shows "line_edges (join_front V s e) = line_edges s + line_edges e \<and>
    set (join_front V s e) \<subseteq> P \<and> join_front V s e \<noteq> []"
proof -
  have mem: "hd s \<in> P" "hd e \<in> P" using assms(2-5) by auto
  have maps: "map xyz s \<noteq> []" "map xyz e \<noteq> []" using assms(4,5) by simp_all
  have eq: "point_eq V (hd s) (hd e) \<longleftrightarrow> hd (map xyz s) = hd (map xyz e)"
    using assms(1,4,5) mem by (simp add: coordinates_decide_def hd_map)
  have ends: "hd (map xyz s) = hd (map xyz e) \<or> hd (map xyz s) = last (map xyz e)"
    using assms(4-6) by (auto simp: hd_map last_map)
  have "line_edges (join_front V s e) = line_edges s + line_edges e"
    using edges_join_front [OF maps ends] ends
    by (auto simp: line_edges_def join_front_def eq rev_map [symmetric] map_tl)
  then show ?thesis using assms(2-5) by (auto simp: join_front_def dest: list.set_sel(2))
qed

lemma join_back_edges:
  assumes "coordinates_decide V P" and "set s \<subseteq> P" and "set e \<subseteq> P" and "s \<noteq> []" and "e \<noteq> []"
    and "xyz (last s) \<in> {xyz (hd e), xyz (last e)}"
  shows "line_edges (join_back V s e) = line_edges s + line_edges e \<and>
    set (join_back V s e) \<subseteq> P \<and> join_back V s e \<noteq> []"
proof -
  have mem: "last s \<in> P" "hd e \<in> P" using assms(2-5) by auto
  have maps: "map xyz s \<noteq> []" "map xyz e \<noteq> []" using assms(4,5) by simp_all
  have eq: "point_eq V (last s) (hd e) \<longleftrightarrow> last (map xyz s) = hd (map xyz e)"
    using assms(1,4,5) mem by (simp add: coordinates_decide_def hd_map last_map)
  have ends: "last (map xyz s) = hd (map xyz e) \<or> last (map xyz s) = last (map xyz e)"
    using assms(4-6) by (auto simp: hd_map last_map)
  have "line_edges (join_back V s e) = line_edges s + line_edges e"
    using edges_join_back [OF maps] ends
    by (auto simp: line_edges_def join_back_def eq rev_map [symmetric] map_butlast)
  then show ?thesis using assms(2-5) by (auto simp: join_back_def dest: in_set_butlastD)
qed

text \<open>What a round that combines does: the edges of the two go into the new segment.\<close>

lemma put_combined_ok:
  assumes ok: "combine_ok P st" and q: "seg_queue st = s # rest"
    and act: "seg_active st s" "seg_active st ep" "seg_id s \<noteq> seg_id ep" and ep: "end_map st key = Some ep"
    and pts: "line_edges pts = line_edges (seg_points s) + line_edges (seg_points ep)" "set pts \<subseteq> P" "pts \<noteq> []"
  defines "st' \<equiv> put_combined st rest s ep key pts"
  shows "combine_ok P st' \<and>
    active_edges (set (active_ids st')) (all_segs st') = active_edges (set (active_ids st)) (all_segs st)"
proof -
  let ?new = "\<lparr>seg_id = next_seg_id st, seg_points = pts\<rparr>"
  let ?A = "set (active_ids st)" and ?L = "kept_segs st @ rest"
  let ?B = "?A - {seg_id s} - {seg_id ep}"
  have all: "all_segs st' = ?L @ [?new]" "set (active_ids st') = insert (next_seg_id st) ?B"
    "next_seg_id st' = Suc (next_seg_id st)"
    by (auto simp: st'_def put_combined_def Let_def all_segs_def)
  have old: "set (all_segs st) = insert s (set ?L)" by (auto simp: all_segs_def q)
  have ids: "distinct (map seg_id (all_segs st))"
    and segs: "\<And>x. x \<in> set (all_segs st) \<Longrightarrow> seg_id x < next_seg_id st \<and> seg_points x \<noteq> [] \<and> set (seg_points x) \<subseteq> P"
    and actives: "\<And>i. i \<in> ?A \<Longrightarrow> i < next_seg_id st"
    and ends: "\<And>k x. end_map st k = Some x \<Longrightarrow> seg_id x < next_seg_id st"
    and fits: "\<And>k x. end_map st k = Some x \<Longrightarrow> seg_active st x \<Longrightarrow> x \<in> set (all_segs st) \<and> k \<in> seg_ends x"
    using ok unfolding combine_ok_def by blast+
  have member: "ep \<in> set (all_segs st)" "s \<in> set (all_segs st)"
    using fits [OF ep act(2)] old by simp_all
  have fresh: "seg_id x \<noteq> next_seg_id st" if "x \<in> set ?L" for x
    using segs [of x] that old by auto
  have entry: "k \<in> seg_ends ?new \<and> x = ?new \<or> end_map st k = Some x" if "end_map st' k = Some x" for k x
    using that by (auto simp: st'_def put_combined_def Let_def seg_ends_def split: if_splits)
  have "next_seg_id st \<notin> seg_id ` set ?L" using fresh by (metis imageE)
  then have "distinct (map seg_id (?L @ [?new]))"
    using ids by (auto simp: all_segs_def q)
  then have "distinct (map seg_id (all_segs st'))" by (simp only: all(1))
  moreover have "seg_id x < next_seg_id st' \<and> seg_points x \<noteq> [] \<and> set (seg_points x) \<subseteq> P"
    if "x \<in> set (all_segs st')" for x
    using that segs [of x] old pts by (auto simp: all(1,3) less_Suc_eq)
  moreover have "i < next_seg_id st'" if "i \<in> set (active_ids st')" for i
    using that actives [of i] by (auto simp: all less_Suc_eq)
  moreover have "seg_id x < next_seg_id st'" if "end_map st' k = Some x" for k x
    using entry [OF that] ends [of k x] by (auto simp: all(3) less_Suc_eq)
  moreover have "x \<in> set (all_segs st') \<and> k \<in> seg_ends x" if e: "end_map st' k = Some x" and a: "seg_active st' x" for k x
    using entry [OF e]
  proof
    assume m: "end_map st k = Some x"
    have "seg_id x \<in> ?B" using a ends [OF m] by (auto simp: seg_active_def all(2))
    with fits [OF m] old show ?thesis by (auto simp: seg_active_def all(1))
  qed (simp add: all(1))
  ultimately have "combine_ok P st'" by (simp add: combine_ok_def)
  moreover have "active_edges (insert (next_seg_id st) ?B) ?L = active_edges ?B ?L"
    using fresh by (intro active_edges_cong) auto
  moreover have "active_edges ?A (all_segs st) =
      line_edges (seg_points s) + (line_edges (seg_points ep) + active_edges ?B (all_segs st))"
    using active_edges_without [OF ids member(2), of ?A] active_edges_without [OF ids member(1), of "?A - {seg_id s}"] act
    by (simp add: seg_active_def)
  moreover have "active_edges ?B (all_segs st) = active_edges ?B ?L"
    by (simp add: all_segs_def q active_edges_append) (simp add: active_edges_def)
  moreover have "active_edges (insert (next_seg_id st) ?B) [?new] = line_edges pts"
    by (simp add: active_edges_def)
  ultimately show ?thesis
    by (simp add: all(1,2) active_edges_append pts(1) add.assoc) 
qed

lemma keep_seg_ok:
  assumes ok: "combine_ok P st" and q: "seg_queue st = s # rest"
  shows "combine_ok P (keep_seg V st rest s) \<and> all_segs (keep_seg V st rest s) = all_segs st \<and>
    active_ids (keep_seg V st rest s) = active_ids st"
proof -
  have all: "all_segs (keep_seg V st rest s) = all_segs st" "active_ids (keep_seg V st rest s) = active_ids st"
    "next_seg_id (keep_seg V st rest s) = next_seg_id st"
    by (simp_all add: keep_seg_def Let_def all_segs_def q)
  have s: "s \<in> set (all_segs st)" by (simp add: all_segs_def q)
  have entry: "k \<in> seg_ends s \<and> x = s \<or> end_map st k = Some x"
    if "end_map (keep_seg V st rest s) k = Some x" for k x
    using that by (auto simp: keep_seg_def Let_def seg_ends_def split: if_splits)
  have "seg_id x < next_seg_id st" if "end_map (keep_seg V st rest s) k = Some x" for k x
    using entry [OF that] ok s unfolding combine_ok_def by blast
  moreover have "x \<in> set (all_segs st) \<and> k \<in> seg_ends x"
    if "end_map (keep_seg V st rest s) k = Some x" "seg_active st x" for k x
    using entry [OF that(1)] that(2) ok s unfolding combine_ok_def by blast
  moreover have "seg_active (keep_seg V st rest s) x = seg_active st x" for x by (simp add: seg_active_def all)
  ultimately show ?thesis using ok by (simp add: combine_ok_def all)
qed

lemma combine_step_ok:
  assumes V: "coordinates_decide V P" and ok: "combine_ok P st" and q: "seg_queue st = s # rest"
  defines "st' \<equiv> combine_step V st s rest"
  shows "combine_ok P st' \<and>
    active_edges (set (active_ids st')) (all_segs st') = active_edges (set (active_ids st)) (all_segs st)"
proof (cases "seg_active st s")
  case False
  then have "st' = st\<lparr>seg_queue := rest\<rparr>" by (simp add: st'_def combine_step_def)
  moreover have "x \<noteq> s" if "seg_active st x" for x using False that by auto
  ultimately show ?thesis
    using ok False by (auto simp: combine_ok_def all_segs_def q active_edges_append seg_active_def) (auto simp: active_edges_def)
next
  case True
  have s: "seg_points s \<noteq> []" "set (seg_points s) \<subseteq> P"
    using ok by (auto simp: combine_ok_def all_segs_def q)
  have found: "ep \<in> set (all_segs st) \<and> xyz p \<in> seg_ends ep \<and> seg_points ep \<noteq> [] \<and> set (seg_points ep) \<subseteq> P"
    if "find_end st s p = Some ep" for p ep
    using find_end_active [OF that] ok unfolding combine_ok_def by blast
  consider (at_front) ep where "find_end st s (hd (seg_points s)) = Some ep"
      "st' = put_combined st rest s ep (xyz (hd (seg_points s))) (join_front V (seg_points s) (seg_points ep))"
    | (at_back) ep where "find_end st s (last (seg_points s)) = Some ep"
      "st' = put_combined st rest s ep (xyz (last (seg_points s))) (join_back V (seg_points s) (seg_points ep))"
    | (neither) "st' = keep_seg V st rest s"
  proof -
    have st': "st' = (case find_end st s (hd (seg_points s)) of
        Some ep \<Rightarrow> put_combined st rest s ep (xyz (hd (seg_points s))) (join_front V (seg_points s) (seg_points ep))
      | None \<Rightarrow> (case (if length (seg_points s) > 1 then find_end st s (last (seg_points s)) else None) of
          Some ep \<Rightarrow> put_combined st rest s ep (xyz (last (seg_points s))) (join_back V (seg_points s) (seg_points ep))
        | None \<Rightarrow> keep_seg V st rest s))"
      using True by (simp add: st'_def combine_step_def Let_def)
    show ?thesis
    proof (cases "find_end st s (hd (seg_points s))")
      case (Some ep)
      with st' show ?thesis by (intro that(1) [of ep]) simp_all
    next
      case None
      then show ?thesis
        using st' that(3) that(2) [of "the (find_end st s (last (seg_points s)))"]
        by (cases "find_end st s (last (seg_points s))") (auto split: if_splits)
    qed
  qed
  then show ?thesis
  proof cases
    case at_front
    note j = join_front_edges [OF V s(2) _ s(1), of "seg_points ep"] and f = found [OF at_front(1)]
    have "line_edges (join_front V (seg_points s) (seg_points ep)) = line_edges (seg_points s) + line_edges (seg_points ep) \<and>
        set (join_front V (seg_points s) (seg_points ep)) \<subseteq> P \<and> join_front V (seg_points s) (seg_points ep) \<noteq> []"
      using f by (intro j) (auto simp: seg_ends_def)
    then show ?thesis
      unfolding at_front(2) using find_end_active [OF at_front(1)] True by (intro put_combined_ok [OF ok q]) auto
  next
    case at_back
    note j = join_back_edges [OF V s(2) _ s(1), of "seg_points ep"] and f = found [OF at_back(1)]
    have "line_edges (join_back V (seg_points s) (seg_points ep)) = line_edges (seg_points s) + line_edges (seg_points ep) \<and>
        set (join_back V (seg_points s) (seg_points ep)) \<subseteq> P \<and> join_back V (seg_points s) (seg_points ep) \<noteq> []"
      using f by (intro j) (auto simp: seg_ends_def)
    then show ?thesis
      unfolding at_back(2) using find_end_active [OF at_back(1)] True by (intro put_combined_ok [OF ok q]) auto
  next
    case neither
    with keep_seg_ok [OF ok q, of V] show ?thesis by simp
  qed
qed

lemma combine_loop_ok:
  assumes V: "coordinates_decide V P"
  shows "combine_ok P st \<Longrightarrow> combine_ok P (combine_loop V st) \<and> seg_queue (combine_loop V st) = [] \<and>
    active_edges (set (active_ids (combine_loop V st))) (all_segs (combine_loop V st)) =
      active_edges (set (active_ids st)) (all_segs st)"
  using V
proof (induction V st rule: combine_loop.induct)
  case (1 V st)
  show ?case
  proof (cases "seg_queue st")
    case Nil
    then show ?thesis using 1 by (simp add: combine_loop.simps)
  next
    case (Cons s rest)
    note step = combine_step_ok [OF "1.prems"(2,1) Cons]
    have "combine_loop V st = combine_loop V (combine_step V st s rest)"
      by (subst combine_loop.simps) (simp add: Cons)
    with "1.IH" [OF Cons conjunct1 [OF step] "1.prems"(2)] step show ?thesis by simp
  qed
qed

lemma number_segs_props:
  "map seg_id (number_segs n ps) = [n..<n + length ps] \<and> map seg_points (number_segs n ps) = ps"
  by (induction n ps rule: number_segs.induct) (simp_all add: upt_conv_Cons del: upt_Suc)

lemma combine_start_ok:
  assumes "list_all (\<lambda>p. p \<noteq> []) ps"
  shows "combine_ok (\<Union> (set ` set ps)) (combine_start ps)"
    and "active_edges (set (active_ids (combine_start ps))) (all_segs (combine_start ps)) =
      (\<Sum>p \<leftarrow> ps. line_edges p)"
proof -
  let ?ss = "number_segs 0 ps"
  have ids: "map seg_id ?ss = [0..<length ps]" and pts: "map seg_points ?ss = ps"
    using number_segs_props [of 0 ps] by simp_all
  have id: "seg_id s < length ps" if "s \<in> set ?ss" for s
    using arg_cong [OF ids, of set] that by auto
  have pt: "seg_points s \<in> set ps" if "s \<in> set ?ss" for s
    using arg_cong [OF pts, of set] that by auto
  show "combine_ok (\<Union> (set ` set ps)) (combine_start ps)"
    using id pt assms by (auto simp: combine_ok_def combine_start_def all_segs_def ids list_all_iff)
  have "filter (\<lambda>s. seg_id s \<in> set [0..<length ps]) ?ss = ?ss" using id by (intro filter_True) auto
  moreover have "map (\<lambda>s. line_edges (seg_points s)) ?ss = map line_edges ps"
    using arg_cong [OF pts, of "map line_edges"] by (simp add: comp_def)
  ultimately show "active_edges (set (active_ids (combine_start ps))) (all_segs (combine_start ps)) =
      (\<Sum>p \<leftarrow> ps. line_edges p)"
    by (simp add: active_edges_def combine_start_def all_segs_def)
qed

lemma combined_edges:
  assumes "coordinates_decide V (\<Union> (set ` set ps))" and "list_all (\<lambda>p. p \<noteq> []) ps"
  shows "(\<Sum>p \<leftarrow> combined_segs V ps. line_edges p) = (\<Sum>p \<leftarrow> ps. line_edges p)"
proof -
  let ?st = "combine_loop V (combine_start ps)"
  have ok: "seg_queue ?st = []"
    "active_edges (set (active_ids ?st)) (all_segs ?st) = (\<Sum>p \<leftarrow> ps. line_edges p)"
    using combine_loop_ok [OF assms(1) combine_start_ok(1) [OF assms(2)]] combine_start_ok(2) [OF assms(2)]
    by simp_all
  then show ?thesis
    by (simp add: combined_segs_def Let_def active_edges_def all_segs_def seg_active_def [abs_def] comp_def)
qed

end
