(* ===== verification/Map_Layer.thy ===== *)
theory Map_Layer
  imports Quad_Key Filter_Env "HOL-Library.Multiset"
begin

text \<open>
  \<^verbatim>\<open>src/osgGISProjects/MapLayer.cpp\<close>, \<^verbatim>\<open>MapLayerLevelOfDetail.cpp\<close> and the grids of
  \<^verbatim>\<open>GriddedMapLayerCompiler.cpp\<close>: the levels of a map layer, its area of interest, the reference of its
  output, the grid of its cells and the keys of the cells.
  Feature layers and filters are arguments; a division by zero or a conversion of a number that does
  not fit is \<open>None\<close>.
\<close>

section \<open>Levels\<close>

record ('l, 'g, 'o) lod_level =
  ll_layer :: 'l
  ll_graph :: "'g option"
  ll_env_props :: "'o property list"
  ll_packager :: "'o option"
  ll_min_range :: real
  ll_max_range :: real
  ll_replace :: bool
  ll_depth :: nat
  ll_user_data :: "'o option"

text \<open>What is asked of a feature layer and of a filter of the first level.\<close>

record ('s, 'l) layer_vt =
  lv_extent :: "'l \<Rightarrow> 's geoextent"
  lv_srs :: "'l \<Rightarrow> 's option"

record ('s, 'o) transform_info =
  xf_use_terrain :: bool
  xf_srs :: "'s option"
  xf_script :: "'o option"

text \<open>A direction of a grid: the number of cells, the size of each, and that of the last one.\<close>

record axis =
  ax_count :: nat
  ax_size :: real
  ax_last :: real

record ('s, 'l, 'g, 'o) tiled_layer =
  tl_aoi_manual :: "'s geoextent"
  tl_aoi_auto :: "'s geoextent"
  tl_cell_width :: real
  tl_cell_height :: real
  tl_encode_radius :: bool
  tl_levels :: "('l, 'g, 'o) lod_level list"
  tl_output_srs :: "'s option"
  tl_grid :: "(axis \<times> axis) option"

text \<open>The constructor leaves the size of the cells as the memory has it.\<close>

definition tiled_layer_new :: "real \<Rightarrow> real \<Rightarrow> ('s, 'l, 'g, 'o) tiled_layer" where
  "tiled_layer_new w h =
     \<lparr>tl_aoi_manual = ext_invalid, tl_aoi_auto = ext_invalid, tl_cell_width = w, tl_cell_height = h,
      tl_encode_radius = True, tl_levels = [], tl_output_srs = None, tl_grid = None\<rparr>"

definition set_area_of_interest ::
  "'s geoextent \<Rightarrow> ('s, 'l, 'g, 'o) tiled_layer \<Rightarrow> ('s, 'l, 'g, 'o) tiled_layer" where
  "set_area_of_interest e m = m\<lparr>tl_aoi_manual := e, tl_grid := None\<rparr>"

definition area_of_interest :: "('s, 'l, 'g, 'o) tiled_layer \<Rightarrow> 's geoextent" where
  "area_of_interest m = (if is_valid (tl_aoi_manual m) then tl_aoi_manual m else tl_aoi_auto m)"

definition set_cell_width :: "real \<Rightarrow> ('s, 'l, 'g, 'o) tiled_layer \<Rightarrow> ('s, 'l, 'g, 'o) tiled_layer" where
  "set_cell_width v m = m\<lparr>tl_cell_width := v, tl_grid := None\<rparr>"

definition set_cell_height :: "real \<Rightarrow> ('s, 'l, 'g, 'o) tiled_layer \<Rightarrow> ('s, 'l, 'g, 'o) tiled_layer" where
  "set_cell_height v m = m\<lparr>tl_cell_height := v, tl_grid := None\<rparr>"

definition push_level ::
  "'s srs_vt \<Rightarrow> ('s, 'l) layer_vt \<Rightarrow> ('l, 'g, 'o) lod_level option \<Rightarrow>
     ('s, 'l, 'g, 'o) tiled_layer \<Rightarrow> ('s, 'l, 'g, 'o) tiled_layer" where
  "push_level V L lv m =
     (case lv of
        None \<Rightarrow> m
      | Some lv \<Rightarrow>
          m\<lparr>tl_aoi_auto := (if \<not> is_valid (tl_aoi_auto m) then lv_extent L (ll_layer lv)
              else expand_to_include_extent V (tl_aoi_auto m) (lv_extent L (ll_layer lv))),
            tl_levels := tl_levels m @ [lv], tl_grid := None\<rparr>)"

definition max_depth :: "('s, 'l, 'g, 'o) tiled_layer \<Rightarrow> nat" where
  "max_depth m = foldl (\<lambda>d lv. if ll_depth lv > d then ll_depth lv else d) 0 (tl_levels m)"

section \<open>The reference of the output\<close>

text \<open>
  The last transforming filter of the graph that gives a reference decides; one that was found is
  kept. A script gives a reference or an error, which is reported.
\<close>

fun srs_of_filters ::
  "('f \<Rightarrow> ('s, 'o) transform_info option) \<Rightarrow> ('o \<Rightarrow> 's option) \<Rightarrow> 's option \<Rightarrow> 'f list \<Rightarrow> 's option" where
  "srs_of_filters as_transform run_script terrain [] = None"
| "srs_of_filters as_transform run_script terrain (f # fs) =
     (let found = (case as_transform f of
          None \<Rightarrow> None
        | Some xf \<Rightarrow>
            if xf_use_terrain xf then terrain
            else (case xf_srs xf of
                Some s \<Rightarrow> Some s
              | None \<Rightarrow> (case xf_script xf of Some sc \<Rightarrow> run_script sc | None \<Rightarrow> None)))
      in case found of Some s \<Rightarrow> Some s | None \<Rightarrow> srs_of_filters as_transform run_script terrain fs)"

definition output_srs ::
  "('s, 'l) layer_vt \<Rightarrow> ('f \<Rightarrow> ('s, 'o) transform_info option) \<Rightarrow> ('o \<Rightarrow> 's option) \<Rightarrow> ('g \<Rightarrow> 'f list) \<Rightarrow>
     's option \<Rightarrow> ('s, 'l, 'g, 'o) tiled_layer \<Rightarrow> 's option \<times> ('s, 'l, 'g, 'o) tiled_layer" where
  "output_srs L as_transform run_script filters_of terrain m =
     (let m1 =
        (if tl_grid m = None \<or> tl_output_srs m = None
         then (case tl_levels m of
             [] \<Rightarrow> m
           | lv # _ \<Rightarrow>
               (case ll_graph lv of
                  None \<Rightarrow> m
                | Some g \<Rightarrow>
                    (case tl_output_srs m of
                       Some _ \<Rightarrow> m
                     | None \<Rightarrow> m\<lparr>tl_output_srs :=
                         (case srs_of_filters as_transform run_script terrain (rev (filters_of g)) of
                            Some s \<Rightarrow> Some s | None \<Rightarrow> lv_srs L (ll_layer lv))\<rparr>)))
         else m)
      in (tl_output_srs m1, m1))"

section \<open>Grids\<close>

text \<open>\<open>fmod\<close>, and a number of cells that goes through \<open>int\<close> into an unsigned one.\<close>

definition c_fmod :: "real \<Rightarrow> real \<Rightarrow> real" where
  "c_fmod x y = x - y * of_int (if x / y \<ge> 0 then \<lfloor>x / y\<rfloor> else \<lceil>x / y\<rceil>)"

definition ceil_count :: "real \<Rightarrow> nat option" where
  "ceil_count v =
     (if - (2 ^ 31) \<le> \<lceil>v\<rceil> \<and> \<lceil>v\<rceil> < 2 ^ 31 then Some (nat (\<lceil>v\<rceil> mod 2 ^ 32)) else None)"

definition axis_of_cell :: "real \<Rightarrow> real \<Rightarrow> axis option" where
  "axis_of_cell len cell =
     (if cell = 0 then None
      else do { n \<leftarrow> ceil_count (len / cell);
                let last_size = c_fmod len cell
                in Some \<lparr>ax_count = n, ax_size = cell,
                         ax_last = (if last_size = 0 then cell else last_size)\<rparr> })"

definition layer_axis :: "real \<Rightarrow> real \<Rightarrow> axis option" where
  "layer_axis len cell =
     (if cell > 0 then axis_of_cell len cell else Some \<lparr>ax_count = 1, ax_size = len, ax_last = len\<rparr>)"

definition recalculate_grid :: "('s, 'l, 'g, 'o) tiled_layer \<Rightarrow> ('s, 'l, 'g, 'o) tiled_layer option" where
  "recalculate_grid m =
     (let aoi = area_of_interest m
      in if is_valid aoi
         then do { rows \<leftarrow> layer_axis (get_height aoi) (tl_cell_height m);
                   cols \<leftarrow> layer_axis (get_width aoi) (tl_cell_width m);
                   Some (m\<lparr>tl_grid := Some (cols, rows)\<rparr>) }
         else Some m)"

definition valid_grid :: "('s, 'l, 'g, 'o) tiled_layer \<Rightarrow> ('s, 'l, 'g, 'o) tiled_layer option" where
  "valid_grid m = (if tl_grid m = None then recalculate_grid m else Some m)"

definition num_cell_rows :: "('s, 'l, 'g, 'o) tiled_layer \<Rightarrow> (nat \<times> ('s, 'l, 'g, 'o) tiled_layer) option" where
  "num_cell_rows m =
     do { m1 \<leftarrow> valid_grid m;
          Some (case tl_grid m1 of None \<Rightarrow> 0 | Some (cols, rows) \<Rightarrow> ax_count rows, m1) }"

definition num_cell_columns :: "('s, 'l, 'g, 'o) tiled_layer \<Rightarrow> (nat \<times> ('s, 'l, 'g, 'o) tiled_layer) option" where
  "num_cell_columns m =
     do { m1 \<leftarrow> valid_grid m;
          Some (case tl_grid m1 of None \<Rightarrow> 0 | Some (cols, rows) \<Rightarrow> ax_count cols, m1) }"

text \<open>The grid of the compiler.\<close>

record 's grid_profile =
  gp_bounds :: "'s geoextent"
  gp_cols :: axis
  gp_rows :: axis

definition profile_axis :: "real \<Rightarrow> real \<Rightarrow> axis option" where
  "profile_axis len cell = axis_of_cell len (if cell \<le> 0 then len else cell)"

definition init_by_cell_size :: "'s geoextent \<Rightarrow> real \<Rightarrow> real \<Rightarrow> 's grid_profile option" where
  "init_by_cell_size b col_size row_size =
     do { rows \<leftarrow> profile_axis (get_height b) row_size; cols \<leftarrow> profile_axis (get_width b) col_size;
          Some \<lparr>gp_bounds = b, gp_cols = cols, gp_rows = rows\<rparr> }"

definition count_axis :: "real \<Rightarrow> nat \<Rightarrow> axis" where
  "count_axis len n =
     (let k = max n 1; d = len / real k in \<lparr>ax_count = k, ax_size = d, ax_last = d\<rparr>)"

definition init_by_cell_count :: "'s geoextent \<Rightarrow> nat \<Rightarrow> nat \<Rightarrow> 's grid_profile" where
  "init_by_cell_count b cols rows =
     \<lparr>gp_bounds = b, gp_cols = count_axis (get_width b) cols, gp_rows = count_axis (get_height b) rows\<rparr>"

text \<open>\<open>num_cols - 1\<close> is unsigned.\<close>

definition cell_size :: "axis \<Rightarrow> nat \<Rightarrow> real" where
  "cell_size a i = (if i < (ax_count a + (2 ^ 32 - 1)) mod 2 ^ 32 then ax_size a else ax_last a)"

definition grid_extent :: "'s grid_profile \<Rightarrow> nat \<Rightarrow> nat \<Rightarrow> 's geoextent" where
  "grid_extent p col row =
     (let x = px (sw (gp_bounds p)) + ax_size (gp_cols p) * real col;
          y = py (sw (gp_bounds p)) + ax_size (gp_rows p) * real row
      in ext_of_bounds x y (x + cell_size (gp_cols p) col) (y + cell_size (gp_rows p) row)
           (get_srs (gp_bounds p)))"

definition grid_cell_id :: "nat \<Rightarrow> nat \<Rightarrow> nat \<Rightarrow> string" where
  "grid_cell_id col row depth = ''L'' @ show_nat depth @ ''_X'' @ show_nat col @ ''_Y'' @ show_nat row"

section \<open>Keys and cursors\<close>

text \<open>A key is a column, a row and a level.\<close>

type_synonym grid_key = "nat \<times> nat \<times> nat"

definition grid_keys :: "'s grid_profile \<Rightarrow> ('l, 'g, 'o) lod_level list \<Rightarrow> bool \<Rightarrow> grid_key list" where
  "grid_keys p levels depth_first =
     (if depth_first
      then concat (map (\<lambda>col. concat (map (\<lambda>row. map (\<lambda>lv. (col, row, ll_depth lv)) levels)
             [0..<ax_count (gp_rows p)])) [0..<ax_count (gp_cols p)])
      else concat (map (\<lambda>lv. concat (map (\<lambda>col. map (\<lambda>row. (col, row, ll_depth lv))
             [0..<ax_count (gp_rows p)]) [0..<ax_count (gp_cols p)])) levels))"

text \<open>The level of a key is taken for the position of its definition.\<close>

definition lod_for_key :: "('l, 'g, 'o) lod_level list \<Rightarrow> grid_key \<Rightarrow> ('l, 'g, 'o) lod_level option" where
  "lod_for_key levels k =
     (if snd (snd k) < length levels then Some (levels ! snd (snd k)) else None)"

record grid_cursor =
  gc_col :: nat
  gc_row :: nat
  gc_lod :: nat

definition grid_cursor_new :: grid_cursor where
  "grid_cursor_new = \<lparr>gc_col = 0, gc_row = 0, gc_lod = 0\<rparr>"

definition grid_has_next :: "'s grid_profile \<Rightarrow> nat \<Rightarrow> grid_cursor \<Rightarrow> bool" where
  "grid_has_next p num_levels c \<longleftrightarrow>
     gc_lod c < num_levels \<and> gc_col c < ax_count (gp_cols p) \<and> gc_row c < ax_count (gp_rows p)"

definition grid_next :: "'s grid_profile \<Rightarrow> grid_cursor \<Rightarrow> grid_key \<times> grid_cursor" where
  "grid_next p c =
     ((gc_col c, gc_row c, gc_lod c),
      (let col = gc_col c + 1 in
       if col > ax_count (gp_cols p)
       then (let row = gc_row c + 1 in
             if row > ax_count (gp_rows p) then \<lparr>gc_col = 0, gc_row = 0, gc_lod = gc_lod c + 1\<rparr>
             else c\<lparr>gc_col := 0, gc_row := row\<rparr>)
       else c\<lparr>gc_col := col\<rparr>))"

text \<open>A loop that takes cells as long as there are any.\<close>

partial_function (option) grid_loop ::
  "'s grid_profile \<Rightarrow> nat \<Rightarrow> grid_cursor \<Rightarrow> grid_key list option" where
  "grid_loop p num_levels c =
     (if grid_has_next p num_levels c
      then do { ks \<leftarrow> grid_loop p num_levels (snd (grid_next p c)); Some (fst (grid_next p c) # ks) }
      else Some [])"

section \<open>Cells tile the bounds\<close>

text \<open>The lines between the cells of one direction.\<close>

definition grid_line :: "real \<Rightarrow> axis \<Rightarrow> nat \<Rightarrow> real" where
  "grid_line x a i = (if i < ax_count a then x + ax_size a * real i else x + ax_size a * real (i - 1) + ax_last a)"

definition axis_ok :: "real \<Rightarrow> axis \<Rightarrow> bool" where
  "axis_ok len a \<longleftrightarrow> 0 < ax_count a \<and> ax_count a < 2 ^ 32 \<and> 0 < ax_size a \<and> 0 < ax_last a \<and>
     ax_size a * real (ax_count a - 1) + ax_last a = len"

lemma axis_of_cell_ok:
  assumes "axis_of_cell len cell = Some a" and "0 < len" and "0 < cell"
  shows "axis_ok len a \<and> ax_size a = cell \<and> ax_last a \<le> cell"
proof -
  define q where "q = len / cell"
  have q: "q > 0" "len = cell * q" using assms(2,3) by (simp_all add: q_def)
  have n: "ceil_count q = Some (ax_count a)" and size: "ax_size a = cell"
    and last: "ax_last a = (let r = c_fmod len cell in if r = 0 then cell else r)"
    using assms(1,3) by (auto simp: axis_of_cell_def q_def Let_def bind_eq_Some_conv)
  have small: "int (nat (k mod 2 ^ 32)) = k" if "0 < k" "k < 2 ^ 31" for k :: int using that by simp
  have "0 < \<lceil>q\<rceil>" using q(1) by simp
  moreover from n have count2: "\<lceil>q\<rceil> < 2 ^ 31" and "ax_count a = nat (\<lceil>q\<rceil> mod 2 ^ 32)"
    unfolding ceil_count_def by (metis option.distinct(1), metis option.distinct(1) option.inject)
  ultimately have count: "int (ax_count a) = \<lceil>q\<rceil>" using small by simp
  have fm: "c_fmod len cell = cell * (q - of_int \<lfloor>q\<rfloor>)"
    using q(1) by (simp add: c_fmod_def q_def [symmetric]) (simp add: q(2) algebra_simps)
  have pos: "0 < ax_count a" using count q(1) by (metis of_nat_0_less_iff zero_less_ceiling)
  have lt: "ax_count a < 2 ^ 32" using count2 unfolding count [symmetric] by simp
  have cnt: "real (ax_count a) = of_int \<lceil>q\<rceil>" using count by (metis of_int_of_nat_eq)
  show ?thesis
  proof (cases "q = of_int \<lfloor>q\<rfloor>")
    case True
    then have "real (ax_count a) = q" unfolding cnt by (metis ceiling_of_int)
    moreover have "ax_last a = cell" using last fm True by (simp add: Let_def)
    ultimately show ?thesis
      using pos lt size assms(3) q(2) by (simp add: axis_ok_def algebra_simps)
  next
    case False
    then have fl: "of_int \<lfloor>q\<rfloor> < q" and "q < of_int \<lfloor>q\<rfloor> + 1" by linarith+
    then have "\<lceil>q\<rceil> = \<lfloor>q\<rfloor> + 1" by linarith
    moreover have l: "ax_last a = cell * (q - of_int \<lfloor>q\<rfloor>)" using last fm fl assms(3) by (simp add: Let_def)
    moreover have "cell * (q - of_int \<lfloor>q\<rfloor>) \<le> cell * 1"
      using assms(3) by (intro mult_left_mono) linarith+
    moreover have "0 < ax_last a" unfolding l using assms(3) fl by simp
    ultimately show ?thesis
      using pos lt size assms(3) q(2) fl cnt by (simp add: axis_ok_def algebra_simps)
  qed
qed

lemma count_axis_ok:
  assumes "0 < len" and "n < 2 ^ 32"
  shows "axis_ok len (count_axis len n)"
proof -
  have "len / real k * real (k - 1) + len / real k = len" if "k > 0" for k
    using that by (simp add: of_nat_diff field_simps)
  from this [of "max n 1"] show ?thesis
    using assms by (simp add: axis_ok_def count_axis_def Let_def)
qed

lemma profile_axis_ok:
  assumes "profile_axis len cell = Some a" and "0 < len"
  shows "axis_ok len a \<and> (0 < cell \<longrightarrow> ax_size a = cell \<and> ax_last a \<le> cell)"
  using axis_of_cell_ok [of len "if cell \<le> 0 then len else cell" a] assms
  by (auto simp: profile_axis_def split: if_splits)

lemma grid_lines:
  assumes "axis_ok len a"
  shows "grid_line x a 0 = x" and "grid_line x a (ax_count a) = x + len"
    and "i < ax_count a \<Longrightarrow> grid_line x a i < grid_line x a (Suc i)"
    and "i < ax_count a \<Longrightarrow> grid_line x a i = x + ax_size a * real i"
    and "i < ax_count a \<Longrightarrow> grid_line x a (Suc i) = x + ax_size a * real i + cell_size a i"
proof -
  have wrap: "(ax_count a + (2 ^ 32 - 1)) mod 2 ^ 32 = ax_count a - 1"
  proof -
    have "ax_count a + (2 ^ 32 - 1) = 2 ^ 32 + (ax_count a - 1)" using assms by (simp add: axis_ok_def)
    then show ?thesis using assms by (simp only: mod_add_self1) (simp add: axis_ok_def)
  qed
  show "grid_line x a 0 = x" using assms by (simp add: grid_line_def axis_ok_def)
  show "grid_line x a (ax_count a) = x + len" using assms by (auto simp: grid_line_def axis_ok_def)
  show "grid_line x a i = x + ax_size a * real i" if "i < ax_count a" using that by (simp add: grid_line_def)
  show s: "grid_line x a (Suc i) = x + ax_size a * real i + cell_size a i" if i: "i < ax_count a"
  proof (cases "Suc i < ax_count a")
    case True
    then have "i < ax_count a - 1" by simp
    with True show ?thesis unfolding cell_size_def wrap by (simp add: grid_line_def algebra_simps)
  next
    case False
    then have "\<not> i < ax_count a - 1" by simp
    with False show ?thesis unfolding cell_size_def wrap by (simp add: grid_line_def)
  qed
  show "grid_line x a i < grid_line x a (Suc i)" if i: "i < ax_count a"
    using s [OF i] i assms by (simp add: grid_line_def cell_size_def axis_ok_def)
qed

lemma grid_extent_lines:
  assumes "axis_ok w (gp_cols p)" and "axis_ok h (gp_rows p)" and "col < ax_count (gp_cols p)" and "row < ax_count (gp_rows p)"
  shows "grid_extent p col row =
    (let X = grid_line (px (sw (gp_bounds p))) (gp_cols p); Y = grid_line (py (sw (gp_bounds p))) (gp_rows p)
     in ext_of_bounds (X col) (Y row) (X (Suc col)) (Y (Suc row)) (get_srs (gp_bounds p)))"
  using grid_lines(4,5) [OF assms(1,3)] grid_lines(4,5) [OF assms(2,4)]
  by (simp add: grid_extent_def Let_def)

lemma init_by_cell_size_ok:
  assumes "init_by_cell_size b w h = Some p" and "0 < get_width b" and "0 < get_height b"
  shows "gp_bounds p = b \<and> axis_ok (get_width b) (gp_cols p) \<and> axis_ok (get_height b) (gp_rows p)"
  using assms by (auto simp: init_by_cell_size_def bind_eq_Some_conv dest: profile_axis_ok)

lemma grid_tiles:
  assumes wf: "ext_wf s b" and "0 < get_width b" and "0 < get_height b"
    and p: "init_by_cell_size b col_size row_size = Some p"
  shows "\<exists>X Y. X 0 = px (sw b) \<and> X (ax_count (gp_cols p)) = px (ne b) \<and>
    Y 0 = py (sw b) \<and> Y (ax_count (gp_rows p)) = py (ne b) \<and>
    (\<forall>i < ax_count (gp_cols p). X i < X (Suc i) \<and> (0 < col_size \<longrightarrow> X (Suc i) - X i \<le> col_size)) \<and>
    (\<forall>j < ax_count (gp_rows p). Y j < Y (Suc j) \<and> (0 < row_size \<longrightarrow> Y (Suc j) - Y j \<le> row_size)) \<and>
    (\<forall>i < ax_count (gp_cols p). \<forall>j < ax_count (gp_rows p).
       grid_extent p i j = ext_of_bounds (X i) (Y j) (X (Suc i)) (Y (Suc j)) (Some s))"
proof (intro exI conjI)
  have bnd: "gp_bounds p = b" and cols: "axis_ok (get_width b) (gp_cols p)" and rows: "axis_ok (get_height b) (gp_rows p)"
    using init_by_cell_size_ok [OF p] assms(2,3) by blast+
  have small: "0 < col_size \<Longrightarrow> ax_size (gp_cols p) = col_size \<and> ax_last (gp_cols p) \<le> col_size"
    "0 < row_size \<Longrightarrow> ax_size (gp_rows p) = row_size \<and> ax_last (gp_rows p) \<le> row_size"
    using p assms(2,3) by (auto simp: init_by_cell_size_def bind_eq_Some_conv dest: profile_axis_ok)
  have w: "px (sw b) + get_width b = px (ne b)" "py (sw b) + get_height b = py (ne b)"
    by (simp_all add: get_width_def get_height_def ext_wf_observe [OF wf])
  let ?X = "grid_line (px (sw b)) (gp_cols p)" and ?Y = "grid_line (py (sw b)) (gp_rows p)"
  show "?X 0 = px (sw b)" "?Y 0 = py (sw b)" by (rule grid_lines(1) [OF cols], rule grid_lines(1) [OF rows])
  show "?X (ax_count (gp_cols p)) = px (ne b)" "?Y (ax_count (gp_rows p)) = py (ne b)"
    using grid_lines(2) [OF cols] grid_lines(2) [OF rows] w by simp_all
  show "\<forall>i < ax_count (gp_cols p). ?X i < ?X (Suc i) \<and> (0 < col_size \<longrightarrow> ?X (Suc i) - ?X i \<le> col_size)"
    using grid_lines(3-5) [OF cols] small(1) by (auto simp: cell_size_def)
  show "\<forall>j < ax_count (gp_rows p). ?Y j < ?Y (Suc j) \<and> (0 < row_size \<longrightarrow> ?Y (Suc j) - ?Y j \<le> row_size)"
    using grid_lines(3-5) [OF rows] small(2) by (auto simp: cell_size_def)
  show "\<forall>i < ax_count (gp_cols p). \<forall>j < ax_count (gp_rows p).
      grid_extent p i j = ext_of_bounds (?X i) (?Y j) (?X (Suc i)) (?Y (Suc j)) (Some s)"
    using grid_extent_lines [OF cols rows] by (simp add: bnd ext_wf_observe [OF wf] Let_def)
qed

section \<open>The cursor\<close>

text \<open>The cursor ends with the first row: the column has to go past the number of columns to be reset.\<close>

lemma grid_loop_row:
  assumes "0 < num_levels" and "0 < ax_count (gp_rows p)" and "col \<le> ax_count (gp_cols p)"
  shows "grid_loop p num_levels \<lparr>gc_col = col, gc_row = 0, gc_lod = 0\<rparr> =
    Some (map (\<lambda>i. (i, 0, 0)) [col..<ax_count (gp_cols p)])"
  using assms(3)
proof (induction "ax_count (gp_cols p) - col" arbitrary: col)
  case 0
  then show ?case by (subst grid_loop.simps) (simp add: grid_has_next_def)
next
  case (Suc d)
  then have lt: "col < ax_count (gp_cols p)" by simp
  have "grid_loop p num_levels \<lparr>gc_col = Suc col, gc_row = 0, gc_lod = 0\<rparr> =
      Some (map (\<lambda>i. (i, 0, 0)) [Suc col..<ax_count (gp_cols p)])"
    using Suc.hyps(2) lt by (intro Suc.hyps(1)) auto
  with lt assms(1,2) show ?case
    by (subst grid_loop.simps) (simp add: grid_has_next_def grid_next_def upt_conv_Cons del: upt_Suc)
qed

section \<open>Keys\<close>

lemma grid_keys_member:
  "(col, row, d) \<in> set (grid_keys p levels df) \<longleftrightarrow>
     col < ax_count (gp_cols p) \<and> row < ax_count (gp_rows p) \<and> d \<in> ll_depth ` set levels"
  by (cases df) (force simp: grid_keys_def)+

lemma grid_keys_length:
  "length (grid_keys p levels df) = length levels * (ax_count (gp_cols p) * ax_count (gp_rows p))"
  by (simp add: grid_keys_def length_concat comp_def sum_list_triv)

lemma grid_keys_distinct:
  assumes "distinct (map ll_depth levels)"
  shows "distinct (grid_keys p levels df)"
proof -
  let ?K = "{..<ax_count (gp_cols p)} \<times> {..<ax_count (gp_rows p)} \<times> set (map ll_depth levels)"
  have "set (grid_keys p levels df) = ?K" using grid_keys_member [of _ _ _ p levels df] by auto
  moreover have "card ?K = length (grid_keys p levels df)"
    using distinct_card [OF assms] by (simp add: card_cartesian_product grid_keys_length del: set_map)
  ultimately show ?thesis by (metis card_distinct)
qed

lemma grid_keys_definition:
  assumes "map ll_depth levels = [0..<length levels]"
  shows "i < length levels \<Longrightarrow> lod_for_key levels (col, row, ll_depth (levels ! i)) = Some (levels ! i)"
proof -
  assume i: "i < length levels"
  then have "ll_depth (levels ! i) = i" using arg_cong [OF assms, of "\<lambda>xs. xs ! i"] by simp
  with i show ?thesis by (simp add: lod_for_key_def)
qed

lemma grid_keys_ok:
  assumes "map ll_depth levels = [0..<length levels]"
  shows "mset (grid_keys p levels True) = mset (grid_keys p levels False) \<and>
    (\<forall>(col, row, d) \<in> set (grid_keys p levels df). lod_for_key levels (col, row, d) = Some (levels ! d) \<and>
       ll_depth (levels ! d) = d)"
proof
  have "distinct (map ll_depth levels)" unfolding assms by simp
  note d = grid_keys_distinct [OF this, of p]
  show "mset (grid_keys p levels True) = mset (grid_keys p levels False)"
    using grid_keys_member [of _ _ _ p levels] by (intro iffD1 [OF set_eq_iff_mset_eq_distinct] d) auto
  have depth: "ll_depth (levels ! i) = i" if "i < length levels" for i
    using arg_cong [OF assms, of "\<lambda>xs. xs ! i"] that by simp
  show "\<forall>(col, row, d) \<in> set (grid_keys p levels df). lod_for_key levels (col, row, d) = Some (levels ! d) \<and>
      ll_depth (levels ! d) = d"
    using depth arg_cong [OF assms, of set] by (auto simp: grid_keys_member lod_for_key_def simp del: set_map) auto
qed

end
