(* ===== verification/Quad_Compiler.thy ===== *)
theory Quad_Compiler
  imports Map_Layer
begin

text \<open>
  \<^verbatim>\<open>src/osgGISProjects/QuadTreeMapLayerCompiler.cpp\<close> with the parts of \<^verbatim>\<open>MapLayerCompiler.cpp\<close>,
  \<^verbatim>\<open>CellCompiler.cpp\<close> and \<^verbatim>\<open>Cell.cpp\<close> it uses: the quad map of a layer, the keys for which
  geometry is built, the task of a key and the index over the files. Paths, files and the centre of a
  paged node, which is clamped to the terrain, are arguments or left out. \<open>None\<close> is what the code
  leaves undefined, or a loop that does not end.
\<close>

section \<open>Levels of the quad map\<close>

definition get_top_lod :: "'s quadmap \<Rightarrow> ('s, 'l, 'g, 'o) tiled_layer \<Rightarrow> nat option" where
  "get_top_lod m layer =
     map_option (\<lambda>bottom_lod. nat (max 0 (int bottom_lod - int (max_depth layer))))
       (get_best_lod_for_cells_of_size m (tl_cell_width layer) (tl_cell_height layer))"

text \<open>The difference of the levels is unsigned; the inner \<open>None\<close> is the null pointer.\<close>

definition get_definition ::
  "'s quadkey \<Rightarrow> ('s, 'l, 'g, 'o) tiled_layer \<Rightarrow> ('l, 'g, 'o) lod_level option option" where
  "get_definition key layer =
     map_option (\<lambda>top_lod.
         find (\<lambda>lv. ll_depth lv = nat ((int (get_lod key) - int top_lod) mod 2 ^ 32)) (tl_levels layer))
       (get_top_lod (qmap key) layer)"

definition quad_profile ::
  "'s srs_vt \<Rightarrow> ('s \<Rightarrow> bool) \<Rightarrow> 's option \<Rightarrow> 's option \<Rightarrow> ('s, 'l, 'g, 'o) tiled_layer \<Rightarrow> 's quadmap option" where
  "quad_profile V geocentric wgs84 os layer =
     (case os of
        None \<Rightarrow> None
      | Some s \<Rightarrow>
          (let aoi = area_of_interest layer
           in if \<not> is_valid aoi then None
              else
                (let m = (if geocentric s then quadmap_new (ext_of_bounds (-180) (-180) 180 90 wgs84)
                   else (let max_span = (if get_width aoi < get_height aoi then get_height aoi else get_width aoi);
                             p = sw aoi;
                             q = geopoint_2d (px p + max_span) (py p + max_span) (get_srs aoi)
                         in quadmap_new (ext_of_points V p q)))
                 in Some (quadmap_copy (set_string_style m STYLE_LOD_QUADKEY)))))"

section \<open>Keys\<close>

text \<open>
  The result of \<open>getCells\<close> is not looked at: where it is false the range of cells is not initialised.
  A loop up to the largest number does not end.
\<close>

definition level_cells ::
  "'s srs_vt \<Rightarrow> 's quadmap \<Rightarrow> 's geoextent \<Rightarrow> nat \<Rightarrow> (nat \<times> nat) list option" where
  "level_cells V m aoi lod =
     (case get_cells V m aoi lod of
        Some (Some (x0, y0, x1, y1)) \<Rightarrow>
          if y1 = 2 ^ 32 - 1 \<or> y0 \<le> y1 \<and> x1 = 2 ^ 32 - 1 then None
          else Some (concat (map (\<lambda>y. map (\<lambda>x. (x, y)) [x0..<Suc x1]) [y0..<Suc y1]))
      | _ \<Rightarrow> None)"

definition level_lod :: "nat \<Rightarrow> ('l, 'g, 'o) lod_level \<Rightarrow> nat" where
  "level_lod top_lod lv = (top_lod + ll_depth lv) mod 2 ^ 32"

definition cell_key :: "'s quadmap \<Rightarrow> nat \<Rightarrow> nat \<times> nat \<Rightarrow> 's quadkey option" where
  "cell_key m lod c = quadkey_of_cell (of_nat (fst c)) (of_nat (snd c)) lod m"

text \<open>The keys of the cells of a level, from which the geometry and the index nodes are made.\<close>

definition level_keys ::
  "'s srs_vt \<Rightarrow> 's quadmap \<Rightarrow> ('s, 'l, 'g, 'o) tiled_layer \<Rightarrow> nat \<Rightarrow> ('l, 'g, 'o) lod_level \<Rightarrow> 's quadkey list option" where
  "level_keys V m layer top_lod lv =
     do { cells \<leftarrow> level_cells V m (area_of_interest layer) (level_lod top_lod lv);
          those (map (cell_key m (level_lod top_lod lv)) cells) }"

definition sub_keys :: "'s quadkey \<Rightarrow> 's quadkey list" where
  "sub_keys key = map (create_sub_key key) [0..<4]"

definition collect_geometry_keys ::
  "'s srs_vt \<Rightarrow> 's quadmap \<Rightarrow> ('s, 'l, 'g, 'o) tiled_layer \<Rightarrow> 's quadkey list option" where
  "collect_geometry_keys V m layer =
     do { top_lod \<leftarrow> get_top_lod m layer;
          levels \<leftarrow> those (map (level_keys V m layer top_lod) (tl_levels layer));
          Some (concat (map sub_keys (concat levels))) }"

section \<open>Tasks\<close>

record ('s, 'l, 'g, 'o) cell_compiler =
  cc_cell_id :: string
  cc_uri :: string
  cc_layer :: 'l
  cc_graph :: "'g option"
  cc_min_range :: real
  cc_max_range :: real
  cc_env :: "('s, 'o) filter_env"
  cc_packager :: "'o option"
  cc_archive :: "'o option"
  cc_user_data :: "'o option"

text \<open>What a compiler was given: the environment a session makes, the terrain, the paths.\<close>

record ('s, 'o) layer_compiler =
  lc_new_env :: "('s, 'o) filter_env"
  lc_new_reader :: "real \<Rightarrow> 'o"
  lc_terrain :: "'o option"
  lc_terrain_srs :: "'s option"
  lc_abs_path :: "string \<Rightarrow> string"
  lc_rel_path :: "string \<Rightarrow> string"
  lc_packager :: "'o option"
  lc_archive :: "'o option"
  lc_selector :: "(string \<Rightarrow> 's geoextent \<Rightarrow> bool) option"

definition cell_compiler_new ::
  "(real \<Rightarrow> 'o) \<Rightarrow> string \<Rightarrow> string \<Rightarrow> ('l, 'g, 'o) lod_level \<Rightarrow> ('s, 'o) filter_env \<Rightarrow> 'o option \<Rightarrow> 'o option \<Rightarrow>
     ('s, 'l, 'g, 'o) cell_compiler" where
  "cell_compiler_new new_reader cell_id uri lv env packager archive =
     \<lparr>cc_cell_id = cell_id, cc_uri = uri, cc_layer = ll_layer lv, cc_graph = ll_graph lv,
      cc_min_range = ll_min_range lv, cc_max_range = ll_max_range lv,
      cc_env = set_terrain_read_callback env (Some (new_reader (ll_min_range lv))),
      cc_packager = packager, cc_archive = archive, cc_user_data = ll_user_data lv\<rparr>"

definition level_packager :: "('s, 'o) layer_compiler \<Rightarrow> ('l, 'g, 'o) lod_level \<Rightarrow> 'o option" where
  "level_packager C lv = (case ll_packager lv of Some k \<Rightarrow> Some k | None \<Rightarrow> lc_packager C)"

definition quad_env ::
  "'s srs_vt \<Rightarrow> ('s, 'l) layer_vt \<Rightarrow> ('s, 'o) layer_compiler \<Rightarrow> 's \<Rightarrow> 's quadkey \<Rightarrow> ('l, 'g, 'o) lod_level \<Rightarrow>
     ('s, 'o) filter_env" where
  "quad_env V L C s key lv =
     (let e1 = set_terrain_srs (set_terrain_node (lc_new_env C) (lc_terrain C)) (lc_terrain_srs C);
          e2 = set_input_srs e1 (lv_srs L (ll_layer lv));
          e3 = set_extent e2 (transform_extent V s (fst (key_get_extent key)));
          e4 = env_set_property e3 (prop_string ''compiler.cell_id'' (key_to_string key))
      in foldl env_set_property e4 (ll_env_props lv))"

definition create_quad_key_task ::
  "'s srs_vt \<Rightarrow> ('s, 'l) layer_vt \<Rightarrow> ('s, 'o) layer_compiler \<Rightarrow> ('s, 'l, 'g, 'o) tiled_layer \<Rightarrow> 's quadkey \<Rightarrow>
     ('s, 'l, 'g, 'o) cell_compiler option option" where
  "create_quad_key_task V L C layer key =
     do { def \<leftarrow> get_definition (create_parent_key key) layer;
          case def of
            None \<Rightarrow> Some None
          | Some lv \<Rightarrow>
              do { s \<leftarrow> get_srs (area_of_interest layer);
                   Some (Some (cell_compiler_new (lc_new_reader C) (key_to_string key)
                     (lc_abs_path C (''g'' @ key_to_string key)) lv (quad_env V L C s key lv)
                     (level_packager C lv) (lc_archive C))) } }"

text \<open>The tasks that are queued, null ones among them, and the number that is reported.\<close>

definition selected :: "('s, 'o) layer_compiler \<Rightarrow> 's quadkey \<Rightarrow> bool" where
  "selected C key =
     (case lc_selector C of None \<Rightarrow> True | Some f \<Rightarrow> f (key_to_string key) (fst (key_get_extent key)))"

definition quad_queue_tasks ::
  "'s srs_vt \<Rightarrow> ('s, 'l) layer_vt \<Rightarrow> ('s, 'o) layer_compiler \<Rightarrow> ('s, 'l, 'g, 'o) tiled_layer \<Rightarrow> 's quadmap option \<Rightarrow>
     (('s, 'l, 'g, 'o) cell_compiler option list \<times> nat) option" where
  "quad_queue_tasks V L C layer profile =
     (case profile of
        None \<Rightarrow> Some ([], 0)
      | Some m \<Rightarrow>
          do { keys \<leftarrow> collect_geometry_keys V m layer;
               tasks \<leftarrow> those (map (create_quad_key_task V L C layer) (filter (selected C) keys));
               Some (tasks, length keys) })"

section \<open>The index\<close>

text \<open>
  A child of a node: a paged node shows the geometry beyond a range and the index of the quadrant
  within it; a proxy node is the geometry.
\<close>

datatype index_child =
  PagedChild string real string
| ProxyChild string

definition existing_sub_keys :: "('s, 'o) layer_compiler \<Rightarrow> (string \<Rightarrow> bool) \<Rightarrow> 's quadkey \<Rightarrow> 's quadkey list" where
  "existing_sub_keys C exists_file key =
     filter (\<lambda>sub. exists_file (lc_abs_path C (''g'' @ key_to_string sub))) (sub_keys key)"

text \<open>No node is made for a key without files.\<close>

definition intermediate_index_node ::
  "('s, 'o) layer_compiler \<Rightarrow> (string \<Rightarrow> bool) \<Rightarrow> real \<Rightarrow> 's quadkey \<Rightarrow> index_child list option" where
  "intermediate_index_node C exists_file max_range key =
     (case existing_sub_keys C exists_file key of
        [] \<Rightarrow> None
      | subs \<Rightarrow> Some (map (\<lambda>sub. PagedChild (lc_rel_path C (''g'' @ key_to_string sub)) max_range
                   (lc_rel_path C (''i'' @ key_to_string sub))) subs))"

definition leaf_index_node ::
  "('s, 'o) layer_compiler \<Rightarrow> (string \<Rightarrow> bool) \<Rightarrow> 's quadkey \<Rightarrow> index_child list option" where
  "leaf_index_node C exists_file key =
     (case existing_sub_keys C exists_file key of
        [] \<Rightarrow> None
      | subs \<Rightarrow> Some (map (\<lambda>sub. ProxyChild (lc_rel_path C (''g'' @ key_to_string sub))) subs))"

text \<open>
  The files of the index that are written and the paged nodes of the root, with the name, the file
  and the range of each.
\<close>

record index_build =
  ib_files :: "(string \<times> index_child list) list"
  ib_root :: "(string \<times> string \<times> real \<times> real) list"

definition index_node ::
  "('s, 'o) layer_compiler \<Rightarrow> (string \<Rightarrow> bool) \<Rightarrow> ('l, 'g, 'o) lod_level option \<Rightarrow> 's quadkey \<Rightarrow>
     index_child list option" where
  "index_node C exists_file sub_level key =
     (case sub_level of
        Some sl \<Rightarrow> intermediate_index_node C exists_file (ll_max_range sl) key
      | None \<Rightarrow> leaf_index_node C exists_file key)"

definition index_key ::
  "('s, 'o) layer_compiler \<Rightarrow> (string \<Rightarrow> bool) \<Rightarrow> bool \<Rightarrow> ('l, 'g, 'o) lod_level \<Rightarrow> ('l, 'g, 'o) lod_level option \<Rightarrow>
     's quadkey \<Rightarrow> index_build \<Rightarrow> index_build" where
  "index_key C exists_file first lv sub_level key ib =
     (case index_node C exists_file sub_level key of
        None \<Rightarrow> ib
      | Some cs \<Rightarrow>
          ib\<lparr>ib_files := ib_files ib @ [(lc_abs_path C (''i'' @ key_to_string key), cs)],
             ib_root := ib_root ib @
               (if first
                then [(key_to_string key, lc_rel_path C (''i'' @ key_to_string key),
                       (if sub_level \<noteq> None then 0 else ll_min_range lv), ll_max_range lv)]
                else [])\<rparr>)"

fun index_levels ::
  "'s srs_vt \<Rightarrow> ('s, 'o) layer_compiler \<Rightarrow> (string \<Rightarrow> bool) \<Rightarrow> 's quadmap \<Rightarrow> ('s, 'l, 'g, 'o) tiled_layer \<Rightarrow> nat \<Rightarrow>
     bool \<Rightarrow> ('l, 'g, 'o) lod_level list \<Rightarrow> index_build \<Rightarrow> index_build option" where
  "index_levels V C exists_file m layer top_lod first [] ib = Some ib"
| "index_levels V C exists_file m layer top_lod first (lv # lvs) ib =
     do { keys \<leftarrow> level_keys V m layer top_lod lv;
          let sub_level = (case lvs of [] \<Rightarrow> None | sl # _ \<Rightarrow> Some sl)
          in index_levels V C exists_file m layer top_lod False lvs
               (foldl (\<lambda>ib key. index_key C exists_file first lv sub_level key ib) ib keys) }"

definition build_index ::
  "'s srs_vt \<Rightarrow> ('s, 'o) layer_compiler \<Rightarrow> (string \<Rightarrow> bool) \<Rightarrow> ('s, 'l, 'g, 'o) tiled_layer \<Rightarrow> 's quadmap option \<Rightarrow>
     index_build option" where
  "build_index V C exists_file layer profile =
     (case profile of
        None \<Rightarrow> Some \<lparr>ib_files = [], ib_root = []\<rparr>
      | Some m \<Rightarrow>
          do { top_lod \<leftarrow> get_top_lod m layer;
               index_levels V C exists_file m layer top_lod True (tl_levels layer)
                 \<lparr>ib_files = [], ib_root = []\<rparr> })"

section \<open>Every key has a definition\<close>

lemma those_map_Some:
  "those (map f xs) = Some ys \<longleftrightarrow> list_all2 (\<lambda>x y. f x = Some y) xs ys"
  by (induction xs arbitrary: ys) (auto simp: list_all2_Cons1 split: option.splits)

lemma those_map_total:
  "(\<And>x. x \<in> set xs \<Longrightarrow> f x = Some (g x)) \<Longrightarrow> those (map f xs) = Some (map g xs)"
  by (induction xs) auto

lemma list_all2_member:
  "list_all2 P xs ys \<Longrightarrow> y \<in> set ys \<Longrightarrow> \<exists>x \<in> set xs. P x y"
  by (metis in_set_conv_nth list_all2_conv_all_nth)

lemma list_all2_member_left:
  "list_all2 P xs ys \<Longrightarrow> x \<in> set xs \<Longrightarrow> \<exists>y \<in> set ys. P x y"
  by (metis in_set_conv_nth list_all2_conv_all_nth)

lemma quadmap_copy_id: "ext_wf s (bounds m) \<Longrightarrow> quadmap_copy m = m"
  by (simp add: quadmap_copy_def ext_wf_copy)

text \<open>The keys of a level are at its level of the map, and their parts lead back to them.\<close>

lemma level_keys_props:
  assumes "ext_wf s (bounds m)" and "level_keys V m layer top_lod lv = Some keys" and "key \<in> set keys"
  shows "get_lod key = level_lod top_lod lv \<and> qmap key = m"
proof -
  obtain cells where "those (map (cell_key m (level_lod top_lod lv)) cells) = Some keys"
    using assms(2) by (auto simp: level_keys_def bind_eq_Some_conv)
  with assms(3) obtain c where "cell_key m (level_lod top_lod lv) c = Some key"
    unfolding those_map_Some by (blast dest: list_all2_member)
  then show ?thesis
    by (auto simp: cell_key_def quadkey_of_cell_def get_lod_def quadmap_copy_id [OF assms(1)] split: if_splits)
qed

lemma parent_of_sub_key:
  assumes "ext_wf s (bounds m)" and "qmap key = m"
  shows "get_lod (create_parent_key (create_sub_key key q)) = get_lod key \<and>
    qmap (create_parent_key (create_sub_key key q)) = m \<and> get_lod (create_sub_key key q) = Suc (get_lod key)"
  using assms by (simp add: create_parent_key_def create_sub_key_def quadkey_of_string_def get_lod_def quadmap_copy_id)

lemma definition_of_level:
  assumes "ext_wf s (bounds m)" and "get_top_lod m layer = Some top_lod" and "ll_depth lv < 2 ^ 32"
    and "get_lod key = level_lod top_lod lv" and "qmap key = m"
  shows "get_definition (create_parent_key (create_sub_key key q)) layer =
    Some (find (\<lambda>l. ll_depth l = ll_depth lv) (tl_levels layer))"
proof -
  have "nat ((int (level_lod top_lod lv) - int top_lod) mod 2 ^ 32) = ll_depth lv"
  proof -
    have "(int (level_lod top_lod lv) - int top_lod) mod 2 ^ 32 = int (ll_depth lv) mod 2 ^ 32"
      unfolding level_lod_def by (simp add: zmod_int mod_diff_left_eq)
    then show ?thesis using assms(3) by simp
  qed
  then show ?thesis
    using parent_of_sub_key [OF assms(1,5), of q] assms(2,4) by (simp add: get_definition_def)
qed

lemma find_member: "x \<in> set xs \<Longrightarrow> P x \<Longrightarrow> \<exists>y \<in> set xs. find P xs = Some y \<and> P y"
  by (induction xs) auto

lemma collect_geometry_keys_member:
  assumes "collect_geometry_keys V m layer = Some keys" and "k \<in> set keys"
  obtains top_lod lv level_ks key q where "get_top_lod m layer = Some top_lod" and "lv \<in> set (tl_levels layer)"
    and "level_keys V m layer top_lod lv = Some level_ks" and "key \<in> set level_ks" and "q < 4"
    and "k = create_sub_key key q"
proof -
  obtain top_lod levels where t: "get_top_lod m layer = Some top_lod"
    and l: "those (map (level_keys V m layer top_lod) (tl_levels layer)) = Some levels"
    and k: "keys = concat (map sub_keys (concat levels))"
    using assms(1) by (auto simp: collect_geometry_keys_def bind_eq_Some_conv)
  from k assms(2) obtain level_ks key where key: "level_ks \<in> set levels" "key \<in> set level_ks" "k \<in> set (sub_keys key)"
    by auto
  then obtain lv where "lv \<in> set (tl_levels layer)" "level_keys V m layer top_lod lv = Some level_ks"
    using l unfolding those_map_Some by (blast dest: list_all2_member)
  with t key show ?thesis by (auto simp: sub_keys_def intro: that)
qed

lemma geometry_key_definition:
  assumes "ext_wf s (bounds m)" and "collect_geometry_keys V m layer = Some keys" and "k \<in> set keys"
    and "list_all (\<lambda>lv. ll_depth lv < 2 ^ 32) (tl_levels layer)"
  shows "\<exists>lv \<in> set (tl_levels layer). get_definition (create_parent_key k) layer = Some (Some lv) \<and>
    (\<exists>top_lod. get_top_lod m layer = Some top_lod \<and> get_lod k = Suc (level_lod top_lod lv))"
proof -
  obtain top_lod lv level_ks key q where k: "get_top_lod m layer = Some top_lod" "lv \<in> set (tl_levels layer)"
    "level_keys V m layer top_lod lv = Some level_ks" "key \<in> set level_ks" "k = create_sub_key key q"
    using collect_geometry_keys_member [OF assms(2,3)] by metis
  note key = level_keys_props [OF assms(1) k(3,4)]
  have "ll_depth lv < 2 ^ 32" using assms(4) k(2) by (simp add: list_all_iff)
  from definition_of_level [OF assms(1) k(1) this] key
  have "get_definition (create_parent_key k) layer = Some (find (\<lambda>l. ll_depth l = ll_depth lv) (tl_levels layer))"
    by (simp add: k(5))
  moreover obtain lv' where "lv' \<in> set (tl_levels layer)" "ll_depth lv' = ll_depth lv"
    "find (\<lambda>l. ll_depth l = ll_depth lv) (tl_levels layer) = Some lv'"
    using find_member [OF k(2), of "\<lambda>l. ll_depth l = ll_depth lv"] by blast
  moreover have "get_lod k = Suc (level_lod top_lod lv)"
    using parent_of_sub_key [OF assms(1), of key q] key by (simp add: k(5))
  ultimately show ?thesis using k(1) by (auto simp: level_lod_def)
qed

text \<open>So the task of every key that was collected is there, and has the name of the key.\<close>

lemma quad_tasks:
  assumes "ext_wf s (bounds m)" and "collect_geometry_keys V m layer = Some keys"
    and "get_srs (area_of_interest layer) = Some t"
    and "list_all (\<lambda>lv. ll_depth lv < 2 ^ 32) (tl_levels layer)"
  shows "\<exists>tasks. quad_queue_tasks V L C layer (Some m) = Some (map Some tasks, length keys) \<and>
    map cc_cell_id tasks = map key_to_string (filter (selected C) keys) \<and>
    list_all (\<lambda>tsk. cc_layer tsk \<in> ll_layer ` set (tl_levels layer)) tasks"
proof -
  define task where "task k = the (the (create_quad_key_task V L C layer k))" for k
  have one: "create_quad_key_task V L C layer k = Some (Some (task k)) \<and> cc_cell_id (task k) = key_to_string k \<and>
      cc_layer (task k) \<in> ll_layer ` set (tl_levels layer)" if "k \<in> set keys" for k
    using geometry_key_definition [OF assms(1,2) that assms(4)]
    by (auto simp: create_quad_key_task_def task_def assms(3) cell_compiler_new_def)
  have "those (map (create_quad_key_task V L C layer) (filter (selected C) keys)) =
      Some (map (\<lambda>k. Some (task k)) (filter (selected C) keys))"
    using one by (intro those_map_total) auto
  then have "quad_queue_tasks V L C layer (Some m) =
      Some (map Some (map task (filter (selected C) keys)), length keys)"
    by (simp add: quad_queue_tasks_def assms(2) comp_def)
  moreover have "map cc_cell_id (map task (filter (selected C) keys)) = map key_to_string (filter (selected C) keys)"
    using one by simp
  moreover have "list_all (\<lambda>tsk. cc_layer tsk \<in> ll_layer ` set (tl_levels layer)) (map task (filter (selected C) keys))"
    using one by (auto simp: list_all_iff)
  ultimately show ?thesis by blast
qed

section \<open>The index refers to the geometry that was built\<close>

fun child_file :: "index_child \<Rightarrow> string" where
  "child_file (PagedChild f r i) = f"
| "child_file (ProxyChild f) = f"

definition index_refs :: "index_build \<Rightarrow> string set" where
  "index_refs ib = (\<Union>(f, cs) \<in> set (ib_files ib). child_file ` set cs)"

definition geometry_file :: "('s, 'o) layer_compiler \<Rightarrow> 's quadkey \<Rightarrow> string" where
  "geometry_file C k = lc_rel_path C (''g'' @ key_to_string k)"

definition was_built :: "('s, 'o) layer_compiler \<Rightarrow> (string \<Rightarrow> bool) \<Rightarrow> 's quadkey \<Rightarrow> bool" where
  "was_built C exists_file k \<longleftrightarrow> exists_file (lc_abs_path C (''g'' @ key_to_string k))"

definition built_files :: "('s, 'o) layer_compiler \<Rightarrow> (string \<Rightarrow> bool) \<Rightarrow> 's quadkey list \<Rightarrow> string set" where
  "built_files C exists_file ks = geometry_file C ` set (filter (was_built C exists_file) ks)"

lemma built_files_append: "built_files C e (xs @ ys) = built_files C e xs \<union> built_files C e ys"
  by (simp add: built_files_def image_Un)

lemma index_node_refs:
  "child_file ` set (case index_node C exists_file sub key of None \<Rightarrow> [] | Some cs \<Rightarrow> cs) =
     built_files C exists_file (sub_keys key)"
proof -
  have subs: "filter (was_built C exists_file) (sub_keys key) = existing_sub_keys C exists_file key"
    by (simp add: existing_sub_keys_def was_built_def [abs_def])
  show ?thesis unfolding built_files_def subs
    by (cases "existing_sub_keys C exists_file key"; cases sub)
      (simp_all add: index_node_def intermediate_index_node_def leaf_index_node_def geometry_file_def image_image)
qed

lemma index_key_refs:
  "index_refs (index_key C exists_file first lv sub key ib) =
     index_refs ib \<union> built_files C exists_file (sub_keys key)"
  using index_node_refs [of C exists_file sub key]
  by (auto simp: index_key_def index_refs_def split: option.splits)

lemma index_fold_refs:
  "index_refs (foldl (\<lambda>ib key. index_key C exists_file first lv sub key ib) ib keys) =
     index_refs ib \<union> built_files C exists_file (concat (map sub_keys keys))"
  by (induction keys arbitrary: ib) (simp_all add: index_key_refs built_files_append Un_assoc, simp add: built_files_def)

lemma index_levels_refs:
  "index_levels V C exists_file m layer top_lod first lvs ib =
     (case those (map (level_keys V m layer top_lod) lvs) of
        None \<Rightarrow> None
      | Some kss \<Rightarrow> index_levels V C exists_file m layer top_lod first lvs ib) \<and>
   (\<forall>kss. those (map (level_keys V m layer top_lod) lvs) = Some kss \<longrightarrow>
     (\<exists>ib'. index_levels V C exists_file m layer top_lod first lvs ib = Some ib' \<and>
       index_refs ib' = index_refs ib \<union>
         built_files C exists_file (concat (map sub_keys (concat kss)))))"
proof (induction lvs arbitrary: first ib)
  case (Cons lv lvs)
  show ?case
  proof (cases "level_keys V m layer top_lod lv")
    case (Some keys)
    let ?ib = "foldl (\<lambda>ib key. index_key C exists_file first lv (case lvs of [] \<Rightarrow> None | sl # _ \<Rightarrow> Some sl) key ib) ib keys"
    have step: "index_levels V C exists_file m layer top_lod first (lv # lvs) ib =
        index_levels V C exists_file m layer top_lod False lvs ?ib"
      by (simp add: Some)
    from Cons.IH [of False ?ib] show ?thesis
      unfolding step
      by (cases "those (map (level_keys V m layer top_lod) lvs)")
        (auto simp: Some index_fold_refs built_files_append)
  qed simp
qed (simp add: built_files_def)

lemma build_index_refs:
  "rel_option (\<lambda>ib keys. index_refs ib = built_files C exists_file keys)
     (build_index V C exists_file layer (Some m)) (collect_geometry_keys V m layer)"
proof (cases "get_top_lod m layer")
  case (Some top_lod)
  note l = index_levels_refs [of V C exists_file m layer top_lod True "tl_levels layer" "\<lparr>ib_files = [], ib_root = []\<rparr>"]
  show ?thesis
  proof (cases "those (map (level_keys V m layer top_lod) (tl_levels layer))")
    case None
    then show ?thesis using conjunct1 [OF l] by (simp add: build_index_def collect_geometry_keys_def Some)
  next
    case (Some kss)
    then show ?thesis
      using conjunct2 [OF l] \<open>get_top_lod m layer = Some top_lod\<close>
      by (auto simp: build_index_def collect_geometry_keys_def index_refs_def)
  qed
qed (simp add: build_index_def collect_geometry_keys_def)

section \<open>The keys cover the area\<close>

text \<open>A point of a span lies in a cell that the span overlaps.\<close>

lemma cell_of_point:
  fixes X W a b x :: real and n :: nat
  assumes "0 < W" "X \<le> a" "b \<le> X + W" "a < b" "a \<le> x" "x \<le> b"
  defines "c \<equiv> W / 2 ^ n"
  shows "\<exists>i :: nat. i < 2 ^ n \<and> X + real i * c \<le> x \<and> x \<le> X + (real i + 1) * c \<and>
    X + real i * c < b \<and> a < X + (real i + 1) * c"
proof -
  have c: "0 < c" using assms(1) by (simp add: c_def)
  have W: "W = 2 ^ n * c" by (simp add: c_def)
  have bound: "i < 2 ^ n" if "X + real i * c < b" for i :: nat
  proof -
    have "real i * c < 2 ^ n * c" using that assms(3) W by linarith
    then have "real i < 2 ^ n" using c by simp
    then show ?thesis by (metis of_nat_less_numeral_power_cancel_iff)
  qed
  show ?thesis
  proof (cases "x < b")
    case True
    define i where "i = nat \<lfloor>(x - X) / c\<rfloor>"
    have "0 \<le> (x - X) / c" using c assms by simp
    then have "real i \<le> (x - X) / c" "(x - X) / c < real i + 1" unfolding i_def by linarith+
    then have "X + real i * c \<le> x" "x < X + (real i + 1) * c" using c by (simp_all add: field_simps)
    with True assms bound [of i] show ?thesis by (intro exI [of _ i]) auto
  next
    case False
    then have x: "x = b" using assms by simp
    define i where "i = nat (\<lceil>(b - X) / c\<rceil> - 1)"
    have "0 < (b - X) / c" using c assms by simp
    then have "real i < (b - X) / c" "(b - X) / c \<le> real i + 1" unfolding i_def by linarith+
    then have "X + real i * c < b" "b \<le> X + (real i + 1) * c" using c by (simp_all add: field_simps)
    with x assms bound [of i] show ?thesis by (intro exI [of _ i]) auto
  qed
qed

lemma sub_key_of_point:
  assumes "ext_wf s (bounds (qmap key))" and "key_ok key" and "p \<in> ext_box (fst (key_get_extent key))"
  shows "\<exists>k \<in> set (sub_keys key). p \<in> ext_box (fst (key_get_extent k))"
  using sub_keys_tile [OF assms(1,2)] assms(3) by (auto simp: sub_keys_def upt_conv_Cons numeral_eq_Suc)

context srs_interface begin

lemma level_keys_cover:
  assumes m: "ext_wf s (bounds m)" and aoi: "ext_wf s (area_of_interest layer)" and "usable s"
    and inside: "ext_box (area_of_interest layer) \<subseteq> ext_box (bounds m)"
    and wide: "px (sw (area_of_interest layer)) < px (ne (area_of_interest layer))"
      "py (sw (area_of_interest layer)) < py (ne (area_of_interest layer))"
    and lod: "top_lod + ll_depth lv \<le> 31"
  shows "\<exists>keys. level_keys V m layer top_lod lv = Some keys \<and>
    (\<forall>p \<in> ext_box (area_of_interest layer). \<exists>k \<in> set (concat (map sub_keys keys)).
       p \<in> ext_box (fst (key_get_extent k)))"
proof -
  let ?a = "area_of_interest layer" and ?b = "bounds m" and ?n = "top_lod + ll_depth lv"
  have ll: "level_lod top_lod lv = ?n" using lod by (simp add: level_lod_def)
  define cw ch where c: "cw = get_width ?b / 2 ^ ?n" "ch = get_height ?b / 2 ^ ?n"
  have size: "get_cell_size m ?n = (cw, ch)" by (simp add: get_cell_size_eq c)
  obtain x0 y0 x1 y1 where cells: "get_cells V m ?a ?n = Some (Some (x0, y0, x1, y1))"
    and xs: "\<And>i. x0 \<le> i \<and> i \<le> x1 \<longleftrightarrow>
       px (sw ?b) + real i * cw < px (ne ?a) \<and> px (sw ?a) < px (sw ?b) + (real i + 1) * cw"
    and ys: "\<And>j. y0 \<le> j \<and> j \<le> y1 \<longleftrightarrow>
       py (sw ?b) + real j * ch < py (ne ?a) \<and> py (sw ?a) < py (sw ?b) + (real j + 1) * ch"
    using get_cells_overlap [OF m aoi assms(3) _ inside wide size] lod by auto
  have inb: "px (sw ?b) \<le> px (sw ?a)" "px (ne ?a) \<le> px (ne ?b)" "py (sw ?b) \<le> py (sw ?a)" "py (ne ?a) \<le> py (ne ?b)"
    using ext_box_nonempty [OF aoi] inside by (auto simp: ext_box_def pt_xy_def)
  have w: "get_width ?b = px (ne ?b) - px (sw ?b)" "get_height ?b = py (ne ?b) - py (sw ?b)"
    using m by (simp_all add: get_width_def get_height_def ext_wf_observe)
  have px: "\<exists>i < 2 ^ ?n. x0 \<le> i \<and> i \<le> x1 \<and> px (sw ?b) + real i * cw \<le> x \<and> x \<le> px (sw ?b) + real i * cw + cw"
    if "px (sw ?a) \<le> x" "x \<le> px (ne ?a)" for x
    using cell_of_point [of "get_width ?b" "px (sw ?b)" "px (sw ?a)" "px (ne ?a)" x ?n, folded c] that inb w wide xs
    by (auto simp: algebra_simps)
  have py: "\<exists>j < 2 ^ ?n. y0 \<le> j \<and> j \<le> y1 \<and> py (sw ?b) + real j * ch \<le> y \<and> y \<le> py (sw ?b) + real j * ch + ch"
    if "py (sw ?a) \<le> y" "y \<le> py (ne ?a)" for y
    using cell_of_point [of "get_height ?b" "py (sw ?b)" "py (sw ?a)" "py (ne ?a)" y ?n, folded c] that inb w wide ys
    by (auto simp: algebra_simps)
  have le: "x0 \<le> x1" "y0 \<le> y1" using px [of "px (sw ?a)"] py [of "py (sw ?a)"] wide by auto
  have pow: "(2 :: nat) ^ ?n \<le> 2 ^ 31" using lod by (rule power_increasing) simp
  have "x1 < 2 ^ ?n"
    using cell_of_point [of "get_width ?b" "px (sw ?b)" "px (sw ?a)" "px (ne ?a)"]
  proof -
    have cw: "0 < cw" "get_width ?b = 2 ^ ?n * cw" using inb w wide by (simp_all add: c)
    have "real x1 * cw < 2 ^ ?n * cw" using xs [of x1] le inb w cw by simp
    then have "real x1 < 2 ^ ?n" using cw by simp
    then show ?thesis by (metis of_nat_less_numeral_power_cancel_iff)
  qed
  moreover have "y1 < 2 ^ ?n"
  proof -
    have ch: "0 < ch" "get_height ?b = 2 ^ ?n * ch" using inb w wide by (simp_all add: c)
    have "real y1 * ch < 2 ^ ?n * ch" using ys [of y1] le inb w ch by simp
    then have "real y1 < 2 ^ ?n" using ch by simp
    then show ?thesis by (metis of_nat_less_numeral_power_cancel_iff)
  qed
  ultimately have small: "x1 < 2 ^ 31" "y1 < 2 ^ 31" using pow by linarith+
  define cs where "cs = concat (map (\<lambda>y. map (\<lambda>x. (x, y)) [x0..<Suc x1]) [y0..<Suc y1])"
  have cs: "level_cells V m ?a ?n = Some cs" using small by (simp add: level_cells_def cells cs_def)
  define mk where "mk xy = the (cell_key m ?n xy)" for xy
  have mk: "cell_key m ?n xy = Some (mk xy)" for xy using lod by (simp add: mk_def cell_key_def quadkey_of_cell_def)
  have keys: "level_keys V m layer top_lod lv = Some (map mk cs)"
    using mk by (simp add: level_keys_def ll cs those_map_total)
  have "\<exists>k \<in> set (concat (map sub_keys (map mk cs))). (x, y) \<in> ext_box (fst (key_get_extent k))"
    if "(x, y) \<in> ext_box ?a" for x y
  proof -
    obtain i where i: "i < 2 ^ ?n" "x0 \<le> i" "i \<le> x1" "px (sw ?b) + real i * cw \<le> x" "x \<le> px (sw ?b) + real i * cw + cw"
      using px [of x] \<open>(x, y) \<in> ext_box ?a\<close> by (auto simp: ext_box_def)
    obtain j where j: "j < 2 ^ ?n" "y0 \<le> j" "j \<le> y1" "py (sw ?b) + real j * ch \<le> y" "y \<le> py (sw ?b) + real j * ch + ch"
      using py [of y] \<open>(x, y) \<in> ext_box ?a\<close> by (auto simp: ext_box_def)
    have mem: "(i, j) \<in> set cs" using i(2,3) j(2,3) by (auto simp: cs_def image_iff simp del: upt_Suc)
    have key: "quadkey_of_cell (of_nat i) (of_nat j) ?n m = Some (mk (i, j))" using mk [of "(i, j)"] by (simp add: cell_key_def)
    have nums: "unat (of_nat i :: 32 word) = i" "unat (of_nat j :: 32 word) = j"
      using i(1) j(1) pow by (simp_all add: unat_of_nat take_bit_nat_eq_self)
    have "(x, y) \<in> ext_box (fst (key_get_extent (mk (i, j))))"
      using key_extent_cell [OF m key _ _ size] i j by (simp add: nums bounds_box)
    moreover have "qmap (mk (i, j)) = m"
      using level_keys_props [OF m keys, of "mk (i, j)"] mem by auto
    ultimately obtain k where "k \<in> set (sub_keys (mk (i, j)))" "(x, y) \<in> ext_box (fst (key_get_extent k))"
      using sub_key_of_point [of s "mk (i, j)"] m key_ok_new(2) [OF key] by auto
    with mem show ?thesis by auto
  qed
  with keys show ?thesis by auto
qed

lemma quad_keys_cover:
  assumes "ext_wf s (bounds m)" and "ext_wf s (area_of_interest layer)" and "usable s"
    and "ext_box (area_of_interest layer) \<subseteq> ext_box (bounds m)"
    and "px (sw (area_of_interest layer)) < px (ne (area_of_interest layer))"
    and "py (sw (area_of_interest layer)) < py (ne (area_of_interest layer))"
    and top: "get_top_lod m layer = Some top_lod"
    and "list_all (\<lambda>lv. top_lod + ll_depth lv \<le> 31) (tl_levels layer)"
  shows "\<exists>keys. collect_geometry_keys V m layer = Some keys \<and>
    (\<forall>lv \<in> set (tl_levels layer). \<forall>p \<in> ext_box (area_of_interest layer).
       \<exists>k \<in> set keys. get_lod k = Suc (top_lod + ll_depth lv) \<and> p \<in> ext_box (fst (key_get_extent k)))"
proof -
  define mk where "mk lv = the (level_keys V m layer top_lod lv)" for lv
  have one: "level_keys V m layer top_lod lv = Some (mk lv) \<and>
      (\<forall>p \<in> ext_box (area_of_interest layer). \<exists>k \<in> set (concat (map sub_keys (mk lv))). p \<in> ext_box (fst (key_get_extent k)))"
    if "lv \<in> set (tl_levels layer)" for lv
  proof -
    have "top_lod + ll_depth lv \<le> 31" using assms(8) that by (simp add: list_all_iff)
    from level_keys_cover [OF assms(1-6) this] show ?thesis by (auto simp: mk_def)
  qed
  have all: "collect_geometry_keys V m layer =
      Some (concat (map sub_keys (concat (map mk (tl_levels layer)))))"
    using one by (simp add: collect_geometry_keys_def top those_map_total)
  have "\<exists>k \<in> set (concat (map sub_keys (concat (map mk (tl_levels layer))))).
      get_lod k = Suc (top_lod + ll_depth lv) \<and> p \<in> ext_box (fst (key_get_extent k))"
    if lv: "lv \<in> set (tl_levels layer)" and p: "p \<in> ext_box (area_of_interest layer)" for lv p
  proof -
    obtain key k where k: "key \<in> set (mk lv)" "k \<in> set (sub_keys key)" "p \<in> ext_box (fst (key_get_extent k))"
      using one [OF lv] p by auto
    have "top_lod + ll_depth lv \<le> 31" using assms(8) lv by (simp add: list_all_iff)
    then have "get_lod k = Suc (top_lod + ll_depth lv)"
      using level_keys_props [OF assms(1) conjunct1 [OF one [OF lv]] k(1)] parent_of_sub_key [OF assms(1), of key] k(2)
      by (auto simp: sub_keys_def level_lod_def)
    with k lv show ?thesis by auto
  qed
  with all show ?thesis by blast
qed

text \<open>The map of a layer that is not geocentric is a square from the south-west corner of the area.\<close>

lemma quad_profile_square:
  assumes "quad_profile V geocentric wgs84 os layer = Some m" and "os = Some t" and "\<not> geocentric t"
    and a: "ext_wf s (area_of_interest layer)" and "usable s"
  shows "ext_wf s (bounds m) \<and> ext_box (area_of_interest layer) \<subseteq> ext_box (bounds m) \<and>
    get_width (bounds m) = get_height (bounds m) \<and> string_style m = STYLE_LOD_QUADKEY"
proof -
  let ?a = "area_of_interest layer"
  define len where "len = (if get_width ?a < get_height ?a then get_height ?a else get_width ?a)"
  have w: "get_width ?a = px (ne ?a) - px (sw ?a)" "get_height ?a = py (ne ?a) - py (sw ?a)"
    using a by (simp_all add: get_width_def get_height_def ext_wf_observe)
  have len: "px (ne ?a) - px (sw ?a) \<le> len" "py (ne ?a) - py (sw ?a) \<le> len" "0 \<le> len"
    using ext_wfD(7,8) [OF a] by (auto simp: len_def w)
  let ?q = "geopoint_2d (px (sw ?a) + len) (py (sw ?a) + len) (Some s)"
  define b where "b = ext_of_points V (sw ?a) ?q"
  have q: "vt_transform V s ?q = ?q" using assms(5) by (intro transform_same) simp_all
  have b_eq: "b = recalc ((ext_flags False False)\<lparr>sw := sw ?a, ne := ?q, is_valid := True\<rparr>)"
    using ext_wfD [OF a] by (simp add: b_def ext_of_points_def q Let_def)
  have "ext_wf s b" unfolding b_eq by (rule recalc_wf) (use ext_wfD [OF a] len in simp_all)
  moreover have corners: "sw b = sw ?a" "ne b = ?q" by (simp_all add: b_eq recalc_def Let_def)
  moreover have "m = quadmap_copy (set_string_style (quadmap_new b) STYLE_LOD_QUADKEY)"
    using assms(1-3) ext_wfD(1) [OF a] ext_wf_observe(1) [OF a]
    by (simp add: quad_profile_def b_def len_def Let_def)
  ultimately have "ext_wf s (bounds m)" "bounds m = b" "string_style m = STYLE_LOD_QUADKEY"
    by (simp_all add: quadmap_copy_def quadmap_new_def set_string_style_def ext_wf_copy)
  then show ?thesis
    using corners len by (auto simp: ext_box_def get_width_def get_height_def ext_wf_observe)
qed

end

text \<open>That of a geocentric one is not, although the comment says it is.\<close>

lemma geocentric_profile_not_square:
  assumes "quad_profile V geocentric (Some s) (Some t) layer = Some m" and "geocentric t"
  shows "get_width (bounds m) = 360 \<and> get_height (bounds m) = 270"
proof -
  have wf: "ext_wf s (ext_of_bounds (-180) (-180) 180 90 (Some s))" by (rule ext_of_bounds_wf) simp_all
  have "bounds m = ext_of_bounds (-180) (-180) 180 90 (Some s)"
    using assms ext_wf_copy [OF wf]
    by (auto simp: quad_profile_def quadmap_copy_def set_string_style_def quadmap_new_def Let_def split: if_splits)
  then show ?thesis using ext_wf_observe [OF wf] by (simp add: get_width_def get_height_def)
qed

end
