(* ===== verification/Map_Sample.thy ===== *)
theory Map_Sample
  imports Samples Quad_Compiler
begin

text \<open>
  A map layer of one level over a rectangle, with cells of three units, and a compiler whose paths
  are the names of the files.
\<close>

definition sample_level :: "(unit, unit, unit) lod_level" where
  "sample_level =
     \<lparr>ll_layer = (), ll_graph = None, ll_env_props = [], ll_packager = None, ll_min_range = 0,
      ll_max_range = 100, ll_replace = True, ll_depth = 0, ll_user_data = None\<rparr>"

definition sample_layers :: "(unit srs, unit) layer_vt" where
  "sample_layers = \<lparr>lv_extent = (\<lambda>_. sample_box 1 1 5 3), lv_srs = (\<lambda>_. Some sample_srs)\<rparr>"

definition sample_tiled :: "(unit srs, unit, unit, unit) tiled_layer" where
  "sample_tiled = push_level (ogr_vt sample_lib) sample_layers (Some sample_level)
     (set_cell_width 3 (set_cell_height 3 (tiled_layer_new 0 0)))"

definition sample_compiler :: "(unit srs, unit) layer_compiler" where
  "sample_compiler =
     \<lparr>lc_new_env = sample_env, lc_new_reader = (\<lambda>_. ()), lc_terrain = None, lc_terrain_srs = None,
      lc_abs_path = (\<lambda>p. p), lc_rel_path = (\<lambda>p. p), lc_packager = None, lc_archive = None,
      lc_selector = None\<rparr>"

definition sample_profile :: "unit srs quadmap" where
  "sample_profile =
     the (quad_profile (ogr_vt sample_lib) (\<lambda>_. False) None (Some sample_srs) sample_tiled)"

lemma sample_tiled_simps [simp]:
  "tl_levels sample_tiled = [sample_level]" "area_of_interest sample_tiled = sample_box 1 1 5 3"
  "tl_cell_width sample_tiled = 3" "tl_cell_height sample_tiled = 3" "ll_depth sample_level = 0"
  by (simp_all add: sample_tiled_def push_level_def set_cell_width_def set_cell_height_def tiled_layer_new_def
      area_of_interest_def sample_level_def sample_layers_def invalid_unusable)

lemma sample_profile_eq: "quad_profile (ogr_vt sample_lib) (\<lambda>_. False) None (Some sample_srs) sample_tiled =
    Some sample_profile"
proof -
  have "is_valid (sample_box 1 1 5 3)" by (rule ext_wfD(1) [OF sample_box_wf]) simp_all
  then show ?thesis by (simp add: sample_profile_def quad_profile_def Let_def)
qed

lemma sample_profile_wf:
  "ext_wf sample_srs (bounds sample_profile)" "get_width (bounds sample_profile) = 4"
  "get_height (bounds sample_profile) = 4"
proof -
  have a: "ext_wf sample_srs (area_of_interest sample_tiled)" by simp
  have p: "ext_wf sample_srs (bounds sample_profile) \<and>
      ext_box (area_of_interest sample_tiled) \<subseteq> ext_box (bounds sample_profile) \<and>
      get_width (bounds sample_profile) = get_height (bounds sample_profile) \<and>
      string_style sample_profile = STYLE_LOD_QUADKEY"
    using ogr.quad_profile_square [OF sample_profile_eq refl _ a] by simp
  then show "ext_wf sample_srs (bounds sample_profile)" by blast
  have w: "get_width (sample_box 1 1 5 3) = 4" "get_height (sample_box 1 1 5 3) = 2" "get_srs (sample_box 1 1 5 3) = Some sample_srs"
    using ext_wf_observe [OF sample_box_wf [of 1 5 1 3]] by (simp_all add: get_width_def get_height_def)
  have v: "is_valid (sample_box 1 1 5 3)" by (rule ext_wfD(1) [OF sample_box_wf]) simp_all
  let ?q = "geopoint_2d 5 5 (Some sample_srs)" and ?p = "sw (sample_box 1 1 5 3)"
  have q: "vt_transform (ogr_vt sample_lib) sample_srs ?q = ?q" by (intro ogr.transform_same) simp_all
  have b: "bounds sample_profile = ext_copy (ext_copy (ext_of_points (ogr_vt sample_lib) ?p ?q))"
    using sample_profile_eq
    by (simp add: quad_profile_def w v Let_def quadmap_copy_def set_string_style_def quadmap_new_def)
      (metis quadmap.select_convs(1))
  have "px (sw (bounds sample_profile)) = 1 \<and> px (ne (bounds sample_profile)) = 5"
    using ext_wfD [OF sample_box_wf [of 1 5 1 3]]
    by (simp add: b ext_copy_def ext_of_points_def q recalc_def Let_def)
  then have "get_width (bounds sample_profile) = 4"
    using ext_wf_observe [OF conjunct1 [OF p]] by (simp add: get_width_def)
  with p show "get_width (bounds sample_profile) = 4" "get_height (bounds sample_profile) = 4" by simp_all
qed

lemma sample_top_lod [simp]: "get_top_lod sample_profile sample_tiled = Some 1"
proof -
  have c: "get_cell_size sample_profile n = (4 / 2 ^ n, 4 / 2 ^ n)" for n
    by (simp add: get_cell_size_eq sample_profile_wf)
  have "best_lod_loop sample_profile 3 3 1 = Some 2"
    by (subst best_lod_loop.simps, simp add: c) (subst best_lod_loop.simps, simp add: c)
  then show ?thesis
    by (simp add: get_top_lod_def get_best_lod_for_cells_of_size_def max_depth_def)
qed

lemma sample_tiled_ok:
  "ext_wf sample_srs (area_of_interest sample_tiled)" "srs_usable sample_srs"
  "px (sw (area_of_interest sample_tiled)) < px (ne (area_of_interest sample_tiled))"
  "py (sw (area_of_interest sample_tiled)) < py (ne (area_of_interest sample_tiled))"
  "list_all (\<lambda>lv. 1 + ll_depth lv \<le> 31) (tl_levels sample_tiled)"
  "list_all (\<lambda>lv. ll_depth lv < 2 ^ 32) (tl_levels sample_tiled)"
  "get_srs (area_of_interest sample_tiled) = Some sample_srs"
  using ext_wf_observe(1) [OF sample_box_wf [of 1 5 1 3]] by simp_all

text \<open>The keys of the sample, of which there are some.\<close>

lemma sample_keys: "\<exists>keys. collect_geometry_keys (ogr_vt sample_lib) sample_profile sample_tiled = Some keys"
proof -
  have "ext_box (area_of_interest sample_tiled) \<subseteq> ext_box (bounds sample_profile)"
    using ogr.quad_profile_square [OF sample_profile_eq refl _ sample_tiled_ok(1,2)] by simp
  from ogr.quad_keys_cover [OF sample_profile_wf(1) sample_tiled_ok(1,2) this sample_tiled_ok(3,4) sample_top_lod sample_tiled_ok(5), of sample_lib]
  show ?thesis by blast
qed

end
