(* ===== verification/Grid_Compiler.thy ===== *)
theory Grid_Compiler
  imports Quad_Compiler
begin

text \<open>
  \<^verbatim>\<open>src/osgGISProjects/GriddedMapLayerCompiler.cpp\<close> and \<^verbatim>\<open>SimpleMapLayerCompiler.cpp\<close>: the compiler
  that cuts a layer into the cells of a grid, and the one that makes one task of each level.
\<close>

section \<open>The grid of a layer\<close>

text \<open>
  Where there is no area of interest the bounds are those of the earth. The inner \<open>None\<close> is the null
  pointer.
\<close>

definition grid_bounds :: "'s srs_vt \<Rightarrow> 's option \<Rightarrow> ('s, 'l, 'g, 'o) tiled_layer \<Rightarrow> 's geoextent" where
  "grid_bounds V wgs84 layer =
     (let aoi = area_of_interest layer
      in if is_infinite aoi \<or> \<not> is_valid aoi
         then ext_of_points V (geopoint_2d (-180) (-90) wgs84) (geopoint_2d 180 90 wgs84)
         else aoi)"

definition create_grid_profile ::
  "'s srs_vt \<Rightarrow> 's option \<Rightarrow> ('s, 'l, 'g, 'o) tiled_layer \<Rightarrow> 's grid_profile option option" where
  "create_grid_profile V wgs84 layer =
     (let aoi = grid_bounds V wgs84 layer
      in if \<not> is_valid aoi then Some None
         else map_option Some (init_by_cell_size (ext_copy aoi) (tl_cell_width layer) (tl_cell_height layer)))"

section \<open>Tasks\<close>

definition grid_key_id :: "grid_key \<Rightarrow> string" where
  "grid_key_id k = (case k of (col, row, level) \<Rightarrow> grid_cell_id col row level)"

definition grid_key_extent :: "'s grid_profile \<Rightarrow> grid_key \<Rightarrow> 's geoextent" where
  "grid_key_extent p k = grid_extent p (fst k) (fst (snd k))"

definition grid_env ::
  "'s srs_vt \<Rightarrow> ('s, 'l) layer_vt \<Rightarrow> ('s, 'o) layer_compiler \<Rightarrow> 's \<Rightarrow> 's grid_profile \<Rightarrow> grid_key \<Rightarrow>
     ('l, 'g, 'o) lod_level \<Rightarrow> ('s, 'o) filter_env" where
  "grid_env V L C s p key lv =
     (let e1 = set_terrain_srs (set_terrain_node (lc_new_env C) (lc_terrain C)) (lc_terrain_srs C);
          e2 = set_input_srs e1 (lv_srs L (ll_layer lv));
          e3 = set_extent e2 (transform_extent V s (grid_key_extent p key));
          e4 = env_set_property e3 (prop_string ''compiler.cell_id'' (grid_key_id key))
      in foldl env_set_property e4 (ll_env_props lv))"

definition create_grid_task ::
  "'s srs_vt \<Rightarrow> ('s, 'l) layer_vt \<Rightarrow> ('s, 'o) layer_compiler \<Rightarrow> ('s, 'l, 'g, 'o) tiled_layer \<Rightarrow> 's grid_profile \<Rightarrow>
     grid_key \<Rightarrow> ('s, 'l, 'g, 'o) cell_compiler option option" where
  "create_grid_task V L C layer p key =
     (case lod_for_key (tl_levels layer) key of
        None \<Rightarrow> Some None
      | Some lv \<Rightarrow>
          do { s \<leftarrow> get_srs (area_of_interest layer);
               Some (Some (cell_compiler_new (lc_new_reader C) (grid_key_id key)
                 (lc_abs_path C (''g'' @ grid_key_id key)) lv (grid_env V L C s p key lv)
                 (level_packager C lv) (lc_archive C))) })"

definition grid_selected :: "('s, 'o) layer_compiler \<Rightarrow> 's grid_profile \<Rightarrow> grid_key \<Rightarrow> bool" where
  "grid_selected C p key =
     (case lc_selector C of None \<Rightarrow> True | Some f \<Rightarrow> f (grid_key_id key) (grid_key_extent p key))"

definition grid_queue_tasks ::
  "'s srs_vt \<Rightarrow> ('s, 'l) layer_vt \<Rightarrow> ('s, 'o) layer_compiler \<Rightarrow> ('s, 'l, 'g, 'o) tiled_layer \<Rightarrow> bool \<Rightarrow>
     's grid_profile option \<Rightarrow> (('s, 'l, 'g, 'o) cell_compiler option list \<times> nat) option" where
  "grid_queue_tasks V L C layer depth_first profile =
     (case profile of
        None \<Rightarrow> Some ([], 0)
      | Some p \<Rightarrow>
          (let keys = grid_keys p (tl_levels layer) depth_first
           in do { tasks \<leftarrow> those (map (create_grid_task V L C layer p) (filter (grid_selected C p) keys));
                   Some (tasks, length keys) }))"

section \<open>The index\<close>

text \<open>
  For each cell with files one node, under the name of the first of them: the files of the levels
  that were built, with the ranges at which they are shown. Whether the node is paged decides its
  class only.
\<close>

definition grid_children ::
  "('s, 'o) layer_compiler \<Rightarrow> (string \<Rightarrow> bool) \<Rightarrow> ('l, 'g, 'o) lod_level list \<Rightarrow> nat \<Rightarrow> nat \<Rightarrow>
     (string \<times> string \<times> real \<times> real) list" where
  "grid_children C exists_file levels col row =
     map (\<lambda>(level, lv). (grid_cell_id col row level, lc_rel_path C (''g'' @ grid_cell_id col row level),
            ll_min_range lv, ll_max_range lv))
       (filter (\<lambda>(level, lv). exists_file (lc_abs_path C (''g'' @ grid_cell_id col row level)))
         (enumerate 0 levels))"

definition grid_index ::
  "('s, 'o) layer_compiler \<Rightarrow> (string \<Rightarrow> bool) \<Rightarrow> ('s, 'l, 'g, 'o) tiled_layer \<Rightarrow> 's grid_profile option \<Rightarrow>
     (string \<times> (string \<times> real \<times> real) list) list" where
  "grid_index C exists_file layer profile =
     (case profile of
        None \<Rightarrow> []
      | Some p \<Rightarrow>
          map (\<lambda>cs. (fst (hd cs), map snd cs))
            (filter (\<lambda>cs. cs \<noteq> [])
              (concat (map (\<lambda>col. map (\<lambda>row. grid_children C exists_file (tl_levels layer) col row)
                 [0..<ax_count (gp_rows p)]) [0..<ax_count (gp_cols p)]))))"

section \<open>The simple compiler\<close>

text \<open>
  The name of a task is the number of its level, and also its file. The archive is left at its
  default.
\<close>

definition simple_env ::
  "('s, 'o) layer_compiler \<Rightarrow> ('s, 'l, 'g, 'o) tiled_layer \<Rightarrow> ('l, 'g, 'o) lod_level \<Rightarrow> ('s, 'o) filter_env" where
  "simple_env C layer lv =
     foldl env_set_property
       (set_terrain_srs (set_terrain_node (set_extent (lc_new_env C) (area_of_interest layer)) (lc_terrain C))
         (lc_terrain_srs C)) (ll_env_props lv)"

definition simple_queue_tasks ::
  "('s, 'o) layer_compiler \<Rightarrow> ('s, 'l, 'g, 'o) tiled_layer \<Rightarrow> ('s, 'l, 'g, 'o) cell_compiler list \<times> nat" where
  "simple_queue_tasks C layer =
     (map (\<lambda>(level, lv). cell_compiler_new (lc_new_reader C) (show_nat level) (show_nat level) lv
            (simple_env C layer lv) None None\<lparr>cc_user_data := None\<rparr>) (enumerate 0 (tl_levels layer)),
      length (tl_levels layer))"

section \<open>Grids with an area of interest\<close>

lemma grid_tasks:
  assumes "map ll_depth (tl_levels layer) = [0..<length (tl_levels layer)]"
    and "get_srs (area_of_interest layer) = Some t"
  shows "\<exists>tasks. grid_queue_tasks V L C layer df (Some p) =
      Some (map Some tasks, length (tl_levels layer) * (ax_count (gp_cols p) * ax_count (gp_rows p))) \<and>
    map cc_cell_id tasks = map grid_key_id (filter (grid_selected C p) (grid_keys p (tl_levels layer) df))"
proof -
  let ?ks = "filter (grid_selected C p) (grid_keys p (tl_levels layer) df)"
  define task where "task k = the (the (create_grid_task V L C layer p k))" for k
  have one: "create_grid_task V L C layer p k = Some (Some (task k)) \<and> cc_cell_id (task k) = grid_key_id k"
    if "k \<in> set (grid_keys p (tl_levels layer) df)" for k
    using conjunct2 [OF grid_keys_ok [OF assms(1), of p df]] that
    by (auto simp: create_grid_task_def task_def assms(2) cell_compiler_new_def)
  have "those (map (create_grid_task V L C layer p) ?ks) = Some (map (\<lambda>k. Some (task k)) ?ks)"
    using one by (intro those_map_total) auto
  then have "grid_queue_tasks V L C layer df (Some p) = Some (map Some (map task ?ks),
      length (tl_levels layer) * (ax_count (gp_cols p) * ax_count (gp_rows p)))"
    by (simp add: grid_queue_tasks_def grid_keys_length comp_def)
  moreover have "map cc_cell_id (map task ?ks) = map grid_key_id ?ks" using one by simp
  ultimately show ?thesis by blast
qed

text \<open>
  Without an area of interest the grid falls back to the earth, but the task of a cell then calls
  the reference of the area, which is null.
\<close>

lemma grid_fallback_null:
  assumes "get_srs (area_of_interest layer) = None" and "lod_for_key (tl_levels layer) key \<noteq> None"
  shows "create_grid_task V L C layer p key = None"
  using assms by (auto simp: create_grid_task_def)

lemma those_None: "None \<in> set xs \<Longrightarrow> those xs = None"
  by (induction xs) (auto split: option.split)

lemma grid_fallback_fails:
  assumes "get_srs (area_of_interest layer) = None" and "lc_selector C = None"
    and "map ll_depth (tl_levels layer) = [0..<length (tl_levels layer)]" and "tl_levels layer \<noteq> []"
    and "0 < ax_count (gp_cols p)" and "0 < ax_count (gp_rows p)"
  shows "grid_queue_tasks V L C layer df (Some p) = None"
proof -
  have "ll_depth (hd (tl_levels layer)) = 0"
    using assms(3,4) by (cases "tl_levels layer") (auto simp: upt_conv_Cons simp del: upt_Suc)
  then have "(0, 0, 0) \<in> set (grid_keys p (tl_levels layer) df)"
    using assms(4-6) hd_in_set [OF assms(4)] by (force simp: grid_keys_member)
  moreover have "create_grid_task V L C layer p (0, 0, 0) = None"
    by (rule grid_fallback_null) (use assms in \<open>simp_all add: lod_for_key_def\<close>)
  ultimately have "None \<in> set (map (create_grid_task V L C layer p) (filter (grid_selected C p) (grid_keys p (tl_levels layer) df)))"
    using assms(2) by (force simp: grid_selected_def)
  from those_None [OF this] show ?thesis by (simp add: grid_queue_tasks_def)
qed

end
