(* ===== verification/Resource_Library.thy ===== *)
theory Resource_Library
  imports Project
begin

text \<open>
  \<^verbatim>\<open>src/osgGIS/ResourceLibrary.cpp\<close>, \<^verbatim>\<open>ResourceCache.cpp\<close>, \<^verbatim>\<open>Session.cpp\<close> and the queries of
  \<^verbatim>\<open>SkinResource.cpp\<close> and \<^verbatim>\<open>ModelResource.cpp\<close>. A resource is shared, so the library holds references
  of type \<open>'r\<close>, and what they refer to is the argument \<open>obj\<close>. Absolute locations, and the nodes and
  state sets that OSG makes, are arguments. The locks only keep an operation in one piece.
\<close>

section \<open>Resources\<close>

record skin =
  sk_width :: real
  sk_height :: real
  sk_min_height :: real
  sk_max_height :: real
  sk_repeats :: bool
  sk_max_size :: nat
  sk_single_use :: bool

text \<open>The data of the classes; a feature layer and a reference may be null.\<close>

datatype ('l, 's) resource_data =
  SkinData skin
| ModelData
| RasterData
| FeatureLayerData "'l option"
| SrsData "'s option"
| PathData
| OtherData

type_synonym ('l, 's) lib_resource = "('l, 's) resource_data resource"

definition skin_new :: "real \<Rightarrow> skin" where
  "skin_new dbl_maximum =
     \<lparr>sk_width = 3, sk_height = 4, sk_min_height = 0, sk_max_height = dbl_maximum, sk_repeats = True,
      sk_max_size = 0, sk_single_use = False\<rparr>"

definition contains_tags :: "string list \<Rightarrow> 'z resource \<Rightarrow> bool" where
  "contains_tags ts r \<longleftrightarrow> list_all (\<lambda>t. contains_tag t r) ts"

section \<open>The library\<close>

datatype lib_list = SKINS | MODELS | RASTERS | FEATURE_LAYERS | SRS_LIST | PATHS

record 'r library =
  lib_lists :: "lib_list \<Rightarrow> 'r list"
  lib_data_paths :: "string list"
  lib_locked :: "'r list"

definition library_new :: "'r library" where
  "library_new = \<lparr>lib_lists = (\<lambda>_. []), lib_data_paths = [], lib_locked = []\<rparr>"

text \<open>The list for the class of a resource; a resource of another class goes nowhere.\<close>

fun list_of_data :: "('l, 's) resource_data \<Rightarrow> lib_list option" where
  "list_of_data (SkinData k) = Some SKINS"
| "list_of_data ModelData = Some MODELS"
| "list_of_data RasterData = Some RASTERS"
| "list_of_data (FeatureLayerData l) = Some FEATURE_LAYERS"
| "list_of_data (SrsData s) = Some SRS_LIST"
| "list_of_data PathData = Some PATHS"
| "list_of_data OtherData = None"

definition add_resource ::
  "('r \<Rightarrow> ('l, 's) lib_resource) \<Rightarrow> (('l, 's) lib_resource \<Rightarrow> string) \<Rightarrow> 'r option \<Rightarrow> 'r library \<Rightarrow> 'r library" where
  "add_resource obj file_path ref lib =
     (case ref of
        None \<Rightarrow> lib
      | Some r \<Rightarrow>
          (let lib1 = (case list_of_data (res_own (obj r)) of
                 None \<Rightarrow> lib
               | Some k \<Rightarrow> lib\<lparr>lib_lists := (lib_lists lib)(k := lib_lists lib k @ [r])\<rparr>);
               lib2 = (if list_of_data (res_own (obj r)) = Some MODELS
                 then lib1\<lparr>lib_data_paths := lib_data_paths lib1 @ [file_path (obj r)]\<rparr> else lib1)
           in lib2\<lparr>lib_locked := lib_locked lib2 @ [r]\<rparr>))"

definition remove_resource ::
  "('r \<Rightarrow> ('l, 's) lib_resource) \<Rightarrow> 'r option \<Rightarrow> 'r library \<Rightarrow> 'r library" where
  "remove_resource obj ref lib =
     (case ref of
        None \<Rightarrow> lib
      | Some r \<Rightarrow>
          (case list_of_data (res_own (obj r)) of
             None \<Rightarrow> lib
           | Some k \<Rightarrow> lib\<lparr>lib_lists := (lib_lists lib)(k := remove1 r (lib_lists lib k))\<rparr>))"

text \<open>All the lookups by name take the first resource of the name.\<close>

definition lib_find :: "('r \<Rightarrow> 'z resource) \<Rightarrow> lib_list \<Rightarrow> string \<Rightarrow> 'r library \<Rightarrow> 'r option" where
  "lib_find obj k name lib = find (\<lambda>r. res_name (obj r) = name) (lib_lists lib k)"

definition get_skin :: "('r \<Rightarrow> 'z resource) \<Rightarrow> string \<Rightarrow> 'r library \<Rightarrow> 'r option" where
  "get_skin obj = lib_find obj SKINS"

definition get_model :: "('r \<Rightarrow> 'z resource) \<Rightarrow> string \<Rightarrow> 'r library \<Rightarrow> 'r option" where
  "get_model obj = lib_find obj MODELS"

definition get_raster :: "('r \<Rightarrow> 'z resource) \<Rightarrow> string \<Rightarrow> 'r library \<Rightarrow> 'r option" where
  "get_raster obj = lib_find obj RASTERS"

definition get_path_resource :: "('r \<Rightarrow> 'z resource) \<Rightarrow> string \<Rightarrow> 'r library \<Rightarrow> 'r option" where
  "get_path_resource obj = lib_find obj PATHS"

definition get_path :: "('r \<Rightarrow> 'z resource) \<Rightarrow> ('z resource \<Rightarrow> string) \<Rightarrow> string \<Rightarrow> 'r library \<Rightarrow> string" where
  "get_path obj abs_uri name lib =
     (case lib_find obj PATHS name lib of Some r \<Rightarrow> abs_uri (obj r) | None \<Rightarrow> [])"

definition get_feature_layer :: "('r \<Rightarrow> ('l, 's) lib_resource) \<Rightarrow> string \<Rightarrow> 'r library \<Rightarrow> 'l option" where
  "get_feature_layer obj name lib =
     (case lib_find obj FEATURE_LAYERS name lib of
        Some r \<Rightarrow> (case res_own (obj r) of FeatureLayerData l \<Rightarrow> l | _ \<Rightarrow> None)
      | None \<Rightarrow> None)"

definition get_lib_srs :: "('r \<Rightarrow> ('l, 's) lib_resource) \<Rightarrow> string \<Rightarrow> 'r library \<Rightarrow> 's option" where
  "get_lib_srs obj name lib =
     (case lib_find obj SRS_LIST name lib of
        Some r \<Rightarrow> (case res_own (obj r) of SrsData s \<Rightarrow> s | _ \<Rightarrow> None)
      | None \<Rightarrow> None)"

definition get_resource :: "('r \<Rightarrow> 'z resource) \<Rightarrow> string \<Rightarrow> 'r library \<Rightarrow> 'r option" where
  "get_resource obj name lib =
     (case get_skin obj name lib of Some r \<Rightarrow> Some r | None \<Rightarrow>
      (case get_model obj name lib of Some r \<Rightarrow> Some r | None \<Rightarrow>
       (case get_raster obj name lib of Some r \<Rightarrow> Some r | None \<Rightarrow> get_path_resource obj name lib)))"

section \<open>Queries\<close>

record skin_query =
  sq_height :: "real option"
  sq_min_height :: "real option"
  sq_max_height :: "real option"
  sq_repeats :: "bool option"
  sq_tags :: "string list"

definition skin_query_new :: skin_query where
  "skin_query_new =
     \<lparr>sq_height = None, sq_min_height = None, sq_max_height = None, sq_repeats = None, sq_tags = []\<rparr>"

definition opt_holds :: "('a \<Rightarrow> bool) \<Rightarrow> 'a option \<Rightarrow> bool" where
  "opt_holds P v = (case v of None \<Rightarrow> True | Some x \<Rightarrow> P x)"

definition skin_matches :: "skin_query \<Rightarrow> skin \<Rightarrow> 'z resource \<Rightarrow> bool" where
  "skin_matches q k r \<longleftrightarrow>
     opt_holds (\<lambda>h. \<not> (h < sk_min_height k \<or> h \<ge> sk_max_height k)) (sq_height q) \<and>
     opt_holds (\<lambda>h. \<not> h > sk_max_height k) (sq_min_height q) \<and>
     opt_holds (\<lambda>h. \<not> h \<le> sk_min_height k) (sq_max_height q) \<and>
     opt_holds (\<lambda>b. b = sk_repeats k) (sq_repeats q) \<and>
     (length (sq_tags q) > 0 \<longrightarrow> contains_tags (sq_tags q) r)"

definition get_skins :: "'r library \<Rightarrow> 'r list" where
  "get_skins lib = lib_lists lib SKINS"

definition get_skins_query :: "('r \<Rightarrow> ('l, 's) lib_resource) \<Rightarrow> skin_query \<Rightarrow> 'r library \<Rightarrow> 'r list" where
  "get_skins_query obj q lib =
     filter (\<lambda>r. case res_own (obj r) of SkinData k \<Rightarrow> skin_matches q k (obj r) | _ \<Rightarrow> False) (lib_lists lib SKINS)"

definition get_models :: "'r library \<Rightarrow> 'r list" where
  "get_models lib = lib_lists lib MODELS"

definition get_models_query :: "('r \<Rightarrow> 'z resource) \<Rightarrow> string list \<Rightarrow> 'r library \<Rightarrow> 'r list" where
  "get_models_query obj ts lib =
     filter (\<lambda>r. length ts > 0 \<longrightarrow> contains_tags ts (obj r)) (lib_lists lib MODELS)"

section \<open>The cache\<close>

text \<open>State sets, nodes and proxies by the resource they were made from.\<close>

record ('r, 'n) resource_cache =
  rc_state_sets :: "('r \<times> 'n option) list"
  rc_nodes :: "('r \<times> 'n) list"
  rc_proxies :: "('r \<times> 'n) list"

definition resource_cache_new :: "('r, 'n) resource_cache" where
  "resource_cache_new = \<lparr>rc_state_sets = [], rc_nodes = [], rc_proxies = []\<rparr>"

fun set_first :: "'r \<Rightarrow> 'v \<Rightarrow> ('r \<times> 'v) list \<Rightarrow> ('r \<times> 'v) list" where
  "set_first r v [] = []"
| "set_first r v (e # es) = (if fst e = r then (r, v) # es else e # set_first r v es)"

definition get_state_set ::
  "('r \<Rightarrow> 'n option) \<Rightarrow> 'r \<Rightarrow> ('r, 'n) resource_cache \<Rightarrow> 'n option \<times> ('r, 'n) resource_cache" where
  "get_state_set create r c =
     (case map_of (rc_state_sets c) r of
        None \<Rightarrow> (create r, c\<lparr>rc_state_sets := rc_state_sets c @ [(r, create r)]\<rparr>)
      | Some None \<Rightarrow> (create r, c\<lparr>rc_state_sets := set_first r (create r) (rc_state_sets c)\<rparr>)
      | Some (Some n) \<Rightarrow> (Some n, c))"

definition get_node ::
  "('r \<Rightarrow> 'n option) \<Rightarrow> 'r \<Rightarrow> ('r, 'n) resource_cache \<Rightarrow> 'n option \<times> ('r, 'n) resource_cache" where
  "get_node create r c =
     (case map_of (rc_nodes c) r of
        None \<Rightarrow> (case create r of
            None \<Rightarrow> (None, c)
          | Some n \<Rightarrow> (Some n, c\<lparr>rc_nodes := rc_nodes c @ [(r, n)]\<rparr>))
      | Some n \<Rightarrow> (Some n, c))"

definition get_external_node ::
  "('r \<Rightarrow> 'n) \<Rightarrow> 'r \<Rightarrow> ('r, 'n) resource_cache \<Rightarrow> 'n \<times> ('r, 'n) resource_cache" where
  "get_external_node create r c =
     (case map_of (rc_proxies c) r of
        None \<Rightarrow> (create r, c\<lparr>rc_proxies := rc_proxies c @ [(r, create r)]\<rparr>)
      | Some n \<Rightarrow> (n, c))"

text \<open>A skin that is made for a state set is a new object.\<close>

definition add_skin :: "'r \<Rightarrow> 'n option \<Rightarrow> ('r, 'n) resource_cache \<Rightarrow> ('r, 'n) resource_cache" where
  "add_skin new_skin n c = c\<lparr>rc_state_sets := rc_state_sets c @ [(new_skin, n)]\<rparr>"

definition cached_skins :: "('r, 'n) resource_cache \<Rightarrow> 'r list" where
  "cached_skins c = map fst (rc_state_sets c)"

definition cached_models :: "('r, 'n) resource_cache \<Rightarrow> 'r list" where
  "cached_models c = map fst (rc_nodes c)"

definition cached_external_models :: "('r, 'n) resource_cache \<Rightarrow> 'r list" where
  "cached_external_models c = map fst (rc_proxies c)"

section \<open>Sessions\<close>

record ('r, 'o) session =
  se_scripts :: "script list"
  se_resources :: 'o
  se_props :: "'o property list"
  se_used :: "'r list"

definition session_new :: "'o \<Rightarrow> ('r, 'o) session" where
  "session_new new_library = \<lparr>se_scripts = [], se_resources = new_library, se_props = [], se_used = []\<rparr>"

text \<open>The library is shared, the scripts are copied, and the properties stay behind.\<close>

definition derive :: "'o \<Rightarrow> ('r, 'o) session \<Rightarrow> ('r, 'o) session" where
  "derive new_library s =
     (let d = session_new new_library
      in d\<lparr>se_scripts := se_scripts d @ se_scripts s, se_resources := se_resources s\<rparr>)"

text \<open>A null engine is called when there is a script to install.\<close>

definition create_script_engine ::
  "(script \<Rightarrow> 'e \<Rightarrow> 'e) \<Rightarrow> 'e option \<Rightarrow> ('r, 'o) session \<Rightarrow> 'e option option" where
  "create_script_engine install new_engine s =
     (case new_engine of
        None \<Rightarrow> if se_scripts s = [] then Some None else None
      | Some e \<Rightarrow> Some (Some (foldl (\<lambda>e scr. install scr e) e (se_scripts s))))"

definition add_script :: "script \<Rightarrow> ('r, 'o) session \<Rightarrow> ('r, 'o) session" where
  "add_script scr s = s\<lparr>se_scripts := se_scripts s @ [scr]\<rparr>"

definition session_set_property :: "'o property \<Rightarrow> ('r, 'o) session \<Rightarrow> ('r, 'o) session" where
  "session_set_property p s = s\<lparr>se_props := props_set (se_props s) p\<rparr>"

definition session_get_property :: "string \<Rightarrow> ('r, 'o) session \<Rightarrow> 'o property" where
  "session_get_property name s = props_get (se_props s) name"

definition mark_resource_used :: "'r \<Rightarrow> ('r, 'o) session \<Rightarrow> ('r, 'o) session" where
  "mark_resource_used r s = (if r \<in> set (se_used s) then s else s\<lparr>se_used := se_used s @ [r]\<rparr>)"

definition get_resources_used :: "bool \<Rightarrow> ('r, 'o) session \<Rightarrow> 'r list \<times> ('r, 'o) session" where
  "get_resources_used reset s = (se_used s, if reset then s\<lparr>se_used := []\<rparr> else s)"

section \<open>Facts\<close>

text \<open>Every list of a library holds resources of its class; the casts of the code rest on this.\<close>

definition library_ok :: "('r \<Rightarrow> ('l, 's) lib_resource) \<Rightarrow> 'r library \<Rightarrow> bool" where
  "library_ok obj lib \<longleftrightarrow> (\<forall>k. \<forall>r \<in> set (lib_lists lib k). list_of_data (res_own (obj r)) = Some k)"

datatype 'r library_op = AddOp "'r option" | RemoveOp "'r option"

fun run_op :: "('r \<Rightarrow> ('l, 's) lib_resource) \<Rightarrow> (('l, 's) lib_resource \<Rightarrow> string) \<Rightarrow> 'r library_op \<Rightarrow> 'r library \<Rightarrow> 'r library" where
  "run_op obj file_path (AddOp r) lib = add_resource obj file_path r lib"
| "run_op obj file_path (RemoveOp r) lib = remove_resource obj r lib"

lemma add_resource_list:
  "lib_lists (add_resource obj file_path (Some r) lib) k =
     (if list_of_data (res_own (obj r)) = Some k then lib_lists lib k @ [r] else lib_lists lib k)"
  by (auto simp: add_resource_def Let_def split: option.split)

lemma remove_resource_list:
  "lib_lists (remove_resource obj (Some r) lib) k =
     (if list_of_data (res_own (obj r)) = Some k then remove1 r (lib_lists lib k) else lib_lists lib k)"
  by (auto simp: remove_resource_def split: option.split)

lemma run_op_ok: "library_ok obj lib \<Longrightarrow> library_ok obj (run_op obj file_path op lib)"
proof (induction op)
  case (AddOp r)
  then show ?case
    by (cases r) (auto simp: library_ok_def add_resource_list add_resource_def [of _ _ None] split: if_splits)
next
  case (RemoveOp r)
  then show ?case
    by (cases r) (auto simp: library_ok_def remove_resource_list remove_resource_def [of _ None]
        dest: notin_set_remove1 split: if_splits)
qed

text \<open>The entries of a list: those added and not removed again.\<close>

lemma run_ops_ok: "library_ok obj lib \<Longrightarrow> library_ok obj (foldl (\<lambda>lib op. run_op obj file_path op lib) lib ops)"
  by (induction ops arbitrary: lib) (auto intro: run_op_ok)

lemma library_new_ok [simp]: "library_ok obj library_new"
  by (simp add: library_ok_def library_new_def)

lemma find_append: "find P (xs @ ys) = (case find P xs of Some x \<Rightarrow> Some x | None \<Rightarrow> find P ys)"
  by (induction xs) auto

lemma lib_find_add:
  "lib_find obj k name (add_resource obj file_path (Some r) lib) =
     (case lib_find obj k name lib of
        Some x \<Rightarrow> Some x
      | None \<Rightarrow> if list_of_data (res_own (obj r)) = Some k \<and> res_name (obj r) = name then Some r else None)"
  by (auto simp: lib_find_def add_resource_list find_append split: option.split)

lemma add_remove_list:
  "r \<notin> set (lib_lists lib k) \<Longrightarrow> lib_lists (remove_resource obj (Some r) (add_resource obj file_path (Some r) lib)) k =
     lib_lists lib k"
  by (auto simp: remove_resource_list add_resource_list remove1_append)

section \<open>Caches\<close>

text \<open>Requests to a cache in a row, each with what the creation would give at that time.\<close>

fun served ::
  "(('r \<Rightarrow> 'n option) \<Rightarrow> 'r \<Rightarrow> 'c \<Rightarrow> 'n option \<times> 'c) \<Rightarrow> (('r \<Rightarrow> 'n option) \<times> 'r) list \<Rightarrow> 'c \<Rightarrow> 'n option list" where
  "served get [] c = []"
| "served get (q # qs) c = fst (get (fst q) (snd q) c) # served get qs (snd (get (fst q) (snd q) c))"

text \<open>What a client relies on: a hit gives what is there, and a miss creates and keeps.\<close>

locale object_cache =
  fixes get :: "('r \<Rightarrow> 'n option) \<Rightarrow> 'r \<Rightarrow> 'c \<Rightarrow> 'n option \<times> 'c"
    and look :: "'c \<Rightarrow> 'r \<Rightarrow> 'n option"
  assumes hit: "look c r = Some n \<Longrightarrow> get create r c = (Some n, c)"
    and miss: "look c r = None \<Longrightarrow> fst (get create r c) = create r \<and>
      look (snd (get create r c)) = (look c)(r := create r)"
begin

lemma keeps: "look c r = Some n \<Longrightarrow> look (snd (get create x c)) r = Some n"
  using hit [of c x _ create] miss [of c x create] by (cases "look c x") auto

lemma requests_hit:
  "look c r = Some n \<Longrightarrow> i < length qs \<Longrightarrow> snd (qs ! i) = r \<Longrightarrow> served get qs c ! i = Some n"
proof (induction qs arbitrary: c i)
  case (Cons q qs)
  then show ?case
    using hit [of c r n "fst q"] keeps [of c r n "fst q" "snd q"] by (cases i) auto
qed simp

text \<open>Once an object was handed out for a resource every later request gets the same object.\<close>

lemma same_object:
  "i < j \<Longrightarrow> j < length qs \<Longrightarrow> snd (qs ! i) = snd (qs ! j) \<Longrightarrow> served get qs c ! i = Some n \<Longrightarrow>
     served get qs c ! j = Some n"
proof (induction qs arbitrary: c i j)
  case (Cons q qs)
  obtain j' where j: "j = Suc j'" using Cons.prems(1) by (cases j) auto
  show ?case
  proof (cases i)
    case 0
    have "look (snd (get (fst q) (snd q) c)) (snd q) = Some n"
      using Cons.prems(4) hit [of c "snd q" _ "fst q"] miss [of c "snd q" "fst q"] 0
      by (cases "look c (snd q)") auto
    from requests_hit [OF this, of j' qs] show ?thesis using Cons.prems(2,3) 0 by (simp add: j)
  next
    case (Suc i')
    then show ?thesis using Cons.IH [of i' j'] Cons.prems by (simp add: j)
  qed
qed simp

end

lemma map_of_append_miss: "map_of es r = None \<Longrightarrow> map_of (es @ [(r, v)]) = (map_of es)(r := Some v)"
  by (induction es) (auto simp: fun_eq_iff)

lemma map_of_set_first: "map_of es r = Some w \<Longrightarrow> map_of (set_first r v es) = (map_of es)(r := Some v)"
  by (induction es) (auto simp: fun_eq_iff split: if_splits)

definition look_state_set :: "('r, 'n) resource_cache \<Rightarrow> 'r \<Rightarrow> 'n option" where
  "look_state_set c r = (case map_of (rc_state_sets c) r of Some v \<Rightarrow> v | None \<Rightarrow> None)"

definition look_node :: "('r, 'n) resource_cache \<Rightarrow> 'r \<Rightarrow> 'n option" where
  "look_node c = map_of (rc_nodes c)"

interpretation state_sets: object_cache get_state_set look_state_set
proof
  fix c :: "('r, 'n) resource_cache" and r n create
  show "look_state_set c r = Some n \<Longrightarrow> get_state_set create r c = (Some n, c)"
    by (auto simp: look_state_set_def get_state_set_def split: option.splits)
  show "look_state_set c r = None \<Longrightarrow> fst (get_state_set create r c) = create r \<and>
      look_state_set (snd (get_state_set create r c)) = (look_state_set c)(r := create r)"
    by (auto simp: look_state_set_def get_state_set_def map_of_append_miss map_of_set_first fun_eq_iff split: option.splits)
qed

interpretation nodes: object_cache get_node look_node
proof
  fix c :: "('r, 'n) resource_cache" and r n create
  show "look_node c r = Some n \<Longrightarrow> get_node create r c = (Some n, c)"
    by (simp add: look_node_def get_node_def)
  show "look_node c r = None \<Longrightarrow> fst (get_node create r c) = create r \<and>
      look_node (snd (get_node create r c)) = (look_node c)(r := create r)"
    by (auto simp: look_node_def get_node_def map_of_append_miss fun_eq_iff simp del: map_of_append split: option.splits)
qed

text \<open>The resources in use are marked once each.\<close>

lemma used_distinct: "distinct (se_used s) \<Longrightarrow> distinct (se_used (mark_resource_used r s))"
  by (simp add: mark_resource_used_def)

lemma used_set: "set (se_used (foldl (\<lambda>s r. mark_resource_used r s) s rs)) = set (se_used s) \<union> set rs \<and>
    (distinct (se_used s) \<longrightarrow> distinct (se_used (foldl (\<lambda>s r. mark_resource_used r s) s rs)))"
  by (induction rs arbitrary: s) (auto simp: mark_resource_used_def)

end
