(* ===== verification/Compile_Session.thy ===== *)
theory Compile_Session
  imports Task_Manager Filter_Graph
begin

text \<open>
  The run of a compilation: \<^verbatim>\<open>src/osgGIS/FeatureLayerCompiler.cpp\<close>,
  \<^verbatim>\<open>src/osgGISProjects/CellCompiler.cpp\<close> and the sessions of \<^verbatim>\<open>MapLayerCompiler.cpp\<close>, with a task
  manager that has no threads. Tasks are numbers, as the task manager has them; what the run of one
  leaves is an argument. Files, nodes and packaging are arguments too.
\<close>

section \<open>The run of a cell\<close>

datatype output_status = OUTPUT_UNKNOWN | OUTPUT_NON_EMPTY | OUTPUT_EMPTY | OUTPUT_ALREADY_EXISTS

record ('s, 'o, 'n) cell_run =
  cr_result :: "('s, 'o) graph_result"
  cr_node :: "'n option"
  cr_need :: bool
  cr_status :: output_status

text \<open>
  The environment gets the reference of the layer, the features in its extent are read, and the graph
  is driven with them.
\<close>

definition layer_run ::
  "('l \<Rightarrow> 's option) \<Rightarrow> ('l \<Rightarrow> 's geoextent \<Rightarrow> 'c) \<Rightarrow>
     ('g \<Rightarrow> 'c \<Rightarrow> ('s, 'o) filter_env \<Rightarrow> ('s, 'o) graph_result \<times> 'n option) \<Rightarrow>
     'l option \<Rightarrow> 'g option \<Rightarrow> ('s, 'o) filter_env option \<Rightarrow> ('s, 'o, 'n) cell_run \<Rightarrow> ('s, 'o, 'n) cell_run" where
  "layer_run srs_of_layer cursor_of compute l g e c =
     (case l of
        None \<Rightarrow> c\<lparr>cr_result := graph_result_error ''Illegal: null feature layer''\<rparr>
      | Some l \<Rightarrow>
          (case g of
             None \<Rightarrow> c\<lparr>cr_result := graph_result_error ''Illegal: null filter graph''\<rparr>
           | Some g \<Rightarrow>
               (case e of
                  None \<Rightarrow> c\<lparr>cr_result := graph_result_error ''Illegal: null filter environment''\<rparr>
                | Some e \<Rightarrow>
                    (let e1 = set_input_srs e (srs_of_layer l);
                         (result, node) = compute g (cursor_of l (feature_extent e1)) e1
                     in c\<lparr>cr_result := result, cr_node := node\<rparr>))))"

definition cell_run_task :: "bool \<Rightarrow> bool \<Rightarrow> ('n \<Rightarrow> bool) \<Rightarrow> (('s, 'o, 'n) cell_run \<Rightarrow> ('s, 'o, 'n) cell_run) \<Rightarrow> ('s, 'o, 'n) cell_run \<Rightarrow> ('s, 'o, 'n) cell_run" where
  "cell_run_task has_archive file_exists has_drawables run c =
     (let c1 = c\<lparr>cr_need := has_archive \<or> \<not> file_exists, cr_status := OUTPUT_UNKNOWN\<rparr>
      in if cr_need c1
         then (let c2 = run c1
               in if graph_ok (cr_result c2)
                  then c2\<lparr>cr_status := (case cr_node c2 of
                      Some n \<Rightarrow> if has_drawables n then OUTPUT_NON_EMPTY else OUTPUT_EMPTY
                    | None \<Rightarrow> OUTPUT_EMPTY)\<rparr>
                  else c2)
         else c1\<lparr>cr_result := graph_result_ok None, cr_status := OUTPUT_ALREADY_EXISTS\<rparr>)"

text \<open>The second component says whether the node was packaged.\<close>

definition cell_post_process :: "('n option \<Rightarrow> bool) option \<Rightarrow> ('s, 'o, 'n) cell_run \<Rightarrow> ('s, 'o, 'n) cell_run \<times> bool" where
  "cell_post_process packager c =
     (if \<not> cr_need c then (c, False)
      else if \<not> graph_ok (cr_result c) then (c, False)
      else if cr_status c = OUTPUT_EMPTY then (c\<lparr>cr_node := None\<rparr>, False)
      else (case packager of
          None \<Rightarrow> (c, False)
        | Some package_node \<Rightarrow>
            if package_node (cr_node c) then (c, True)
            else (c\<lparr>cr_result := graph_result_error ''Cell built OK, but failed to deploy to disk/archive''\<rparr>, True)))"

section \<open>Sessions\<close>

datatype task_outcome = Failed_Exception | Completed_OK | Completed_Error

record compile_session =
  cs_manager :: task_manager
  cs_total :: nat
  cs_recent :: "nat list"
  cs_processed :: "nat list"

text \<open>
  Without a manager of the caller one without threads is made. The tasks are those that the profile
  of the layer gives, with the number that \<open>queueTasks\<close> reports. The processed tasks only record
  which tasks were post-processed.
\<close>

definition start_compiling :: "task_manager option \<Rightarrow> nat list \<Rightarrow> nat \<Rightarrow> compile_session" where
  "start_compiling my_manager tasks num =
     \<lparr>cs_manager = foldl queue_task (case my_manager of Some m \<Rightarrow> m | None \<Rightarrow> task_manager_new 0) tasks,
      cs_total = num, cs_recent = [], cs_processed = []\<rparr>"

definition session_next_completed :: "compile_session \<Rightarrow> nat option \<times> compile_session" where
  "session_next_completed cs =
     (case cs_recent cs of [] \<Rightarrow> (None, cs) | k # ks \<Rightarrow> (Some k, cs\<lparr>cs_recent := ks\<rparr>))"

definition complete_task :: "(nat \<Rightarrow> task_outcome) \<Rightarrow> nat \<Rightarrow> compile_session \<Rightarrow> compile_session" where
  "complete_task outcome k cs =
     (case outcome k of
        Failed_Exception \<Rightarrow> cs\<lparr>cs_recent := cs_recent cs @ [k]\<rparr>
      | Completed_OK \<Rightarrow> cs\<lparr>cs_processed := cs_processed cs @ [k], cs_recent := cs_recent cs @ [k]\<rparr>
      | Completed_Error \<Rightarrow> cs)"

definition continue_compiling :: "(nat \<Rightarrow> task_outcome) \<Rightarrow> compile_session \<Rightarrow> bool \<times> compile_session" where
  "continue_compiling outcome cs =
     (let cs1 = cs\<lparr>cs_recent := []\<rparr>;
          (again, m1) = wait_single (cs_manager cs1);
          cs2 = (if again
             then (case get_next_completed_task m1 of
                 (None, m2) \<Rightarrow> cs1\<lparr>cs_manager := m2\<rparr>
               | (Some k, m2) \<Rightarrow> complete_task outcome k (cs1\<lparr>cs_manager := m2\<rparr>))
             else cs1\<lparr>cs_manager := m1\<rparr>)
      in (has_more_tasks (cs_manager cs2), cs2))"

partial_function (option) compile_loop :: "(nat \<Rightarrow> task_outcome) \<Rightarrow> compile_session \<Rightarrow> compile_session option" where
  "compile_loop outcome cs =
     (case continue_compiling outcome cs of
        (again, cs1) \<Rightarrow> if again then compile_loop outcome cs1 else Some cs1)"

text \<open>The index is built when the loop has ended, whatever became of the tasks.\<close>

definition compile_layer ::
  "(nat \<Rightarrow> task_outcome) \<Rightarrow> 'i \<Rightarrow> task_manager option \<Rightarrow> nat list \<Rightarrow> nat \<Rightarrow> ('i \<times> compile_session) option" where
  "compile_layer outcome built_index my_manager tasks num =
     map_option (\<lambda>cs. (built_index, cs\<lparr>cs_recent := []\<rparr>)) (compile_loop outcome (start_compiling my_manager tasks num))"

section \<open>A cell is compiled when it has to be\<close>

lemma cell_not_compiled:
  "\<not> has_archive \<and> file_exists \<Longrightarrow>
     cell_post_process packager (cell_run_task has_archive file_exists d run c) =
       (c\<lparr>cr_need := False, cr_result := graph_result_ok None, cr_status := OUTPUT_ALREADY_EXISTS\<rparr>, False)"
  by (simp add: cell_run_task_def cell_post_process_def Let_def)

text \<open>What is packaged: a node with something to draw, of a cell that was compiled without an error.\<close>

lemma cell_packaged_iff:
  assumes "\<And>c. cr_need (run c) = cr_need c"
  shows "snd (cell_post_process (Some package_node) (cell_run_task has_archive file_exists has_drawables run c)) \<longleftrightarrow>
    (has_archive \<or> \<not> file_exists) \<and>
    (let c1 = run (c\<lparr>cr_need := has_archive \<or> \<not> file_exists, cr_status := OUTPUT_UNKNOWN\<rparr>)
     in graph_ok (cr_result c1) \<and> (\<exists>n. cr_node c1 = Some n \<and> has_drawables n))"
proof (cases "has_archive \<or> \<not> file_exists")
  case True
  let ?c1 = "run (c\<lparr>cr_need := True, cr_status := OUTPUT_UNKNOWN\<rparr>)"
  have "cr_need ?c1" using assms by simp
  then show ?thesis using True
    by (cases "graph_ok (cr_result ?c1)"; cases "cr_node ?c1")
      (auto simp: cell_run_task_def cell_post_process_def Let_def)
next
  case False
  then show ?thesis by (auto simp: cell_run_task_def cell_post_process_def Let_def)
qed

section \<open>Every task is run and processed once\<close>

lemma queue_all:
  "pending_tasks (foldl queue_task m ks) = pending_tasks m @ ks \<and>
   completed_tasks (foldl queue_task m ks) = completed_tasks m \<and>
   num_running_tasks (foldl queue_task m ks) = num_running_tasks m \<and>
   executed (foldl queue_task m ks) = executed m"
  by (induction ks arbitrary: m) (simp_all add: queue_task_def)

lemma continue_step:
  assumes "num_running_tasks (cs_manager cs) = 0"
    and "completed_tasks (cs_manager cs) @ pending_tasks (cs_manager cs) = k # ks"
  shows "\<exists>cs1. continue_compiling outcome cs = (ks \<noteq> [], cs1) \<and> num_running_tasks (cs_manager cs1) = 0 \<and>
    completed_tasks (cs_manager cs1) @ pending_tasks (cs_manager cs1) = ks \<and>
    executed (cs_manager cs1) @ pending_tasks (cs_manager cs1) = executed (cs_manager cs) @ pending_tasks (cs_manager cs) \<and>
    cs_processed cs1 = cs_processed cs @ (if outcome k = Completed_OK then [k] else []) \<and> cs_total cs1 = cs_total cs"
  by (cases "pending_tasks (cs_manager cs)"; cases "completed_tasks (cs_manager cs)")
    (use assms in \<open>auto simp: continue_compiling_def complete_task_def wait_single_def update_single_def Let_def
      get_next_completed_task_def has_more_tasks_def get_num_tasks_def split: task_outcome.split\<close>)

lemma compile_loop_runs:
  assumes "num_running_tasks (cs_manager cs) = 0"
  shows "\<exists>cs1. compile_loop outcome cs = Some cs1 \<and> get_num_tasks (cs_manager cs1) = 0 \<and>
    executed (cs_manager cs1) = executed (cs_manager cs) @ pending_tasks (cs_manager cs) \<and>
    cs_processed cs1 = cs_processed cs @
      filter (\<lambda>k. outcome k = Completed_OK) (completed_tasks (cs_manager cs) @ pending_tasks (cs_manager cs))"
  using assms
proof (induction "completed_tasks (cs_manager cs) @ pending_tasks (cs_manager cs)" arbitrary: cs)
  case Nil
  then show ?case
    by (subst compile_loop.simps)
      (simp add: continue_compiling_def wait_single_def update_single_def has_more_tasks_def get_num_tasks_def Let_def)
next
  case (Cons k ks)
  obtain cs1 where cs1: "continue_compiling outcome cs = (ks \<noteq> [], cs1)"
    "num_running_tasks (cs_manager cs1) = 0"
    "completed_tasks (cs_manager cs1) @ pending_tasks (cs_manager cs1) = ks"
    "executed (cs_manager cs1) @ pending_tasks (cs_manager cs1) = executed (cs_manager cs) @ pending_tasks (cs_manager cs)"
    "cs_processed cs1 = cs_processed cs @ (if outcome k = Completed_OK then [k] else [])"
    using continue_step [OF Cons.prems Cons.hyps(2) [symmetric]] by blast
  show ?case
  proof (cases "ks = []")
    case True
    then show ?thesis
      using cs1 Cons.hyps(2) by (subst compile_loop.simps) (auto simp: get_num_tasks_def simp flip: Cons.hyps(2))
  next
    case False
    then have "compile_loop outcome cs = compile_loop outcome cs1"
      by (subst compile_loop.simps) (simp add: cs1(1))
    with Cons.hyps(1) [OF cs1(3) [symmetric] cs1(2)] cs1 show ?thesis
      by (auto simp flip: Cons.hyps(2))
  qed
qed

lemma compile_layer_runs:
  "\<exists>cs. compile_layer outcome built_index None tasks num = Some (built_index, cs) \<and>
     executed (cs_manager cs) = tasks \<and> cs_processed cs = filter (\<lambda>k. outcome k = Completed_OK) tasks \<and>
     get_num_tasks (cs_manager cs) = 0"
proof -
  let ?cs = "start_compiling None tasks num"
  have m: "num_running_tasks (cs_manager ?cs) = 0" "completed_tasks (cs_manager ?cs) = []"
    "pending_tasks (cs_manager ?cs) = tasks" "executed (cs_manager ?cs) = []" "cs_processed ?cs = []"
    using queue_all [of "task_manager_new 0" tasks] by (simp_all add: start_compiling_def task_manager_new_def)
  from compile_loop_runs [OF m(1), of outcome] show ?thesis
    by (auto simp: m compile_layer_def)
qed

end
