(* ===== verification/Feature_Store.thy ===== *)
theory Feature_Store
  imports Feature_Cursor Property
begin

text \<open>
  \<^verbatim>\<open>src/osgGIS/OGR_FeatureStore.cpp\<close> and the listing of schemas of
  \<^verbatim>\<open>src/osgGIS/OGR_Feature.cpp\<close>: a feature store over a layer of OGR. What the store calls in
  OGR is two records of arguments, one for layers and one for the making of geometries; the reading of
  features is \<open>Feature\<close>. A handle the code uses without a test is \<open>None\<close> when it is null.
\<close>

section \<open>Fields and schemas\<close>

record field_def =
  fd_name :: string
  fd_type :: ogr_field_type
  fd_width :: int
  fd_just :: int
  fd_prec :: int

definition schema_of_field :: "field_def \<Rightarrow> 'o property attr_schema" where
  "schema_of_field fd =
     (case fd_type fd of
        OFTInteger \<Rightarrow> schema_new (fd_name fd) TYPE_INT
          [prop_int ''width'' (fd_width fd), prop_int ''precision'' (fd_prec fd)]
      | OFTReal \<Rightarrow> schema_new (fd_name fd) TYPE_DOUBLE
          [prop_int ''width'' (fd_width fd), prop_int ''precision'' (fd_prec fd)]
      | OFTString \<Rightarrow> schema_new (fd_name fd) TYPE_STRING
          [prop_int ''width'' (fd_width fd), prop_int ''justification'' (fd_just fd)]
      | OFTOther \<Rightarrow> schema_new (fd_name fd) attr_type.TYPE_UNSPECIFIED [])"

text \<open>The table is keyed by the name as the layer spells it.\<close>

definition schema_table :: "field_def list \<Rightarrow> (string \<times> 'o property attr_schema) list" where
  "schema_table fds = foldl (\<lambda>t fd. smap_put (fd_name fd) (schema_of_field fd) t) [] fds"

text \<open>A feature without a handle lists no schema, not even those of its own attributes.\<close>

definition ogr_attribute_schemas :: "field_def list option \<Rightarrow> 's feature \<Rightarrow> 'o property attr_schema list" where
  "ogr_attribute_schemas handle_fields f =
     (case handle_fields of
        None \<Rightarrow> []
      | Some fds \<Rightarrow>
          map snd (foldl (\<lambda>t (k, a). smap_put k (schema_new k (atype a) []) t) (schema_table fds) (user_attrs f)))"

definition field_type_of :: "attr_type \<Rightarrow> ogr_field_type" where
  "field_type_of t =
     (if t = TYPE_DOUBLE then OFTReal else if t = TYPE_INT then OFTInteger else OFTString)"

text \<open>
  A new field has width, precision and justification 0 until they are set. A number that does not fit
  an \<open>int\<close> is undefined.
\<close>

definition setting ::
  "'o property list \<Rightarrow> string \<Rightarrow> int \<Rightarrow> (int \<Rightarrow> field_def \<Rightarrow> field_def) \<Rightarrow> field_def \<Rightarrow> field_def option" where
  "setting ps key d set_it fd =
     (if props_exists ps key then map_option (\<lambda>i. set_it i fd) (props_get_int ps key d) else Some fd)"

definition field_of_schema :: "'o property attr_schema \<Rightarrow> field_def option" where
  "field_of_schema sc =
     do { fd1 \<leftarrow> setting (sprops sc) ''justification'' 0 (\<lambda>i fd. fd\<lparr>fd_just := i\<rparr>)
            \<lparr>fd_name = sname sc, fd_type = field_type_of (stype sc), fd_width = 0, fd_just = 0, fd_prec = 0\<rparr>;
          fd2 \<leftarrow> setting (sprops sc) ''width'' 11 (\<lambda>i fd. fd\<lparr>fd_width := i\<rparr>) fd1;
          setting (sprops sc) ''precision'' 8 (\<lambda>i fd. fd\<lparr>fd_prec := i\<rparr>) fd2 }"

section \<open>Geometry for the layer\<close>

datatype out_type = Wkb wkb_type | WkbLinearRing | WkbNone

record 'g geom_writer =
  gw_create :: "out_type \<Rightarrow> 'g option"
  gw_add_point :: "'g \<Rightarrow> real \<times> real \<times> real \<Rightarrow> 'g"
  gw_add_point_2d :: "'g \<Rightarrow> real \<times> real \<Rightarrow> 'g"
  gw_add :: "'g \<Rightarrow> 'g \<Rightarrow> 'g"

definition put_point :: "'g geom_writer \<Rightarrow> 'g \<Rightarrow> 's geopoint \<Rightarrow> 'g" where
  "put_point W g p =
     (if dim p > 2 then gw_add_point W g (px p, py p, pz p) else gw_add_point_2d W g (px p, py p))"

text \<open>The points are added from the last to the first.\<close>

definition encode_part :: "'g geom_writer \<Rightarrow> out_type \<Rightarrow> 's geopoint list \<Rightarrow> 'g option" where
  "encode_part W t part = map_option (\<lambda>g. foldl (put_point W) g (rev part)) (gw_create W t)"

definition encode_shape :: "'g geom_writer \<Rightarrow> out_type \<Rightarrow> out_type \<Rightarrow> 's geoshape \<Rightarrow> 'g option" where
  "encode_shape W st pt sh =
     map_option (\<lambda>g. foldl (\<lambda>g part. case encode_part W pt part of None \<Rightarrow> g | Some q \<Rightarrow> gw_add W g q) g (parts sh))
       (gw_create W st)"

definition group_type :: "wkb_type \<Rightarrow> out_type" where
  "group_type r =
     (if r = wkbPolygon then Wkb wkbMultiPolygon
      else if r = wkbPolygon25D then Wkb wkbMultiPolygon25D else WkbNone)"

definition shape_out_type :: "wkb_type \<Rightarrow> out_type" where
  "shape_out_type r =
     (if r = wkbPolygon \<or> r = wkbMultiPolygon then Wkb wkbPolygon
      else if r = wkbPolygon25D \<or> r = wkbMultiPolygon25D then Wkb wkbPolygon25D
      else if r = wkbLineString \<or> r = wkbMultiLineString then Wkb wkbMultiLineString
      else if r = wkbLineString25D \<or> r = wkbMultiLineString25D then Wkb wkbMultiLineString25D
      else if r = wkbPoint \<or> r = wkbMultiPoint then Wkb wkbMultiPoint
      else if r = wkbPoint25D \<or> r = wkbMultiPoint25D then Wkb wkbMultiPoint25D
      else WkbNone)"

definition part_out_type :: "out_type \<Rightarrow> out_type" where
  "part_out_type st =
     (if st = Wkb wkbPolygon \<or> st = Wkb wkbPolygon25D then WkbLinearRing
      else if st = Wkb wkbMultiLineString then Wkb wkbLineString
      else if st = Wkb wkbMultiLineString25D then Wkb wkbLineString25D
      else if st = Wkb wkbMultiPoint then Wkb wkbPoint
      else if st = Wkb wkbMultiPoint25D then Wkb wkbPoint25D
      else WkbNone)"

text \<open>
  Only a layer of polygons takes all the shapes of a feature, in one group. Every other layer, one of
  multiple polygons as well, takes the first.
\<close>

definition encode_geometry :: "'g geom_writer \<Rightarrow> wkb_type \<Rightarrow> 's geoshape list \<Rightarrow> 'g option" where
  "encode_geometry W r shs =
     (let st = shape_out_type r; pt = part_out_type st
      in if group_type r \<noteq> WkbNone
         then map_option (\<lambda>g. foldl (\<lambda>g sh. case encode_shape W st pt sh of None \<Rightarrow> g | Some q \<Rightarrow> gw_add W g q) g shs)
                (gw_create W (group_type r))
         else case shs of [] \<Rightarrow> None | sh # _ \<Rightarrow> encode_shape W st pt sh)"

section \<open>Field values\<close>

datatype field_value = FieldInt int | FieldReal real | FieldString string

text \<open>
  The value of one field; \<open>None\<close> is an attribute whose number is undefined. A field of another type
  is not set.
\<close>

definition field_value_of ::
  "(real \<Rightarrow> string) \<Rightarrow> (string \<Rightarrow> real option) \<Rightarrow> ogr_field_type \<Rightarrow> attribute \<Rightarrow> field_value option option" where
  "field_value_of print_double scan_double t a =
     (case t of
        OFTInteger \<Rightarrow> map_option (\<lambda>i. Some (FieldInt i)) (attr_as_int a)
      | OFTReal \<Rightarrow> map_option (\<lambda>r. Some (FieldReal r)) (attr_as_double scan_double a)
      | OFTString \<Rightarrow> Some (Some (FieldString (fst (attr_as_string print_double a))))
      | OFTOther \<Rightarrow> Some None)"

fun field_values ::
  "(real \<Rightarrow> string) \<Rightarrow> (string \<Rightarrow> real option) \<Rightarrow> (string \<Rightarrow> nat) \<Rightarrow> (string \<Rightarrow> attribute) \<Rightarrow> field_def list \<Rightarrow>
     (nat \<rightharpoonup> field_value) \<Rightarrow> (nat \<rightharpoonup> field_value) option" where
  "field_values pd sd index get [] vs = Some vs"
| "field_values pd sd index get (fd # fds) vs =
     (if avalid (get (fd_name fd))
      then do { v \<leftarrow> field_value_of pd sd (fd_type fd) (get (fd_name fd));
                field_values pd sd index get fds
                  (case v of Some w \<Rightarrow> vs(index (fd_name fd) \<mapsto> w) | None \<Rightarrow> vs) }
      else field_values pd sd index get fds vs)"

section \<open>The store\<close>

record 'g ogr_record =
  rc_values :: "nat \<rightharpoonup> field_value"
  rc_geometry :: "'g option"

record ('d, 'l, 'h, 'g, 's) store_api =
  sa_open :: "string \<Rightarrow> 'd option"
  sa_layer :: "'d \<Rightarrow> 'l option"
  sa_random :: "'l \<Rightarrow> bool"
  sa_srs :: "'l \<Rightarrow> 's option"
  sa_get :: "'l \<Rightarrow> int \<Rightarrow> 'h option"
  sa_features :: "'l \<Rightarrow> 'h list"
  sa_count :: "'l \<Rightarrow> int"
  sa_envelope :: "'l \<Rightarrow> (real \<times> real \<times> real \<times> real) option"
  sa_fields :: "'l \<Rightarrow> field_def list"
  sa_index :: "'l \<Rightarrow> string \<Rightarrow> nat"
  sa_geom_type :: "'l \<Rightarrow> wkb_type"
  sa_new_feature :: "'l \<Rightarrow> bool"
  sa_insert :: "'l \<Rightarrow> 'g ogr_record \<Rightarrow> 'l option"
  sa_create_source :: "string \<Rightarrow> string \<Rightarrow> 'd option option"
  sa_create_layer :: "'d \<Rightarrow> string \<Rightarrow> 's option \<Rightarrow> out_type \<Rightarrow> 'l option"
  sa_add_field :: "'l \<Rightarrow> field_def \<Rightarrow> 'l"
  sa_dir :: "string \<Rightarrow> string"
  sa_base :: "string \<Rightarrow> string"

record ('d, 'l, 's, 'o) ogr_store =
  os_uri :: string
  os_source :: "'d option"
  os_layer :: "'l option"
  os_srs :: "'s option"
  os_extent :: "'s geoextent"
  os_random :: bool
  os_schemas :: "(string \<times> 'o property attr_schema) list"

text \<open>
  Opening leaves the layer unset when there is no source, and the source unset when there is no driver:
  \<open>gd\<close> and \<open>gl\<close> are what was there.
\<close>

definition store_open :: "('d, 'l, 'h, 'g, 's) store_api \<Rightarrow> 'l option \<Rightarrow> string \<Rightarrow> ('d, 'l, 's, 'o) ogr_store" where
  "store_open A gl path =
     (let ds = sa_open A path;
          ly = (case ds of Some d \<Rightarrow> sa_layer A d | None \<Rightarrow> gl)
      in \<lparr>os_uri = path, os_source = ds, os_layer = ly, os_srs = None, os_extent = ext_invalid,
          os_random = (case (ds, ly) of (Some d, Some l) \<Rightarrow> sa_random A l | _ \<Rightarrow> False), os_schemas = []\<rparr>)"

definition layer_type :: "shape_type \<Rightarrow> nat \<Rightarrow> out_type" where
  "layer_type t d =
     (if d > 2
      then (if t = TYPE_POINT then Wkb wkbMultiPoint25D else if t = TYPE_POLYGON then Wkb wkbMultiPolygon25D
            else if t = TYPE_LINE then Wkb wkbMultiLineString25D else WkbNone)
      else (if t = TYPE_POINT then Wkb wkbMultiPoint else if t = TYPE_POLYGON then Wkb wkbMultiPolygon
            else if t = TYPE_LINE then Wkb wkbMultiLineString else WkbNone))"

fun add_fields :: "('d, 'l, 'h, 'g, 's) store_api \<Rightarrow> 'o property attr_schema list \<Rightarrow> 'l \<Rightarrow> 'l option" where
  "add_fields A [] l = Some l"
| "add_fields A (sc # scs) l = do { fd \<leftarrow> field_of_schema sc; add_fields A scs (sa_add_field A l fd) }"

definition store_create ::
  "('d, 'l, 'h, 'g, 's) store_api \<Rightarrow> 'd option \<Rightarrow> 'l option \<Rightarrow> string \<Rightarrow> shape_type \<Rightarrow>
     'o property attr_schema list \<Rightarrow> nat \<Rightarrow> 's option \<Rightarrow> 'o property list \<Rightarrow> ('d, 'l, 's, 'o) ogr_store option" where
  "store_create A gd gl path t scs d sr ps =
     (let new = \<lparr>os_uri = path, os_source = gd, os_layer = gl, os_srs = None, os_extent = ext_invalid,
                 os_random = False, os_schemas = []\<rparr>
      in case sa_create_source A (props_get_value ps ''ogr-driver'' ''ESRI Shapefile'') (sa_dir A path) of
           None \<Rightarrow> Some new
         | Some None \<Rightarrow> Some (new\<lparr>os_source := None\<rparr>)
         | Some (Some ds) \<Rightarrow>
             (case sa_create_layer A ds (sa_base A path) sr (layer_type t d) of
                None \<Rightarrow> Some (new\<lparr>os_source := Some ds, os_layer := None\<rparr>)
              | Some l \<Rightarrow> map_option (\<lambda>l1. new\<lparr>os_source := Some ds, os_layer := Some l1\<rparr>) (add_fields A scs l)))"

definition store_ready :: "('d, 'l, 's, 'o) ogr_store \<Rightarrow> bool" where
  "store_ready st \<longleftrightarrow> os_source st \<noteq> None"

definition store_get_srs ::
  "('d, 'l, 'h, 'g, 's) store_api \<Rightarrow> 'l \<Rightarrow> ('d, 'l, 's, 'o) ogr_store \<Rightarrow> 's option \<times> ('d, 'l, 's, 'o) ogr_store" where
  "store_get_srs A l st =
     (case os_srs st of
        Some s \<Rightarrow> (Some s, st)
      | None \<Rightarrow> (sa_srs A l, st\<lparr>os_srs := sa_srs A l\<rparr>))"

definition store_get_feature ::
  "('d, 'l, 'h, 'g, 's) store_api \<Rightarrow> ('s option \<Rightarrow> 'h \<Rightarrow> 's feature) \<Rightarrow> 'l \<Rightarrow> ('d, 'l, 's, 'o) ogr_store \<Rightarrow> int \<Rightarrow>
     's feature option \<times> ('d, 'l, 's, 'o) ogr_store" where
  "store_get_feature A read l st i =
     (if os_random st
      then (case sa_get A l i of
              None \<Rightarrow> (None, st)
            | Some h \<Rightarrow> (case store_get_srs A l st of (sr, st1) \<Rightarrow> (Some (read sr h), st1)))
      else (None, st))"

text \<open>The cursor over everything; an empty one, with members unset, when there is no layer.\<close>

definition store_get_cursor ::
  "('d, 'l, 'h, 'g, 's) store_api \<Rightarrow> ('h \<Rightarrow> int) \<Rightarrow> ('s option \<Rightarrow> 'h \<Rightarrow> 's feature) \<Rightarrow> 's srs_vt \<Rightarrow> bool \<Rightarrow> nat \<Rightarrow>
     ('d, 'l, 's, 'o) ogr_store \<Rightarrow> 's cursor" where
  "store_get_cursor A fid read V m n st =
     (case os_layer st of
        None \<Rightarrow> cursor_default m n
      | Some l \<Rightarrow> cursor_new V (map fid (sa_features A l)) (Some (\<lambda>i. fst (store_get_feature A read l st i)))
          ext_infinite False)"

definition store_feature_count :: "('d, 'l, 'h, 'g, 's) store_api \<Rightarrow> 'l \<Rightarrow> int" where
  "store_feature_count A l = sa_count A l"

definition calc_extent ::
  "('d, 'l, 'h, 'g, 's) store_api \<Rightarrow> ('h \<Rightarrow> int) \<Rightarrow> ('s option \<Rightarrow> 'h \<Rightarrow> 's feature) \<Rightarrow> 's srs_vt \<Rightarrow> 'l \<Rightarrow>
     ('d, 'l, 's, 'o) ogr_store \<Rightarrow> ('d, 'l, 's, 'o) ogr_store" where
  "calc_extent A fid read V l st =
     (case (case sa_envelope A l of
        Some (x0, y0, x1, y1) \<Rightarrow>
          (case store_get_srs A l st of (sr, st1) \<Rightarrow>
             (ext_of_points_srs V (geopoint_2d x0 y0 sr) (geopoint_2d x1 y1 sr) sr, st1))
      | None \<Rightarrow> (ext_invalid, st)) of
        (ex, st1) \<Rightarrow>
          st1\<lparr>os_extent :=
            (if is_valid ex \<and> ext_is_empty ex
             then fst (cursor_fold V (\<lambda>_. True)
               (\<lambda>f ex. foldl (\<lambda>ex sh. expand_to_include_extent V ex (fst (get_extent V sh))) ex (fshapes f))
               (store_get_cursor A fid read V False 0 (st1\<lparr>os_layer := Some l\<rparr>)) ex)
             else ex)\<rparr>)"

definition store_get_extent ::
  "('d, 'l, 'h, 'g, 's) store_api \<Rightarrow> ('h \<Rightarrow> int) \<Rightarrow> ('s option \<Rightarrow> 'h \<Rightarrow> 's feature) \<Rightarrow> 's srs_vt \<Rightarrow> 'l \<Rightarrow>
     ('d, 'l, 's, 'o) ogr_store \<Rightarrow> 's geoextent \<times> ('d, 'l, 's, 'o) ogr_store" where
  "store_get_extent A fid read V l st =
     (let st1 = (if \<not> is_valid (os_extent st) then calc_extent A fid read V l st else st)
      in (os_extent st1, st1))"

definition store_schemas ::
  "('d, 'l, 'h, 'g, 's) store_api \<Rightarrow> 'l \<Rightarrow> ('d, 'l, 's, 'o) ogr_store \<Rightarrow>
     (string \<times> 'o property attr_schema) list \<times> ('d, 'l, 's, 'o) ogr_store" where
  "store_schemas A l st =
     (if os_schemas st = [] then (schema_table (sa_fields A l), st\<lparr>os_schemas := schema_table (sa_fields A l)\<rparr>)
      else (os_schemas st, st))"

text \<open>Whether the feature was inserted, and the layer.\<close>

definition insert_feature ::
  "('d, 'l, 'h, 'g, 's) store_api \<Rightarrow> 'g geom_writer \<Rightarrow> (real \<Rightarrow> string) \<Rightarrow> (string \<Rightarrow> real option) \<Rightarrow>
     (string \<Rightarrow> attribute) \<Rightarrow> 's feature \<Rightarrow> 'l \<Rightarrow> (bool \<times> 'l) option" where
  "insert_feature A W pd sd get f l =
     (if sa_new_feature A l
      then do { vs \<leftarrow> field_values pd sd (sa_index A l) get (sa_fields A l) (\<lambda>_. None);
                case sa_insert A l \<lparr>rc_values = vs, rc_geometry = encode_geometry W (sa_geom_type A l) (fshapes f)\<rparr> of
                  None \<Rightarrow> Some (False, l)
                | Some l1 \<Rightarrow> Some (True, l1) }
      else Some (False, l))"

section \<open>What is written reads back\<close>

text \<open>
  OGR as its documentation describes it: a new geometry is empty; a line string, which a linear ring
  is, takes points at its end; a polygon and a group of polygons take geometries at their end.
\<close>

definition line_types :: "wkb_type set" where
  "line_types = {wkbLineString, wkbLineString25D}"

definition area_types :: "wkb_type set" where
  "area_types = {wkbPolygon, wkbPolygon25D, wkbMultiPolygon, wkbMultiPolygon25D}"

definition point_value :: "'s geopoint \<Rightarrow> real \<times> real \<times> real" where
  "point_value p = (px p, py p, if dim p > 2 then pz p else 0)"

definition creates :: "'g ogr_api \<Rightarrow> 'g geom_writer \<Rightarrow> bool" where
  "creates A W \<longleftrightarrow> (\<forall>t. \<exists>g. gw_create W t = Some g \<and> g_count A (Some g) = 0 \<and> g_point_count A (Some g) = 0 \<and>
     (t = WkbLinearRing \<longrightarrow> g_type A g \<in> line_types) \<and> (\<forall>w. t = Wkb w \<longrightarrow> g_type A g = w))"

definition takes_points :: "'g ogr_api \<Rightarrow> 'g geom_writer \<Rightarrow> bool" where
  "takes_points A W \<longleftrightarrow> (\<forall>g (p :: unit geopoint). g_type A g \<in> line_types \<longrightarrow>
     (let g1 = put_point W g p in g_type A g1 \<in> line_types \<and> g_count A (Some g1) = g_count A (Some g) \<and>
        g_point_count A (Some g1) = Suc (g_point_count A (Some g)) \<and>
        (\<forall>i \<le> g_point_count A (Some g). g_point A (Some g1) i = (if i = g_point_count A (Some g) then point_value p else g_point A (Some g) i))))"

definition takes_parts :: "'g ogr_api \<Rightarrow> 'g geom_writer \<Rightarrow> bool" where
  "takes_parts A W \<longleftrightarrow> (\<forall>g q. g_type A g \<in> area_types \<longrightarrow>
     g_type A (gw_add W g q) = g_type A g \<and> g_count A (Some (gw_add W g q)) = Suc (g_count A (Some g)) \<and>
     (\<forall>i \<le> g_count A (Some g). g_ref A (Some (gw_add W g q)) i = (if i = g_count A (Some g) then Some q else g_ref A (Some g) i)))"

definition ogr_geometry_ok :: "'g ogr_api \<Rightarrow> 'g geom_writer \<Rightarrow> bool" where
  "ogr_geometry_ok A W \<longleftrightarrow> creates A W \<and> takes_points A W \<and> takes_parts A W"

definition geom_points :: "'g ogr_api \<Rightarrow> 'g \<Rightarrow> (real \<times> real \<times> real) list" where
  "geom_points A g = map (g_point A (Some g)) [0 ..< g_point_count A (Some g)]"

definition geom_refs :: "'g ogr_api \<Rightarrow> 'g \<Rightarrow> 'g option list" where
  "geom_refs A g = map (g_ref A (Some g)) [0 ..< g_count A (Some g)]"

lemma put_point_unit:
  "put_point W g p = put_point W g \<lparr>px = px p, py = py p, pz = pz p, dim = dim p, spatial_ref = None :: unit option\<rparr>"
  by (simp add: put_point_def)

lemma put_point_ok:
  assumes "takes_points A W" and "g_type A g \<in> line_types"
  shows "g_type A (put_point W g p) \<in> line_types" "g_count A (Some (put_point W g p)) = g_count A (Some g)"
    "geom_points A (put_point W g p) = geom_points A g @ [point_value p]"
proof -
  let ?u = "\<lparr>px = px p, py = py p, pz = pz p, dim = dim p, spatial_ref = None :: unit option\<rparr>"
  have "g_type A (put_point W g ?u) \<in> line_types \<and> g_count A (Some (put_point W g ?u)) = g_count A (Some g) \<and>
      g_point_count A (Some (put_point W g ?u)) = Suc (g_point_count A (Some g)) \<and>
      (\<forall>i \<le> g_point_count A (Some g). g_point A (Some (put_point W g ?u)) i =
        (if i = g_point_count A (Some g) then point_value ?u else g_point A (Some g) i))"
    using assms unfolding takes_points_def Let_def by blast
  moreover have "point_value ?u = point_value p" by (simp add: point_value_def)
  ultimately show "g_type A (put_point W g p) \<in> line_types" "g_count A (Some (put_point W g p)) = g_count A (Some g)"
    "geom_points A (put_point W g p) = geom_points A g @ [point_value p]"
    unfolding put_point_unit [of W g p] geom_points_def by auto
qed

lemma put_points_ok:
  assumes "takes_points A W"
  shows "g_type A g \<in> line_types \<Longrightarrow>
    g_count A (Some (foldl (put_point W) g ps)) = g_count A (Some g) \<and>
    geom_points A (foldl (put_point W) g ps) = geom_points A g @ map point_value ps"
  by (induction ps arbitrary: g) (simp_all add: put_point_ok [OF assms])

lemma encode_part_ok:
  assumes "ogr_geometry_ok A W"
  shows "\<exists>g. encode_part W WkbLinearRing part = Some g \<and> g_count A (Some g) = 0 \<and>
    geom_points A g = map point_value (rev part)"
proof -
  from assms obtain g where g: "gw_create W WkbLinearRing = Some g" "g_count A (Some g) = 0"
      "g_point_count A (Some g) = 0" "g_type A g \<in> line_types"
    unfolding ogr_geometry_ok_def creates_def by blast
  moreover have "geom_points A g = []" by (simp add: geom_points_def g)
  moreover have "takes_points A W" using assms by (simp add: ogr_geometry_ok_def)
  ultimately show ?thesis
    using put_points_ok [of A W g "rev part"] by (simp add: encode_part_def)
qed

lemma add_geometries_ok:
  assumes "takes_parts A W" and "\<And>x. x \<in> set xs \<Longrightarrow> enc x = Some (e x)"
  shows "g_type A g \<in> area_types \<Longrightarrow>
    g_type A (foldl (\<lambda>g x. case enc x of None \<Rightarrow> g | Some q \<Rightarrow> gw_add W g q) g xs) = g_type A g \<and>
    geom_refs A (foldl (\<lambda>g x. case enc x of None \<Rightarrow> g | Some q \<Rightarrow> gw_add W g q) g xs) =
      geom_refs A g @ map (\<lambda>x. Some (e x)) xs"
  using assms(2)
proof (induction xs arbitrary: g)
  case (Cons x xs)
  let ?g = "gw_add W g (e x)"
  have one: "g_type A ?g = g_type A g" "geom_refs A ?g = geom_refs A g @ [Some (e x)]"
    using assms(1) Cons.prems(1) unfolding takes_parts_def geom_refs_def by auto
  then have "g_type A ?g \<in> area_types" using Cons.prems(1) by simp
  from Cons.IH [OF this] one Cons.prems(2) show ?case by simp
qed simp

text \<open>A part is read with its points in the order they had.\<close>

lemma decode_part_points:
  "decode_part A (Some g) sh d =
     add_part sh (map (\<lambda>(x, y, z). if d = 2 then geopoint_2d x y (srs sh) else geopoint_3d x y z (srs sh))
       (rev (geom_points A g)))"
  by (simp add: decode_part_def geom_points_def rev_map comp_def)

definition point_in :: "int \<Rightarrow> 's option \<Rightarrow> 's geopoint \<Rightarrow> bool" where
  "point_in d sr p \<longleftrightarrow> spatial_ref p = sr \<and> (if d = 2 then dim p = 2 \<and> pz p = 0 else dim p = 3)"

lemma decode_encoded_part:
  assumes "geom_points A g = map point_value (rev part)" and "\<forall>p \<in> set part. point_in d sr p" and "srs sh = sr"
  shows "decode_part A (Some g) sh d = add_part sh part"
proof -
  let ?dec = "\<lambda>v. case v of (x, y, z) \<Rightarrow> if d = 2 then geopoint_2d x y (srs sh) else geopoint_3d x y z (srs sh)"
  have "?dec (point_value p) = p" if "p \<in> set part" for p
    using assms(2,3) that by (cases "d = 2") (auto simp: point_in_def point_value_def geopoint_2d_def geopoint_3d_def)
  then have "map (?dec \<circ> point_value) part = part" by (simp add: map_idI)
  then show ?thesis by (simp add: decode_part_points assms(1) rev_map comp_def)
qed

lemma decode_refs:
  "g_count A (Some g) \<noteq> 0 \<Longrightarrow> decode_shape A sr (Some g) d t =
     foldl (\<lambda>sh q. case q of None \<Rightarrow> sh | Some q \<Rightarrow> decode_part A (Some q) sh d) (shape_new t sr) (geom_refs A g)"
  by (simp add: decode_shape_def geom_refs_def foldl_map Let_def)

lemma decode_encoded_parts:
  assumes "\<And>part. part \<in> set ps \<Longrightarrow> geom_points A (e part) = map point_value (rev part)"
    and "\<forall>p \<in> set (concat ps). point_in d sr p"
  shows "srs sh = sr \<Longrightarrow> ps \<noteq> [] \<or> extent_cache sh = ext_invalid \<Longrightarrow>
    foldl (\<lambda>sh q. case q of None \<Rightarrow> sh | Some q \<Rightarrow> decode_part A (Some q) sh d) sh (map (\<lambda>part. Some (e part)) ps) =
      sh\<lparr>parts := parts sh @ ps, extent_cache := ext_invalid\<rparr>"
  using assms
proof (induction ps arbitrary: sh)
  case (Cons part ps)
  have "decode_part A (Some (e part)) sh d = add_part sh part"
    by (rule decode_encoded_part [where sr = sr]) (use Cons.prems in auto)
  then show ?case using Cons.prems Cons.IH [of "add_part sh part"] by (simp add: add_part_def)
qed simp

text \<open>A polygon with at least one part is read as it was written, without its cached extent.\<close>

lemma encode_shape_ok:
  fixes sh :: "'s geoshape"
  assumes "ogr_geometry_ok A W" and "w \<in> area_types"
  shows "\<exists>g. encode_shape W (Wkb w) WkbLinearRing sh = Some g \<and> g_type A g = w \<and>
    (parts sh \<noteq> [] \<longrightarrow> (\<forall>p \<in> set (concat (parts sh)). point_in d sr p) \<longrightarrow>
      decode_shape A sr (Some g) d t = (shape_new t sr)\<lparr>parts := parts sh\<rparr>)"
proof -
  from assms obtain g0 where g0: "gw_create W (Wkb w) = Some g0" "g_count A (Some g0) = 0" "g_type A g0 = w"
    unfolding ogr_geometry_ok_def creates_def by blast
  define e where "e part = the (encode_part W WkbLinearRing part)" for part :: "'s geopoint list"
  have e: "encode_part W WkbLinearRing part = Some (e part)" "geom_points A (e part) = map point_value (rev part)" for part
    using encode_part_ok [OF assms(1), of part] by (auto simp: e_def)
  define g where "g = foldl (\<lambda>g part. case encode_part W WkbLinearRing part of None \<Rightarrow> g | Some q \<Rightarrow> gw_add W g q) g0 (parts sh)"
  have enc: "encode_shape W (Wkb w) WkbLinearRing sh = Some g" by (simp add: encode_shape_def g0 g_def)
  have refs: "g_type A g = w" "geom_refs A g = map (\<lambda>part. Some (e part)) (parts sh)"
    using add_geometries_ok [where A = A and W = W and g = g0 and xs = "parts sh" and e = e and
        enc = "encode_part W WkbLinearRing"] assms e(1) g0
    by (simp_all add: g_def ogr_geometry_ok_def) (simp add: geom_refs_def g0)
  have "decode_shape A sr (Some g) d t = (shape_new t sr)\<lparr>parts := parts sh\<rparr>"
    if "parts sh \<noteq> []" "\<forall>p \<in> set (concat (parts sh)). point_in d sr p"
  proof -
    have "length (geom_refs A g) \<noteq> 0" using refs(2) that(1) by simp
    then have "g_count A (Some g) \<noteq> 0" by (simp add: geom_refs_def)
    then show ?thesis
      using decode_encoded_parts [where A = A and e = e and ps = "parts sh" and d = d and sr = sr and sh = "shape_new t sr",
          OF e(2) that(2)] that(1)
      by (simp add: decode_refs refs(2) shape_new_def)
  qed
  with enc refs(1) show ?thesis by blast
qed

text \<open>The shapes of a feature in a layer of polygons.\<close>

definition written_ok :: "int \<Rightarrow> 's option \<Rightarrow> 's geoshape \<Rightarrow> bool" where
  "written_ok d sr sh \<longleftrightarrow> shape_type sh = TYPE_POLYGON \<and> srs sh = sr \<and> extent_cache sh = ext_invalid \<and>
     parts sh \<noteq> [] \<and> (\<forall>p \<in> set (concat (parts sh)). point_in d sr p)"

lemma load_shapes:
  "(\<And>sh. sh \<in> set shs \<Longrightarrow> parts sh \<noteq> []) \<Longrightarrow>
     fshapes (foldl (load_shape V) f shs) = fshapes f @ shs"
proof (induction shs arbitrary: f)
  case (Cons sh shs)
  have "fshapes (load_shape V f sh) = fshapes f @ [sh]" using Cons.prems [of sh] by (simp add: load_shape_def)
  with Cons.IH [of "load_shape V f sh"] Cons.prems show ?case by simp
qed simp

lemma polygon_group_ok:
  fixes shs :: "'s geoshape list"
  assumes ok: "ogr_geometry_ok A W" and r: "r = wkbPolygon \<or> r = wkbPolygon25D"
    and shs: "\<forall>sh \<in> set shs. written_ok d sr sh"
  obtains g where "encode_geometry W r shs = Some g" and "g_type A g \<in> {wkbMultiPolygon, wkbMultiPolygon25D}"
    and "map (\<lambda>q. decode_shape A sr q d TYPE_POLYGON) (geom_refs A g) = shs"
proof -
  let ?w = "if r = wkbPolygon then wkbMultiPolygon else wkbMultiPolygon25D"
  have types: "group_type r = Wkb ?w" "shape_out_type r = Wkb r" "part_out_type (Wkb r) = WkbLinearRing"
    "r \<in> area_types" "?w \<in> area_types"
    using r by (auto simp: group_type_def shape_out_type_def part_out_type_def area_types_def)
  obtain g0 where g0: "gw_create W (Wkb ?w) = Some g0" "g_count A (Some g0) = 0" "g_type A g0 = ?w"
    using ok unfolding ogr_geometry_ok_def creates_def by blast
  define e where "e sh = the (encode_shape W (Wkb r) WkbLinearRing sh)" for sh :: "'s geoshape"
  have e: "encode_shape W (Wkb r) WkbLinearRing sh = Some (e sh)" for sh
    using encode_shape_ok [OF ok types(4), of sh d sr TYPE_POLYGON] unfolding e_def by force
  have restored: "decode_shape A sr (Some (e sh)) d TYPE_POLYGON = sh" if "sh \<in> set shs" for sh
  proof -
    have "written_ok d sr sh" using shs that by blast
    then show ?thesis
      using encode_shape_ok [OF ok types(4), of sh d sr TYPE_POLYGON] e [of sh]
      by (auto simp: written_ok_def shape_new_def)
  qed
  define g where "g = foldl (\<lambda>g sh. case encode_shape W (Wkb r) WkbLinearRing sh of None \<Rightarrow> g | Some q \<Rightarrow> gw_add W g q) g0 shs"
  have "g_type A g = ?w" "geom_refs A g = map (\<lambda>sh. Some (e sh)) shs"
    using add_geometries_ok [where A = A and W = W and g = g0 and xs = shs and e = e and
        enc = "encode_shape W (Wkb r) WkbLinearRing"] ok e types(5) g0
    by (simp_all add: g_def ogr_geometry_ok_def) (simp add: geom_refs_def g0)
  moreover have "encode_geometry W r shs = Some g"
    by (simp add: encode_geometry_def types(1-3) Let_def g0 g_def)
  ultimately show thesis using restored by (intro that [of g]) (auto simp: map_idI)
qed

lemma shapes_read_back:
  assumes "ogr_geometry_ok A W" and "r = wkbPolygon \<or> r = wkbPolygon25D"
    and "\<forall>sh \<in> set shs. written_ok d sr sh"
    and "f_geometry A h = encode_geometry W r shs" and "\<forall>g. f_geometry A h = Some g \<longrightarrow> g_dim A g = d"
  shows "fshapes (ogr_feature A V gb i b (Some h) sr) = shs"
proof -
  from polygon_group_ok [OF assms(1-3)] obtain g where g: "encode_geometry W r shs = Some g"
      "g_type A g \<in> {wkbMultiPolygon, wkbMultiPolygon25D}"
      "map (\<lambda>q. decode_shape A sr q d TYPE_POLYGON) (geom_refs A g) = shs" by blast
  let ?f = "\<lparr>foid = f_fid A h, fshapes = [], fextent = ext_default, user_attrs = [], store_attrs = [], store_attrs_loaded = b\<rparr>"
  have "fshapes (foldl (\<lambda>f n. load_shape V f (decode_shape A sr (g_ref A (Some g) n) d TYPE_POLYGON)) ?f [0 ..< g_count A (Some g)])
      = fshapes (foldl (load_shape V) ?f shs)"
    by (subst g(3) [symmetric]) (simp add: geom_refs_def foldl_map)
  also have "\<dots> = shs" by (subst load_shapes) (use assms(3) in \<open>auto simp: written_ok_def\<close>)
  finally show ?thesis
    using g(1,2) assms(4,5)
    by (auto simp: ogr_feature_def load_def Let_def shape_type_of_wkb_def load_attributes_def)
qed

text \<open>In a layer of another type only the first shape is written.\<close>

lemma first_shape_only:
  "layer_type TYPE_POLYGON d = Wkb r \<Longrightarrow> encode_geometry W r (sh # shs) = encode_geometry W r [sh]"
  by (auto simp: layer_type_def encode_geometry_def group_type_def split: if_splits)

text \<open>A field that is listed as a schema is created again with the settings its type has.\<close>

lemma schema_field_roundtrip:
  assumes "in_int_range (fd_width fd)" "in_int_range (fd_just fd)" "in_int_range (fd_prec fd)"
    and "to_lower (fd_name fd) = fd_name fd"
  shows "field_of_schema (schema_of_field fd :: 'o property attr_schema) =
    Some (case fd_type fd of
        OFTInteger \<Rightarrow> fd\<lparr>fd_just := 0\<rparr>
      | OFTReal \<Rightarrow> fd\<lparr>fd_just := 0\<rparr>
      | OFTString \<Rightarrow> fd\<lparr>fd_prec := 0\<rparr>
      | OFTOther \<Rightarrow> fd\<lparr>fd_type := OFTString, fd_width := 0, fd_just := 0, fd_prec := 0\<rparr>)"
proof -
  have names: "pname (prop_int ''width'' i :: 'o property) = ''width''" "pname (prop_int ''precision'' i :: 'o property) = ''precision''"
    "pname (prop_int ''justification'' i :: 'o property) = ''justification''"
    "normalize ''width'' = ''width''" "normalize ''precision'' = ''precision''" "normalize ''justification'' = ''justification''" for i
    by (simp_all add: prop_int_def normalize_def replace_char_def)
  show ?thesis
    using assms
    by (cases "fd_type fd")
      (auto simp: field_of_schema_def schema_of_field_def setting_def props_exists_def props_get_int_def names
        schema_new_def field_type_of_def prop_int_roundtrip intro: field_def.equality)
qed

end
