(* ===== verification/Wall_Extrusion.thy ===== *)
theory Wall_Extrusion
  imports Ogr_Srs Resource_Library
begin

text \<open>
  \<open>extrudeWallsUp\<close> of \<^verbatim>\<open>src/osgGIS/ExtrudeGeomFilter.cpp\<close>: the walls, the roof line and the
  floor line over the outline of a shape. The arrays of a geometry, which are allocated with one
  length and written at one position, are one array of vertices with a write position; a write
  outside of it is \<open>None\<close>, and so is a call on a null reference. \<open>extrusion_spec\<close> shows that neither
  happens when there is a reference, and which vertices are written.
\<close>

section \<open>Vectors\<close>

definition v_add :: "vec3 \<Rightarrow> vec3 \<Rightarrow> vec3" where
  "v_add a b = (case (a, b) of ((x, y, z), (u, v, w)) \<Rightarrow> (x + u, y + v, z + w))"

definition v_sub :: "vec3 \<Rightarrow> vec3 \<Rightarrow> vec3" where
  "v_sub a b = (case (a, b) of ((x, y, z), (u, v, w)) \<Rightarrow> (x - u, y - v, z - w))"

definition v_scale :: "real \<Rightarrow> vec3 \<Rightarrow> vec3" where
  "v_scale k a = (case a of (x, y, z) \<Rightarrow> (k * x, k * y, k * z))"

definition v_length :: "vec3 \<Rightarrow> real" where
  "v_length a = (case a of (x, y, z) \<Rightarrow> sqrt (x * x + y * y + z * z))"

definition v_unit :: "vec3 \<Rightarrow> vec3" where
  "v_unit a = (if v_length a > 0 then v_scale (1 / v_length a) a else a)"

definition v_z :: "vec3 \<Rightarrow> real" where
  "v_z a = snd (snd a)"

section \<open>Arrays with a write position\<close>

type_synonym 'a slots = "'a list \<times> nat"

definition slots_new :: "'a \<Rightarrow> nat \<Rightarrow> 'a slots" where
  "slots_new x n = (replicate n x, 0)"

definition put :: "'a \<Rightarrow> 'a slots \<Rightarrow> 'a slots option" where
  "put x s = (case s of (xs, p) \<Rightarrow> if p < length xs then Some (xs[p := x], p + 1) else None)"

definition written :: "'a slots \<Rightarrow> 'a list" where
  "written s = take (snd s) (fst s)"

section \<open>The geometry\<close>

datatype prim_type = LINES | TRIANGLE_STRIP | LINE_LOOP | LINE_STRIP | POINTS

type_synonym prim = "prim_type \<times> nat \<times> nat"

record 'c vertex =
  v_pos :: vec3
  v_tex :: "real \<times> real"
  v_color :: 'c

record 'c extrusion =
  ex_wall :: "'c vertex slots"
  ex_wall_prims :: "prim list"
  ex_top :: "(vec3 \<times> 'c) slots option"
  ex_top_prims :: "prim list"
  ex_bottom :: "vec3 slots option"
  ex_bottom_prims :: "prim list"

text \<open>The zero of the arrays: what \<open>new osg::Vec4Array( n )\<close> fills them with.\<close>

definition vertex_zero :: "'c \<Rightarrow> 'c vertex" where
  "vertex_zero c0 = \<lparr>v_pos = (0, 0, 0), v_tex = (0, 0), v_color = c0\<rparr>"

definition wall_vertex_count :: "'s geoshape \<Rightarrow> nat" where
  "wall_vertex_count sh =
     2 * get_total_point_count sh +
     (if shape_type sh = TYPE_POLYGON then 2 * get_part_count sh else 0)"

definition extrusion_new :: "'c \<Rightarrow> bool \<Rightarrow> bool \<Rightarrow> 's geoshape \<Rightarrow> 'c extrusion" where
  "extrusion_new c0 roof base sh =
     \<lparr>ex_wall = slots_new (vertex_zero c0) (wall_vertex_count sh), ex_wall_prims = [],
      ex_top = (if roof then Some (slots_new ((0, 0, 0), c0) (get_total_point_count sh)) else None),
      ex_top_prims = [],
      ex_bottom = (if base then Some (slots_new (0, 0, 0) (get_total_point_count sh)) else None),
      ex_bottom_prims = []\<rparr>"

section \<open>The height that is reached\<close>

definition to_world :: "'m lib \<Rightarrow> 'm srs \<Rightarrow> 'm srs geopoint \<Rightarrow> vec3" where
  "to_world L s p = mat_mult L (xyz p) (get_inv_frame s)"

definition level :: "'m srs \<Rightarrow> vec3 \<Rightarrow> real" where
  "level s v = (if is_geocentric s then v_length v else v_z v)"

definition raised :: "'m srs \<Rightarrow> real \<Rightarrow> vec3 \<Rightarrow> real" where
  "raised s height w =
     (if is_geocentric s then v_length (v_add w (v_scale height (v_unit w))) else v_z w + height)"

definition measure_point ::
  "'m lib \<Rightarrow> 'm srs \<Rightarrow> real \<Rightarrow> 'm srs geopoint \<Rightarrow> real \<times> vec3 \<Rightarrow> real \<times> vec3" where
  "measure_point L s height p st =
     (case st of (target, low) \<Rightarrow>
        let w = to_world L s p
        in (if raised s height w > target then raised s height w else target,
            if level s w < level s low then w else low))"

definition measure_shape :: "'m lib \<Rightarrow> 'm srs \<Rightarrow> real \<Rightarrow> 'm srs geoshape \<Rightarrow> real \<times> vec3" where
  "measure_shape L s height sh =
     foldl (\<lambda>st part. foldl (\<lambda>st p. measure_point L s height p st) st part)
       (- dbl_max, (dbl_max, dbl_max, dbl_max)) (parts sh)"

definition osg_round :: "real \<Rightarrow> real" where
  "osg_round v = (if v \<ge> 0 then real_of_int \<lfloor>v + 1 / 2\<rfloor> else real_of_int \<lceil>v - 1 / 2\<rceil>)"

text \<open>The texture is stretched so that the greatest height takes a whole number of it.\<close>

definition adjusted_height :: "'m srs \<Rightarrow> real \<Rightarrow> real \<times> vec3 \<Rightarrow> real" where
  "adjusted_height s tex_height st =
     (case st of (target, low) \<Rightarrow>
        let most = target - level s low;
            d = osg_round (most / tex_height)
        in most / (if d = 0 then 1 else d))"

section \<open>The walls\<close>

record 'c wall_style =
  ws_height :: real
  ws_uniform :: bool
  ws_color :: 'c
  ws_tex_width :: real
  ws_tex_height :: real
  ws_repeats :: bool

definition wall_style :: "real \<Rightarrow> bool \<Rightarrow> 'c \<Rightarrow> skin option \<Rightarrow> 'c wall_style" where
  "wall_style height uniform color sk =
     \<lparr>ws_height = height, ws_uniform = uniform, ws_color = color,
      ws_tex_width = (case sk of Some k \<Rightarrow> sk_width k | None \<Rightarrow> 1),
      ws_tex_height = (case sk of Some k \<Rightarrow> sk_height k | None \<Rightarrow> 1),
      ws_repeats = (case sk of Some k \<Rightarrow> sk_repeats k | None \<Rightarrow> True)\<rparr>"

definition extrude_vec :: "'m lib \<Rightarrow> 'm srs \<Rightarrow> 'c wall_style \<Rightarrow> real \<Rightarrow> 'm srs geopoint \<Rightarrow> vec3" where
  "extrude_vec L s W target p =
     (let w = to_world L s p
      in mat_mult L
           (if is_geocentric s
            then if ws_uniform W then v_scale (target / v_length w) w
                 else v_add w (v_scale (ws_height W) (v_unit w))
            else if ws_uniform W then (fst w, fst (snd w), target)
                 else (fst w, fst (snd w), v_z w + ws_height W))
           (get_frame s))"

text \<open>The two vertices of a point: at the top, and the point. The length of the wall goes along.\<close>

definition wall_advance :: "nat \<Rightarrow> 'c vertex slots \<Rightarrow> vec3 \<Rightarrow> real \<Rightarrow> real" where
  "wall_advance start w v len =
     len + (if snd w > start then v_length (v_sub v (v_pos (fst w ! (snd w - 2)))) else 0)"

definition put_pair ::
  "'c \<Rightarrow> vec3 \<times> real \<times> real \<Rightarrow> vec3 \<times> real \<times> real \<Rightarrow> 'c vertex slots \<Rightarrow> 'c vertex slots option" where
  "put_pair c a b w =
     do { w1 \<leftarrow> put \<lparr>v_pos = fst a, v_tex = snd a, v_color = c\<rparr> w;
          put \<lparr>v_pos = fst b, v_tex = snd b, v_color = c\<rparr> w1 }"

definition put_opt :: "'a \<Rightarrow> 'a slots option \<Rightarrow> 'a slots option option" where
  "put_opt x s = (case s of None \<Rightarrow> Some None | Some t \<Rightarrow> map_option Some (put x t))"

definition extrude_point ::
  "'m lib \<Rightarrow> 'm srs \<Rightarrow> 'c wall_style \<Rightarrow> real \<Rightarrow> real \<Rightarrow> nat \<Rightarrow> 'm srs geopoint \<Rightarrow>
     real \<times> 'c extrusion \<Rightarrow> (real \<times> 'c extrusion) option" where
  "extrude_point L s W target adj start p st =
     (case st of (len, x) \<Rightarrow>
        let v = extrude_vec L s W target p;
            len1 = wall_advance start (ex_wall x) v len;
            h = (if ws_repeats W then - v_length (v_sub v (xyz p)) else - adj)
        in do { top \<leftarrow> put_opt (v, ws_color W) (ex_top x);
                bot \<leftarrow> put_opt (xyz p) (ex_bottom x);
                wall \<leftarrow> put_pair (ws_color W) (v, len1 / ws_tex_width W, 0)
                  (xyz p, len1 / ws_tex_width W, h / adj) (ex_wall x);
                Some (len1, x\<lparr>ex_wall := wall, ex_top := top, ex_bottom := bot\<rparr>) })"

fun extrude_points ::
  "'m lib \<Rightarrow> 'm srs \<Rightarrow> 'c wall_style \<Rightarrow> real \<Rightarrow> real \<Rightarrow> nat \<Rightarrow> 'm srs geopoint list \<Rightarrow>
     real \<times> 'c extrusion \<Rightarrow> (real \<times> 'c extrusion) option" where
  "extrude_points L s W target adj start [] st = Some st"
| "extrude_points L s W target adj start (p # ps) st =
     Option.bind (extrude_point L s W target adj start p st) (extrude_points L s W target adj start ps)"

text \<open>
  An open polygon is closed by the first two vertices once more. For a part without points these are
  the vertices that are about to be written.
\<close>

definition close_wall ::
  "'c wall_style \<Rightarrow> nat \<Rightarrow> real \<times> 'c extrusion \<Rightarrow> (real \<times> 'c extrusion) option" where
  "close_wall W start st =
     (case st of (len, x) \<Rightarrow>
        let w = ex_wall x;
            len1 = wall_advance start w (v_pos (fst w ! start)) len
        in do { w1 \<leftarrow> put \<lparr>v_pos = v_pos (fst w ! start),
                        v_tex = (len1 / ws_tex_width W, snd (v_tex (fst w ! start))), v_color = ws_color W\<rparr> w;
                w2 \<leftarrow> put \<lparr>v_pos = v_pos (fst w1 ! (start + 1)),
                        v_tex = (len1 / ws_tex_width W, snd (v_tex (fst w1 ! (start + 1)))),
                        v_color = ws_color W\<rparr> w1;
                Some (len1, x\<lparr>ex_wall := w2\<rparr>) })"

text \<open>The floor is reversed: element \<open>i\<close> is swapped with its mirror, for \<open>i\<close> up to half the length.\<close>

definition swap :: "nat \<Rightarrow> nat \<Rightarrow> 'a list \<Rightarrow> 'a list" where
  "swap i j xs = xs[i := xs ! j, j := xs ! i]"

definition reverse_part :: "nat \<Rightarrow> nat \<Rightarrow> 'a list \<Rightarrow> 'a list" where
  "reverse_part start len xs = foldl (\<lambda>ys i. swap i (start + (len - 1) - i) ys) xs [start ..< len div 2]"

definition slot_pos :: "'a slots option \<Rightarrow> nat" where
  "slot_pos s = (case s of Some t \<Rightarrow> snd t | None \<Rightarrow> 0)"

definition add_prims :: "prim_type \<Rightarrow> nat \<Rightarrow> nat \<Rightarrow> nat \<Rightarrow> 'c extrusion \<Rightarrow> 'c extrusion" where
  "add_prims t wall_start top_start bottom_start x =
     x\<lparr>ex_wall_prims := ex_wall_prims x @ [(t, wall_start, snd (ex_wall x) - wall_start)],
       ex_top_prims := ex_top_prims x @
         (case ex_top x of Some s \<Rightarrow> [(LINE_LOOP, top_start, snd s - top_start)] | None \<Rightarrow> []),
       ex_bottom := map_option (\<lambda>(xs, p). (reverse_part bottom_start (p - bottom_start) xs, p)) (ex_bottom x),
       ex_bottom_prims := ex_bottom_prims x @
         (case ex_bottom x of Some s \<Rightarrow> [(LINE_LOOP, bottom_start, snd s - bottom_start)] | None \<Rightarrow> [])\<rparr>"

definition extrude_part ::
  "'m srs srs_vt \<Rightarrow> 'm lib \<Rightarrow> 'm srs option \<Rightarrow> 'c wall_style \<Rightarrow> shape_type \<Rightarrow> real \<times> vec3 \<Rightarrow>
     'm srs geopoint list \<Rightarrow> 'c extrusion \<Rightarrow> 'c extrusion option" where
  "extrude_part V L sr W t lowest part x =
     (let start = snd (ex_wall x)
      in do { st \<leftarrow> (case sr of
                Some s \<Rightarrow> extrude_points L s W (fst lowest) (adjusted_height s (ws_tex_height W) lowest) start part (0, x)
              | None \<Rightarrow> if part = [] then Some (0, x) else None);
              st1 \<leftarrow> (if t = TYPE_POLYGON \<and> \<not> list_is_closed V part then close_wall W start st else Some st);
              Some (add_prims (if t = TYPE_POINT then LINES else TRIANGLE_STRIP)
                start (slot_pos (ex_top x)) (slot_pos (ex_bottom x)) (snd st1)) })"

fun extrude_parts ::
  "'m srs srs_vt \<Rightarrow> 'm lib \<Rightarrow> 'm srs option \<Rightarrow> 'c wall_style \<Rightarrow> shape_type \<Rightarrow> real \<times> vec3 \<Rightarrow>
     'm srs geopoint list list \<Rightarrow> 'c extrusion \<Rightarrow> 'c extrusion option" where
  "extrude_parts V L sr W t lowest [] x = Some x"
| "extrude_parts V L sr W t lowest (part # ps) x =
     Option.bind (extrude_part V L sr W t lowest part x) (extrude_parts V L sr W t lowest ps)"

text \<open>The reference is used without a test as soon as there is a point.\<close>

definition extrude_walls_up ::
  "'m srs srs_vt \<Rightarrow> 'm lib \<Rightarrow> 'c \<Rightarrow> 'm srs geoshape \<Rightarrow> 'm srs option \<Rightarrow> 'c wall_style \<Rightarrow> bool \<Rightarrow> bool \<Rightarrow>
     'c extrusion option" where
  "extrude_walls_up V L c0 sh sr W roof base =
     do { lowest \<leftarrow> (case sr of
            Some s \<Rightarrow> Some (measure_shape L s (ws_height W) sh)
          | None \<Rightarrow> if concat (parts sh) = [] then Some (- dbl_max, (dbl_max, dbl_max, dbl_max)) else None);
          extrude_parts V L sr W (shape_type sh) lowest (parts sh) (extrusion_new c0 roof base sh) }"

section \<open>What is written\<close>

definition room :: "'a slots \<Rightarrow> nat \<Rightarrow> bool" where
  "room s n \<longleftrightarrow> snd s + n \<le> length (fst s)"

definition room_opt :: "'a slots option \<Rightarrow> nat \<Rightarrow> bool" where
  "room_opt s n = (case s of None \<Rightarrow> True | Some t \<Rightarrow> room t n)"

lemma put_room:
  assumes "room s (Suc n)"
  obtains s' where "put x s = Some s'" and "written s' = written s @ [x]" and "room s' n"
    and "snd s' = Suc (snd s)"
  using assms by (cases s) (auto simp: put_def room_def written_def take_Suc_conv_app_nth)

lemma put_opt_room:
  assumes "room_opt s (Suc n)"
  obtains s' where "put_opt x s = Some s'" and "room_opt s' n"
    and "map_option written s' = map_option (\<lambda>t. written t @ [x]) s" and "s' = None \<longleftrightarrow> s = None"
proof (cases s)
  case None
  then show thesis by (intro that [of None]) (simp_all add: put_opt_def room_opt_def)
next
  case (Some t)
  with assms have "room t (Suc n)" by (simp add: room_opt_def)
  from put_room [OF this, of x] obtain t' where "put x t = Some t'" "written t' = written t @ [x]" "room t' n" by blast
  with Some show thesis by (intro that [of "Some t'"]) (simp_all add: put_opt_def room_opt_def)
qed

lemma put_pair_room:
  assumes "room w (Suc (Suc n))"
  shows "\<exists>w'. put_pair c a b w = Some w' \<and> room w' n \<and> snd w' = snd w + 2 \<and>
    map v_pos (written w') = map v_pos (written w) @ [fst a, fst b]"
proof -
  let ?v1 = "\<lparr>v_pos = fst a, v_tex = snd a, v_color = c\<rparr>" and ?v2 = "\<lparr>v_pos = fst b, v_tex = snd b, v_color = c\<rparr>"
  obtain w1 where w1: "put ?v1 w = Some w1" "room w1 (Suc n)" "written w1 = written w @ [?v1]" "snd w1 = Suc (snd w)"
    using put_room [OF assms] by metis
  obtain w2 where "put ?v2 w1 = Some w2" "room w2 n" "written w2 = written w1 @ [?v2]" "snd w2 = Suc (snd w1)"
    using put_room [OF w1(2)] by metis
  with w1 show ?thesis by (intro exI [of _ w2]) (simp add: put_pair_def)
qed

text \<open>The positions of the walls and of the roof line, and the space that is left for more.\<close>

definition walls :: "'c extrusion \<Rightarrow> vec3 list" where
  "walls x = map v_pos (written (ex_wall x))"

definition roof_line :: "'c extrusion \<Rightarrow> vec3 list option" where
  "roof_line x = map_option (\<lambda>s. map fst (written s)) (ex_top x)"

definition ready :: "'c extrusion \<Rightarrow> nat \<Rightarrow> nat \<Rightarrow> bool" where
  "ready x a b \<longleftrightarrow> room (ex_wall x) a \<and> room_opt (ex_top x) b \<and> room_opt (ex_bottom x) b"

definition wall_pairs :: "'m lib \<Rightarrow> 'm srs \<Rightarrow> 'c wall_style \<Rightarrow> real \<Rightarrow> 'm srs geopoint list \<Rightarrow> vec3 list" where
  "wall_pairs L s W target part = concat (map (\<lambda>p. [extrude_vec L s W target p, xyz p]) part)"

definition wall_outline ::
  "'m srs srs_vt \<Rightarrow> 'm lib \<Rightarrow> 'm srs \<Rightarrow> 'c wall_style \<Rightarrow> shape_type \<Rightarrow> real \<Rightarrow> 'm srs geopoint list \<Rightarrow> vec3 list" where
  "wall_outline V L s W t target part =
     wall_pairs L s W target part @
     (if t = TYPE_POLYGON \<and> \<not> list_is_closed V part then take 2 (wall_pairs L s W target part) else [])"

fun prim_runs :: "prim_type \<Rightarrow> nat \<Rightarrow> nat list \<Rightarrow> prim list" where
  "prim_runs t k [] = []"
| "prim_runs t k (n # ns) = (t, k, n) # prim_runs t (k + n) ns"

lemma walls_length: "room (ex_wall x) a \<Longrightarrow> length (walls x) = snd (ex_wall x)"
  by (simp add: walls_def written_def room_def)

lemma extrude_point_ready:
  assumes "ready x (Suc (Suc a)) (Suc b)"
  obtains len' x' where "extrude_point L s W target adj start p (len, x) = Some (len', x')" and "ready x' a b"
    and "walls x' = walls x @ [extrude_vec L s W target p, xyz p]"
    and "roof_line x' = map_option (\<lambda>r. r @ [extrude_vec L s W target p]) (roof_line x)"
    and "ex_wall_prims x' = ex_wall_prims x" and "snd (ex_wall x') = snd (ex_wall x) + 2"
proof -
  let ?v = "extrude_vec L s W target p"
  let ?len = "wall_advance start (ex_wall x) ?v len"
  let ?h = "if ws_repeats W then - v_length (v_sub ?v (xyz p)) else - adj"
  have rooms: "room_opt (ex_top x) (Suc b)" "room_opt (ex_bottom x) (Suc b)" "room (ex_wall x) (Suc (Suc a))"
    using assms by (simp_all add: ready_def)
  obtain top1 where roof: "put_opt (?v, ws_color W) (ex_top x) = Some top1" "room_opt top1 b"
      "map_option written top1 = map_option (\<lambda>t. written t @ [(?v, ws_color W)]) (ex_top x)" "top1 = None \<longleftrightarrow> ex_top x = None"
    by (rule put_opt_room [OF rooms(1)])
  obtain bot1 where base: "put_opt (xyz p) (ex_bottom x) = Some bot1" "room_opt bot1 b"
      "map_option written bot1 = map_option (\<lambda>t. written t @ [xyz p]) (ex_bottom x)" "bot1 = None \<longleftrightarrow> ex_bottom x = None"
    by (rule put_opt_room [OF rooms(2)])
  obtain w where wall: "put_pair (ws_color W) (?v, ?len / ws_tex_width W, 0) (xyz p, ?len / ws_tex_width W, ?h / adj)
      (ex_wall x) = Some w" "room w a" "snd w = snd (ex_wall x) + 2"
      "map v_pos (written w) = map v_pos (written (ex_wall x)) @ [?v, xyz p]"
    using put_pair_room [OF rooms(3), of "ws_color W" "(?v, ?len / ws_tex_width W, 0)"
        "(xyz p, ?len / ws_tex_width W, ?h / adj)"] by auto
  have roofs: "roof_line (x\<lparr>ex_wall := w, ex_top := top1, ex_bottom := bot1\<rparr>) = map_option (\<lambda>r. r @ [?v]) (roof_line x)"
    using roof(3) by (cases top1; cases "ex_top x") (simp_all add: roof_line_def)
  show thesis
    by (rule that [of ?len "x\<lparr>ex_wall := w, ex_top := top1, ex_bottom := bot1\<rparr>"])
      (simp_all add: extrude_point_def Let_def roof base wall ready_def walls_def roofs)
qed

lemma extrude_points_ready:
  assumes "ready x (2 * length ps + a) (length ps + b)"
  shows "\<exists>len' x'. extrude_points L s W target adj start ps (len, x) = Some (len', x') \<and> ready x' a b \<and>
    walls x' = walls x @ wall_pairs L s W target ps \<and>
    roof_line x' = map_option (\<lambda>r. r @ map (extrude_vec L s W target) ps) (roof_line x) \<and>
    ex_wall_prims x' = ex_wall_prims x \<and> snd (ex_wall x') = snd (ex_wall x) + 2 * length ps"
  using assms
proof (induction ps arbitrary: x len)
  case (Cons p ps)
  have "ready x (Suc (Suc (2 * length ps + a))) (Suc (length ps + b))" using Cons.prems by simp
  from extrude_point_ready [OF this, of L s W target adj start p len] obtain len1 x1 where
    one: "extrude_point L s W target adj start p (len, x) = Some (len1, x1)" "ready x1 (2 * length ps + a) (length ps + b)"
      "walls x1 = walls x @ [extrude_vec L s W target p, xyz p]"
      "roof_line x1 = map_option (\<lambda>r. r @ [extrude_vec L s W target p]) (roof_line x)"
      "ex_wall_prims x1 = ex_wall_prims x" "snd (ex_wall x1) = snd (ex_wall x) + 2" by blast
  from Cons.IH [OF one(2), of len1] obtain len2 x2 where
    rest: "extrude_points L s W target adj start ps (len1, x1) = Some (len2, x2)" "ready x2 a b"
      "walls x2 = walls x1 @ wall_pairs L s W target ps"
      "roof_line x2 = map_option (\<lambda>r. r @ map (extrude_vec L s W target) ps) (roof_line x1)"
      "ex_wall_prims x2 = ex_wall_prims x1" "snd (ex_wall x2) = snd (ex_wall x1) + 2 * length ps" by blast
  have roofs: "roof_line x2 = map_option (\<lambda>r. r @ map (extrude_vec L s W target) (p # ps)) (roof_line x)"
    using rest(4) one(4) by (cases "roof_line x") simp_all
  have pairs: "walls x2 = walls x @ wall_pairs L s W target (p # ps)"
    using rest(3) one(3) by (simp add: wall_pairs_def)
  have run: "extrude_points L s W target adj start (p # ps) (len, x) = Some (len2, x2)" by (simp add: one(1) rest(1))
  show ?case
    by (intro exI [of _ len2] exI [of _ x2] conjI run rest(2) pairs roofs) (simp_all add: rest(5,6) one(5,6))
qed (auto simp: wall_pairs_def map_option_idI)

lemma written_nth: "room w n \<Longrightarrow> i < snd w \<Longrightarrow> fst w ! i = written w ! i"
  by (simp add: written_def)

lemma close_wall_ready:
  assumes "ready x (Suc (Suc a)) b" and "start + 2 \<le> snd (ex_wall x)"
  obtains len' x' where "close_wall W start (len, x) = Some (len', x')" and "ready x' a b"
    and "walls x' = walls x @ [walls x ! start, walls x ! (start + 1)]" and "roof_line x' = roof_line x"
    and "ex_wall_prims x' = ex_wall_prims x" and "snd (ex_wall x') = snd (ex_wall x) + 2"
proof -
  let ?w = "ex_wall x"
  let ?len = "wall_advance start ?w (v_pos (fst ?w ! start)) len"
  have w: "room ?w (Suc (Suc a))" using assms(1) by (simp add: ready_def)
  let ?v1 = "\<lparr>v_pos = v_pos (fst ?w ! start), v_tex = (?len / ws_tex_width W, snd (v_tex (fst ?w ! start))), v_color = ws_color W\<rparr>"
  obtain w1 where w1: "put ?v1 ?w = Some w1" "written w1 = written ?w @ [?v1]" "room w1 (Suc a)" "snd w1 = Suc (snd ?w)"
    using put_room [OF w] by metis
  let ?v2 = "\<lparr>v_pos = v_pos (fst w1 ! (start + 1)), v_tex = (?len / ws_tex_width W, snd (v_tex (fst w1 ! (start + 1)))), v_color = ws_color W\<rparr>"
  obtain w2 where w2: "put ?v2 w1 = Some w2" "written w2 = written w1 @ [?v2]" "room w2 a" "snd w2 = Suc (snd w1)"
    using put_room [OF w1(3)] by metis
  have len: "length (written ?w) = snd ?w" using w by (simp add: written_def room_def)
  have "fst ?w ! start = written ?w ! start" using written_nth [OF w] assms(2) by simp
  moreover have "fst w1 ! (start + 1) = written ?w ! (start + 1)"
    using written_nth [OF w1(3), of "start + 1"] w1(2,4) assms(2) len by (simp add: nth_append)
  ultimately have "walls (x\<lparr>ex_wall := w2\<rparr>) = walls x @ [walls x ! start, walls x ! (start + 1)]"
    using w2(2) w1(2) len assms(2) by (simp add: walls_def)
  then show thesis
    by (intro that [of ?len "x\<lparr>ex_wall := w2\<rparr>"])
      (use assms(1) w1 w2 in \<open>simp_all add: close_wall_def Let_def ready_def roof_line_def\<close>)
qed

lemma ready_mono: "ready x (c + a) (d + b) \<Longrightarrow> ready x a b"
  by (auto simp: ready_def room_def room_opt_def split: option.splits)

lemma reverse_part_length: "length (reverse_part start n xs) = length xs"
proof -
  have "length (foldl (\<lambda>ys i. swap i (f i) ys) xs is) = length xs" for f "is" and xs :: "'a list"
    by (induction "is" arbitrary: xs) (simp_all add: swap_def)
  then show ?thesis by (simp add: reverse_part_def)
qed

lemma add_prims_view:
  "walls (add_prims t i j k x) = walls x" "roof_line (add_prims t i j k x) = roof_line x"
  "ready (add_prims t i j k x) a b = ready x a b" "ex_wall (add_prims t i j k x) = ex_wall x"
  "ex_wall_prims (add_prims t i j k x) = ex_wall_prims x @ [(t, i, snd (ex_wall x) - i)]"
  by (auto simp: add_prims_def walls_def roof_line_def ready_def room_opt_def room_def reverse_part_length split: option.split)

definition wall_prim :: "shape_type \<Rightarrow> prim_type" where
  "wall_prim t = (if t = TYPE_POINT then LINES else TRIANGLE_STRIP)"

lemma extrude_part_ready:
  assumes "ready x (2 * length part + (if t = TYPE_POLYGON then 2 else 0) + a) (length part + b)" and "part \<noteq> []"
  shows "\<exists>x'. extrude_part V L (Some s) W t lowest part x = Some x' \<and> ready x' a b \<and>
    walls x' = walls x @ wall_outline V L s W t (fst lowest) part \<and>
    roof_line x' = map_option (\<lambda>r. r @ map (extrude_vec L s W (fst lowest)) part) (roof_line x) \<and>
    ex_wall_prims x' = ex_wall_prims x @
      [(wall_prim t, length (walls x), length (wall_outline V L s W t (fst lowest) part))]"
proof -
  let ?start = "snd (ex_wall x)" and ?pairs = "wall_pairs L s W (fst lowest) part"
  let ?k = "if t = TYPE_POLYGON then 2 else 0 :: nat"
  have start: "?start = length (walls x)" using assms(1) walls_length unfolding ready_def by metis
  have plen: "length ?pairs = 2 * length part" by (induction part) (simp_all add: wall_pairs_def)
  then have two: "2 \<le> length ?pairs" using assms(2) by (cases part) simp_all
  have "ready x (2 * length part + (?k + a)) (length part + b)" using assms(1) by (simp add: add.assoc)
  from extrude_points_ready [OF this, of L s W "fst lowest" "adjusted_height s (ws_tex_height W) lowest" ?start 0]
  obtain len1 x1 where pts: "extrude_points L s W (fst lowest) (adjusted_height s (ws_tex_height W) lowest) ?start part (0, x) =
      Some (len1, x1)" "ready x1 (?k + a) b" "walls x1 = walls x @ ?pairs"
      "roof_line x1 = map_option (\<lambda>r. r @ map (extrude_vec L s W (fst lowest)) part) (roof_line x)"
      "ex_wall_prims x1 = ex_wall_prims x" "snd (ex_wall x1) = ?start + 2 * length part" by blast
  have fin: "\<exists>len2 x2. (if t = TYPE_POLYGON \<and> \<not> list_is_closed V part then close_wall W ?start (len1, x1) else Some (len1, x1)) =
      Some (len2, x2) \<and> ready x2 a b \<and> walls x2 = walls x @ wall_outline V L s W t (fst lowest) part \<and>
      roof_line x2 = roof_line x1 \<and> ex_wall_prims x2 = ex_wall_prims x \<and>
      snd (ex_wall x2) = ?start + length (wall_outline V L s W t (fst lowest) part)"
  proof (cases "t = TYPE_POLYGON \<and> \<not> list_is_closed V part")
    case True
    then have "ready x1 (Suc (Suc a)) b" using pts(2) by simp
    moreover have "?start + 2 \<le> snd (ex_wall x1)" using pts(6) two plen by simp
    ultimately obtain len2 x2 where cl: "close_wall W ?start (len1, x1) = Some (len2, x2)" "ready x2 a b"
        "walls x2 = walls x1 @ [walls x1 ! ?start, walls x1 ! (?start + 1)]" "roof_line x2 = roof_line x1"
        "ex_wall_prims x2 = ex_wall_prims x1" "snd (ex_wall x2) = snd (ex_wall x1) + 2"
      using close_wall_ready by metis
    have "take 2 ?pairs = [?pairs ! 0, ?pairs ! 1]" using two by (cases ?pairs; cases "tl ?pairs") auto
    then have "[walls x1 ! ?start, walls x1 ! (?start + 1)] = take 2 ?pairs"
      using pts(3) start by (simp add: nth_append)
    moreover have "wall_outline V L s W t (fst lowest) part = ?pairs @ take 2 ?pairs" using True by (simp add: wall_outline_def)
    ultimately show ?thesis
      using cl pts(3,5,6) True plen two by (intro exI [of _ len2] exI [of _ x2] conjI) auto
  next
    case False
    then have "wall_outline V L s W t (fst lowest) part = ?pairs" by (auto simp: wall_outline_def)
    moreover have "ready x1 a b" using pts(2) ready_mono [of x1 ?k a 0 b] by simp
    ultimately show ?thesis
      using False pts(3,5,6) plen by (intro exI [of _ len1] exI [of _ x1] conjI) auto
  qed
  then obtain len2 x2 where cl: "(if t = TYPE_POLYGON \<and> \<not> list_is_closed V part then close_wall W ?start (len1, x1)
      else Some (len1, x1)) = Some (len2, x2)" and x2: "ready x2 a b"
      "walls x2 = walls x @ wall_outline V L s W t (fst lowest) part" "roof_line x2 = roof_line x1"
      "ex_wall_prims x2 = ex_wall_prims x" "snd (ex_wall x2) = ?start + length (wall_outline V L s W t (fst lowest) part)"
    by blast
  have "extrude_part V L (Some s) W t lowest part x =
      Some (add_prims (wall_prim t) ?start (slot_pos (ex_top x)) (slot_pos (ex_bottom x)) x2)"
    by (simp only: extrude_part_def Let_def pts(1) cl option.case bind.bind_lunit snd_conv wall_prim_def)
  then show ?thesis using x2 pts(4) start by (simp add: add_prims_view)
qed

lemma extrude_parts_ready:
  assumes "ready x (sum_list (map (\<lambda>p. 2 * length p + (if t = TYPE_POLYGON then 2 else 0)) ps))
      (sum_list (map length ps))" and "[] \<notin> set ps"
  shows "\<exists>x'. extrude_parts V L (Some s) W t lowest ps x = Some x' \<and>
    walls x' = walls x @ concat (map (wall_outline V L s W t (fst lowest)) ps) \<and>
    roof_line x' = map_option (\<lambda>r. r @ map (extrude_vec L s W (fst lowest)) (concat ps)) (roof_line x) \<and>
    ex_wall_prims x' = ex_wall_prims x @
      prim_runs (wall_prim t) (length (walls x)) (map (\<lambda>p. length (wall_outline V L s W t (fst lowest) p)) ps)"
  using assms
proof (induction ps arbitrary: x)
  case (Cons p ps)
  let ?k = "if t = TYPE_POLYGON then 2 else 0 :: nat"
  let ?a = "sum_list (map (\<lambda>p. 2 * length p + ?k) ps)" and ?b = "sum_list (map length ps)"
  have "ready x (2 * length p + ?k + ?a) (length p + ?b)" "p \<noteq> []" using Cons.prems by auto
  from extrude_part_ready [OF this, of V L s W lowest] obtain x1 where
    one: "extrude_part V L (Some s) W t lowest p x = Some x1" "ready x1 ?a ?b"
      "walls x1 = walls x @ wall_outline V L s W t (fst lowest) p"
      "roof_line x1 = map_option (\<lambda>r. r @ map (extrude_vec L s W (fst lowest)) p) (roof_line x)"
      "ex_wall_prims x1 = ex_wall_prims x @
        [(wall_prim t, length (walls x), length (wall_outline V L s W t (fst lowest) p))]" by blast
  have "[] \<notin> set ps" using Cons.prems(2) by simp
  from Cons.IH [OF one(2) this] obtain x2 where
    rest: "extrude_parts V L (Some s) W t lowest ps x1 = Some x2"
      "walls x2 = walls x1 @ concat (map (wall_outline V L s W t (fst lowest)) ps)"
      "roof_line x2 = map_option (\<lambda>r. r @ map (extrude_vec L s W (fst lowest)) (concat ps)) (roof_line x1)"
      "ex_wall_prims x2 = ex_wall_prims x1 @
        prim_runs (wall_prim t) (length (walls x1)) (map (\<lambda>p. length (wall_outline V L s W t (fst lowest) p)) ps)" by blast
  show ?case
    by (intro exI [of _ x2]) (use one rest in \<open>cases "roof_line x"; simp\<close>)
qed (auto simp: map_option_idI)

lemma point_total:
  "k + sum_list (map length ps) < 2 ^ 32 \<Longrightarrow> foldl (\<lambda>t p. (t + length p) mod 2 ^ 32) k ps = k + sum_list (map length ps)"
  by (induction ps arbitrary: k) simp_all

lemma total_points:
  "sum_list (map length (parts sh)) < 2 ^ 32 \<Longrightarrow> get_total_point_count sh = sum_list (map length (parts sh))"
  using point_total [of 0 "parts sh"] by (simp only: get_total_point_count_def add_0)

lemma vertex_total:
  "sum_list (map (\<lambda>p. 2 * length p + k) ps) = 2 * sum_list (map length ps) + k * length ps"
  by (induction ps) simp_all

lemma extrusion_new_ready:
  assumes "sum_list (map length (parts sh)) < 2 ^ 32"
  shows "ready (extrusion_new c0 roof base sh)
    (sum_list (map (\<lambda>p. 2 * length p + (if shape_type sh = TYPE_POLYGON then 2 else 0)) (parts sh)))
    (sum_list (map length (parts sh)))"
  unfolding vertex_total
  by (simp add: extrusion_new_def ready_def room_def room_opt_def slots_new_def wall_vertex_count_def
      total_points [OF assms] get_part_count_def)

lemma extrusion_spec:
  assumes "[] \<notin> set (parts sh)" and "sum_list (map length (parts sh)) < 2 ^ 32"
  shows "\<exists>x. extrude_walls_up V L c0 sh (Some s) W roof base = Some x \<and>
    walls x = concat (map (wall_outline V L s W (shape_type sh) (fst (measure_shape L s (ws_height W) sh))) (parts sh)) \<and>
    roof_line x = (if roof then Some (map (extrude_vec L s W (fst (measure_shape L s (ws_height W) sh))) (concat (parts sh)))
      else None) \<and>
    ex_wall_prims x = prim_runs (wall_prim (shape_type sh)) 0
      (map (\<lambda>p. length (wall_outline V L s W (shape_type sh) (fst (measure_shape L s (ws_height W) sh)) p)) (parts sh))"
proof -
  have new: "walls (extrusion_new c0 roof base sh) = []" "ex_wall_prims (extrusion_new c0 roof base sh) = []"
    "roof_line (extrusion_new c0 roof base sh) = (if roof then Some [] else None)"
    by (simp_all add: extrusion_new_def walls_def roof_line_def written_def slots_new_def)
  show ?thesis
    using extrude_parts_ready [OF extrusion_new_ready [OF assms(2), of c0 roof base] assms(1),
        where V = V and L = L and s = s and W = W and lowest = "measure_shape L s (ws_height W) sh"]
    by (auto simp: extrude_walls_up_def new)
qed

text \<open>Without a reference the first point is fatal.\<close>

lemma extrude_without_reference:
  "concat (parts sh) \<noteq> [] \<Longrightarrow> extrude_walls_up V L c0 sh None W roof base = None"
  by (auto simp: extrude_walls_up_def)

section \<open>The height of the roof\<close>

lemma measure_target:
  "fst (measure_shape L s height sh) =
     foldl (\<lambda>t p. max t (raised s height (to_world L s p))) (- dbl_max) (concat (parts sh))"
proof -
  have one: "fst (foldl (\<lambda>st p. measure_point L s height p st) st part) =
      foldl (\<lambda>t p. max t (raised s height (to_world L s p))) (fst st) part" for st part
    by (induction part arbitrary: st) (auto simp: measure_point_def Let_def max_def split: prod.splits)
  have "fst (foldl (\<lambda>st part. foldl (\<lambda>st p. measure_point L s height p st) st part) st ps) =
      foldl (\<lambda>t p. max t (raised s height (to_world L s p))) (fst st) (concat ps)" for st ps
    by (induction ps arbitrary: st) (simp_all add: one)
  then show ?thesis by (simp add: measure_shape_def)
qed

lemma foldl_max_Max:
  "foldl (\<lambda>t p. max t (f p)) (t :: real) ps = Max (insert t (f ` set ps))"
proof (induction ps arbitrary: t)
  case (Cons p ps)
  have "foldl (\<lambda>t p. max t (f p)) t (p # ps) = Max (insert (max t (f p)) (f ` set ps))" by (simp add: Cons)
  also have "\<dots> = Max (insert t (insert (f p) (f ` set ps)))" by (rule Max_insert_max) simp
  finally show ?case by simp
qed simp

lemma target_is_max:
  assumes "concat (parts sh) \<noteq> []" and "\<forall>p \<in> set (concat (parts sh)). - dbl_max \<le> raised s height (to_world L s p)"
  shows "fst (measure_shape L s height sh) = Max ((\<lambda>p. raised s height (to_world L s p)) ` set (concat (parts sh)))"
proof -
  let ?A = "(\<lambda>p. raised s height (to_world L s p)) ` set (concat (parts sh))"
  have "finite ?A" "?A \<noteq> {}" using assms(1) by auto
  moreover have "- dbl_max \<le> Max ?A"
  proof -
    obtain p where "p \<in> set (concat (parts sh))" using assms(1) by (meson last_in_set)
    then have "raised s height (to_world L s p) \<le> Max ?A" "- dbl_max \<le> raised s height (to_world L s p)"
      using assms(2) by (simp_all del: set_concat)
    then show ?thesis by linarith
  qed
  ultimately have "Max (insert (- dbl_max) ?A) = Max ?A" using Max_insert [of ?A "- dbl_max"] by linarith
  then show ?thesis by (simp only: measure_target foldl_max_Max)
qed

text \<open>Distances from the centre are not negative.\<close>

lemma target_nonneg:
  assumes "concat (parts sh) \<noteq> []"
  shows "is_geocentric s \<longrightarrow> 0 \<le> fst (measure_shape L s height sh)"
proof
  assume "is_geocentric s"
  then have pos: "0 \<le> raised s height w" for w
    by (cases "v_add w (v_scale height (v_unit w))") (simp add: raised_def v_length_def)
  obtain p where p: "p \<in> set (concat (parts sh))" using assms by (meson last_in_set)
  have "raised s height (to_world L s p) \<le> fst (measure_shape L s height sh)"
    unfolding measure_target foldl_max_Max using p by (intro Max_ge) auto
  with pos [of "to_world L s p"] show "0 \<le> fst (measure_shape L s height sh)" by linarith
qed

lemma v_length_scale: "0 \<le> k \<Longrightarrow> v_length (v_scale k a) = k * v_length a"
proof (cases a)
  case (fields x y z)
  assume "0 \<le> k"
  have "k * x * (k * x) + k * y * (k * y) + k * z * (k * z) = k\<^sup>2 * (x * x + y * y + z * z)"
    by (simp add: power2_eq_square algebra_simps)
  with \<open>0 \<le> k\<close> show ?thesis by (simp add: fields v_length_def v_scale_def real_sqrt_mult)
qed

text \<open>
  With a uniform height every point of the roof is at the same level: above a geocentric reference
  at one distance from the centre, else at one height.
\<close>

lemma uniform_level:
  assumes "ws_uniform W" and inv: "\<forall>v. mat_mult L (mat_mult L v (get_frame s)) (get_inv_frame s) = v"
    and "is_geocentric s \<longrightarrow> 0 \<le> target \<and> 0 < v_length (to_world L s p)"
  shows "level s (mat_mult L (extrude_vec L s W target p) (get_inv_frame s)) = target"
proof -
  have "mat_mult L (mat_mult L v (get_frame s)) (get_inv_frame s) = v" for v using inv by blast
  with assms(1,3) show ?thesis by (auto simp: extrude_vec_def Let_def level_def v_length_scale v_z_def simp del: split_paired_All)
qed

text \<open>The floor of the first part is reversed; the floor of a part that starts later is not.\<close>

lemma floor_reversal:
  "reverse_part 0 5 [a, b, c, d, e] = [e, d, c, b, a]"
  "reverse_part 1 4 [u, a, b, c, d] \<noteq> u # rev [a, b, c, d]" if "a \<noteq> d" "b \<noteq> c"
  using that by (simp_all add: reverse_part_def swap_def upt_rec)

end
