(* ===== verification/Script_Filters.thy ===== *)
theory Script_Filters
  imports Checkpoint Resource_Library "HOL-Library.Sublist"
begin

text \<open>
  \<^verbatim>\<open>src/osgGIS/SelectFilter.cpp\<close>, \<^verbatim>\<open>GroupFilter.cpp\<close>, \<^verbatim>\<open>RandomGroupingFilter.cpp\<close>,
  \<^verbatim>\<open>TransformFilter.cpp\<close> and \<^verbatim>\<open>WriteFeaturesFilter.cpp\<close>: filters that ask a script, a random
  number or the session what to do with a feature, as entries of the table \<open>filter_vt\<close>. The engine of
  an environment, matrices, the intersection of a ray with the terrain, the virtual operations of a
  reference and the factory of stores are arguments.
\<close>

section \<open>Scripts\<close>

text \<open>A result is a value, or an error with its message.\<close>

type_synonym 'o script_result = "string + 'o property"

record ('s, 'o, 'p) script_host =
  sh_run :: "('s, 'o) filter_env \<Rightarrow> 'p \<Rightarrow> 's feature option \<Rightarrow> 'o script_result"
  sh_report :: "'o \<Rightarrow> string \<Rightarrow> 'o"
  sh_script :: "string \<Rightarrow> 'p"
  sh_code :: "'p \<Rightarrow> string"

definition report_error :: "('s, 'o, 'p) script_host \<Rightarrow> string \<Rightarrow> ('s, 'o) filter_env \<Rightarrow> ('s, 'o) filter_env" where
  "report_error H m e = e\<lparr>env_report := sh_report H (env_report e) m\<rparr>"

section \<open>Selecting\<close>

record 'p select_filter =
  sel_script :: "'p option"

definition select_set_property :: "('s, 'o, 'p) script_host \<Rightarrow> 'o property \<Rightarrow> 'p select_filter \<Rightarrow> 'p select_filter" where
  "select_set_property H p x =
     (if pname p = ''select'' then x\<lparr>sel_script := Some (sh_script H (pvalue p))\<rparr> else x)"

definition select_properties :: "('s, 'o, 'p) script_host \<Rightarrow> 'p select_filter \<Rightarrow> 'o property list" where
  "select_properties H x =
     (case sel_script x of Some s \<Rightarrow> [prop_string ''select'' (sh_code H s)] | None \<Rightarrow> [])"

definition select_process ::
  "('s, 'o, 'p) script_host \<Rightarrow> ('s, 'o, 'p select_filter, 's feature, 's feature list) virtual" where
  "select_process H x f e =
     (case sel_script x of
        None \<Rightarrow> ([], e, x)
      | Some s \<Rightarrow>
          (case sh_run H e s (Some f) of
             Inr r \<Rightarrow> (if get_bool_value r False then [f] else [], e, x)
           | Inl m \<Rightarrow> ([], report_error H m e, x)))"

section \<open>Grouping\<close>

record 'p group_filter =
  grp_script :: "'p option"

definition group_set_property :: "('s, 'o, 'p) script_host \<Rightarrow> 'o property \<Rightarrow> 'p group_filter \<Rightarrow> 'p group_filter" where
  "group_set_property H p x =
     (if pname p = ''group'' then x\<lparr>grp_script := Some (sh_script H (pvalue p))\<rparr> else x)"

definition group_properties :: "('s, 'o, 'p) script_host \<Rightarrow> 'p group_filter \<Rightarrow> 'o property list" where
  "group_properties H x =
     (case grp_script x of Some s \<Rightarrow> [prop_string ''group'' (sh_code H s)] | None \<Rightarrow> [])"

definition group_assign :: "('s, 'o, 'p) script_host \<Rightarrow> ('s, 'o, 'p group_filter, 's feature, string) virtual" where
  "group_assign H x f e =
     (case grp_script x of
        None \<Rightarrow> ([], e, x)
      | Some s \<Rightarrow>
          (case sh_run H e s (Some f) of
             Inr r \<Rightarrow> (pvalue r, e, x)
           | Inl m \<Rightarrow> ([], report_error H m e, x)))"

text \<open>The generator of random numbers belongs to the process; its state is passed along.\<close>

record 'w random_filter =
  rnd_groups :: int
  rnd_seed :: int
  rnd_state :: 'w

definition set_num_groups :: "int \<Rightarrow> 'w random_filter \<Rightarrow> 'w random_filter" where
  "set_num_groups v x = x\<lparr>rnd_groups := (if v > 0 then v else 1)\<rparr>"

definition set_seed :: "(int \<Rightarrow> 'w) \<Rightarrow> int \<Rightarrow> 'w random_filter \<Rightarrow> 'w random_filter" where
  "set_seed srand v x = x\<lparr>rnd_seed := v, rnd_state := srand v\<rparr>"

definition random_filter_new :: "(int \<Rightarrow> 'w) \<Rightarrow> int \<Rightarrow> 'w random_filter" where
  "random_filter_new srand n =
     set_seed srand 0 (set_num_groups n \<lparr>rnd_groups = 0, rnd_seed = 0, rnd_state = srand 0\<rparr>)"

definition random_set_property :: "'o property \<Rightarrow> 'w random_filter \<Rightarrow> 'w random_filter option" where
  "random_set_property p x =
     (if pname p = ''num_groups'' then map_option (\<lambda>i. set_num_groups i x) (get_int_value p 5) else Some x)"

definition random_properties :: "'w random_filter \<Rightarrow> 'o property list" where
  "random_properties x = [prop_int ''num_groups'' (rnd_groups x)]"

definition random_assign ::
  "('w \<Rightarrow> nat \<times> 'w) \<Rightarrow> ('s, 'o, 'w random_filter, 's feature, string) virtual" where
  "random_assign rand x f e =
     (case rand (rnd_state x) of
        (r, w) \<Rightarrow> (show_int (int r mod rnd_groups x), e, x\<lparr>rnd_state := w\<rparr>))"

section \<open>Transforming\<close>

record ('s, 'p, 'm) transform_filter =
  tf_matrix :: 'm
  tf_localize :: bool
  tf_use_terrain :: bool
  tf_srs :: "'s option"
  tf_srs_script :: "'p option"
  tf_translate :: "'p option"
  tf_working :: "'s option"

record ('s, 'o, 'm) transform_lib =
  tl_identity :: 'm
  tl_is_identity :: "'m \<Rightarrow> bool"
  tl_matrix_valid :: "'m \<Rightarrow> bool"
  tl_invert :: "'m \<Rightarrow> 'm"
  tl_translation :: "vec3 \<Rightarrow> 'm"
  tl_mult :: "vec3 \<Rightarrow> 'm \<Rightarrow> vec3"
  tl_vec3 :: "'o property \<Rightarrow> vec3"
  tl_geographic :: "'s \<Rightarrow> bool"
  tl_geocentric :: "'s \<Rightarrow> bool"
  tl_inv_ref_frame :: "'s \<Rightarrow> 's geopoint \<Rightarrow> 'm"
  tl_clone :: "'s \<Rightarrow> 'm \<Rightarrow> 's"
  tl_clamp :: "'s geopoint \<Rightarrow> 'o \<Rightarrow> 's option \<Rightarrow> 'o option \<Rightarrow> 's geopoint"
  tl_find_srs :: "string \<Rightarrow> 's option"
  tl_shape_in_place :: "'s \<Rightarrow> 's geoshape \<Rightarrow> 's geoshape"

definition transform_new :: "('s, 'o, 'm) transform_lib \<Rightarrow> ('s, 'p, 'm) transform_filter" where
  "transform_new T =
     \<lparr>tf_matrix = tl_identity T, tf_localize = False, tf_use_terrain = False, tf_srs = None,
      tf_srs_script = None, tf_translate = None, tf_working = None\<rparr>"

definition transform_set_property ::
  "('s, 'o, 'p) script_host \<Rightarrow> 'o property \<Rightarrow> ('s, 'p, 'm) transform_filter \<Rightarrow> ('s, 'p, 'm) transform_filter" where
  "transform_set_property H p x =
     (if pname p = ''localize'' then x\<lparr>tf_localize := get_bool_value p (tf_localize x)\<rparr>
      else if pname p = ''translate'' then x\<lparr>tf_translate := Some (sh_script H (pvalue p))\<rparr>
      else if pname p = ''use_terrain_srs'' then x\<lparr>tf_use_terrain := get_bool_value p (tf_use_terrain x)\<rparr>
      else if pname p = ''srs'' then x\<lparr>tf_srs_script := Some (sh_script H (pvalue p))\<rparr>
      else x)"

definition transform_properties ::
  "('s, 'o, 'p) script_host \<Rightarrow> ('s, 'p, 'm) transform_filter \<Rightarrow> 'o property list" where
  "transform_properties H x =
     (if tf_localize x then [prop_bool ''localize'' (tf_localize x)] else []) @
     (if tf_use_terrain x then [prop_bool ''use_terrain_srs'' (tf_use_terrain x)] else []) @
     (case tf_translate x of Some s \<Rightarrow> [prop_string ''translate'' (sh_code H s)] | None \<Rightarrow> []) @
     (case tf_srs_script x of Some s \<Rightarrow> [prop_string ''srs'' (sh_code H s)] | None \<Rightarrow> [])"

text \<open>The reference that is asked for: the terrain's, one that was set, or the one a script names.\<close>

definition requested_srs ::
  "('s, 'o, 'p) script_host \<Rightarrow> ('s, 'o, 'm) transform_lib \<Rightarrow> ('s, 'p, 'm) transform_filter \<Rightarrow> ('s, 'o) filter_env \<Rightarrow>
     's option \<times> ('s, 'o) filter_env \<times> ('s, 'p, 'm) transform_filter" where
  "requested_srs H T x e =
     (case (if tf_use_terrain x then terrain_srs e else None) of
        Some s \<Rightarrow> (Some s, e, x)
      | None \<Rightarrow>
          (case (tf_srs x, tf_srs_script x) of
             (None, Some sc) \<Rightarrow>
               (case sh_run H e sc None of
                  Inr r \<Rightarrow> (tl_find_srs T (pvalue r), e, x\<lparr>tf_srs := tl_find_srs T (pvalue r)\<rparr>)
                | Inl m \<Rightarrow> (None, report_error H m e, x))
           | _ \<Rightarrow> (tf_srs x, e, x)))"

definition clamp_to_terrain ::
  "('s, 'o, 'm) transform_lib \<Rightarrow> 's geopoint \<Rightarrow> ('s, 'o) filter_env \<Rightarrow> 's geopoint" where
  "clamp_to_terrain T p e =
     (case terrain_node e of
        Some n \<Rightarrow> tl_clamp T p n (terrain_srs e) (terrain_read_cb e)
      | None \<Rightarrow> p)"

text \<open>
  Points are localised around the centroid of the cell, on the terrain where there is one, unless the
  cell is most of the earth. The extent of a cell that was never set has no reference: \<open>None\<close>.
\<close>

definition localizer_origin ::
  "'s srs_vt \<Rightarrow> ('s, 'o, 'm) transform_lib \<Rightarrow> 's option \<Rightarrow> ('s, 'o) filter_env \<Rightarrow> 's geopoint" where
  "localizer_origin V T asked e =
     (let c0 = (case asked of
            Some a \<Rightarrow> vt_transform V a (get_centroid (cell_extent e))
          | None \<Rightarrow> get_centroid (cell_extent e));
          c1 = clamp_to_terrain T c0 e
      in if \<not> point_valid c1 then c0 else c1)"

definition localizer :: "('s, 'o, 'm) transform_lib \<Rightarrow> 's \<Rightarrow> 's geopoint \<Rightarrow> 'm" where
  "localizer T s c =
     (if tl_geocentric T s then tl_invert T (tl_inv_ref_frame T s c)
      else tl_translation T (- px c, - py c, - pz c))"

definition localized_srs ::
  "'s srs_vt \<Rightarrow> ('s, 'o, 'm) transform_lib \<Rightarrow> 's option \<Rightarrow> 's \<Rightarrow> ('s, 'o) filter_env \<Rightarrow> 's option" where
  "localized_srs V T asked s e =
     do { cs \<leftarrow> get_srs (cell_extent e);
          if tl_geographic T cs \<and> get_width (cell_extent e) > 179 then Some s
          else Some (tl_clone T s (localizer T s (localizer_origin V T asked e))) }"

definition establish_srs ::
  "'s srs_vt \<Rightarrow> ('s, 'o, 'p) script_host \<Rightarrow> ('s, 'o, 'm) transform_lib \<Rightarrow> ('s, 'p, 'm) transform_filter \<Rightarrow>
     ('s, 'o) filter_env \<Rightarrow> (('s, 'o) filter_env \<times> ('s, 'p, 'm) transform_filter) option" where
  "establish_srs V H T x e =
     (case tf_working x of
        Some s \<Rightarrow> Some (e, x)
      | None \<Rightarrow>
          (case requested_srs H T x e of
             (asked, e1, x1) \<Rightarrow>
               (case (case asked of Some a \<Rightarrow> Some a | None \<Rightarrow> in_srs e1) of
                  None \<Rightarrow> Some (e1, x1)
                | Some s \<Rightarrow>
                    if tf_localize x1
                    then map_option (\<lambda>s'. (e1, x1\<lparr>tf_working := Some s'\<rparr>)) (localized_srs V T asked s e1)
                    else Some (e1, x1\<lparr>tf_working := Some s\<rparr>))))"

definition matrix_visitor :: "('s, 'o, 'm) transform_lib \<Rightarrow> 'm \<Rightarrow> (unit, 's) point_visitor" where
  "matrix_visitor T m v p =
     (case tl_mult T (xyz p) m of (x, y, z) \<Rightarrow> (v, set_dim (set_xyz p x y z) 3, True))"

definition transform_shape ::
  "'s srs_vt \<Rightarrow> ('s, 'o, 'm) transform_lib \<Rightarrow> 'm \<Rightarrow> 's option \<Rightarrow> 's option \<Rightarrow> 's geoshape \<Rightarrow> 's geoshape" where
  "transform_shape V T m working input sh =
     (let sh1 = (if tl_matrix_valid T m \<and> \<not> tl_is_identity T m
                 then fst (snd (shape_accept (matrix_visitor T m) () sh)) else sh)
      in case working of
           None \<Rightarrow> sh1
         | Some s \<Rightarrow>
             if (case input of Some i \<Rightarrow> vt_equivalent_to V s i | None \<Rightarrow> False) then sh1
             else tl_shape_in_place T s sh1)"

definition transform_feature ::
  "'s srs_vt \<Rightarrow> ('s, 'o, 'p) script_host \<Rightarrow> ('s, 'o, 'm) transform_lib \<Rightarrow>
     ('s, 'o, ('s, 'p, 'm) transform_filter, 's feature, 's feature list) virtual" where
  "transform_feature V H T x f e =
     (let (m, e1) = (case tf_translate x of
            None \<Rightarrow> (tf_matrix x, e)
          | Some sc \<Rightarrow>
              (case sh_run H e sc (Some f) of
                 Inr r \<Rightarrow> (tl_translation T (tl_vec3 T r), e)
               | Inl msg \<Rightarrow> (tf_matrix x, report_error H msg e)));
          f1 = (if tf_working x \<noteq> None \<or> tl_matrix_valid T m \<and> \<not> tl_is_identity T m
            then modify_shapes f (map (transform_shape V T m (tf_working x) (in_srs e1))) else f)
      in ([f1], e1, x))"

definition transform_process ::
  "'s srs_vt \<Rightarrow> ('s, 'o, 'p) script_host \<Rightarrow> ('s, 'o, 'm) transform_lib \<Rightarrow> ('s, 'p, 'm) transform_filter \<Rightarrow>
     's feature list \<Rightarrow> ('s, 'o) filter_env \<Rightarrow>
     ('s feature list \<times> ('s, 'o) filter_env \<times> ('s, 'p, 'm) transform_filter) option" where
  "transform_process V H T x fs e =
     do { (e1, x1) \<leftarrow> establish_srs V H T x e;
          let e2 = (case tf_working x1 of Some s \<Rightarrow> set_output_srs e1 (Some s) | None \<Rightarrow> e1)
          in Some (process_each (transform_feature V H T) x1 fs e2) }"

section \<open>Writing\<close>

text \<open>
  The store is a property of the session, made by the factory for the first feature that has shape
  data; \<open>'w\<close> is what the stores hold.
\<close>

record ('s, 'o, 'w) store_lib =
  sl_is_store :: "'o \<Rightarrow> bool"
  sl_schemas :: "'s feature \<Rightarrow> 'o property attr_schema list"
  sl_create :: "string \<Rightarrow> shape_type \<Rightarrow> 'o property attr_schema list \<Rightarrow> nat \<Rightarrow> 's option \<Rightarrow>
    'o property list \<Rightarrow> 'w \<Rightarrow> 'o option \<times> 'w"
  sl_insert :: "'o \<Rightarrow> 's feature \<Rightarrow> 'w \<Rightarrow> 'w"

definition write_set_property :: "'o property \<Rightarrow> string \<Rightarrow> string" where
  "write_set_property p uri = (if pname p = ''output_uri'' then pvalue p else uri)"

definition write_properties :: "string \<Rightarrow> 'o property list" where
  "write_properties uri = (if length uri > 0 then [prop_string ''output_uri'' uri] else [])"

definition shared_store ::
  "('s, 'o, 'w) store_lib \<Rightarrow> string \<Rightarrow> 's feature \<Rightarrow> 's option \<Rightarrow> ('r, 'o) session \<times> 'w \<Rightarrow>
     'o option \<times> ('r, 'o) session \<times> 'w" where
  "shared_store L uri f s x =
     (case x of (ses, w) \<Rightarrow>
        let found = (case pref (session_get_property ''WriteFeaturesFilter:store'' ses) of
              Some st \<Rightarrow> if sl_is_store L st then Some st else None
            | None \<Rightarrow> None)
        in if found \<noteq> None then (found, ses, w)
           else (case sl_create L uri (feature_shape_type (fshapes f)) (sl_schemas L f) (get_shape_dim f) s [] w of
             (None, w1) \<Rightarrow> (None, ses, w1)
           | (Some st, w1) \<Rightarrow>
               (Some st, session_set_property (prop_ref ''WriteFeaturesFilter:store'' (Some st)) ses, w1)))"

definition write_process ::
  "('s, 'o, 'w) store_lib \<Rightarrow> 's srs_vt \<Rightarrow> string \<Rightarrow>
     ('s, 'o, ('r, 'o) session \<times> 'w, 's feature, 's feature list) virtual" where
  "write_process L V uri x f e =
     ([f], e,
      if length uri > 0 \<and> has_shape_data V f
      then (case shared_store L uri f (in_srs e) x of
              (None, ses, w) \<Rightarrow> (ses, w)
            | (Some st, ses, w) \<Rightarrow> (ses, sl_insert L st f w))
      else x)"

section \<open>Facts\<close>

lemma process_each_append:
  "process_each P x (is @ js) e =
     (case process_each P x is e of (a, e1, x1) \<Rightarrow>
        case process_each P x1 js e1 of (b, e2, x2) \<Rightarrow> (a @ b, e2, x2))"
  by (induction "is" arbitrary: x e) (auto split: prod.splits)

lemma select_process_one:
  "\<exists>one e1. select_process H x f e = (one, e1, x) \<and> (one = [] \<or> one = [f]) \<and> (sel_script x = None \<longrightarrow> one = [])"
proof (cases "sel_script x")
  case (Some s)
  then show ?thesis by (cases "sh_run H e s (Some f)") (simp_all add: select_process_def)
qed (simp add: select_process_def)

text \<open>Selecting keeps features in their order and changes none; without a script it keeps none.\<close>

lemma select_keeps:
  "case process_each (select_process H) x fs e of
     (out, e1, x1) \<Rightarrow> subseq out fs \<and> x1 = x \<and> (sel_script x = None \<longrightarrow> out = [])"
proof (induction fs arbitrary: e)
  case (Cons f fs)
  obtain one e1 where one: "select_process H x f e = (one, e1, x)" "one = [] \<or> one = [f]"
    "sel_script x = None \<longrightarrow> one = []"
    using select_process_one by metis
  obtain out e2 x2 where out: "process_each (select_process H) x fs e1 = (out, e2, x2)" by (metis prod_cases3)
  from Cons [of e1] have "subseq out fs" "x2 = x" "sel_script x = None \<longrightarrow> out = []" by (simp_all add: out)
  with one show ?case by (auto simp: out)
qed simp

text \<open>When the script looks at the feature only and does not fail it is a filter.\<close>

lemma select_is_filter:
  assumes "sel_script x = Some s" and "\<And>e f. sh_run H e s (Some f) = Inr (prop_bool [] (P f))"
  shows "process_each (select_process H) x fs e = (filter P fs, e, x)"
  by (induction fs) (simp_all add: select_process_def assms prop_bool_roundtrip)

lemma random_group_range:
  assumes "0 < rnd_groups x"
  shows "\<exists>i. 0 \<le> i \<and> i < rnd_groups x \<and> fst (random_assign rand x f e) = show_int i"
  using pos_mod_sign [OF assms] pos_mod_bound [OF assms]
  by (auto simp: random_assign_def split: prod.split)

lemma num_groups_pos: "0 < rnd_groups (set_num_groups v x)"
  by (simp add: set_num_groups_def)

text \<open>What the filters save of their settings sets them again.\<close>

lemma select_properties_restore:
  "foldl (\<lambda>x p. select_set_property H p x) \<lparr>sel_script = None\<rparr> (select_properties H x) =
     \<lparr>sel_script = map_option (\<lambda>s. sh_script H (sh_code H s)) (sel_script x)\<rparr>"
  by (simp add: select_properties_def select_set_property_def prop_string_def normalize_def replace_char_def split: option.split)

lemma group_properties_restore:
  "foldl (\<lambda>x p. group_set_property H p x) \<lparr>grp_script = None\<rparr> (group_properties H x) =
     \<lparr>grp_script = map_option (\<lambda>s. sh_script H (sh_code H s)) (grp_script x)\<rparr>"
  by (simp add: group_properties_def group_set_property_def prop_string_def normalize_def replace_char_def split: option.split)

lemma transform_properties_restore:
  "foldl (\<lambda>y p. transform_set_property H p y) (transform_new T) (transform_properties H x) =
     (transform_new T)\<lparr>tf_localize := tf_localize x, tf_use_terrain := tf_use_terrain x,
       tf_translate := map_option (\<lambda>s. sh_script H (sh_code H s)) (tf_translate x),
       tf_srs_script := map_option (\<lambda>s. sh_script H (sh_code H s)) (tf_srs_script x)\<rparr>"
proof -
  have names: "pname (prop_bool ''localize'' b) = ''localize''" "pname (prop_bool ''use_terrain_srs'' b) = ''use_terrain_srs''"
    "pname (prop_string ''translate'' c) = ''translate''" "pname (prop_string ''srs'' c) = ''srs''" "pvalue (prop_string n c) = c" for b c n
    by (simp_all add: prop_bool_def prop_string_def normalize_def replace_char_def)
  show ?thesis
    by (cases "tf_localize x"; cases "tf_use_terrain x"; cases "tf_translate x"; cases "tf_srs_script x")
      (simp_all add: transform_properties_def transform_set_property_def names prop_bool_roundtrip transform_new_def)
qed

text \<open>
  A reference that was established stays, so all that passes a filter comes out in one reference, and
  it is the one the environment announces. No feature is lost or added.
\<close>

lemma established_stays:
  "establish_srs V H T x e = Some (e1, x1) \<Longrightarrow> tf_working x1 = Some s \<Longrightarrow> establish_srs V H T x1 e' = Some (e', x1)"
  by (simp add: establish_srs_def)

lemma transform_feature_one:
  "\<exists>g e1. transform_feature V H T x f e = ([g], e1, x) \<and> out_srs e1 = out_srs e \<and> foid g = foid f"
proof (cases "tf_translate x")
  case (Some sc)
  then show ?thesis
    by (cases "sh_run H e sc (Some f)") (simp_all add: transform_feature_def report_error_def modify_shapes_def Let_def)
qed (simp add: transform_feature_def modify_shapes_def Let_def)

lemma transform_each:
  "case process_each (transform_feature V H T) x fs e of
     (out, e1, x1) \<Rightarrow> length out = length fs \<and> x1 = x \<and> out_srs e1 = out_srs e \<and> map foid out = map foid fs"
proof (induction fs arbitrary: e)
  case (Cons f fs)
  obtain g e1 where one: "transform_feature V H T x f e = ([g], e1, x)" "out_srs e1 = out_srs e" "foid g = foid f"
    using transform_feature_one by metis
  obtain out e2 x2 where out: "process_each (transform_feature V H T) x fs e1 = (out, e2, x2)" by (metis prod_cases3)
  with Cons [of e1] one show ?case by auto
qed simp

lemma transform_process_out:
  assumes "transform_process V H T x fs e = Some (out, e1, x1)"
  shows "map foid out = map foid fs \<and> (\<forall>s. tf_working x1 = Some s \<longrightarrow> out_srs e1 = Some s) \<and>
    (\<forall>s. tf_working x = Some s \<longrightarrow> tf_working x1 = Some s)"
proof -
  obtain e0 x0 where est: "establish_srs V H T x e = Some (e0, x0)"
    and pr: "process_each (transform_feature V H T) x0 fs
      (case tf_working x0 of Some s \<Rightarrow> set_output_srs e0 (Some s) | None \<Rightarrow> e0) = (out, e1, x1)"
    using assms by (auto simp: transform_process_def bind_eq_Some_conv Let_def)
  have "x1 = x0 \<and> map foid out = map foid fs \<and>
      out_srs e1 = out_srs (case tf_working x0 of Some s \<Rightarrow> set_output_srs e0 (Some s) | None \<Rightarrow> e0)"
    using transform_each [where V = V and H = H and T = T and x = x0 and fs = fs and
        e = "case tf_working x0 of Some s \<Rightarrow> set_output_srs e0 (Some s) | None \<Rightarrow> e0"]
    by (simp add: pr)
  moreover have "tf_working x = Some s \<Longrightarrow> x0 = x" for s using est by (simp add: establish_srs_def)
  ultimately show ?thesis by (auto simp: set_output_srs_def)
qed

text \<open>
  One store takes every feature that has shape data, in their order, whatever file the filter names:
  a second filter of the session writes into the store of the first.
\<close>

lemma session_get_set:
  assumes "props_ok (se_props ses)" and "prop_normal p"
  shows "session_get_property (pname p) (session_set_property p ses) = p"
  using assms by (simp add: session_get_property_def session_set_property_def props_get_def props_set_def
      props_remove_def prop_normal_def find_property_append find_remove_first props_ok_def)

lemma write_into_store:
  assumes "pref (session_get_property ''WriteFeaturesFilter:store'' ses) = Some st" and "sl_is_store L st"
    and "uri \<noteq> []"
  shows "process_each (write_process L V uri) (ses, w) fs e =
    (fs, e, ses, foldl (\<lambda>w f. sl_insert L st f w) w (filter (has_shape_data V) fs))"
  by (induction fs arbitrary: w) (simp_all add: write_process_def shared_store_def assms)

lemma write_all:
  assumes "pref (session_get_property ''WriteFeaturesFilter:store'' ses) = None" and "props_ok (se_props ses)"
    and "sl_create L uri (feature_shape_type (fshapes f)) (sl_schemas L f) (get_shape_dim f) (in_srs e) [] w = (Some st, w1)"
    and "sl_is_store L st" and "uri \<noteq> []" and "has_shape_data V f"
  shows "process_each (write_process L V uri) (ses, w) (f # fs) e =
    (f # fs, e, session_set_property (prop_ref ''WriteFeaturesFilter:store'' (Some st)) ses,
     foldl (\<lambda>w g. sl_insert L st g w) w1 (f # filter (has_shape_data V) fs))"
proof -
  let ?p = "prop_ref ''WriteFeaturesFilter:store'' (Some st)"
  have "pname ?p = ''WriteFeaturesFilter:store''" "prop_normal ?p"
    by (simp_all add: prop_ref_def prop_normal_def normalize_def replace_char_def)
  with session_get_set [OF assms(2), of ?p]
  have "pref (session_get_property ''WriteFeaturesFilter:store'' (session_set_property ?p ses)) = Some st"
    by (simp add: prop_ref_def)
  from write_into_store [OF this assms(4,5)] show ?thesis
    by (simp add: write_process_def shared_store_def assms)
qed

end
