(* ===== verification/Geom_Filters.thy ===== *)
theory Geom_Filters
  imports Wall_Extrusion Script_Filters
begin

text \<open>
  \<^verbatim>\<open>src/osgGIS/BuildGeomFilter.cpp\<close> and the processing of
  \<^verbatim>\<open>src/osgGIS/ExtrudeGeomFilter.cpp\<close>: features become fragments, lists of geometries with a
  name and attributes. Tessellation, normals, state sets and rasters are calls into OpenSceneGraph and
  into resources that read images: they are gathered in one record of arguments. A call on a null
  reference is \<open>None\<close>.
\<close>

record ('c, 'n) geometry =
  ge_verts :: "vec3 list"
  ge_colors :: "'c list"
  ge_prims :: "prim list"
  ge_tex :: "(real \<times> real) list option"
  ge_state :: "'n option"

record ('c, 'n) fragment =
  fr_drawables :: "('c, 'n) geometry list"
  fr_name :: string
  fr_attrs :: attr_table

record ('m, 'o, 'c, 'n, 'k, 'r) geom_lib =
  gl_color :: "'o property \<Rightarrow> 'c"
  gl_zero_color :: 'c
  gl_double :: "'o property \<Rightarrow> real \<Rightarrow> real"
  gl_tessellate :: "('c, 'n) geometry \<Rightarrow> ('c, 'n) geometry"
  gl_normals :: "('c, 'n) geometry \<Rightarrow> ('c, 'n) geometry"
  gl_attributes :: "'m srs feature \<Rightarrow> attribute list"
  gl_raster :: "string \<Rightarrow> 'r option"
  gl_apply :: "'r \<Rightarrow> 'm srs geoextent \<Rightarrow> int \<Rightarrow> string \<Rightarrow> 'n option"
  gl_add_skin :: "'n \<Rightarrow> 'o \<Rightarrow> 'o"
  gl_skin :: "string \<Rightarrow> 'k option"
  gl_skin_ref :: "'o property \<Rightarrow> 'k option"
  gl_skin_data :: "'k \<Rightarrow> skin"
  gl_state_set :: "'k \<Rightarrow> 'o \<Rightarrow> 'n option \<times> 'o"
  gl_untextured :: 'n

section \<open>Building geometry\<close>

record ('p, 'c) build_filter =
  bf_color :: 'c
  bf_color_script :: "'p option"
  bf_raster_script :: "'p option"
  bf_raster_max :: int
  bf_name_script :: "'p option"
  bf_batch :: bool
  bf_batch_color :: 'c

definition build_new :: "'c \<Rightarrow> ('p, 'c) build_filter" where
  "build_new white =
     \<lparr>bf_color = white, bf_color_script = None, bf_raster_script = None, bf_raster_max = 0,
      bf_name_script = None, bf_batch = False, bf_batch_color = white\<rparr>"

definition build_set_property ::
  "('s, 'o, 'p) script_host \<Rightarrow> 'o property \<Rightarrow> ('p, 'c) build_filter \<Rightarrow> ('p, 'c) build_filter option" where
  "build_set_property H p x =
     (if pname p = ''color'' then Some (x\<lparr>bf_color_script := Some (sh_script H (pvalue p))\<rparr>)
      else if pname p = ''raster_overlay'' then Some (x\<lparr>bf_raster_script := Some (sh_script H (pvalue p))\<rparr>)
      else if pname p = ''raster_overlay_max_size''
      then map_option (\<lambda>i. x\<lparr>bf_raster_max := i\<rparr>) (get_int_value p 0)
      else if pname p = ''feature_name'' then Some (x\<lparr>bf_name_script := Some (sh_script H (pvalue p))\<rparr>)
      else Some x)"

text \<open>
  The name script is handed to the constructor of a reference value, and not its code: \<open>ref\<close> is the
  script as a reference-counted object.
\<close>

definition build_properties ::
  "('s, 'o, 'p) script_host \<Rightarrow> ('p \<Rightarrow> 'o) \<Rightarrow> ('p, 'c) build_filter \<Rightarrow> 'o property list" where
  "build_properties H ref x =
     (case bf_color_script x of Some s \<Rightarrow> [prop_string ''color'' (sh_code H s)] | None \<Rightarrow> []) @
     (case bf_raster_script x of Some s \<Rightarrow> [prop_string ''raster_overlay'' (sh_code H s)] | None \<Rightarrow> []) @
     (if bf_raster_max x \<noteq> 0 then [prop_int ''raster_overlay_max_size'' (bf_raster_max x)] else []) @
     (case bf_name_script x of Some s \<Rightarrow> [prop_ref ''feature_name'' (Some (ref s))] | None \<Rightarrow> [])"

text \<open>A list of more than one feature takes one color, asked for without a feature.\<close>

definition build_begin ::
  "('s, 'o, 'p) script_host \<Rightarrow> ('m, 'o, 'c, 'n, 'k, 'r) geom_lib \<Rightarrow> ('p, 'c) build_filter \<Rightarrow> nat \<Rightarrow>
     ('s, 'o) filter_env \<Rightarrow> ('s, 'o) filter_env \<times> ('p, 'c) build_filter" where
  "build_begin H G x n e =
     (let x1 = x\<lparr>bf_batch := n > 1, bf_batch_color := bf_color x\<rparr>
      in case (if n > 1 then bf_color_script x else None) of
           None \<Rightarrow> (e, x1)
         | Some sc \<Rightarrow>
             (case sh_run H e sc None of
                Inr r \<Rightarrow> (e, x1\<lparr>bf_batch_color := gl_color G r\<rparr>)
              | Inl msg \<Rightarrow> (report_error H msg e, x1)))"

definition color_for_feature ::
  "('s, 'o, 'p) script_host \<Rightarrow> ('m, 'o, 'c, 'n, 'k, 'r) geom_lib \<Rightarrow> ('p, 'c) build_filter \<Rightarrow> 's feature \<Rightarrow>
     ('s, 'o) filter_env \<Rightarrow> 'c \<times> ('s, 'o) filter_env" where
  "color_for_feature H G x f e =
     (if bf_batch x then (bf_batch_color x, e)
      else case bf_color_script x of
             None \<Rightarrow> (bf_color x, e)
           | Some sc \<Rightarrow>
               (case sh_run H e sc (Some f) of
                  Inr r \<Rightarrow> (gl_color G r, e)
                | Inl msg \<Rightarrow> (bf_color x, report_error H msg e)))"

definition apply_name ::
  "('s, 'o, 'p) script_host \<Rightarrow> ('p, 'c) build_filter \<Rightarrow> 's feature \<Rightarrow> ('s, 'o) filter_env \<Rightarrow>
     ('c, 'n) fragment \<Rightarrow> ('c, 'n) fragment \<times> ('s, 'o) filter_env" where
  "apply_name H x f e fr =
     (case bf_name_script x of
        None \<Rightarrow> (fr, e)
      | Some sc \<Rightarrow>
          (case sh_run H e sc (Some f) of
             Inr r \<Rightarrow> (fr\<lparr>fr_name := pvalue r\<rparr>, e)
           | Inl msg \<Rightarrow> (fr, report_error H msg e)))"

definition shape_prim :: "shape_type \<Rightarrow> prim_type" where
  "shape_prim t = (if t = TYPE_POINT then POINTS else if t = TYPE_LINE then LINE_STRIP else LINE_LOOP)"

definition add_part_geometry ::
  "'c \<Rightarrow> prim_type \<Rightarrow> 's geopoint list \<Rightarrow> ('c, 'n) geometry \<Rightarrow> ('c, 'n) geometry" where
  "add_part_geometry color t part g =
     g\<lparr>ge_verts := ge_verts g @ map xyz part, ge_colors := ge_colors g @ map (\<lambda>_. color) part,
       ge_prims := ge_prims g @ [(t, length (ge_verts g), length part)]\<rparr>"

definition shape_geometry :: "'c \<Rightarrow> 's geoshape \<Rightarrow> ('c, 'n) geometry" where
  "shape_geometry color sh =
     foldl (\<lambda>g part. add_part_geometry color (shape_prim (shape_type sh)) part g)
       \<lparr>ge_verts = [], ge_colors = [], ge_prims = [], ge_tex = None, ge_state = None\<rparr> (parts sh)"

section \<open>Overlay textures\<close>

definition absolute :: "'m lib \<Rightarrow> 'm srs geopoint \<Rightarrow> 'm srs geopoint option" where
  "absolute L p = map_option (\<lambda>s. get_absolute L s p) (spatial_ref p)"

definition absolute_extent :: "'m lib \<Rightarrow> 'm srs geoextent \<Rightarrow> 'm srs geoextent option" where
  "absolute_extent L ex =
     do { p \<leftarrow> absolute L (sw ex); q \<leftarrow> absolute L (ne ex); Some (ext_of_points (ogr_vt L) p q) }"

definition texture_extent ::
  "'m lib \<Rightarrow> ('p, 'c) build_filter \<Rightarrow> 'm srs feature \<Rightarrow> ('m srs, 'o) filter_env \<Rightarrow> 'm srs geoextent option" where
  "texture_extent L x f e =
     (if bf_raster_script x \<noteq> None then absolute_extent L (fst (feature_get_extent (ogr_vt L) f))
      else Some (feature_extent e))"

definition geographic_extent :: "'m lib \<Rightarrow> 'm srs geoextent \<Rightarrow> 'm srs geoextent option" where
  "geographic_extent L ex =
     map_option (\<lambda>s. let g = get_geographic_srs L s
        in ext_of_points (ogr_vt L) (ogr_transform L g (sw ex)) (ogr_transform L g (ne ex))) (get_srs ex)"

definition srs_in_place :: "'m lib \<Rightarrow> 'm srs \<Rightarrow> 'm srs geopoint \<Rightarrow> 'm srs geopoint option" where
  "srs_in_place L s p =
     (case s of
        Ogr g \<Rightarrow> Some (snd (ogr_transform_in_place L g p))
      | Geocentric i b f ifr \<Rightarrow> geocentric_transform_in_place L i b f ifr p)"

definition overlay_coord ::
  "'m lib \<Rightarrow> 'm srs \<Rightarrow> 'm srs geoextent \<Rightarrow> 'm srs geoextent option \<Rightarrow> vec3 \<Rightarrow> (real \<times> real) option" where
  "overlay_coord L s ex geo v =
     (let p = get_absolute L s (point_of_vec v (Some s))
      in case geo of
           None \<Rightarrow> Some ((px p - get_xmin ex) / get_width ex, (py p - get_ymin ex) / get_height ex)
         | Some gx \<Rightarrow>
             do { gs \<leftarrow> get_srs gx;
                  q \<leftarrow> srs_in_place L gs p;
                  Some ((px q - get_xmin gx) / get_width ex, (py q - get_ymin gx) / get_height ex) })"

fun map_opt :: "('a \<Rightarrow> 'b option) \<Rightarrow> 'a list \<Rightarrow> 'b list option" where
  "map_opt f [] = Some []"
| "map_opt f (x # xs) = do { y \<leftarrow> f x; ys \<leftarrow> map_opt f xs; Some (y # ys) }"

definition overlay_coords ::
  "'m lib \<Rightarrow> 'm srs option \<Rightarrow> 'm srs geoextent \<Rightarrow> vec3 list \<Rightarrow> (real \<times> real) list option" where
  "overlay_coords L sr ex vs =
     do { s \<leftarrow> sr;
          geo \<leftarrow> (if is_geocentric s then map_option Some (geographic_extent L ex) else Some None);
          map_opt (overlay_coord L s ex geo) vs }"

definition overlay_image :: "'s feature \<Rightarrow> string" where
  "overlay_image f = ''rtex_'' @ show_int (foid f) @ ''.jpg''"

text \<open>With a script the raster of the feature is applied as well.\<close>

definition overlay_raster ::
  "('m srs, 'o, 'p) script_host \<Rightarrow> ('m, 'o, 'c, 'n, 'k, 'r) geom_lib \<Rightarrow> ('p, 'c) build_filter \<Rightarrow> 'm srs feature \<Rightarrow>
     'm srs geoextent \<Rightarrow> ('m srs, 'o) filter_env \<Rightarrow> ('c, 'n) geometry \<Rightarrow> ('c, 'n) geometry \<times> ('m srs, 'o) filter_env" where
  "overlay_raster H G x f ex e g =
     (case bf_raster_script x of
        None \<Rightarrow> (g, e)
      | Some sc \<Rightarrow>
          (case sh_run H e sc (Some f) of
             Inl msg \<Rightarrow> (g, report_error H msg e)
           | Inr r \<Rightarrow>
               (case Option.bind (gl_raster G (pvalue r)) (\<lambda>q. gl_apply G q ex (bf_raster_max x) (overlay_image f)) of
                  None \<Rightarrow> (g, e)
                | Some n \<Rightarrow> (g\<lparr>ge_state := Some n\<rparr>, e\<lparr>resource_cache := gl_add_skin G n (resource_cache e)\<rparr>))))"

definition apply_overlay ::
  "'m lib \<Rightarrow> ('m srs, 'o, 'p) script_host \<Rightarrow> ('m, 'o, 'c, 'n, 'k, 'r) geom_lib \<Rightarrow> ('p, 'c) build_filter \<Rightarrow>
     'm srs feature \<Rightarrow> ('m srs, 'o) filter_env \<Rightarrow> ('c, 'n) geometry \<Rightarrow>
     (('c, 'n) geometry \<times> ('m srs, 'o) filter_env) option" where
  "apply_overlay L H G x f e g =
     do { ex \<leftarrow> texture_extent L x f e;
          tex \<leftarrow> overlay_coords L (in_srs e) ex (ge_verts g);
          Some (overlay_raster H G x f ex e (g\<lparr>ge_tex := Some tex\<rparr>)) }"

section \<open>A feature becomes a fragment\<close>

text \<open>
  Once a polygon has been seen all the shapes after it are tessellated, whatever their type. The
  filter is for features of one type.
\<close>

fun build_shapes ::
  "'m lib \<Rightarrow> ('m srs, 'o, 'p) script_host \<Rightarrow> ('m, 'o, 'c, 'n, 'k, 'r) geom_lib \<Rightarrow> ('p, 'c) build_filter \<Rightarrow>
     'm srs feature \<Rightarrow> 'c \<Rightarrow> bool \<Rightarrow> 'm srs geoshape list \<Rightarrow> ('m srs, 'o) filter_env \<Rightarrow>
     (('c, 'n) geometry list \<times> ('m srs, 'o) filter_env) option" where
  "build_shapes L H G x f color tess [] e = Some ([], e)"
| "build_shapes L H G x f color tess (sh # shs) e =
     (let tess1 = (tess \<or> shape_type sh = TYPE_POLYGON); g = shape_geometry color sh
      in do { (g1, e1) \<leftarrow> (if tess1 then apply_overlay L H G x f e (gl_tessellate G g) else Some (g, e));
              (gs, e2) \<leftarrow> build_shapes L H G x f color tess1 shs e1;
              Some (gl_normals G g1 # gs, e2) })"

definition build_feature ::
  "'m lib \<Rightarrow> ('m srs, 'o, 'p) script_host \<Rightarrow> ('m, 'o, 'c, 'n, 'k, 'r) geom_lib \<Rightarrow> ('p, 'c) build_filter \<Rightarrow>
     'm srs feature \<Rightarrow> ('m srs, 'o) filter_env \<Rightarrow> (('c, 'n) fragment list \<times> ('m srs, 'o) filter_env) option" where
  "build_feature L H G x f e =
     (case color_for_feature H G x f e of (color, e1) \<Rightarrow>
        do { (gs, e2) \<leftarrow> build_shapes L H G x f color False (fshapes f) e1;
             let (fr, e3) = apply_name H x f e2
               \<lparr>fr_drawables = gs, fr_name = [], fr_attrs = foldl table_set [] (gl_attributes G f)\<rparr>
             in Some ([fr], e3) })"

text \<open>The loop over the features of the base class, for an operation that may fail.\<close>

fun each_feature ::
  "('s feature \<Rightarrow> ('s, 'o) filter_env \<Rightarrow> ('b list \<times> ('s, 'o) filter_env) option) \<Rightarrow> 's feature list \<Rightarrow>
     ('s, 'o) filter_env \<Rightarrow> ('b list \<times> ('s, 'o) filter_env) option" where
  "each_feature P [] e = Some ([], e)"
| "each_feature P (f # fs) e =
     do { (a, e1) \<leftarrow> P f e; (b, e2) \<leftarrow> each_feature P fs e1; Some (a @ b, e2) }"

definition build_process ::
  "'m lib \<Rightarrow> ('m srs, 'o, 'p) script_host \<Rightarrow> ('m, 'o, 'c, 'n, 'k, 'r) geom_lib \<Rightarrow> ('p, 'c) build_filter \<Rightarrow>
     'm srs feature list \<Rightarrow> ('m srs, 'o) filter_env \<Rightarrow>
     (('c, 'n) fragment list \<times> ('m srs, 'o) filter_env \<times> ('p, 'c) build_filter) option" where
  "build_process L H G x fs e =
     (case build_begin H G x (length fs) e of (e1, x1) \<Rightarrow>
        map_option (\<lambda>(frs, e2). (frs, e2, x1)) (each_feature (build_feature L H G x1) fs e1))"

section \<open>Extruding\<close>

record ('p, 'c, 'k) extrude_filter =
  xf_build :: "('p, 'c) build_filter"
  xf_height_script :: "'p option"
  xf_skin_script :: "'p option"
  xf_uniform :: bool
  xf_batch_skin :: "'k option"

definition extrude_new :: "'c \<Rightarrow> ('p, 'c, 'k) extrude_filter" where
  "extrude_new white =
     \<lparr>xf_build = build_new white, xf_height_script = None, xf_skin_script = None, xf_uniform = True,
      xf_batch_skin = None\<rparr>"

definition extrude_set_property ::
  "('s, 'o, 'p) script_host \<Rightarrow> 'o property \<Rightarrow> ('p, 'c, 'k) extrude_filter \<Rightarrow> ('p, 'c, 'k) extrude_filter option" where
  "extrude_set_property H p x =
     (let x1 = (if pname p = ''height'' then x\<lparr>xf_height_script := Some (sh_script H (pvalue p))\<rparr>
                else if pname p = ''wall_skin'' then x\<lparr>xf_skin_script := Some (sh_script H (pvalue p))\<rparr>
                else if pname p = ''uniform_height'' then x\<lparr>xf_uniform := get_bool_value p (xf_uniform x)\<rparr>
                else x)
      in map_option (\<lambda>b. x1\<lparr>xf_build := b\<rparr>) (build_set_property H p (xf_build x1)))"

definition extrude_properties ::
  "('s, 'o, 'p) script_host \<Rightarrow> ('p \<Rightarrow> 'o) \<Rightarrow> ('p, 'c, 'k) extrude_filter \<Rightarrow> 'o property list" where
  "extrude_properties H ref x =
     build_properties H ref (xf_build x) @
     (case xf_height_script x of Some s \<Rightarrow> [prop_string ''height'' (sh_code H s)] | None \<Rightarrow> []) @
     (case xf_skin_script x of Some s \<Rightarrow> [prop_string ''wall_skin'' (sh_code H s)] | None \<Rightarrow> []) @
     (if \<not> xf_uniform x then [prop_bool ''uniform_height'' (xf_uniform x)] else [])"

definition wall_skin_for_feature ::
  "('s, 'o, 'p) script_host \<Rightarrow> ('m, 'o, 'c, 'n, 'k, 'r) geom_lib \<Rightarrow> ('p, 'c, 'k) extrude_filter \<Rightarrow> 's feature \<Rightarrow>
     ('s, 'o) filter_env \<Rightarrow> 'k option \<times> ('s, 'o) filter_env" where
  "wall_skin_for_feature H G x f e =
     (case xf_batch_skin x of
        Some k \<Rightarrow> (Some k, e)
      | None \<Rightarrow>
          (case xf_skin_script x of
             None \<Rightarrow> (None, e)
           | Some sc \<Rightarrow>
               (case sh_run H e sc (Some f) of
                  Inr r \<Rightarrow> (gl_skin G (pvalue r), e)
                | Inl msg \<Rightarrow> (None, report_error H msg e))))"

definition feature_height ::
  "('s, 'o, 'p) script_host \<Rightarrow> ('m, 'o, 'c, 'n, 'k, 'r) geom_lib \<Rightarrow> ('p, 'c, 'k) extrude_filter \<Rightarrow> 's feature \<Rightarrow>
     ('s, 'o) filter_env \<Rightarrow> real \<times> ('s, 'o) filter_env" where
  "feature_height H G x f e =
     (case xf_height_script x of
        None \<Rightarrow> (0, e)
      | Some sc \<Rightarrow>
          (case sh_run H e sc (Some f) of
             Inr r \<Rightarrow> (gl_double G r 0, e)
           | Inl msg \<Rightarrow> (0, report_error H msg e)))"

definition wall_geometry :: "'c extrusion \<Rightarrow> ('c, 'n) geometry" where
  "wall_geometry x =
     \<lparr>ge_verts = map v_pos (fst (ex_wall x)), ge_colors = map v_color (fst (ex_wall x)), ge_prims = ex_wall_prims x,
      ge_tex = Some (map v_tex (fst (ex_wall x))), ge_state = None\<rparr>"

definition roof_geometry :: "'c extrusion \<Rightarrow> ('c, 'n) geometry option" where
  "roof_geometry x =
     map_option (\<lambda>s. \<lparr>ge_verts = map fst (fst s), ge_colors = map snd (fst s), ge_prims = ex_top_prims x,
        ge_tex = None, ge_state = None\<rparr>) (ex_top x)"

definition skin_walls ::
  "('m, 'o, 'c, 'n, 'k, 'r) geom_lib \<Rightarrow> 'k option \<Rightarrow> ('s, 'o) filter_env \<Rightarrow> ('c, 'n) geometry \<Rightarrow>
     ('c, 'n) geometry \<times> ('s, 'o) filter_env" where
  "skin_walls G sk e g =
     (case sk of
        None \<Rightarrow> (g\<lparr>ge_state := Some (gl_untextured G)\<rparr>, e)
      | Some k \<Rightarrow>
          (case gl_state_set G k (resource_cache e) of
             (n, c) \<Rightarrow> (case n of Some t \<Rightarrow> g\<lparr>ge_state := Some t\<rparr> | None \<Rightarrow> g, e\<lparr>resource_cache := c\<rparr>)))"

definition open_shape :: "'s srs_vt \<Rightarrow> 's geoshape \<Rightarrow> 's geoshape" where
  "open_shape V sh =
     (if shape_type sh = TYPE_POLYGON then modify_parts sh (map (open_polygon V)) else sh)"

definition extrude_shape ::
  "'m lib \<Rightarrow> ('m srs, 'o, 'p) script_host \<Rightarrow> ('m, 'o, 'c, 'n, 'k, 'r) geom_lib \<Rightarrow> ('p, 'c, 'k) extrude_filter \<Rightarrow>
     'c \<Rightarrow> 'k option \<Rightarrow> real \<Rightarrow> 'm srs geoshape \<Rightarrow> 'm srs feature \<Rightarrow> ('m srs, 'o) filter_env \<Rightarrow>
     (('c, 'n) fragment \<times> ('m srs, 'o) filter_env) option" where
  "extrude_shape L H G x color sk height sh f e =
     do { ex \<leftarrow> extrude_walls_up (ogr_vt L) L (gl_zero_color G) sh (in_srs e)
            (wall_style height (xf_uniform x) color (map_option (gl_skin_data G) sk)) (shape_type sh = TYPE_POLYGON) False;
          let (walls, e1) = skin_walls G sk e (wall_geometry ex)
          in do { (roofs, e2) \<leftarrow> (case roof_geometry ex of
                       None \<Rightarrow> Some ([], e1)
                     | Some g \<Rightarrow> map_option (\<lambda>(g1, e2). ([g1], e2))
                         (apply_overlay L H G (xf_build x) f e1 (gl_normals G (gl_tessellate G g))));
                  Some (apply_name H (xf_build x) f e2
                    \<lparr>fr_drawables = gl_normals G walls # roofs, fr_name = [], fr_attrs = []\<rparr>) } }"

text \<open>
  The loop over the shapes. Height and skin are asked for each shape; opening a polygon changes the
  feature, which the scripts of the later shapes see.
\<close>

fun extrude_shapes ::
  "'m lib \<Rightarrow> ('m srs, 'o, 'p) script_host \<Rightarrow> ('m, 'o, 'c, 'n, 'k, 'r) geom_lib \<Rightarrow> ('p, 'c, 'k) extrude_filter \<Rightarrow>
     'c \<Rightarrow> 'm srs geoshape list \<Rightarrow> 'm srs geoshape list \<Rightarrow> 'm srs feature \<Rightarrow> ('m srs, 'o) filter_env \<Rightarrow>
     (('c, 'n) fragment list \<times> ('m srs, 'o) filter_env) option" where
  "extrude_shapes L H G x color seen [] f e = Some ([], e)"
| "extrude_shapes L H G x color seen (sh # shs) f e =
     (let f0 = modify_shapes f (\<lambda>_. seen @ sh # shs);
          (height, e1) = feature_height H G x f0 e;
          (sk, e2) = wall_skin_for_feature H G x f0 e1;
          sh1 = open_shape (ogr_vt L) sh;
          f1 = modify_shapes f0 (\<lambda>_. seen @ sh1 # shs)
      in do { (fr, e3) \<leftarrow> extrude_shape L H G x color sk height sh1 f1 e2;
              (frs, e4) \<leftarrow> extrude_shapes L H G x color (seen @ [sh1]) shs f1 e3;
              Some (fr # frs, e4) })"

text \<open>The extent in the reference without a frame is computed, and not used.\<close>

definition extrude_feature ::
  "'m lib \<Rightarrow> ('m srs, 'o, 'p) script_host \<Rightarrow> ('m, 'o, 'c, 'n, 'k, 'r) geom_lib \<Rightarrow> ('p, 'c, 'k) extrude_filter \<Rightarrow>
     'm srs feature \<Rightarrow> ('m srs, 'o) filter_env \<Rightarrow> (('c, 'n) fragment list \<times> ('m srs, 'o) filter_env) option" where
  "extrude_feature L H G x f e =
     do { _ \<leftarrow> absolute_extent L (fst (feature_get_extent (ogr_vt L) f));
          let (color, e1) = color_for_feature H G (xf_build x) f e
          in extrude_shapes L H G x color [] (fshapes f) f e1 }"

definition extrude_begin ::
  "('s, 'o, 'p) script_host \<Rightarrow> ('m, 'o, 'c, 'n, 'k, 'r) geom_lib \<Rightarrow> ('p, 'c, 'k) extrude_filter \<Rightarrow> nat \<Rightarrow>
     ('s, 'o) filter_env \<Rightarrow> ('s, 'o) filter_env \<times> ('p, 'c, 'k) extrude_filter" where
  "extrude_begin H G x n e =
     (let x1 = x\<lparr>xf_batch_skin := None\<rparr>;
          (e1, x2) = (case (if n > 1 then xf_skin_script x else None) of
             None \<Rightarrow> (e, x1)
           | Some sc \<Rightarrow>
               (case sh_run H e sc None of
                  Inr r \<Rightarrow> (e, x1\<lparr>xf_batch_skin := gl_skin_ref G r\<rparr>)
                | Inl msg \<Rightarrow> (report_error H msg e, x1)));
          (e2, b) = build_begin H G (xf_build x2) n e1
      in (e2, x2\<lparr>xf_build := b\<rparr>))"

definition extrude_process ::
  "'m lib \<Rightarrow> ('m srs, 'o, 'p) script_host \<Rightarrow> ('m, 'o, 'c, 'n, 'k, 'r) geom_lib \<Rightarrow> ('p, 'c, 'k) extrude_filter \<Rightarrow>
     'm srs feature list \<Rightarrow> ('m srs, 'o) filter_env \<Rightarrow>
     (('c, 'n) fragment list \<times> ('m srs, 'o) filter_env \<times> ('p, 'c, 'k) extrude_filter) option" where
  "extrude_process L H G x fs e =
     (case extrude_begin H G x (length fs) e of (e1, x1) \<Rightarrow>
        map_option (\<lambda>(frs, e2). (frs, e2, x1)) (each_feature (extrude_feature L H G x1) fs e1))"

section \<open>Facts\<close>

text \<open>The geometry of a shape: its points in order, and one primitive for each part.\<close>

lemma geometry_fold:
  fixes g :: "('c, 'n) geometry" and t color ps
  defines "r \<equiv> foldl (\<lambda>g part. add_part_geometry color t part g) g ps"
  shows "ge_verts r = ge_verts g @ map xyz (concat ps)"
    and "ge_colors r = ge_colors g @ replicate (length (concat ps)) color"
    and "ge_prims r = ge_prims g @ prim_runs t (length (ge_verts g)) (map length ps)"
  unfolding r_def
  by (induction ps arbitrary: g)
    (simp_all add: add_part_geometry_def map_replicate_const replicate_add [symmetric])

lemma shape_geometry_fields:
  "ge_verts (shape_geometry color sh) = map xyz (concat (parts sh))"
  "ge_colors (shape_geometry color sh) = replicate (length (concat (parts sh))) color"
  "ge_prims (shape_geometry color sh) = prim_runs (shape_prim (shape_type sh)) 0 (map length (parts sh))"
  by (simp_all add: shape_geometry_def geometry_fold)

text \<open>Extruding gives one fragment for each shape, and the environment keeps its references.\<close>

lemma script_env:
  "in_srs (report_error H m e) = in_srs e" "out_srs (report_error H m e) = out_srs e"
  "feature_extent (report_error H m e) = feature_extent e"
  by (simp_all add: report_error_def)

lemma extrude_shapes_length:
  "extrude_shapes L H G x color seen shs f e = Some (frs, e1) \<Longrightarrow> length frs = length shs"
proof (induction shs arbitrary: seen f e frs)
  case (Cons sh shs)
  then show ?case
    by (auto simp: Let_def bind_eq_Some_conv split: prod.splits)
qed simp

lemma each_feature_length:
  assumes "\<And>f e out e1. P f e = Some (out, e1) \<Longrightarrow> length out = n f"
  shows "each_feature P fs e = Some (out, e1) \<Longrightarrow> length out = sum_list (map n fs)"
proof (induction fs arbitrary: e out)
  case (Cons f fs)
  then show ?case by (auto simp: bind_eq_Some_conv split: prod.splits dest: assms)
qed simp

lemma extrude_process_length:
  assumes "extrude_process L H G x fs e = Some (frs, e1, x1)"
  shows "length frs = sum_list (map (\<lambda>f. length (fshapes f)) fs)"
proof -
  have one: "length out = length (fshapes f)" if "extrude_feature L H G y f e' = Some (out, e'')" for y f e' out e''
    using that by (auto simp: extrude_feature_def bind_eq_Some_conv Let_def split: prod.splits dest: extrude_shapes_length)
  from assms obtain y e0 where "each_feature (extrude_feature L H G y) fs e0 = Some (frs, e1)"
    by (auto simp: extrude_process_def split: prod.splits)
  from each_feature_length [OF one this] show ?thesis .
qed

text \<open>Settings: all are read back, except the script for the names, which becomes an empty one.\<close>

lemma name_script_lost:
  "bf_name_script x = Some s \<Longrightarrow>
     last (build_properties H ref x) = prop_ref ''feature_name'' (Some (ref s)) \<and>
     build_set_property H (last (build_properties H ref x)) y = Some (y\<lparr>bf_name_script := Some (sh_script H [])\<rparr>)"
  by (simp add: build_properties_def build_set_property_def prop_ref_def normalize_def replace_char_def)

end
