(* ===== verification/Srs_Shapes.thy ===== *)
theory Srs_Shapes
  imports Ogr_Srs
begin

text \<open>
  The transformation of whole shapes and extents in
  \<^verbatim>\<open>src/osgGIS/OGR_SpatialReference.cpp\<close> and
  \<^verbatim>\<open>src/osgGIS/GeocentricSpatialReference.cpp\<close>. They visit every point of a shape;
  \<open>shape_agrees_with_points\<close> compares this with the transformation of the single points, which is
  written a second time. A null reference, and a geocentric one that is used as if it were one of OGR,
  are \<open>None\<close>.
\<close>

section \<open>References of OGR\<close>

definition xform_visitor ::
  "'m lib \<Rightarrow> 'm ogr_srs \<Rightarrow> 'm \<Rightarrow> (vec3 \<Rightarrow> bool \<times> vec3) option \<Rightarrow> (unit, 'm srs) point_visitor" where
  "xform_visitor L this source_frame xform u p =
     (let p1 = set_vec p (mat_mult L (xyz p) source_frame);
          (ok, p2) = (case xform of
             None \<Rightarrow> (True, p1)
           | Some f \<Rightarrow> (let (ok, v) = f (xyz p1) in (ok, set_vec p1 v)));
          p3 = set_vec p2 (mat_mult L (xyz p2) (ref_frame this))
      in (u, if dim p3 = 2 then geopoint_2d (px p3) (py p3) (Some (Ogr this))
             else geopoint_3d (px p3) (py p3) (pz p3) (Some (Ogr this)), ok))"

definition ogr_shape_in_place ::
  "'m lib \<Rightarrow> 'm ogr_srs \<Rightarrow> 'm srs geoshape \<Rightarrow> (bool \<times> 'm srs geoshape) option" where
  "ogr_shape_in_place L this sh =
     (if handle this = None then Some (False, sh)
      else case srs sh of
        Some (Ogr r) \<Rightarrow>
          (case test_equivalence this r of (crs_equiv, mat_equiv) \<Rightarrow>
             if crs_equiv \<and> mat_equiv then Some (True, sh)
             else case (if crs_equiv then Some None else map_option Some (oct L (handle r) (handle this))) of
                 None \<Rightarrow> Some (False, sh)
               | Some xform \<Rightarrow>
                   (case shape_accept (xform_visitor L this (inv_ref_frame r) xform) () sh of
                      (_, sh1, ok) \<Rightarrow> Some (ok, if ok then set_spatial_reference sh1 (Some (Ogr this)) else sh1)))
      | _ \<Rightarrow> None)"

text \<open>On failure the copy is dropped and the input returned.\<close>

definition ogr_transform_shape :: "'m lib \<Rightarrow> 'm ogr_srs \<Rightarrow> 'm srs geoshape \<Rightarrow> 'm srs geoshape option" where
  "ogr_transform_shape L this sh =
     map_option (\<lambda>(ok, sh1). if ok then sh1 else sh) (ogr_shape_in_place L this sh)"

section \<open>Geocentric references\<close>

definition geocentric_visitor ::
  "'m lib \<Rightarrow> nat \<Rightarrow> 'm ogr_srs \<Rightarrow> 'm \<Rightarrow> 'm \<Rightarrow> (unit, 'm srs) point_visitor" where
  "geocentric_visitor L i b f ifr u p =
     (u, case geocentric_transform_in_place L i b f ifr p of Some q \<Rightarrow> q | None \<Rightarrow> p, True)"

text \<open>The visit goes on to the end, so every point has to have a reference.\<close>

definition geocentric_shape_in_place ::
  "'m lib \<Rightarrow> nat \<Rightarrow> 'm ogr_srs \<Rightarrow> 'm \<Rightarrow> 'm \<Rightarrow> 'm srs geoshape \<Rightarrow> (bool \<times> 'm srs geoshape) option" where
  "geocentric_shape_in_place L i b f ifr sh =
     (if list_ex (list_ex (\<lambda>p. spatial_ref p = None)) (parts sh) then None
      else case shape_accept (geocentric_visitor L i b f ifr) () sh of
        (_, sh1, ok) \<Rightarrow> Some (ok, set_spatial_reference sh1 (Some (Geocentric i b f ifr))))"

definition geocentric_transform_extent ::
  "'m lib \<Rightarrow> nat \<Rightarrow> 'm ogr_srs \<Rightarrow> 'm \<Rightarrow> 'm \<Rightarrow> 'm srs geoextent \<Rightarrow> 'm srs geoextent option" where
  "geocentric_transform_extent L i b f ifr ex =
     do { p \<leftarrow> geocentric_transform_in_place L i b f ifr (sw ex);
          q \<leftarrow> geocentric_transform_in_place L i b f ifr (ne ex);
          Some (ext_of_points (ogr_vt L) p q) }"

fun srs_shape_in_place :: "'m lib \<Rightarrow> 'm srs \<Rightarrow> 'm srs geoshape \<Rightarrow> (bool \<times> 'm srs geoshape) option" where
  "srs_shape_in_place L (Ogr g) sh = ogr_shape_in_place L g sh"
| "srs_shape_in_place L (Geocentric i b f ifr) sh = geocentric_shape_in_place L i b f ifr sh"

section \<open>Shapes and points agree\<close>

text \<open>A visit in which no point fails rewrites every point.\<close>

lemma visit_part_succeeds:
  "(\<And>p. p \<in> set ps \<Longrightarrow> g () p = ((), h p, True)) \<Longrightarrow> visit_part g () ps = ((), map h ps, True)"
  by (induction ps) simp_all

lemma visit_parts_succeeds:
  assumes "\<And>p. p \<in> set (concat pss) \<Longrightarrow> g () p = ((), h p, True)"
  shows "visit_parts g () pss = ((), map (map h) pss, True)"
  using assms
proof (induction pss)
  case (Cons ps pss)
  have "visit_part g () ps = ((), map h ps, True)"
    by (rule visit_part_succeeds) (use Cons.prems in auto)
  with Cons show ?case by simp
qed simp

lemma set_vec_xyz: "xyz (set_vec p v) = v" "set_vec p (xyz p) = p" "dim (set_vec p v) = dim p"
  by (simp_all add: set_vec_def xyz_def set_xyz_def split: prod.split)

lemma point_of_coordinates:
  "dim p = 3 \<Longrightarrow> geopoint_3d (px p) (py p) (pz p) (Some s) = apply_to s p"
  by (simp add: geopoint_3d_def apply_to_def)

text \<open>
  One point, when a frame that both references share changes nothing: the two versions of the code
  agree. They do not when a shared frame moves points, see \<open>shared_frame_is_kept\<close>.
\<close>

lemma visitor_is_transform:
  assumes "handle this \<noteq> None" and "point_valid p" and "spatial_ref p = Some (Ogr r)" and "dim p = 3"
    and eq: "test_equivalence this r = (c, m)"
    and frames: "m \<longrightarrow> (\<forall>v. mat_mult L v (inv_ref_frame r) = v \<and> mat_mult L v (ref_frame this) = v)"
    and xf: "(if c then Some None else map_option Some (oct L (handle r) (handle this))) = Some xform"
    and fine: "fst (ogr_transform_in_place L this p)"
  shows "xform_visitor L this (inv_ref_frame r) xform () p = ((), snd (ogr_transform_in_place L this p), True)"
proof -
  let ?p2 = "set_vec p (mat_mult L (xyz p) (inv_ref_frame r))"
  obtain k where k: "handle this = Some k" using assms(1) by (cases "handle this") simp_all
  have still: "m \<Longrightarrow> mat_mult L v (inv_ref_frame r) = v" "m \<Longrightarrow> mat_mult L v (ref_frame this) = v" for v
    using frames by blast+
  have p2: "(if m then p else ?p2) = ?p2" by (cases m) (simp_all add: still set_vec_xyz)
  have out: "(if m then q else set_vec q (mat_mult L (xyz q) (ref_frame this))) =
      set_vec q (mat_mult L (xyz q) (ref_frame this))" for q :: "'a srs geopoint"
    by (cases m) (simp_all add: still set_vec_xyz)
  have dims: "dim (set_vec (set_vec p v) w) = 3" "dim (set_vec (set_vec (set_vec p v) w) u) = 3" for v w u
    by (simp_all add: set_vec_xyz assms(4))
  show ?thesis
  proof (cases c)
    case True
    then have "ogr_transform_in_place L this p =
        (True, apply_to (Ogr this) (set_vec ?p2 (mat_mult L (xyz ?p2) (ref_frame this))))"
      using assms(2,3) by (simp add: k ogr_transform_in_place_def eq p2 out Let_def)
    with xf True show ?thesis
      by (simp add: xform_visitor_def Let_def dims point_of_coordinates)
  next
    case False
    with xf obtain f where f: "oct L (handle r) (handle this) = Some f" "xform = Some f" by auto
    obtain ok v where v: "f (xyz ?p2) = (ok, v)" by (cases "f (xyz ?p2)") blast
    let ?p4 = "set_vec (set_vec ?p2 v) (mat_mult L (xyz (set_vec ?p2 v)) (ref_frame this))"
    have "ogr_transform_in_place L this p = (ok, if ok then apply_to (Ogr this) ?p4 else ?p4)"
      using assms(2,3) False by (simp add: k ogr_transform_in_place_def eq p2 out f(1) [unfolded k] v Let_def)
    with fine f v show ?thesis by (simp add: xform_visitor_def Let_def dims point_of_coordinates)
  qed
qed

lemma shape_agrees_with_points:
  assumes "handle this \<noteq> None" and "srs sh = Some (Ogr r)" and eq: "test_equivalence this r = (c, m)" and "\<not> (c \<and> m)"
    and frames: "m \<longrightarrow> (\<forall>v. mat_mult L v (inv_ref_frame r) = v \<and> mat_mult L v (ref_frame this) = v)"
    and exists: "c \<or> oct L (handle r) (handle this) \<noteq> None"
    and pts: "\<forall>p \<in> set (concat (parts sh)). point_valid p \<and> spatial_ref p = Some (Ogr r) \<and> dim p = 3 \<and>
      fst (ogr_transform_in_place L this p)"
  shows "ogr_shape_in_place L this sh =
    Some (True, sh\<lparr>extent_cache := ext_invalid, srs := Some (Ogr this),
      parts := map (map (ogr_transform L this)) (parts sh)\<rparr>)"
proof -
  obtain xform where xf: "(if c then Some None else map_option Some (oct L (handle r) (handle this))) = Some xform"
    using exists by (cases c) auto
  have "xform_visitor L this (inv_ref_frame r) xform () p = ((), ogr_transform L this p, True)"
    if "p \<in> set (concat (parts sh))" for p
  proof -
    have p: "point_valid p" "spatial_ref p = Some (Ogr r)" "dim p = 3" "fst (ogr_transform_in_place L this p)"
      using pts that by blast+
    then have "ogr_transform L this p = snd (ogr_transform_in_place L this p)"
      by (cases "ogr_transform_in_place L this p") (simp add: ogr_transform_def)
    with visitor_is_transform [OF assms(1) p(1-3) eq frames xf p(4)] show ?thesis by simp
  qed
  then have "visit_parts (xform_visitor L this (inv_ref_frame r) xform) () (parts sh) =
      ((), map (map (ogr_transform L this)) (parts sh), True)" by (rule visit_parts_succeeds)
  then have "shape_accept (xform_visitor L this (inv_ref_frame r) xform) () sh =
      ((), sh\<lparr>extent_cache := ext_invalid, parts := map (map (ogr_transform L this)) (parts sh)\<rparr>, True)"
    by (simp add: shape_accept_def)
  moreover have "(c \<and> m) = False" using assms(4) by simp
  ultimately show ?thesis
    by (simp only: ogr_shape_in_place_def assms(1,2) if_False option.case srs.case eq prod.case xf if_True)
      (simp add: set_spatial_reference_def)
qed

text \<open>
  A frame that both references have is not removed from a point before it is projected, but it is
  removed from the points of a shape.
\<close>

lemma shared_frame_is_kept:
  assumes "handle this \<noteq> None" and "point_valid p" and "spatial_ref p = Some (Ogr r)"
    and "test_equivalence this r = (False, True)" and "oct L (handle r) (handle this) = Some f"
  shows "fst (ogr_transform_in_place L this p) = fst (f (xyz p))"
    and "snd (snd (xform_visitor L this (inv_ref_frame r) (Some f) () p)) = fst (f (mat_mult L (xyz p) (inv_ref_frame r)))"
proof -
  show "fst (ogr_transform_in_place L this p) = fst (f (xyz p))"
    using assms by (cases "f (xyz p)"; cases "handle this") (simp_all add: ogr_transform_in_place_def Let_def)
  show "snd (snd (xform_visitor L this (inv_ref_frame r) (Some f) () p)) = fst (f (mat_mult L (xyz p) (inv_ref_frame r)))"
    by (cases "f (mat_mult L (xyz p) (inv_ref_frame r))") (simp add: xform_visitor_def set_vec_xyz Let_def)
qed

text \<open>Without a reference, or with a geocentric one, the shape cannot be brought into one of OGR.\<close>

lemma geocentric_shape_undefined:
  "handle this \<noteq> None \<Longrightarrow> srs sh = Some (Geocentric i b f ifr) \<Longrightarrow> ogr_shape_in_place L this sh = None"
  by (simp add: ogr_shape_in_place_def)

lemma geocentric_shape_points:
  assumes "\<forall>p \<in> set (concat (parts sh)). spatial_ref p \<noteq> None"
  shows "\<exists>sh1. geocentric_shape_in_place L i b f ifr sh = Some (True, sh1) \<and> srs sh1 = Some (Geocentric i b f ifr) \<and>
    parts sh1 = map (map (srs_transform L (Geocentric i b f ifr))) (parts sh)"
proof -
  have "geocentric_visitor L i b f ifr () p = ((), srs_transform L (Geocentric i b f ifr) p, True)"
    if pin: "p \<in> set (concat (parts sh))" for p
  proof -
    obtain s where s: "spatial_ref p = Some s" using bspec [OF assms pin] by (cases "spatial_ref p") simp_all
    have "\<exists>q. geocentric_transform_in_place L i b f ifr p = Some q"
      unfolding geocentric_transform_in_place_def s option.case Let_def by (rule exI) (rule refl)
    then show ?thesis by (auto simp: geocentric_visitor_def)
  qed
  then have "visit_parts (geocentric_visitor L i b f ifr) () (parts sh) =
      ((), map (map (srs_transform L (Geocentric i b f ifr))) (parts sh), True)" by (rule visit_parts_succeeds)
  moreover have "\<not> list_ex (list_ex (\<lambda>p. spatial_ref p = None)) (parts sh)" using assms by (auto simp: list_ex_iff)
  ultimately show ?thesis
    by (simp add: geocentric_shape_in_place_def shape_accept_def set_spatial_reference_def del: srs_transform.simps)
qed

end
