(* ===== verification/Store_Sample.thy ===== *)
theory Store_Sample
  imports Samples Feature_Store Geom_Filters Srs_Shapes
begin

text \<open>
  Values for the witnesses on stores and extrusion: geometries as trees, which OGR could keep them in,
  and a square house.
\<close>

datatype geom_tree = Geom_Tree wkb_type "(real \<times> real \<times> real) list" "geom_tree list"

definition tree_writer :: "geom_tree geom_writer" where
  "tree_writer =
     \<lparr>gw_create = (\<lambda>t. Some (case t of Wkb w \<Rightarrow> Geom_Tree w [] [] | WkbLinearRing \<Rightarrow> Geom_Tree wkbLineString [] []
        | WkbNone \<Rightarrow> Geom_Tree wkbOther [] [])),
      gw_add_point = (\<lambda>g v. case g of Geom_Tree w ps gs \<Rightarrow> Geom_Tree w (ps @ [v]) gs),
      gw_add_point_2d = (\<lambda>g (x, y). case g of Geom_Tree w ps gs \<Rightarrow> Geom_Tree w (ps @ [(x, y, 0)]) gs),
      gw_add = (\<lambda>g q. case g of Geom_Tree w ps gs \<Rightarrow> Geom_Tree w ps (gs @ [q]))\<rparr>"

definition tree_points :: "geom_tree option \<Rightarrow> (real \<times> real \<times> real) list" where
  "tree_points g = (case g of Some (Geom_Tree w ps gs) \<Rightarrow> ps | None \<Rightarrow> [])"

definition tree_parts :: "geom_tree option \<Rightarrow> geom_tree list" where
  "tree_parts g = (case g of Some (Geom_Tree w ps gs) \<Rightarrow> gs | None \<Rightarrow> [])"

definition tree_type :: "geom_tree \<Rightarrow> wkb_type" where
  "tree_type g = (case g of Geom_Tree w ps gs \<Rightarrow> w)"

text \<open>A feature is its geometry, and has no fields.\<close>

definition tree_reader :: "geom_tree ogr_api" where
  "tree_reader =
     \<lparr>f_fid = (\<lambda>h. 1), f_geometry = Some, g_type = tree_type, g_dim = (\<lambda>g. 2),
      g_count = (\<lambda>g. length (tree_parts g)),
      g_ref = (\<lambda>g i. if i < length (tree_parts g) then Some (tree_parts g ! i) else None),
      g_point_count = (\<lambda>g. length (tree_points g)), g_point = (\<lambda>g i. tree_points g ! i),
      f_field_count = (\<lambda>h. 0), fld_name = (\<lambda>h i. []), fld_type = (\<lambda>h i. OFTOther), fld_int = (\<lambda>h i. 0),
      fld_real = (\<lambda>h i. 0), fld_string = (\<lambda>h i. []), fld_width = (\<lambda>h i. 0), fld_just = (\<lambda>h i. 0), fld_prec = (\<lambda>h i. 0)\<rparr>"

lemma tree_ok: "ogr_geometry_ok tree_reader tree_writer"
proof -
  have "creates tree_reader tree_writer"
    unfolding creates_def
    by (intro allI, rename_tac t, case_tac t)
      (simp_all add: tree_reader_def tree_writer_def tree_parts_def tree_points_def tree_type_def line_types_def)
  moreover have "takes_points tree_reader tree_writer"
    unfolding takes_points_def Let_def
    by (intro allI impI, rename_tac g p, case_tac g)
      (auto simp: tree_reader_def tree_writer_def tree_parts_def tree_points_def tree_type_def put_point_def
        point_value_def nth_append)
  moreover have "takes_parts tree_reader tree_writer"
    unfolding takes_parts_def
    by (intro allI impI, rename_tac g q, case_tac g)
      (auto simp: tree_reader_def tree_writer_def tree_parts_def tree_points_def tree_type_def nth_append)
  ultimately show ?thesis by (simp add: ogr_geometry_ok_def)
qed

definition sample_house :: "unit srs geoshape" where
  "sample_house = add_part (shape_new TYPE_POLYGON (Some sample_srs)) sample_square"

lemma sample_house_simps [simp]:
  "parts sample_house = [sample_square]" "shape_type sample_house = TYPE_POLYGON" "srs sample_house = Some sample_srs"
  "extent_cache sample_house = ext_invalid"
  by (simp_all add: sample_house_def add_part_def shape_new_def)

lemma sample_square_open [simp]: "\<not> list_is_closed V sample_square"
  by (simp add: list_is_closed_def sample_square_def point_eq_def sample_point_def geopoint_2d_def)

definition sample_style :: "nat wall_style" where
  "sample_style = wall_style 3 True 0 None"

text \<open>A second reference, with an ellipsoid of its own, and a library that can project between the two.\<close>

definition moving_lib :: "unit lib" where
  "moving_lib = sample_lib\<lparr>oct := (\<lambda>a b. Some (\<lambda>(x, y, z). (True, x + 1, y, z)))\<rparr>"

definition other_ogr :: "unit ogr_srs" where
  "other_ogr = ogr_new sample_lib 5 (Some 2) False True 6378137 6356752 ()"

definition solid_point :: "real \<Rightarrow> real \<Rightarrow> real \<Rightarrow> unit srs geopoint" where
  "solid_point x y z = geopoint_3d x y z (Some sample_srs)"

definition solid_shape :: "unit srs geoshape" where
  "solid_shape = add_part (shape_new TYPE_LINE (Some sample_srs)) [solid_point 0 0 1, solid_point 4 2 1]"

end
