(* ===== verification/Packager.thy ===== *)
theory Packager
  imports Geom_Utils Property
begin

text \<open>
  \<^verbatim>\<open>src/osgGIS/ResourcePackager.cpp\<close>: the packager that copies the textures and the referenced models of a
  cell to the place of the output, and renames the references to them. With it the helpers for the
  image of a state set from \<^verbatim>\<open>ImageUtils.cpp\<close> and for combining paths from \<^verbatim>\<open>Utils.cpp\<close>. Files, archives, the
  state of the disk (\<open>'w\<close>) and the pixels of an image (\<open>'i\<close>, a pointer) are those of OSG: arguments.
\<close>

section \<open>State sets\<close>

datatype tex_filter = LINEAR | LINEAR_MIPMAP_LINEAR | LINEAR_MIPMAP_NEAREST | NEAREST
  | NEAREST_MIPMAP_LINEAR | NEAREST_MIPMAP_NEAREST

text \<open>One entry for each texture unit: a two-dimensional texture, or none of that class.\<close>

datatype 'i texture = Texture_2D (min_filter: tex_filter) (mag_filter: tex_filter) (tex_image: "'i option")
  | Not_2D

type_synonym 'i state_set = "'i texture list"

fun get_first_image :: "'i state_set \<Rightarrow> 'i option" where
  "get_first_image [] = None"
| "get_first_image (Texture_2D a b (Some im) # ts) = Some im"
| "get_first_image (t # ts) = get_first_image ts"

fun set_first_image :: "'i state_set \<Rightarrow> 'i option \<Rightarrow> 'i state_set" where
  "set_first_image ts None = ts"
| "set_first_image [] (Some im) = []"
| "set_first_image (Texture_2D a b c # ts) (Some im) = Texture_2D a b (Some im) # ts"
| "set_first_image (Not_2D # ts) (Some im) = Not_2D # set_first_image ts (Some im)"

definition fix_mipmap_settings :: "'i state_set \<Rightarrow> 'i state_set" where
  "fix_mipmap_settings =
     map (\<lambda>t. case t of Texture_2D _ _ c \<Rightarrow> Texture_2D LINEAR_MIPMAP_LINEAR LINEAR c | Not_2D \<Rightarrow> Not_2D)"

section \<open>The packager\<close>

record 'a packager =
  pk_location :: string
  pk_archive :: "'a option"
  pk_compress :: bool
  pk_inline :: bool
  pk_fix :: bool
  pk_max :: nat

definition packager_new :: "'a packager" where
  "packager_new =
     \<lparr>pk_location = [], pk_archive = None, pk_compress = False, pk_inline = False, pk_fix = True, pk_max = 0\<rparr>"

definition packager_clone :: "'a packager \<Rightarrow> 'a packager" where
  "packager_clone k =
     packager_new\<lparr>pk_archive := pk_archive k, pk_location := pk_location k, pk_compress := pk_compress k,
       pk_max := pk_max k, pk_inline := pk_inline k, pk_fix := pk_fix k\<rparr>"

text \<open>The largest size is unsigned; the properties that set it are signed.\<close>

definition set_max_texture_size :: "int \<Rightarrow> 'a packager \<Rightarrow> 'a packager" where
  "set_max_texture_size v k = k\<lparr>pk_max := nat (v mod 2 ^ 32)\<rparr>"

definition max_size_signed :: "'a packager \<Rightarrow> int" where
  "max_size_signed k = (if pk_max k < 2 ^ 31 then int (pk_max k) else int (pk_max k) - 2 ^ 32)"

section \<open>What the packager asks for\<close>

text \<open>What an archive of OSG answers when it is written to.\<close>

datatype write_result = FILE_NOT_HANDLED | FILE_SAVED | ERROR_IN_WRITING_FILE

record ('i, 'a, 'n, 'w) package_host =
  ph_image_name :: "'i \<Rightarrow> string"
  ph_rename :: "string \<Rightarrow> 'i \<Rightarrow> 'i"
  ph_address :: "'i \<Rightarrow> int"
  ph_s :: "'i \<Rightarrow> nat"
  ph_t :: "'i \<Rightarrow> nat"
  ph_resize :: "'i \<Rightarrow> nat \<Rightarrow> nat \<Rightarrow> 'i option"
  ph_dds :: "'i \<Rightarrow> 'i option"
  ph_simple_name :: "string \<Rightarrow> string"
  ph_less_ext :: "string \<Rightarrow> string"
  ph_lower_ext :: "string \<Rightarrow> string"
  ph_real_path :: "string \<Rightarrow> string"
  ph_concat :: "string \<Rightarrow> string \<Rightarrow> string"
  ph_exists :: "string \<Rightarrow> 'w \<Rightarrow> bool"
  ph_in_archive :: "'a \<Rightarrow> string \<Rightarrow> 'w \<Rightarrow> bool"
  ph_archive_image :: "'a \<Rightarrow> 'i \<Rightarrow> string \<Rightarrow> 'w \<Rightarrow> write_result \<times> 'w"
  ph_write_image :: "'i \<Rightarrow> string \<Rightarrow> 'w \<Rightarrow> bool \<times> 'w"
  ph_read_node :: "string \<Rightarrow> 'w \<Rightarrow> 'n option"
  ph_archive_node :: "'a \<Rightarrow> 'n \<Rightarrow> string \<Rightarrow> string \<Rightarrow> 'w \<Rightarrow> write_result \<times> 'w"
  ph_write_node :: "'n \<Rightarrow> string \<Rightarrow> string \<Rightarrow> 'w \<Rightarrow> bool \<times> 'w"

definition combine_paths :: "(string \<Rightarrow> string) \<Rightarrow> (string \<Rightarrow> string \<Rightarrow> string) \<Rightarrow> string \<Rightarrow> string \<Rightarrow> string" where
  "combine_paths real_path concat_paths left right =
     (if length left = 0 then right else if length right = 0 then left
      else real_path (concat_paths left right))"

definition get_abs_path :: "(string \<Rightarrow> string) \<Rightarrow> (string \<Rightarrow> string \<Rightarrow> string) \<Rightarrow> string \<Rightarrow> string \<Rightarrow> string" where
  "get_abs_path real_path concat_paths base_path my_path =
     (if is_abs_path my_path then my_path else combine_paths real_path concat_paths base_path my_path)"

section \<open>Textures\<close>

text \<open>
  A name that is made up holds the address of the image, and ends with the line break that
  \<open>std::endl\<close> writes.
\<close>

definition texture_file_name :: "('i, 'a, 'n, 'w) package_host \<Rightarrow> 'i \<Rightarrow> string" where
  "texture_file_name H im =
     (let name = ph_simple_name H (ph_image_name H im)
      in if name = [] then ''tex'' @ show_int (ph_address H im) @ ''.rgb'' @ [CHR 0x0A] else name)"

definition size_limit :: "'a packager \<Rightarrow> nat \<Rightarrow> nat" where
  "size_limit k skin_max =
     (let n = (if skin_max > 0 then skin_max else 0)
      in if pk_max k > 0 then (if n = 0 then pk_max k else min n (pk_max k)) else n)"

definition limit_image :: "('i, 'a, 'n, 'w) package_host \<Rightarrow> nat \<Rightarrow> 'i \<Rightarrow> 'i" where
  "limit_image H n im =
     (if n > 0 \<and> n < ph_s H im \<and> n < ph_t H im
      then (case ph_resize H im (min n (ph_s H im)) (min n (ph_t H im)) of Some r \<Rightarrow> r | None \<Rightarrow> im)
      else im)"

definition compress_image :: "('i, 'a, 'n, 'w) package_host \<Rightarrow> 'a packager \<Rightarrow> 'i \<Rightarrow> string \<Rightarrow> 'i \<times> string" where
  "compress_image H k im filename =
     (if pk_compress k
      then (case ph_dds H im of
          Some c \<Rightarrow> (let name = ph_less_ext H filename @ ''.dds'' in (ph_rename H name c, name))
        | None \<Rightarrow> (im, filename))
      else (im, filename))"

text \<open>Warnings of the report are added at the end.\<close>

definition store_image ::
  "('i, 'a, 'n, 'w) package_host \<Rightarrow> 'a packager \<Rightarrow> 'i \<Rightarrow> string \<Rightarrow> string list \<times> 'w \<Rightarrow> string list \<times> 'w" where
  "store_image H k im filename st =
     (case st of (ws, w) \<Rightarrow>
        let failed = ''Failed to copy image '' @ filename @ '' into the archive'';
            to_folder = (if ph_exists H (pk_location k) w
              then (case ph_write_image H im (combine_paths (ph_real_path H) (ph_concat H) (pk_location k) filename) w of
                  (ok, w1) \<Rightarrow> (if ok then ws else ws @ [failed], w1))
              else (ws @ [''Failed to copy image '' @ filename @ '', output location '' @ pk_location k @ '' not found''], w))
        in (case pk_archive k of
             Some a \<Rightarrow>
               if ph_in_archive H a filename w
               then (case ph_archive_image H a im filename w of
                   (r, w1) \<Rightarrow> (if r = ERROR_IN_WRITING_FILE then ws @ [failed] else ws, w1))
               else to_folder
           | None \<Rightarrow> to_folder))"

text \<open>A skin is its own limit and its state set.\<close>

definition package_skin ::
  "('i, 'a, 'n, 'w) package_host \<Rightarrow> 'a packager \<Rightarrow> nat \<times> 'i state_set \<Rightarrow> string list \<times> 'w \<Rightarrow>
     'i state_set \<times> string list \<times> 'w" where
  "package_skin H k skin st =
     (case skin of (skin_max, ss) \<Rightarrow>
        case get_first_image ss of
          None \<Rightarrow> (ss, st)
        | Some im \<Rightarrow>
            (let (out_im, filename) =
                   compress_image H k (limit_image H (size_limit k skin_max) im) (texture_file_name H im);
                 ss1 = (if pk_fix k then fix_mipmap_settings ss else ss)
             in if pk_inline k then (set_first_image ss1 (Some out_im), st)
                else (ss1, store_image H k out_im filename st)))"

section \<open>Models\<close>

definition package_model ::
  "('i, 'a, 'n, 'w) package_host \<Rightarrow> 'a packager \<Rightarrow> string list \<times> 'w \<Rightarrow> string \<Rightarrow> string list \<times> 'w" where
  "package_model H k st uri =
     (case st of (ws, w) \<Rightarrow>
        case ph_read_node H uri w of
          None \<Rightarrow> (ws, w)
        | Some n \<Rightarrow>
            (let filename = ph_simple_name H uri
             in case pk_archive k of
                  Some a \<Rightarrow>
                    (case ph_archive_node H a n filename [] w of
                       (r, w1) \<Rightarrow>
                         (if r = ERROR_IN_WRITING_FILE
                          then ws @ [''Failed to copy model '' @ filename @ '' into the archive''] else ws, w1))
                | None \<Rightarrow>
                    if ph_exists H (pk_location k) w
                    then (case ph_write_node H n (ph_concat H (pk_location k) filename) [] w of
                        (ok, w1) \<Rightarrow>
                          (if ok then ws else ws @ [''Failed to copy model '' @ filename @ '' into the folder '' @ pk_location k], w1))
                    else (ws @ [''Failed to localize model.. model '' @ filename @ '' into the folder '' @ pk_location k], w)))"

fun package_skins ::
  "('i, 'a, 'n, 'w) package_host \<Rightarrow> 'a packager \<Rightarrow> (nat \<times> 'i state_set) list \<Rightarrow> string list \<times> 'w \<Rightarrow>
     'i state_set list \<times> string list \<times> 'w" where
  "package_skins H k [] st = ([], st)"
| "package_skins H k (s # ss) st =
     (let (s1, st1) = package_skin H k s st; (ss1, st2) = package_skins H k ss st1 in (s1 # ss1, st2))"

definition package_resources ::
  "('i, 'a, 'n, 'w) package_host \<Rightarrow> 'a packager \<Rightarrow> (nat \<times> 'i state_set) list \<Rightarrow> string list \<Rightarrow>
     string list \<times> 'w \<Rightarrow> 'i state_set list \<times> string list \<times> 'w" where
  "package_resources H k skins models st =
     (let (ss, st1) = package_skins H k skins st in (ss, foldl (package_model H k) st1 models))"

text \<open>The options of the registry, if it has any, are changed for \<^verbatim>\<open>.ive\<close> files.\<close>

definition package_options :: "'a packager \<Rightarrow> string option \<Rightarrow> string \<Rightarrow> string" where
  "package_options k global_options abs_uri =
     (let option_string = (case global_options of Some s \<Rightarrow> s | None \<Rightarrow> [])
      in if ends_with abs_uri ''.ive'' True
         then (if pk_inline k then replace_in option_string ''noTexturesInIVEFile'' []
               else ''noTexturesInIVEFile '' @ option_string)
         else option_string)"

definition package_node ::
  "('i, 'a, 'n, 'w) package_host \<Rightarrow> 'a packager \<Rightarrow> string option \<Rightarrow> 'n option \<Rightarrow> string \<Rightarrow> 'w \<Rightarrow> bool \<times> 'w" where
  "package_node H k global_options node abs_uri w =
     (case node of
        None \<Rightarrow> (False, w)
      | Some n \<Rightarrow>
          (let options = package_options k global_options abs_uri
           in case pk_archive k of
                Some a \<Rightarrow> apfst (\<lambda>r. r = FILE_SAVED) (ph_archive_node H a n (ph_simple_name H abs_uri) options w)
              | None \<Rightarrow> ph_write_node H n abs_uri options w))"

section \<open>References\<close>

text \<open>A scene: its state set, those of the drawables of a geode, the file of a proxy, the children.\<close>

datatype 'i scene = Scene (sc_state: "'i state_set option") (sc_drawables: "'i state_set option list")
  (sc_proxy: "string option") (sc_children: "'i scene list")

definition images_of_set :: "'i state_set option \<Rightarrow> 'i list" where
  "images_of_set ss =
     (case ss of None \<Rightarrow> []
      | Some ts \<Rightarrow> List.map_filter (\<lambda>t. case t of Texture_2D _ _ c \<Rightarrow> c | Not_2D \<Rightarrow> None) ts)"

primrec scene_images :: "'i scene \<Rightarrow> 'i list" where
  "scene_images (Scene ss ds prx cs) =
     concat (map images_of_set ds) @ images_of_set ss @ concat (map scene_images cs)"

primrec rewrite_proxies :: "('i, 'a, 'n, 'w) package_host \<Rightarrow> 'i scene \<Rightarrow> 'i scene" where
  "rewrite_proxies H (Scene ss ds prx cs) =
     Scene ss ds (map_option (\<lambda>f. ph_simple_name H (ph_real_path H f)) prx) (map (rewrite_proxies H) cs)"

definition rewritten_name :: "('i, 'a, 'n, 'w) package_host \<Rightarrow> 'a packager \<Rightarrow> string \<Rightarrow> string" where
  "rewritten_name H k name =
     (let simple = ph_simple_name H (ph_real_path H name);
          sized = (if pk_max k > 0
            then ph_less_ext H simple @ ''_'' @ show_int (max_size_signed k) @ ''.'' @ ph_lower_ext H simple
            else simple)
      in if pk_compress k then ph_less_ext H sized @ ''.dds'' else sized)"

text \<open>
  The names of the images, by their pointers. The set of pointers has each image once, so an image
  that several nodes use is renamed once.
\<close>

definition rewrite_resource_references ::
  "('i, 'a, 'n, 'w) package_host \<Rightarrow> 'a packager \<Rightarrow> ('i \<Rightarrow> string) \<Rightarrow> 'i scene \<Rightarrow> ('i \<Rightarrow> string) \<times> 'i scene" where
  "rewrite_resource_references H k names scene =
     (foldl (\<lambda>names im. names(im := rewritten_name H k (names im))) names (remdups (scene_images scene)),
      rewrite_proxies H scene)"

section \<open>Facts\<close>

lemma packager_clone_same [simp]: "packager_clone (k :: 'a packager) = k"
  by (simp add: packager_clone_def packager_new_def)

text \<open>The image that is inlined is not always the one that was read.\<close>

lemma set_then_get_first: "ts \<noteq> [] \<Longrightarrow> hd ts \<noteq> Not_2D \<Longrightarrow> get_first_image (set_first_image ts (Some im)) = Some im"
  by (cases ts; cases "hd ts") auto

lemma inlined_twice:
  "get_first_image (Texture_2D a b None # Texture_2D c d (Some im) # ts) = Some im \<and>
     set_first_image (Texture_2D a b None # Texture_2D c d (Some im) # ts) (Some out_im) =
       Texture_2D a b (Some out_im) # Texture_2D c d (Some im) # ts"
  by simp

text \<open>The stricter of the two limits that are set.\<close>

lemma size_limit_strict:
  "size_limit k m = (if m = 0 then pk_max k else if pk_max k = 0 then m else min m (pk_max k))"
  by (simp add: size_limit_def)

lemma wide_image_keeps_size: "ph_t H im \<le> n \<Longrightarrow> limit_image H n im = im"
  by (simp add: limit_image_def)

lemma fix_mipmap_keeps_image [simp]: "get_first_image (fix_mipmap_settings ts) = get_first_image ts"
  by (induction ts rule: get_first_image.induct) (auto simp: fix_mipmap_settings_def)

text \<open>An image goes into an archive only where the archive has a file of its name already.\<close>

lemma archive_gets_no_new_image:
  "pk_archive k = Some a \<Longrightarrow> \<not> ph_in_archive H a filename w \<Longrightarrow>
     store_image H k im filename (ws, w) = store_image H (k\<lparr>pk_archive := None\<rparr>) im filename (ws, w)"
  by (simp add: store_image_def Let_def)

text \<open>With a largest size the renamed reference carries it, and the file that is written does not.\<close>

lemma reference_carries_size:
  "pk_max k > 0 \<Longrightarrow> \<not> pk_compress k \<Longrightarrow>
     rewritten_name H k name =
       ph_less_ext H (ph_simple_name H (ph_real_path H name)) @ ''_'' @ show_int (max_size_signed k) @ ''.'' @
       ph_lower_ext H (ph_simple_name H (ph_real_path H name))"
  by (simp add: rewritten_name_def Let_def)

lemma written_name_has_no_size:
  "\<not> pk_compress k \<Longrightarrow> snd (compress_image H k im (texture_file_name H im)) = texture_file_name H im"
  by (simp add: compress_image_def)

text \<open>A model that no writer handles is left out of the archive without a warning.\<close>

lemma unhandled_model_is_silent:
  "pk_archive k = Some a \<Longrightarrow> ph_read_node H uri w = Some n \<Longrightarrow>
     ph_archive_node H a n (ph_simple_name H uri) [] w = (FILE_NOT_HANDLED, w1) \<Longrightarrow>
     package_model H k (ws, w) uri = (ws, w1)"
  by (simp add: package_model_def Let_def)

lemma fold_rename:
  "distinct ims \<Longrightarrow> foldl (\<lambda>names im. names(im := f (names im))) names ims =
     (\<lambda>im. if im \<in> set ims then f (names im) else names im)"
  by (induction ims arbitrary: names) auto

lemma each_image_renamed_once:
  "fst (rewrite_resource_references H k names scene) =
     (\<lambda>im. if im \<in> set (scene_images scene) then rewritten_name H k (names im) else names im)"
  by (simp add: rewrite_resource_references_def fold_rename)

lemma rewrite_keeps_images: "scene_images (rewrite_proxies H s) = scene_images s"
  by (induction s) (simp add: map_idI cong: map_cong)

end
