(* ===== verification/Builder.thy ===== *)
theory Builder
  imports Packager Map_Layer Project Resource_Library Spatial_Index Task_Manager
begin

text \<open>
  \<^verbatim>\<open>src/osgGISProjects/Builder.cpp\<close>, which builds the layers of a project: the sources that have to be made
  from others, the levels of a layer, the size of its cells, and the compiler that is started. With it
  \<open>FeatureStoreCompiler\<close> and the creation of feature layers of \<^verbatim>\<open>Registry.cpp\<close>.
  The disk, archives, OSG and the compilers are the host of a build, an argument; \<open>'w\<close> is the state of
  the disk. An outer \<open>None\<close> is a recursion that has used up its bound, or a number that \<open>atoi\<close> leaves
  undefined.
\<close>

section \<open>The host\<close>

text \<open>What a compiler of map layers is given before it is started.\<close>

record ('s, 'n, 'a) compile_job =
  cj_type :: layer_type
  cj_output :: string
  cj_paged :: bool
  cj_terrain :: "'n option"
  cj_terrain_srs :: "'s option"
  cj_terrain_extent :: "'s geoextent"
  cj_archive :: "'a option"
  cj_archive_file :: string
  cj_packager :: "'a packager"

record ('w, 'f, 'z, 's, 'n, 'a, 'o) build_host =
  bh_real_path :: "string \<Rightarrow> string"
  bh_concat :: "string \<Rightarrow> string \<Rightarrow> string"
  bh_dir_of :: "string \<Rightarrow> string"
  bh_ext_of :: "string \<Rightarrow> string"
  bh_less_ext :: "string \<Rightarrow> string"
  bh_make_dir :: "string \<Rightarrow> 'w \<Rightarrow> bool \<times> 'w"
  bh_make_dir_for :: "string \<Rightarrow> 'w \<Rightarrow> 'w"
  bh_exists :: "string \<Rightarrow> 'w \<Rightarrow> bool"
  bh_stat :: "string \<Rightarrow> 'w \<Rightarrow> int option"
  bh_read_file :: "string \<Rightarrow> 'w \<Rightarrow> string option"
  bh_after_buffer :: string
  bh_connect :: "string \<Rightarrow> 'w \<Rightarrow> ('s feature_store \<times> bool) option"
  bh_srs_of_wkt :: "string \<Rightarrow> 's option"
  bh_layers :: "('s, 's feature_layer) layer_vt"
  bh_vt :: "'s srs_vt"
  bh_compute_store :: "'f graph \<Rightarrow> 's feature_layer \<Rightarrow> ('s, 'o) filter_env \<Rightarrow> string \<Rightarrow> 'w \<Rightarrow> bool \<times> 'w"
  bh_new_env :: "('z resource, 'o) session \<Rightarrow> ('s, 'o) filter_env"
  bh_new_library :: 'o
  bh_add_resource :: "'z resource \<Rightarrow> 'o \<Rightarrow> 'o"
  bh_packager_object :: "'a packager \<Rightarrow> 'o"
  bh_read_node :: "string \<Rightarrow> 'w \<Rightarrow> 'n option"
  bh_geographic :: "'s \<Rightarrow> bool"
  bh_geocentric_of :: "'s \<Rightarrow> 's option"
  bh_srs_of_node :: "'n \<Rightarrow> 's option"
  bh_wgs84 :: "'s option"
  bh_atof :: "string \<Rightarrow> real"
  bh_open_archive :: "string \<Rightarrow> 'w \<Rightarrow> 'a \<times> 'w"
  bh_write_dummy :: "'a \<Rightarrow> string \<Rightarrow> 'w \<Rightarrow> 'w"
  bh_close :: "'a \<Rightarrow> 'w \<Rightarrow> 'w"
  bh_processors :: int
  bh_new_cells :: "real \<times> real"
  bh_compile :: "('s, 'n, 'a) compile_job \<Rightarrow> ('s, 's feature_layer, nat, 'o) tiled_layer \<Rightarrow>
     ('z resource, 'o) session \<Rightarrow> task_manager option \<Rightarrow> 'w \<Rightarrow> 'n option \<times> 'w"
  bh_package_node :: "'a packager \<Rightarrow> string option \<Rightarrow> 'n \<Rightarrow> string \<Rightarrow> 'w \<Rightarrow> bool \<times> 'w"

type_synonym ('w, 'f, 'z, 's, 'n, 'a, 'o) host = "('w, 'f, 'z, 's, 'n, 'a, 'o) build_host"

definition file_time :: "('w, 'f, 'z, 's, 'n, 'a, 'o) host \<Rightarrow> string \<Rightarrow> 'w \<Rightarrow> int" where
  "file_time H path w = (case bh_stat H path w of Some t \<Rightarrow> t | None \<Rightarrow> 0)"

definition source_abs_uri :: "('w, 'f, 'z, 's, 'n, 'a, 'o) host \<Rightarrow> source \<Rightarrow> string" where
  "source_abs_uri H s = get_abs_path (bh_real_path H) (bh_concat H) (src_base s) (src_uri s)"

definition source_time :: "('w, 'f, 'z, 's, 'n, 'a, 'o) host \<Rightarrow> source \<Rightarrow> 'w \<Rightarrow> int" where
  "source_time H s w = file_time H (source_abs_uri H s) w"

section \<open>Feature layers\<close>

text \<open>
  A store without a reference gets one from the file next to it. The buffer the file is read into is
  not closed by a zero, so what is parsed ends at the first zero of the file or of the memory behind it.
\<close>

definition create_feature_layer ::
  "('w, 'f, 'z, 's, 'n, 'a, 'o) host \<Rightarrow> string \<Rightarrow> 'w \<Rightarrow> 's feature_layer option" where
  "create_feature_layer H uri w =
     (case bh_connect H uri w of
        None \<Rightarrow> None
      | Some (st, ready) \<Rightarrow>
          if \<not> ready then None
          else (let l = feature_layer_new (Some st)
                in if layer_srs l \<noteq> None \<or> \<not> bh_exists H uri w then Some l
                   else (case bh_read_file H (bh_less_ext H uri @ ''.prj'') w of
                       None \<Rightarrow> Some l
                     | Some text \<Rightarrow>
                         Some (set_layer_srs
                           (bh_srs_of_wkt H (takeWhile (\<lambda>c. c \<noteq> CHR 0x00) (text @ bh_after_buffer H))) l))))"

definition compile_feature_store ::
  "('w, 'f, 'z, 's, 'n, 'a, 'o) host \<Rightarrow> 's feature_layer \<Rightarrow> 'f graph \<Rightarrow> string \<Rightarrow> ('s, 'o) filter_env option \<Rightarrow>
     ('z resource, 'o) session \<Rightarrow> 'w \<Rightarrow> bool \<times> 'w" where
  "compile_feature_store H l g output_uri env_template sn w =
     (let env = (case env_template of Some e \<Rightarrow> env_clone e | None \<Rightarrow> bh_new_env H sn);
          env1 = set_output_srs (set_input_srs env (layer_srs l)) (layer_srs l)
      in bh_compute_store H g l env1 output_uri w)"

section \<open>Sources\<close>

fun build_source ::
  "('w, 'f, 'z, 's, 'n, 'a, 'o) host \<Rightarrow> ('f, 'z, 's, 'o) project \<Rightarrow> ('z resource, 'o) session \<Rightarrow> nat \<Rightarrow> nat \<Rightarrow>
     'w \<Rightarrow> (bool \<times> 'w) option" where
  "build_source H p sn 0 i w = None"
| "build_source H p sn (Suc n) i w =
     (let s = prj_sources p ! i
      in if \<not> is_intermediate s then Some (True, w)
         else (case src_parent s of
             None \<Rightarrow> Some (False, w)
           | Some j \<Rightarrow>
               (let parent = prj_sources p ! j
                in if source_time H parent w < source_time H s w then Some (True, w)
                   else (case build_source H p sn n j w of
                       None \<Rightarrow> None
                     | Some (ok, w1) \<Rightarrow>
                         if \<not> ok then Some (False, w1)
                         else (case src_graph s of
                             None \<Rightarrow> Some (False, w1)
                           | Some g \<Rightarrow>
                               (case create_feature_layer H (source_abs_uri H parent) w1 of
                                  None \<Rightarrow> Some (False, w1)
                                | Some l \<Rightarrow>
                                    (let temp_session = derive (bh_new_library H) sn;
                                         source_env = bh_new_env H temp_session
                                     in Some (compile_feature_store H l (prj_graphs p ! g)
                                          (source_abs_uri H s) (Some source_env) temp_session w1))))))))"

section \<open>Levels\<close>

definition slice_packager :: "'o property list \<Rightarrow> 'a packager option \<Rightarrow> 'a packager option option" where
  "slice_packager ps default_packager =
     (case default_packager of
        None \<Rightarrow> Some None
      | Some d \<Rightarrow>
          do { size \<leftarrow> props_get_int ps ''max_texture_size'' (max_size_signed d);
               Some (Some ((set_max_texture_size size (packager_clone d))
                 \<lparr>pk_compress := props_get_bool ps ''compress_textures'' (pk_compress d),
                  pk_inline := props_get_bool ps ''inline_textures'' (pk_inline d)\<rparr>)) })"

definition slice_level ::
  "('w, 'f, 'z, 's, 'n, 'a, 'o) host \<Rightarrow> 's feature_layer \<Rightarrow> nat option \<Rightarrow> 'o property list \<Rightarrow> 'a packager option \<Rightarrow>
     real \<Rightarrow> real \<Rightarrow> nat \<Rightarrow> ('s feature_layer, nat, 'o) lod_level" where
  "slice_level H l g env_properties packager mn mx depth =
     \<lparr>ll_layer = l, ll_graph = g, ll_env_props = env_properties,
      ll_packager = map_option (bh_packager_object H) packager, ll_min_range = mn, ll_max_range = mx,
      ll_replace = True, ll_depth = depth, ll_user_data = None\<rparr>"

text \<open>The source of a slice, with the state after it was built; then the level of the slice itself.\<close>

definition build_slice_source ::
  "('w, 'f, 'z, 's, 'n, 'a, 'o) host \<Rightarrow> ('f, 'z, 's, 'o) project \<Rightarrow> ('z resource, 'o) session \<Rightarrow> nat \<Rightarrow>
     nat option \<Rightarrow> 'w \<Rightarrow> (bool \<times> 'w) option" where
  "build_slice_source H p sn fuel so w =
     (case so of None \<Rightarrow> Some (True, w) | Some s \<Rightarrow> build_source H p sn fuel s w)"

definition push_slice ::
  "('w, 'f, 'z, 's, 'n, 'a, 'o) host \<Rightarrow> ('f, 'z, 's, 'o) project \<Rightarrow> 'o property list \<Rightarrow> 'a packager option \<Rightarrow> nat \<Rightarrow>
     nat option \<Rightarrow> nat option \<Rightarrow> real \<Rightarrow> real \<Rightarrow> 'w \<Rightarrow>
     ('s, 's feature_layer, nat, 'o) tiled_layer \<Rightarrow> bool \<times> ('s, 's feature_layer, nat, 'o) tiled_layer" where
  "push_slice H p env_properties packager depth slice_source g mn mx w m =
     (case slice_source of
        None \<Rightarrow> (True, m)
      | Some s \<Rightarrow>
          (case create_feature_layer H (source_abs_uri H (prj_sources p ! s)) w of
             None \<Rightarrow> (False, m)
           | Some l \<Rightarrow>
               (True, push_level (bh_vt H) (bh_layers H)
                  (Some (slice_level H l g env_properties packager mn mx depth)) m)))"

text \<open>The source of a slice, or else that of the slices around it.\<close>

definition or_source :: "nat option \<Rightarrow> nat option \<Rightarrow> nat option" where
  "or_source so parent_source = (case so of Some s \<Rightarrow> Some s | None \<Rightarrow> parent_source)"

fun add_slices ::
  "('w, 'f, 'z, 's, 'n, 'a, 'o) host \<Rightarrow> ('f, 'z, 's, 'o) project \<Rightarrow> ('z resource, 'o) session \<Rightarrow> nat \<Rightarrow>
     'o property list \<Rightarrow> 'a packager option \<Rightarrow> nat \<Rightarrow> nat option \<Rightarrow> 'o slice list \<Rightarrow>
     ('s, 's feature_layer, nat, 'o) tiled_layer \<Rightarrow> 'w \<Rightarrow>
     (bool \<times> ('s, 's feature_layer, nat, 'o) tiled_layer \<times> 'w) option" where
  "add_slices H p sn fuel env_properties default_packager depth parent_source [] m w = Some (True, m, w)"
| "add_slices H p sn fuel env_properties default_packager depth parent_source (Slice mn mx g so ps subs # rest) m w =
     (case build_slice_source H p sn fuel so w of
        None \<Rightarrow> None
      | Some (ok, w1) \<Rightarrow>
          if \<not> ok then Some (False, m, w1)
          else (case slice_packager ps default_packager of
              None \<Rightarrow> None
            | Some packager \<Rightarrow>
                (case push_slice H p env_properties packager depth (or_source so parent_source) g mn mx w1 m of
                   (pushed, m1) \<Rightarrow>
                     if \<not> pushed then Some (False, m1, w1)
                     else (case add_slices H p sn fuel env_properties packager (depth + 1)
                             (or_source so parent_source) subs m1 w1 of
                         None \<Rightarrow> None
                       | Some (added, m2, w2) \<Rightarrow>
                           if \<not> added then Some (False, m2, w2)
                           else add_slices H p sn fuel env_properties default_packager depth
                                  parent_source rest m2 w2))))"

section \<open>The size of the cells\<close>

definition props_get_double :: "(string \<Rightarrow> real) \<Rightarrow> 'o property list \<Rightarrow> string \<Rightarrow> real \<Rightarrow> real" where
  "props_get_double atof ps key d =
     (case find_property ps (normalize key) of
        None \<Rightarrow> d
      | Some q \<Rightarrow> if length (pvalue q) > 0 then atof (pvalue q) else d)"

definition set_cell_size ::
  "(string \<Rightarrow> real) \<Rightarrow> 'o property list \<Rightarrow> ('s, 'l, 'g, 'o) tiled_layer \<Rightarrow> ('s, 'l, 'g, 'o) tiled_layer option" where
  "set_cell_size atof ps m =
     (let col_size = props_get_double atof ps ''col_size'' (-1);
          row_size = props_get_double atof ps ''row_size'' (-1)
      in do { (cols, rows) \<leftarrow>
                (if col_size \<le> 0 \<or> row_size \<le> 0
                 then do { nc \<leftarrow> props_get_int ps ''num_cols'' 1; nr \<leftarrow> props_get_int ps ''num_rows'' 1;
                           Some (get_width (area_of_interest m) / of_int (max 1 nc),
                                 get_height (area_of_interest m) / of_int (max 1 nr)) }
                 else Some (col_size, row_size));
              Some ((set_cell_height rows (set_cell_width cols m))
                \<lparr>tl_encode_radius := props_get_bool ps ''encode_cell_radius'' True\<rparr>) })"

section \<open>Terrains\<close>

definition get_terrain_data ::
  "('w, 'f, 'z, 's, 'n, 'a, 'o) host \<Rightarrow> 's terrain option \<Rightarrow> 'w \<Rightarrow> ('n option \<times> 's option \<times> 's geoextent) option" where
  "get_terrain_data H t w =
     (let everywhere = ext_of_bounds (-180) (-90) 180 90 (bh_wgs84 H)
      in case t of
           None \<Rightarrow> Some (None, None, everywhere)
         | Some t \<Rightarrow>
             (let node = (if length (ter_uri t) > 0
                    then bh_read_node H (get_abs_path (bh_real_path H) (bh_concat H) (ter_base t) (ter_uri t)) w
                    else None);
                  s = (case ter_srs t of
                    None \<Rightarrow> None | Some s \<Rightarrow> if bh_geographic H s then bh_geocentric_of H s else Some s)
              in case node of
                   Some n \<Rightarrow> Some (Some n, case s of Some s \<Rightarrow> Some s | None \<Rightarrow> bh_srs_of_node H n, everywhere)
                 | None \<Rightarrow> if length (ter_uri t) > 0 then None else Some (None, s, everywhere)))"

section \<open>Layers\<close>

record ('w, 'f, 'z) build_state =
  bs_world :: 'w
  bs_registry :: "('f, 'z) registry"
  bs_options :: "string option"

text \<open>The base of the project is put before a directory that has it already.\<close>

definition work_directory :: "('w, 'f, 'z, 's, 'n, 'a, 'o) host \<Rightarrow> ('f, 'z, 's, 'o) project \<Rightarrow> string" where
  "work_directory H p =
     (let base = bh_dir_of H (prj_uri p);
          absolute = combine_paths (bh_real_path H) (bh_concat H) base (get_working_directory p);
          work_dir_name = (if length absolute = 0 then ''work_'' @ prj_name p else absolute)
      in combine_paths (bh_real_path H) (bh_concat H) base work_dir_name)"

definition make_work_directory ::
  "('w, 'f, 'z, 's, 'n, 'a, 'o) host \<Rightarrow> ('f, 'z, 's, 'o) project \<Rightarrow> ('w, 'f, 'z) build_state \<Rightarrow>
     ('w, 'f, 'z) build_state" where
  "make_work_directory H p b =
     (case bh_make_dir H (work_directory H p) (bs_world b) of
        (made, w) \<Rightarrow>
          b\<lparr>bs_world := w,
            bs_registry := (if made then set_work_directory (bs_registry b) (work_directory H p) else bs_registry b)\<rparr>)"

definition layer_session ::
  "('w, 'f, 'z, 's, 'n, 'a, 'o) host \<Rightarrow> ('f, 'z, 's, 'o) project \<Rightarrow> ('z resource, 'o) session" where
  "layer_session H p =
     (let sn = foldl (\<lambda>sn sc. add_script sc sn) (session_new (bh_new_library H)) (prj_scripts p)
      in foldl (\<lambda>sn r. sn\<lparr>se_resources := bh_add_resource H r (se_resources sn)\<rparr>) sn (prj_resources p))"

definition layer_options :: "bool \<Rightarrow> string" where
  "layer_options inline_ive_textures =
     (if inline_ive_textures then ''noWriteExternalReferenceFiles useOriginalExternalReferences''
      else ''noTexturesInIVEFile noWriteExternalReferenceFiles useOriginalExternalReferences'')"

definition open_output ::
  "('w, 'f, 'z, 's, 'n, 'a, 'o) host \<Rightarrow> string \<Rightarrow> 'w \<Rightarrow> 'a option \<times> string \<times> 'w" where
  "open_output H output_file w =
     (if bh_ext_of H output_file = ''osga''
      then (case bh_open_archive H output_file w of
          (a, w1) \<Rightarrow> (Some a, ''out.ive'', bh_write_dummy H a ''out.ive'' w1))
      else (None, output_file, w))"

definition layer_task_manager :: "('w, 'f, 'z, 's, 'n, 'a, 'o) host \<Rightarrow> int \<Rightarrow> task_manager option" where
  "layer_task_manager H num_threads =
     (if num_threads > 1 then Some (task_manager_new num_threads)
      else if num_threads < 1 then Some (task_manager_new (bh_processors H)) else None)"

definition layer_packager ::
  "('w, 'f, 'z, 's, 'n, 'a, 'o) host \<Rightarrow> 'o property list \<Rightarrow> 'a option \<Rightarrow> string \<Rightarrow> 'a packager option" where
  "layer_packager H ps archive output_file =
     (let k = packager_new\<lparr>pk_archive := archive, pk_location := bh_dir_of H output_file\<rparr>
      in if props_get_bool ps ''localize_resources'' False
         then do { size \<leftarrow> props_get_int ps ''max_texture_size'' 0;
                   Some ((set_max_texture_size size k)
                     \<lparr>pk_compress := props_get_bool ps ''compress_textures'' False,
                      pk_inline := props_get_bool ps ''inline_textures'' False\<rparr>) }
         else Some k)"

text \<open>The types for which there is a compiler.\<close>

definition has_compiler :: "layer_type \<Rightarrow> bool" where
  "has_compiler t \<longleftrightarrow> t = TYPE_QUADTREE \<or> t = TYPE_GRIDDED \<or> t = TYPE_SIMPLE"

definition run_compiler ::
  "('w, 'f, 'z, 's, 'n, 'a, 'o) host \<Rightarrow> ('s, 'n, 'a) compile_job \<Rightarrow> ('s, 's feature_layer, nat, 'o) tiled_layer \<Rightarrow>
     ('z resource, 'o) session \<Rightarrow> task_manager option \<Rightarrow> string option \<Rightarrow> 'w \<Rightarrow> 'w" where
  "run_compiler H job m sn manager options w =
     (if has_compiler (cj_type job)
      then (case bh_compile H job m sn manager w of
          (Some n, w1) \<Rightarrow> snd (bh_package_node H (cj_packager job) options n (cj_output job) w1)
        | (None, w1) \<Rightarrow> w1)
      else w)"

definition compile_output ::
  "('w, 'f, 'z, 's, 'n, 'a, 'o) host \<Rightarrow> ('f, 'z, 's, 'o) project \<Rightarrow> int \<Rightarrow> nat \<Rightarrow> 'o layer \<Rightarrow> ('z resource, 'o) session \<Rightarrow>
     'n option \<times> 's option \<times> 's geoextent \<Rightarrow> string \<Rightarrow> string option \<Rightarrow> 'w \<Rightarrow> (bool \<times> 'w) option" where
  "compile_output H p num_threads fuel layer sn terrain archive_file options w =
     (case open_output H archive_file w of
        (archive, output_file, w1) \<Rightarrow>
          do { packager \<leftarrow> layer_packager H (bl_props layer) archive output_file;
               (added, m, w2) \<leftarrow> add_slices H p sn fuel (bl_env_props layer) (Some packager) 0 (bl_source layer)
                 (bl_slices layer) (tiled_layer_new (fst (bh_new_cells H)) (snd (bh_new_cells H))) w1;
               if \<not> added then Some (False, w2)
               else do { m1 \<leftarrow> set_cell_size (bh_atof H) (bl_props layer) m;
                         let job = \<lparr>cj_type = bl_type layer, cj_output = output_file,
                               cj_paged = props_get_bool (bl_props layer) ''paged'' True,
                               cj_terrain = fst terrain, cj_terrain_srs = fst (snd terrain),
                               cj_terrain_extent = snd (snd terrain), cj_archive = archive,
                               cj_archive_file = archive_file, cj_packager = packager\<rparr>;
                             w3 = run_compiler H job m1 sn (layer_task_manager H num_threads) options w2
                         in Some (True, case archive of Some a \<Rightarrow> bh_close H a w3 | None \<Rightarrow> w3) } })"

definition build_layer ::
  "('w, 'f, 'z, 's, 'n, 'a, 'o) host \<Rightarrow> ('f, 'z, 's, 'o) project \<Rightarrow> int \<Rightarrow> nat \<Rightarrow> 'o layer \<Rightarrow> ('w, 'f, 'z) build_state \<Rightarrow>
     (bool \<times> ('w, 'f, 'z) build_state) option" where
  "build_layer H p num_threads fuel layer b =
     (let b1 = make_work_directory H p b; sn = layer_session H p
      in do { (built, w) \<leftarrow> build_slice_source H p sn fuel (bl_source layer) (bs_world b1);
              let b2 = b1\<lparr>bs_world := w\<rparr>
              in if \<not> built then Some (False, b2)
                 else if (case bl_source layer of
                       None \<Rightarrow> False
                     | Some s \<Rightarrow> create_feature_layer H (source_abs_uri H (prj_sources p ! s)) w = None)
                 then Some (False, b2)
                 else (case get_terrain_data H (map_option (\<lambda>t. prj_terrains p ! t) (bl_terrain layer)) w of
                     None \<Rightarrow> Some (False, b2)
                   | Some terrain \<Rightarrow>
                       (let output_file = get_abs_path (bh_real_path H) (bh_concat H) (bl_base layer) (bl_path layer);
                            w1 = bh_make_dir_for H output_file w
                        in if \<not> bh_exists H (bh_dir_of H output_file) w1
                           then Some (False, b2\<lparr>bs_world := w1\<rparr>)
                           else (let options = Some (layer_options
                                      (props_get_bool (bl_props layer) ''inline_textures'' False))
                                 in do { (ok, w2) \<leftarrow> compile_output H p num_threads fuel layer sn terrain output_file options w1;
                                         Some (ok, b2\<lparr>bs_world := w2, bs_options := options\<rparr>) }))) })"

section \<open>Targets\<close>

fun build_layers ::
  "('w, 'f, 'z, 's, 'n, 'a, 'o) host \<Rightarrow> ('f, 'z, 's, 'o) project \<Rightarrow> int \<Rightarrow> nat \<Rightarrow> 'o layer list \<Rightarrow>
     ('w, 'f, 'z) build_state \<Rightarrow> (bool \<times> ('w, 'f, 'z) build_state) option" where
  "build_layers H p num_threads fuel [] b = Some (True, b)"
| "build_layers H p num_threads fuel (l # ls) b =
     (case build_layer H p num_threads fuel l b of
        None \<Rightarrow> None
      | Some (ok, b1) \<Rightarrow> if ok then build_layers H p num_threads fuel ls b1 else Some (False, b1))"

definition build_all ::
  "('w, 'f, 'z, 's, 'n, 'a, 'o) host \<Rightarrow> ('f, 'z, 's, 'o) project option \<Rightarrow> int \<Rightarrow> nat \<Rightarrow> ('w, 'f, 'z) build_state \<Rightarrow>
     (bool \<times> ('w, 'f, 'z) build_state) option" where
  "build_all H project num_threads fuel b =
     (case project of
        None \<Rightarrow> Some (False, b)
      | Some p \<Rightarrow> build_layers H p num_threads fuel (prj_layers p) b)"

definition build_target ::
  "('w, 'f, 'z, 's, 'n, 'a, 'o) host \<Rightarrow> ('f, 'z, 's, 'o) project option \<Rightarrow> int \<Rightarrow> nat \<Rightarrow> target option \<Rightarrow>
     ('w, 'f, 'z) build_state \<Rightarrow> (bool \<times> ('w, 'f, 'z) build_state) option" where
  "build_target H project num_threads fuel t b =
     (case (project, t) of
        (Some p, Some t) \<Rightarrow> build_layers H p num_threads fuel (map (\<lambda>l. prj_layers p ! l) (tgt_layers t)) b
      | _ \<Rightarrow> Some (False, b))"

definition build_named ::
  "('w, 'f, 'z, 's, 'n, 'a, 'o) host \<Rightarrow> ('f, 'z, 's, 'o) project option \<Rightarrow> int \<Rightarrow> nat \<Rightarrow> string \<Rightarrow>
     ('w, 'f, 'z) build_state \<Rightarrow> (bool \<times> ('w, 'f, 'z) build_state) option" where
  "build_named H project num_threads fuel target_name b =
     (case project of
        None \<Rightarrow> Some (False, b)
      | Some p \<Rightarrow>
          if length target_name > 0
          then (case get_target p target_name of
              None \<Rightarrow> Some (False, b)
            | Some t \<Rightarrow> build_target H (Some p) num_threads fuel (Some (prj_targets p ! t)) b)
          else build_all H (Some p) num_threads fuel b)"

end
