(* ===== verification/Builder_Correct.thy ===== *)
theory Builder_Correct
  imports Builder
begin

text \<open>
  What a build does: the sources that are made again and in which order, that this ends, the levels
  that the slices of a layer give, the cells that they are cut into, and what the result says.
\<close>

section \<open>The plan of a source\<close>

text \<open>
  The parent that a source is made from, unless the source is newer. The plan follows these parents;
  the times are those before anything is made.
\<close>

definition stale_parent ::
  "('w, 'f, 'z, 's, 'n, 'a, 'o) host \<Rightarrow> ('f, 'z, 's, 'o) project \<Rightarrow> 'w \<Rightarrow> nat \<Rightarrow> nat option" where
  "stale_parent H p w i =
     (case src_parent (prj_sources p ! i) of
        None \<Rightarrow> None
      | Some j \<Rightarrow>
          if source_time H (prj_sources p ! j) w < source_time H (prj_sources p ! i) w then None else Some j)"

fun rebuild_chain ::
  "('w, 'f, 'z, 's, 'n, 'a, 'o) host \<Rightarrow> ('f, 'z, 's, 'o) project \<Rightarrow> 'w \<Rightarrow> nat \<Rightarrow> nat \<Rightarrow> nat list option" where
  "rebuild_chain H p w 0 i = None"
| "rebuild_chain H p w (Suc n) i =
     (case stale_parent H p w i of
        None \<Rightarrow> Some []
      | Some j \<Rightarrow> map_option (\<lambda>c. i # c) (rebuild_chain H p w n j))"

definition rebuild_source ::
  "('w, 'f, 'z, 's, 'n, 'a, 'o) host \<Rightarrow> ('f, 'z, 's, 'o) project \<Rightarrow> ('z resource, 'o) session \<Rightarrow> nat \<Rightarrow> 'w \<Rightarrow> bool \<times> 'w" where
  "rebuild_source H p sn i w =
     (let s = prj_sources p ! i; parent = prj_sources p ! the (src_parent s); t = derive (bh_new_library H) sn
      in case (src_graph s, create_feature_layer H (source_abs_uri H parent) w) of
           (Some g, Some l) \<Rightarrow>
             compile_feature_store H l (prj_graphs p ! g) (source_abs_uri H s) (Some (bh_new_env H t)) t w
         | _ \<Rightarrow> (False, w))"

fun rebuild_all ::
  "('w, 'f, 'z, 's, 'n, 'a, 'o) host \<Rightarrow> ('f, 'z, 's, 'o) project \<Rightarrow> ('z resource, 'o) session \<Rightarrow> nat list \<Rightarrow> 'w \<Rightarrow> bool \<times> 'w" where
  "rebuild_all H p sn [] w = (True, w)"
| "rebuild_all H p sn (i # is) w =
     (case rebuild_source H p sn i w of (ok, w1) \<Rightarrow> if ok then rebuild_all H p sn is w1 else (False, w1))"

lemma rebuild_all_append:
  "rebuild_all H p sn (xs @ ys) w =
     (case rebuild_all H p sn xs w of (ok, w1) \<Rightarrow> if ok then rebuild_all H p sn ys w1 else (False, w1))"
  by (induction xs arbitrary: w) (auto split: prod.splits)

lemma build_source_step:
  "build_source H p sn (Suc n) i w =
     (case stale_parent H p w i of
        None \<Rightarrow> Some (True, w)
      | Some j \<Rightarrow>
          map_option (\<lambda>(ok, w1). if ok then rebuild_source H p sn i w1 else (False, w1)) (build_source H p sn n j w))"
  by (auto simp: stale_parent_def is_intermediate_def rebuild_source_def Let_def
      split: option.splits prod.splits)

lemma build_source_is_plan:
  "build_source H p sn n i w = map_option (\<lambda>c. rebuild_all H p sn (rev c) w) (rebuild_chain H p w n i)"
proof (induction n arbitrary: i)
  case (Suc n)
  show ?case
    unfolding build_source_step rebuild_chain.simps Suc
    by (auto simp: rebuild_all_append option.map_comp comp_def
        split: option.splits prod.splits intro!: option.map_cong0)
qed simp

section \<open>The recursion ends\<close>

definition same_time_parents ::
  "('w, 'f, 'z, 's, 'n, 'a, 'o) host \<Rightarrow> ('f, 'z, 's, 'o) project \<Rightarrow> 'w \<Rightarrow> (nat \<times> nat) set" where
  "same_time_parents H p w =
     {(i, j). i < length (prj_sources p) \<and> src_parent (prj_sources p ! i) = Some j \<and>
        source_time H (prj_sources p ! i) w = source_time H (prj_sources p ! j) w}"

lemma stale_parent_times:
  "stale_parent H p w i = Some j \<Longrightarrow>
     src_parent (prj_sources p ! i) = Some j \<and>
     source_time H (prj_sources p ! i) w \<le> source_time H (prj_sources p ! j) w"
  by (auto simp: stale_parent_def split: option.splits if_splits)

lemma stale_parent_bound:
  "refs_ok p \<Longrightarrow> i < length (prj_sources p) \<Longrightarrow> stale_parent H p w i = Some j \<Longrightarrow> j < length (prj_sources p)"
  by (auto simp: refs_ok_def list_all_length points_into_def dest!: stale_parent_times)

lemma chain_runs_out:
  "rebuild_chain H p w n i = None \<Longrightarrow> \<exists>x. x 0 = i \<and> (\<forall>m < n. stale_parent H p w (x m) = Some (x (Suc m)))"
proof (induction n arbitrary: i)
  case (Suc n)
  then obtain j where j: "stale_parent H p w i = Some j" "rebuild_chain H p w n j = None"
    by (auto split: option.splits)
  from Suc.IH [OF j(2)] obtain x where
    x: "x 0 = j" "\<forall>m < n. stale_parent H p w (x m) = Some (x (Suc m))" by blast
  have "stale_parent H p w (case_nat i x m) = Some (case_nat i x (Suc m))" if "m < Suc n" for m
    using that j x by (cases m) auto
  then show ?case by (intro exI [of _ "case_nat i x"]) simp
qed (auto intro: exI [of _ "\<lambda>_. i" for i])

lemma path_times:
  assumes "\<forall>m < n. stale_parent H p w (x m) = Some (x (Suc m))" "a \<le> b" "b \<le> n"
  shows "source_time H (prj_sources p ! x a) w \<le> source_time H (prj_sources p ! x b) w"
  using assms(2,3)
proof (induction b rule: dec_induct)
  case (step m)
  then show ?case using assms(1) stale_parent_times [of H p w "x m" "x (Suc m)"] by auto
qed simp

lemma path_bound:
  assumes "refs_ok p" "x 0 < length (prj_sources p)" "\<forall>m < n. stale_parent H p w (x m) = Some (x (Suc m))"
  shows "m \<le> n \<Longrightarrow> x m < length (prj_sources p)"
proof (induction m)
  case (Suc m)
  then show ?case using assms(3) stale_parent_bound [OF assms(1)] by (metis Suc_le_eq less_imp_le_nat)
qed (use assms in simp)

lemma path_trancl:
  assumes "\<And>m. a \<le> m \<Longrightarrow> m < b \<Longrightarrow> (x m, x (Suc m)) \<in> r"
  shows "a < b \<Longrightarrow> (x a, x b) \<in> r\<^sup>+"
  using assms
proof (induction b)
  case (Suc b)
  then show ?case by (cases "a = b") (auto intro: trancl_into_trancl)
qed simp

lemma repeated_value:
  assumes "\<not> inj_on x {..n::nat}"
  shows "\<exists>b c. b < c \<and> c \<le> n \<and> x b = x c"
proof -
  from assms obtain b c where "b \<le> n" "c \<le> n" "x b = x c" "b \<noteq> c" by (auto simp: inj_on_def)
  then show ?thesis by (metis linorder_neqE_nat)
qed

lemma build_source_ends:
  assumes ok: "refs_ok p" and i: "i < length (prj_sources p)" and a: "acyclic (same_time_parents H p w)"
  shows "build_source H p sn (Suc (length (prj_sources p))) i w \<noteq> None"
proof
  let ?N = "length (prj_sources p)"
  assume "build_source H p sn (Suc ?N) i w = None"
  then have "rebuild_chain H p w (Suc ?N) i = None"
    by (simp only: build_source_is_plan option.map_disc_iff)
  from chain_runs_out [OF this] obtain x where
    x0: "x 0 = i" and x: "\<forall>m < Suc ?N. stale_parent H p w (x m) = Some (x (Suc m))" by (elim exE conjE) simp
  have bound: "x m < ?N" if "m \<le> Suc ?N" for m using path_bound [OF ok _ x that] i x0 by simp
  have "\<not> inj_on x {..?N}"
  proof
    assume "inj_on x {..?N}"
    then have "card {..?N} \<le> card {..<?N}" by (rule card_inj_on_le) (use bound in auto)
    then show False by simp
  qed
  from repeated_value [OF this] obtain b c where bc: "b < c" "c \<le> ?N" "x b = x c" by blast
  have "(x m, x (Suc m)) \<in> same_time_parents H p w" if m: "b \<le> m" "m < c" for m
  proof -
    have "source_time H (prj_sources p ! x b) w \<le> source_time H (prj_sources p ! x m) w"
      by (rule path_times [OF x]) (use m bc in auto)
    moreover have "source_time H (prj_sources p ! x m) w \<le> source_time H (prj_sources p ! x (Suc m)) w"
      by (rule path_times [OF x]) (use m bc in auto)
    moreover have "source_time H (prj_sources p ! x (Suc m)) w \<le> source_time H (prj_sources p ! x c) w"
      by (rule path_times [OF x]) (use m bc in auto)
    ultimately show ?thesis
      using bc m x bound [of m] stale_parent_times [of H p w "x m" "x (Suc m)"]
      by (auto simp: same_time_parents_def)
  qed
  then have "(x b, x c) \<in> (same_time_parents H p w)\<^sup>+" by (rule path_trancl [where x = x, OF _ bc(1)]) simp_all
  then show False using bc(3) a by (simp add: acyclic_def)
qed

text \<open>More depth changes nothing once it is enough.\<close>

lemma build_source_Suc:
  "build_source H p sn n i w = Some r \<Longrightarrow> build_source H p sn (Suc n) i w = Some r"
proof (induction n arbitrary: i r)
  case (Suc n)
  show ?case
  proof (cases "stale_parent H p w i")
    case None
    then show ?thesis using Suc.prems by (simp only: build_source_step option.case)
  next
    case (Some j)
    with Suc.prems obtain q where "build_source H p sn n j w = Some q"
      by (auto simp only: build_source_step option.case map_option_eq_Some)
    with Suc.IH have "build_source H p sn (Suc n) j w = build_source H p sn n j w" by simp
    then show ?thesis using Suc.prems Some by (simp only: build_source_step [of H p sn "Suc n"] build_source_step [of H p sn n i] option.case)
  qed
qed simp

text \<open>Where a file is newer than itself through a circle of sources with one time, no bound is enough.\<close>

lemma self_parent_never_ends:
  "src_parent (prj_sources p ! i) = Some i \<Longrightarrow> build_source H p sn n i w = None"
  by (induction n) (auto simp only: build_source_step build_source.simps(1) stale_parent_def less_irrefl
      if_False option.case option.map)

section \<open>What the times decide\<close>

text \<open>
  A source that is newer than its parent is taken to be up to date, whatever became of the parent of
  its parent.
\<close>

lemma newer_than_parent_is_kept:
  "src_parent (prj_sources p ! i) = Some j \<Longrightarrow>
     source_time H (prj_sources p ! j) w < source_time H (prj_sources p ! i) w \<Longrightarrow>
     build_source H p sn (Suc n) i w = Some (True, w)"
  by (simp only: build_source_step) (simp add: stale_parent_def)

section \<open>Levels\<close>

text \<open>
  What the slices of a layer come to: the depth, the ranges, the graph and the source of every slice
  that has a source, its own or that of the slices around it, a slice before its parts.
\<close>

type_synonym plan_level = "nat \<times> real \<times> real \<times> nat option"

fun slice_plan :: "nat \<Rightarrow> nat option \<Rightarrow> 'o slice list \<Rightarrow> plan_level list" where
  "slice_plan depth parent_source [] = []"
| "slice_plan depth parent_source (Slice mn mx g so ps subs # rest) =
     (if or_source so parent_source = None then [] else [(depth, mn, mx, g)]) @
     slice_plan (depth + 1) (or_source so parent_source) subs @ slice_plan depth parent_source rest"

definition level_view :: "('l, nat, 'o) lod_level \<Rightarrow> plan_level" where
  "level_view lv = (ll_depth lv, ll_min_range lv, ll_max_range lv, ll_graph lv)"

lemma push_slice_levels:
  "push_slice H p ep packager depth so g mn mx w m = (True, m1) \<Longrightarrow>
     map level_view (tl_levels m1) =
       map level_view (tl_levels m) @ (if so = None then [] else [(depth, mn, mx, g)])"
  by (auto simp: push_slice_def push_level_def slice_level_def level_view_def split: option.splits)

lemma add_slices_levels:
  "add_slices H p sn fuel ep pk depth par sls m w = Some (True, m1, w1) \<Longrightarrow>
     map level_view (tl_levels m1) = map level_view (tl_levels m) @ slice_plan depth par sls"
proof (induction depth par sls arbitrary: pk m w m1 w1 rule: slice_plan.induct)
  case (2 depth par mn mx g so ps subs rest)
  from "2.prems" obtain wa packager ma mb wb where
    s: "push_slice H p ep packager depth (or_source so par) g mn mx wa m = (True, ma)"
      "add_slices H p sn fuel ep packager (depth + 1) (or_source so par) subs ma wa = Some (True, mb, wb)"
      "add_slices H p sn fuel ep pk depth par rest mb wb = Some (True, m1, w1)"
    by (auto split: option.splits prod.splits if_splits)
  from push_slice_levels [OF s(1)] "2.IH"(1) [OF s(2)] "2.IH"(2) [OF s(3)] show ?case by simp
qed simp

lemma slice_plan_depth: "lv \<in> set (slice_plan depth par sls) \<Longrightarrow> depth \<le> fst lv"
  by (induction depth par sls rule: slice_plan.induct) (auto split: if_splits)

text \<open>A part of a slice keeps the settings of its packager that it does not set itself.\<close>

lemma slice_packager_inherits:
  "find_property ps ''max_texture_size'' = None \<Longrightarrow> find_property ps ''compress_textures'' = None \<Longrightarrow>
     find_property ps ''inline_textures'' = None \<Longrightarrow> pk_max d < 2 ^ 32 \<Longrightarrow>
     slice_packager ps (Some d) = Some (Some d)"
  by (cases d) (auto simp: slice_packager_def props_get_int_def props_get_bool_def normalize_def
      replace_char_def set_max_texture_size_def max_size_signed_def)

section \<open>Cells\<close>

text \<open>A layer that is cut by numbers has a grid of these numbers.\<close>

lemma counted_axis:
  assumes "len > 0" "1 \<le> n" "n < 2 ^ 31"
  shows "\<exists>a. layer_axis len (len / of_int n) = Some a \<and> ax_count a = nat n"
proof -
  have "len / (len / of_int n) = of_int n" using assms by simp
  moreover have "len / of_int n > 0" using assms by simp
  ultimately show ?thesis using assms
    by (auto simp: layer_axis_def axis_of_cell_def ceil_count_def Let_def)
qed

lemma counted_grid:
  assumes c: "set_cell_size atof ps m = Some m1"
    and v: "is_valid (area_of_interest m)" "get_width (area_of_interest m) > 0" "get_height (area_of_interest m) > 0"
    and n: "find_property ps ''col_size'' = None" "props_get_int ps ''num_cols'' 1 = Some nc" "nc < 2 ^ 31"
      "props_get_int ps ''num_rows'' 1 = Some nr" "nr < 2 ^ 31"
  shows "map_option fst (num_cell_columns m1) = Some (nat (max 1 nc)) \<and>
    map_option fst (num_cell_rows m1) = Some (nat (max 1 nr))"
proof -
  let ?a = "area_of_interest m"
  have "normalize ''col_size'' = ''col_size''" by (simp add: normalize_def replace_char_def)
  with c n have m1: "m1 = (set_cell_height (get_height ?a / of_int (max 1 nr))
      (set_cell_width (get_width ?a / of_int (max 1 nc)) m))
      \<lparr>tl_encode_radius := props_get_bool ps ''encode_cell_radius'' True\<rparr>"
    by (simp add: set_cell_size_def props_get_double_def Let_def)
  obtain cols where "layer_axis (get_width ?a) (get_width ?a / of_int (max 1 nc)) = Some cols" "ax_count cols = nat (max 1 nc)"
    using counted_axis [of "get_width ?a" "max 1 nc"] v n by auto
  moreover obtain rows where "layer_axis (get_height ?a) (get_height ?a / of_int (max 1 nr)) = Some rows" "ax_count rows = nat (max 1 nr)"
    using counted_axis [of "get_height ?a" "max 1 nr"] v n by auto
  moreover have "area_of_interest m1 = ?a"
    by (simp add: m1 area_of_interest_def set_cell_height_def set_cell_width_def)
  ultimately show ?thesis using v
    by (simp add: num_cell_columns_def num_cell_rows_def valid_grid_def recalculate_grid_def m1 Let_def
        set_cell_height_def set_cell_width_def)
qed

section \<open>Results\<close>

text \<open>The layers are built in order up to the first that fails.\<close>

lemma build_layers_append:
  "build_layers H p t fuel (xs @ ys) b =
     (case build_layers H p t fuel xs b of
        None \<Rightarrow> None
      | Some (ok, b1) \<Rightarrow> if ok then build_layers H p t fuel ys b1 else Some (False, b1))"
  by (induction xs arbitrary: b) (auto split: option.splits)

text \<open>
  Once the levels and the size of the cells are there the build succeeds, whatever the compiler returns
  and whether its result is written or not.
\<close>

lemma compile_result_ignored:
  assumes "open_output H file w = (archive, out_file, w1)"
    and "layer_packager H (bl_props layer) archive out_file = Some packager"
    and "add_slices H p sn fuel (bl_env_props layer) (Some packager) 0 (bl_source layer) (bl_slices layer)
      (tiled_layer_new (fst (bh_new_cells H)) (snd (bh_new_cells H))) w1 = Some (True, m, w2)"
    and "set_cell_size (bh_atof H) (bl_props layer) m = Some m1"
  shows "\<exists>w3. compile_output H p t fuel layer sn ter file opt w = Some (True, w3)"
  using assms by (auto simp: compile_output_def Let_def)

lemma no_compiler_for_correlated: "cj_type job = TYPE_CORRELATED \<Longrightarrow> run_compiler H job m sn k opt w = w"
  by (simp add: run_compiler_def has_compiler_def)

end
