(* ===== verification/Build_Sample.thy ===== *)
theory Build_Sample
  imports Map_Sample Builder_Correct
begin

text \<open>
  Values for the witnesses on builds: a disk of files with their times, a host that makes a file with
  the time 9, and a project of a source, one that is made from it, and a layer of two slices.
\<close>

type_synonym disk = "(string \<times> int) list"

definition sample_host :: "(disk, unit, unit, unit srs, unit, unit, unit) host" where
  "sample_host =
     \<lparr>bh_real_path = (\<lambda>u. u), bh_concat = (\<lambda>u v. u @ ''/'' @ v), bh_dir_of = (\<lambda>u. ''out''), bh_ext_of = (\<lambda>u. ''ive''),
      bh_less_ext = (\<lambda>u. u), bh_make_dir = (\<lambda>u w. (True, w)), bh_make_dir_for = (\<lambda>u w. w),
      bh_exists = (\<lambda>u w. True), bh_stat = (\<lambda>u w. map_of w u), bh_read_file = (\<lambda>u w. None), bh_after_buffer = [],
      bh_connect = (\<lambda>u w. map_option (\<lambda>_. (sample_store, True)) (map_of w u)), bh_srs_of_wkt = (\<lambda>u. None),
      bh_layers = \<lparr>lv_extent = (\<lambda>l. sample_box 1 1 5 3), lv_srs = layer_srs\<rparr>, bh_vt = ogr_vt sample_lib,
      bh_compute_store = (\<lambda>g l e u w. (True, (u, 9) # w)), bh_new_env = (\<lambda>x. sample_env), bh_new_library = (),
      bh_add_resource = (\<lambda>r x. x), bh_packager_object = (\<lambda>k. ()), bh_read_node = (\<lambda>u w. None),
      bh_geographic = (\<lambda>s. False), bh_geocentric_of = (\<lambda>s. None), bh_srs_of_node = (\<lambda>n. None), bh_wgs84 = None,
      bh_atof = (\<lambda>u. 0), bh_open_archive = (\<lambda>u w. ((), w)), bh_write_dummy = (\<lambda>a u w. w), bh_close = (\<lambda>a w. w),
      bh_processors = 2, bh_new_cells = (0, 0), bh_compile = (\<lambda>j m x k w. (None, w)),
      bh_package_node = (\<lambda>k opt n u w. (True, w))\<rparr>"

definition sample_raw :: source where
  "sample_raw = \<lparr>src_name = ''raw'', src_uri = ''/raw'', src_base = [], src_type = TYPE_FEATURE, src_graph = None,
     src_parent = None\<rparr>"

definition sample_made :: source where
  "sample_made = \<lparr>src_name = ''made'', src_uri = ''/made'', src_base = [], src_type = TYPE_FEATURE,
     src_graph = Some 0, src_parent = Some 0\<rparr>"

definition sample_build :: "(unit, unit, unit srs, unit) project" where
  "sample_build = project_new
     \<lparr>prj_graphs := [\<lparr>gr_name = ''g'', gr_filters = []\<rparr>], prj_sources := [sample_raw, sample_made]\<rparr>"

definition sample_session :: "(unit resource, unit) session" where
  "sample_session = session_new ()"

text \<open>Both files have one time.\<close>

definition sample_disk :: disk where
  "sample_disk = [(''/raw'', 5), (''/made'', 5)]"

definition sample_slices :: "unit slice list" where
  "sample_slices = [Slice 0 100 (Some 0) (Some 1) [] [Slice 0 50 (Some 0) None [] []]]"

lemmas sample_build_defs = sample_host_def sample_raw_def sample_made_def sample_build_def sample_disk_def
  sample_slices_def project_new_def

lemma sample_build_ok: "refs_ok sample_build" "length (prj_sources sample_build) = 2"
  by (simp_all add: sample_build_defs refs_ok_def)

lemma sample_times:
  "source_time sample_host (prj_sources sample_build ! 0) sample_disk = 5"
  "source_time sample_host (prj_sources sample_build ! 1) sample_disk = 5"
  by (simp_all add: sample_build_defs source_time_def source_abs_uri_def get_abs_path_def is_abs_path_def
      file_time_def)

lemma sample_acyclic: "acyclic (same_time_parents sample_host sample_build sample_disk)"
proof -
  have "same_time_parents sample_host sample_build sample_disk \<subseteq> {(1, 0)}"
    by (auto simp: same_time_parents_def sample_build_ok less_Suc_eq numeral_2_eq_2)
      (auto simp: sample_build_def project_new_def sample_raw_def sample_made_def)
  moreover have "acyclic {(1::nat, 0::nat)}" by (simp add: acyclic_def [of "{}"])
  ultimately show ?thesis by (rule acyclic_subset [rotated])
qed

lemma sample_layer:
  "create_feature_layer sample_host u w =
     map_option (\<lambda>_. feature_layer_new (Some sample_store)) (map_of w u)"
  by (cases "map_of w u")
    (simp_all add: create_feature_layer_def sample_host_def layer_srs_def feature_layer_new_def)

lemma sample_source_built:
  "build_source sample_host sample_build sample_session 3 1 sample_disk =
     Some (True, (''/made'', 9) # sample_disk)"
  by (simp add: sample_build_defs numeral_3_eq_3 is_intermediate_def source_time_def source_abs_uri_def
      get_abs_path_def is_abs_path_def file_time_def create_feature_layer_def Let_def feature_layer_new_def
      layer_srs_def compile_feature_store_def)

lemma sample_slices_added:
  "\<exists>m w. add_slices sample_host sample_build sample_session 3 [] (Some packager_new) 0 None sample_slices
     (tiled_layer_new 0 0) sample_disk = Some (True, m, w)"
proof -
  have u: "source_abs_uri sample_host (prj_sources sample_build ! Suc 0) = ''/made''"
    by (simp add: source_abs_uri_def get_abs_path_def is_abs_path_def sample_build_defs)
  show ?thesis
    using sample_source_built
    by (auto simp: sample_layer sample_slices_def build_slice_source_def slice_packager_def props_get_int_def
        props_get_bool_def push_slice_def or_source_def u)
qed

definition sample_counts :: "unit property list" where
  "sample_counts = [prop_int ''num_cols'' 4, prop_int ''num_rows'' 2]"

lemma sample_counts_read:
  "props_get_int sample_counts ''num_cols'' 1 = Some 4" "props_get_int sample_counts ''num_rows'' 1 = Some 2"
  "find_property sample_counts ''col_size'' = None"
proof -
  have n: "normalize ''num_cols'' = ''num_cols''" "normalize ''num_rows'' = ''num_rows''"
    by (simp_all add: normalize_def replace_char_def)
  have p: "pname (prop_int m i :: unit property) = normalize m" for m i by (simp add: prop_int_def)
  show "props_get_int sample_counts ''num_cols'' 1 = Some 4" "props_get_int sample_counts ''num_rows'' 1 = Some 2"
    by (simp_all add: props_get_int_def sample_counts_def n p prop_int_roundtrip in_int_range_def)
  show "find_property sample_counts ''col_size'' = None" by (simp add: sample_counts_def n p)
qed

end
