(* ===== verification/Report.thy ===== *)
theory Report
  imports Property
begin

text \<open>
  \<^verbatim>\<open>src/osgGIS/Report.cpp\<close>: what a process reports of itself: a state that warnings and errors make
  worse, its messages, and how long its runs took. Clock ticks are integers, a duration is what the
  clock makes of two of them (an argument), and sub-reports are pointers (\<open>'p\<close>).
\<close>

datatype report_state = STATE_OK | STATE_WARNING | STATE_ERROR

fun state_value :: "report_state \<Rightarrow> nat" where
  "state_value STATE_OK = 0"
| "state_value STATE_WARNING = 10"
| "state_value STATE_ERROR = 20"

record ('p, 'o) report =
  rp_name :: string
  rp_state :: report_state
  rp_first_start :: int
  rp_start :: int
  rp_end :: int
  rp_durations :: "real list"
  rp_subs :: "'p list"
  rp_messages :: "string list"
  rp_props :: "'o property list"

definition report_new :: "('p, 'o) report" where
  "report_new =
     \<lparr>rp_name = [], rp_state = STATE_OK, rp_first_start = 0, rp_start = 0, rp_end = 0, rp_durations = [],
      rp_subs = [], rp_messages = [], rp_props = []\<rparr>"

definition report_copy :: "('p, 'o) report \<Rightarrow> ('p, 'o) report" where
  "report_copy r =
     \<lparr>rp_name = rp_name r, rp_state = rp_state r, rp_first_start = rp_first_start r, rp_start = rp_start r,
      rp_end = rp_end r, rp_durations = rp_durations r, rp_subs = rp_subs r, rp_messages = rp_messages r,
      rp_props = rp_props r\<rparr>"

definition set_report_state :: "report_state \<Rightarrow> bool \<Rightarrow> ('p, 'o) report \<Rightarrow> ('p, 'o) report" where
  "set_report_state new_state force_upgrade r =
     (if state_value new_state > state_value (rp_state r) \<or> force_upgrade then r\<lparr>rp_state := new_state\<rparr> else r)"

definition mark_start_time :: "int \<Rightarrow> ('p, 'o) report \<Rightarrow> ('p, 'o) report" where
  "mark_start_time now r =
     (let r1 = r\<lparr>rp_start := now\<rparr> in if rp_first_start r1 = 0 then r1\<lparr>rp_first_start := rp_start r1\<rparr> else r1)"

definition mark_end_time :: "(int \<Rightarrow> int \<Rightarrow> real) \<Rightarrow> int \<Rightarrow> ('p, 'o) report \<Rightarrow> ('p, 'o) report" where
  "mark_end_time delta_s now r =
     r\<lparr>rp_end := now, rp_durations := rp_durations r @ [delta_s (rp_start r) now]\<rparr>"

definition get_duration :: "('p, 'o) report \<Rightarrow> real" where
  "get_duration r = foldl (+) 0 (rp_durations r)"

definition get_average_duration :: "('p, 'o) report \<Rightarrow> real" where
  "get_average_duration r =
     (if length (rp_durations r) > 0 then get_duration r / of_nat (length (rp_durations r)) else 0)"

definition get_max_duration :: "('p, 'o) report \<Rightarrow> real" where
  "get_max_duration r = foldl (\<lambda>most d. if d > most then d else most) 0 (rp_durations r)"

definition get_min_duration :: "('p, 'o) report \<Rightarrow> real" where
  "get_min_duration r = foldl (\<lambda>least d. if least = 0 \<or> d < least then d else least) 0 (rp_durations r)"

definition add_sub_report :: "'p \<Rightarrow> ('p, 'o) report \<Rightarrow> ('p, 'o) report" where
  "add_sub_report s r = r\<lparr>rp_subs := rp_subs r @ [s]\<rparr>"

definition report_set_property :: "'o property \<Rightarrow> ('p, 'o) report \<Rightarrow> ('p, 'o) report" where
  "report_set_property p r = r\<lparr>rp_props := props_set (rp_props r) p\<rparr>"

text \<open>The text with the severity in front is made, but the message itself is stored.\<close>

definition report_notice :: "string \<Rightarrow> ('p, 'o) report \<Rightarrow> ('p, 'o) report" where
  "report_notice msg r = r\<lparr>rp_messages := rp_messages r @ [msg]\<rparr>"

definition report_warning :: "string \<Rightarrow> ('p, 'o) report \<Rightarrow> ('p, 'o) report" where
  "report_warning msg r =
     set_report_state STATE_WARNING False (r\<lparr>rp_messages := rp_messages r @ [msg]\<rparr>)"

definition report_failure :: "string \<Rightarrow> ('p, 'o) report \<Rightarrow> ('p, 'o) report" where
  "report_failure msg r = set_report_state STATE_ERROR False (r\<lparr>rp_messages := rp_messages r @ [msg]\<rparr>)"

section \<open>Facts\<close>

datatype report_event = Notice string | Warning string | Failure string

fun log_event :: "report_event \<Rightarrow> ('p, 'o) report \<Rightarrow> ('p, 'o) report" where
  "log_event (Notice m) r = report_notice m r"
| "log_event (Warning m) r = report_warning m r"
| "log_event (Failure m) r = report_failure m r"

fun event_state :: "report_event \<Rightarrow> report_state" where
  "event_state (Notice m) = STATE_OK"
| "event_state (Warning m) = STATE_WARNING"
| "event_state (Failure m) = STATE_ERROR"

fun event_message :: "report_event \<Rightarrow> string" where
  "event_message (Notice m) = m"
| "event_message (Warning m) = m"
| "event_message (Failure m) = m"

lemma log_event_state:
  "state_value (rp_state (log_event e r)) = max (state_value (rp_state r)) (state_value (event_state e))"
  by (cases e; cases "rp_state r")
    (simp_all add: report_notice_def report_warning_def report_failure_def set_report_state_def)

text \<open>The state of a report is the worst of what was logged, and every message is kept in order.\<close>

lemma report_state_is_worst:
  "state_value (rp_state (foldl (\<lambda>r e. log_event e r) r es)) =
     fold max (map (\<lambda>e. state_value (event_state e)) es) (state_value (rp_state r))"
  by (induction es arbitrary: r) (simp_all add: log_event_state max.commute)

lemma report_keeps_messages:
  "rp_messages (foldl (\<lambda>r e. log_event e r) r es) = rp_messages r @ map event_message es"
proof (induction es arbitrary: r)
  case (Cons e es)
  have "rp_messages (log_event e r) = rp_messages r @ [event_message e]"
    by (cases e) (simp_all add: report_notice_def report_warning_def report_failure_def set_report_state_def)
  with Cons show ?case by simp
qed simp

lemma report_copy_same [simp]: "report_copy r = r" by (simp add: report_copy_def)

text \<open>The shortest duration is found when all are positive; a zero is taken for no value.\<close>

lemma min_from:
  "list_all (\<lambda>d. d > 0) ds \<Longrightarrow> m > 0 \<Longrightarrow>
     foldl (\<lambda>least d. if least = 0 \<or> d < least then d else least) m ds = Min (set (m # ds :: real list))"
proof (induction ds arbitrary: m)
  case (Cons d ds)
  have "Min (insert (min m d) (set ds)) = Min (insert m (insert d (set ds)))"
    by (cases "ds = []") (simp_all add: min.assoc)
  with Cons show ?case by (auto simp: min_def)
qed simp

lemma min_duration:
  assumes "rp_durations r = d # ds" and "list_all (\<lambda>d. d > 0) (d # ds)"
  shows "get_min_duration r = Min (set (d # ds))"
  using assms min_from [of ds d] by (simp add: get_min_duration_def)

lemma zero_duration_forgotten:
  "rp_durations r = [0, 5] \<Longrightarrow> get_min_duration r = 5"
  by (simp add: get_min_duration_def)

lemma max_from: "foldl (\<lambda>most d. if d > most then d else most) m ds = Max (set (m # ds :: real list))"
proof -
  have "(\<lambda>most d. if d > most then d else most) = (max :: real \<Rightarrow> _)" by (auto simp: max_def fun_eq_iff)
  moreover have "foldl max m ds = Max (set (m # ds))"
    by (induction ds arbitrary: m) (auto simp: Max_insert_max)
  ultimately show ?thesis by simp
qed

lemma max_duration: "get_max_duration r = Max (set (0 # rp_durations r))"
  by (simp only: get_max_duration_def max_from)

end
