(* ===== verification/Image_Size.thy ===== *)
theory Image_Size
  imports Prelude "HOL-Library.Word"
begin

text \<open>
  The sizes of textures in \<^verbatim>\<open>src/osgGIS/ImageUtils.cpp\<close>: rounding to a power of two, on unsigned words of
  any width, as \<open>unsigned long\<close> has a width of its own on every platform.
\<close>

unbundle bit_operations_syntax

section \<open>Rounding\<close>

lemma fill_grows: "x AND (x + 1) \<noteq> 0 \<Longrightarrow> unat (x OR (x + 1)) > unat x" for x :: "'a::len word"
proof -
  assume a: "x AND (x + 1) \<noteq> 0"
  then have "x + 1 \<noteq> 0" by auto
  then have "unat x < unat (x + 1)" by (simp add: unatSuc add.commute)
  also have "unat (x + 1) \<le> unat (x OR (x + 1))"
    by (metis le_word_or2 or.commute word_le_nat_alt)
  finally show ?thesis .
qed

text \<open>The loop sets the lowest zero bit until there is none below the highest one.\<close>

function fill_ones :: "'a::len word \<Rightarrow> 'a word" where
  "fill_ones x = (if x AND (x + 1) \<noteq> 0 then fill_ones (x OR (x + 1)) else x)"
  by pat_completeness auto
termination
proof (relation "measure (\<lambda>x. 2 ^ LENGTH('a) - unat x)", goal_cases)
  case (2 x)
  have "unat (x OR (x + 1)) < 2 ^ LENGTH('a)" by (rule unsigned_less)
  with 2 show ?case using diff_less_mono2 [OF fill_grows [of x], of "2 ^ LENGTH('a)"] fill_grows [of x] by auto
qed simp

declare fill_ones.simps [simp del]

definition round_up_to_power_of_2 :: "'a::len word \<Rightarrow> 'a word \<Rightarrow> 'a word" where
  "round_up_to_power_of_2 x c =
     (if x AND (x - 1) = 0 then x
      else (let y = fill_ones x in if c = 0 then y + 1 else max (y + 1) c))"

definition round_to_nearest_power_of_2 :: "'a::len word \<Rightarrow> 'a word" where
  "round_to_nearest_power_of_2 x =
     (let n1 = round_up_to_power_of_2 x 0; n0 = n1 div 2 in if n1 - x \<le> x - n0 then n1 else n0)"

section \<open>Powers of two\<close>

lemma power_of_2_nat: "x AND (x - 1) = 0 \<Longrightarrow> 0 < x \<Longrightarrow> \<exists>k. x = 2 ^ k" for x :: nat
proof (induction x rule: less_induct)
  case (less x)
  have r: "x AND (x - 1) = of_bool (odd x \<and> odd (x - 1)) + 2 * ((x div 2) AND ((x - 1) div 2))"
    by (rule and_nat_rec)
  show ?case
  proof (cases "even x")
    case True
    with less.prems have "0 < x div 2" "x div 2 < x" "(x - 1) div 2 = x div 2 - 1" by auto
    moreover have "(x div 2) AND (x div 2 - 1) = 0" using r less.prems(1) calculation(3) by simp
    ultimately obtain k where "x div 2 = 2 ^ k" using less.IH by blast
    with True have "x = 2 ^ Suc k" by (metis dvd_mult_div_cancel power_Suc)
    then show ?thesis by blast
  next
    case False
    then have "(x - 1) div 2 = x div 2" by (auto elim: oddE)
    with r less.prems(1) have "x div 2 = 0" by simp
    with False less.prems(2) have "x = 2 ^ 0" by (auto elim: oddE)
    then show ?thesis by blast
  qed
qed

lemma power_of_2_word: "x AND (x - 1) = 0 \<Longrightarrow> x \<noteq> 0 \<Longrightarrow> \<exists>k. unat x = 2 ^ k" for x :: "'a::len word"
proof -
  assume a: "x AND (x - 1) = 0" and x: "x \<noteq> 0"
  then have "unat x AND (unat x - 1) = 0"
    by (metis unat_0 unat_minus_one unsigned_and_eq)
  moreover have "0 < unat x" using x by (simp add: unat_gt_0)
  ultimately show ?thesis by (rule power_of_2_nat)
qed

lemma or_nat_less: "a < 2 ^ k \<Longrightarrow> b < 2 ^ k \<Longrightarrow> a OR b < 2 ^ k" for a b :: nat
proof -
  assume "a < 2 ^ k" "b < 2 ^ k"
  then have "int a < 2 ^ k" "int b < 2 ^ k" by (simp_all flip: of_nat_less_iff)
  then have "int a OR int b < 2 ^ k" by (intro OR_upper) simp_all
  then show "a OR b < 2 ^ k" by (simp add: or_nat_def nat_less_iff)
qed

lemma mask_and_exp: "mask k AND 2 ^ k = (0 :: nat)"
  by (rule bit_eqI) (auto simp: bit_and_iff bit_mask_iff bit_exp_iff)

lemma fill_ones_stops: "fill_ones x AND (fill_ones x + 1) = 0"
  by (induction x rule: fill_ones.induct) (subst (1 2) fill_ones.simps, simp)

lemma fill_ones_grows: "unat x \<le> unat (fill_ones x)"
proof (induction x rule: fill_ones.induct)
  case (1 x)
  then show ?case using fill_grows [of x] by (subst fill_ones.simps) auto
qed

lemma fill_ones_below: "unat x < 2 ^ k \<Longrightarrow> k < LENGTH('a) \<Longrightarrow> unat (fill_ones x) < 2 ^ k" for x :: "'a::len word"
proof (induction x rule: fill_ones.induct)
  case (1 x)
  show ?case
  proof (cases "x AND (x + 1) = 0")
    case True
    then show ?thesis using "1.prems" by (subst fill_ones.simps) simp
  next
    case False
    have u: "unat (x + 1) = unat x + 1"
      using False by (metis bit.conj_zero_right add.commute unatSuc plus_1_eq_Suc)
    have "unat x + 1 < 2 ^ k"
    proof (rule ccontr)
      assume "\<not> unat x + 1 < 2 ^ k"
      with "1.prems" have e: "unat x = 2 ^ k - 1" by simp
      have "unat (x AND (x + 1)) = (2 ^ k - 1) AND (2 ^ k)"
        by (simp add: unsigned_and_eq u e)
      also have "\<dots> = mask k AND 2 ^ k" by (simp only: mask_eq_exp_minus_1)
      also have "\<dots> = 0" by (rule mask_and_exp)
      finally show False using False by (simp add: unat_eq_zero)
    qed
    then have "unat (x OR (x + 1)) < 2 ^ k"
      using "1.prems"(1) or_nat_less [of "unat x" k "unat x + 1"] by (simp add: unsigned_or_eq u)
    then show ?thesis using False "1.IH" "1.prems" by (subst fill_ones.simps) simp
  qed
qed

text \<open>Without a cap the result is the least power of two that is not below, if there is room for it.\<close>

lemma round_up_least:
  fixes x :: "'a::len word"
  assumes x: "x \<noteq> 0" and r: "unat x \<le> 2 ^ (LENGTH('a) - 1)"
  shows "\<exists>k. unat (round_up_to_power_of_2 x 0) = 2 ^ k \<and> unat x \<le> 2 ^ k \<and> 2 ^ k < 2 * unat x"
proof (cases "x AND (x - 1) = 0")
  case True
  with power_of_2_word [OF True x] x show ?thesis
    by (auto simp: round_up_to_power_of_2_def unat_gt_0)
next
  case False
  have pos: "0 < unat x" using x by (simp add: unat_gt_0)
  obtain k where k: "2 ^ k \<le> unat x" "unat x < 2 ^ (k + 1)"
    using ex_power_ivl1 [of 2 "unat x"] pos by auto
  have nk: "unat x \<noteq> 2 ^ j" for j
  proof
    assume e: "unat x = 2 ^ j"
    then have "unat (x AND (x - 1)) = 2 ^ j AND (2 ^ j - 1)" using x by (simp add: unsigned_and_eq unat_minus_one)
    also have "\<dots> = 2 ^ j AND mask j" by (simp only: mask_eq_exp_minus_1)
    also have "\<dots> = 0" by (simp only: mask_and_exp and.commute)
    finally show False using False by (simp add: unat_eq_zero)
  qed
  have lt: "2 ^ k < unat x" using k(1) nk [of k] by simp
  with r have "(2 :: nat) ^ k < 2 ^ (LENGTH('a) - 1)" by linarith
  then have "k < LENGTH('a) - 1" by simp
  then have kl: "k + 1 < LENGTH('a)" by simp
  let ?y = "fill_ones x"
  have y: "unat x \<le> unat ?y" "unat ?y < 2 ^ (k + 1)"
    using fill_ones_grows fill_ones_below [OF k(2) kl] by auto
  have "2 ^ (k + 1) < (2 :: nat) ^ LENGTH('a)" using kl by (intro power_strict_increasing) auto
  then have u: "unat (?y + 1) = unat ?y + 1" using y(2) by (simp add: unat_word_ariths)
  then have "?y + 1 \<noteq> 0" by (metis add_is_0 unat_0 zero_neq_one)
  moreover have "(?y + 1) AND (?y + 1 - 1) = 0" using fill_ones_stops [of x] by (simp add: and.commute)
  ultimately obtain j where j: "unat (?y + 1) = 2 ^ j" using power_of_2_word by blast
  have "(2 :: nat) ^ k < 2 ^ j" "(2 :: nat) ^ j \<le> 2 ^ (k + 1)" using j u y k(1) by linarith+
  then have "k < j" "j \<le> k + 1" by (simp_all only: power_strict_increasing_iff power_increasing_iff one_less_numeral_iff semiring_norm)
  then have "j = k + 1" by simp
  with j u y lt False show ?thesis
    by (intro exI [of _ "k + 1"]) (simp add: round_up_to_power_of_2_def Let_def)
qed

text \<open>The cap is a lower bound of what is returned, not an upper one, and powers of two ignore it.\<close>

lemma cap_is_lower_bound: "x AND (x - 1) \<noteq> 0 \<Longrightarrow> c \<noteq> 0 \<Longrightarrow> c \<le> round_up_to_power_of_2 x c"
  by (simp add: round_up_to_power_of_2_def Let_def)

lemma power_ignores_cap: "round_up_to_power_of_2 (64 :: 32 word) 16 = 64"
  by (simp add: round_up_to_power_of_2_def)

text \<open>The nearest power of two is one of the two around the size; a tie is rounded up.\<close>

lemma nearest_is_around:
  "round_to_nearest_power_of_2 x \<in> {round_up_to_power_of_2 x 0, round_up_to_power_of_2 x 0 div 2}"
  by (simp add: round_to_nearest_power_of_2_def Let_def)

lemma nearest_distance:
  fixes x :: "'a::len word"
  assumes x: "x \<noteq> 0" and r: "unat x \<le> 2 ^ (LENGTH('a) - 1)"
  shows "\<exists>k. unat (round_up_to_power_of_2 x 0) = 2 ^ k \<and>
    unat (round_to_nearest_power_of_2 x) =
      (if 2 ^ k - unat x \<le> unat x - 2 ^ k div 2 then 2 ^ k else 2 ^ k div 2)"
proof -
  obtain k where k: "unat (round_up_to_power_of_2 x 0) = 2 ^ k" "unat x \<le> 2 ^ k" "2 ^ k < 2 * unat x"
    using round_up_least [OF x r] by blast
  let ?n = "round_up_to_power_of_2 x 0"
  have d: "unat (?n div 2) = 2 ^ k div 2" 
  proof -
    have "(2 :: nat) ^ k < 2 ^ LENGTH('a)" by (metis k(1) unsigned_less)
    then have "k < LENGTH('a)" by simp
    then show ?thesis by (cases "LENGTH('a) = 1") (auto simp: unat_div k(1))
  qed
  have "unat (?n - x) = 2 ^ k - unat x" using k by (simp add: unat_sub word_le_nat_alt)
  moreover have "unat (x - ?n div 2) = unat x - 2 ^ k div 2" using k d by (subst unat_sub) (auto simp: word_le_nat_alt)
  ultimately show ?thesis using k d
    by (auto simp: round_to_nearest_power_of_2_def Let_def word_le_nat_alt)
qed

end
