(* ===== verification/Image_Copy.thy ===== *)
theory Image_Copy
  imports Prelude
begin

text \<open>
  Copying and resizing of images in \<^verbatim>\<open>src/osgGIS/ImageUtils.cpp\<close>, on the bytes of an image. OSG keeps the
  rows one after the other, each padded to a multiple of the packing; the size of a pixel follows from
  its format and type. \<open>None\<close> is a copy outside of the bytes of an image, or a division by zero.
\<close>

record 'b image =
  im_s :: nat
  im_t :: nat
  im_format :: nat
  im_type :: nat
  im_packing :: nat
  im_pixel :: nat
  im_data :: "'b list"

text \<open>What OSG computes: the bytes of a row, and where a pixel begins.\<close>

definition row_bytes :: "'b image \<Rightarrow> nat" where
  "row_bytes im = im_packing im * ((im_s im * im_pixel im + im_packing im - 1) div im_packing im)"

definition data_at :: "'b image \<Rightarrow> int \<Rightarrow> int \<Rightarrow> int" where
  "data_at im col row = col * int (im_pixel im) + row * int (row_bytes im)"

definition mem_copy :: "'b list \<Rightarrow> int \<Rightarrow> 'b list \<Rightarrow> int \<Rightarrow> nat \<Rightarrow> 'b list option" where
  "mem_copy dst d src p n =
     (if 0 \<le> p \<and> p + int n \<le> int (length src) \<and> 0 \<le> d \<and> d + int n \<le> int (length dst)
      then Some (take (nat d) dst @ take n (drop (nat p) src) @ drop (nat d + n) dst) else None)"

section \<open>Sub-images\<close>

fun copy_rows :: "'b image \<Rightarrow> int \<Rightarrow> int \<Rightarrow> nat list \<Rightarrow> 'b image \<Rightarrow> 'b image option" where
  "copy_rows src col row [] dst = Some dst"
| "copy_rows src col row (k # ks) dst =
     do { bytes \<leftarrow> mem_copy (im_data dst) (data_at dst col (row + int k)) (im_data src) (data_at src 0 (int k)) (row_bytes src);
          copy_rows src col row ks (dst\<lparr>im_data := bytes\<rparr>) }"

definition copy_as_sub_image ::
  "'b image option \<Rightarrow> 'b image option \<Rightarrow> int \<Rightarrow> int \<Rightarrow> (bool \<times> 'b image option) option" where
  "copy_as_sub_image src dst col row =
     (case (src, dst) of
        (Some a, Some b) \<Rightarrow>
          if im_packing a \<noteq> im_packing b \<or> im_type a \<noteq> im_type b \<or> im_format a \<noteq> im_format b \<or>
             col + int (im_s a) > int (im_s b) \<or> row + int (im_t a) > int (im_t b)
          then Some (False, Some b)
          else map_option (\<lambda>c. (True, Some c)) (copy_rows a col row [0..<im_t a] b)
      | _ \<Rightarrow> Some (False, dst))"

definition GL_ALPHA :: nat where "GL_ALPHA = 0x1906"
definition GL_RGB :: nat where "GL_RGB = 0x1907"
definition GL_RGBA :: nat where "GL_RGBA = 0x1908"
definition GL_LUMINANCE :: nat where "GL_LUMINANCE = 0x1909"
definition GL_LUMINANCE_ALPHA :: nat where "GL_LUMINANCE_ALPHA = 0x190A"
definition GL_BGRA :: nat where "GL_BGRA = 0x80E1"

definition has_alpha :: "'b image option \<Rightarrow> bool" where
  "has_alpha im =
     (case im of None \<Rightarrow> False
      | Some a \<Rightarrow> im_format a = GL_ALPHA \<or> im_format a = GL_LUMINANCE_ALPHA \<or> im_format a = GL_RGBA \<or> im_format a = GL_BGRA)"

section \<open>Resizing\<close>

text \<open>The row or column of the input for one of the output; \<open>0 \<le> input_row\<close> holds for an unsigned number.\<close>

definition input_index :: "nat \<Rightarrow> nat \<Rightarrow> nat \<Rightarrow> nat" where
  "input_index out size_in size_out =
     (let k = nat \<lfloor>of_nat out / of_nat size_out * of_nat size_in :: real\<rfloor>
      in if k \<ge> size_in then size_in - 1 else k)"

fun copy_pixels :: "'b image \<Rightarrow> nat \<Rightarrow> (nat \<times> nat) list \<Rightarrow> 'b image \<Rightarrow> 'b image option" where
  "copy_pixels input n [] output = Some output"
| "copy_pixels input n ((row, col) # ks) output =
     do { bytes \<leftarrow> mem_copy (im_data output) (data_at output (int col) (int row)) (im_data input)
            (data_at input (int (input_index col (im_s input) (im_s output))) (int (input_index row (im_t input) (im_t output)))) n;
          copy_pixels input n ks (output\<lparr>im_data := bytes\<rparr>) }"

text \<open>The bytes of a new image are what the memory holds, as far as its rows need them.\<close>

definition resize_image :: "(nat \<Rightarrow> 'b) \<Rightarrow> 'b image \<Rightarrow> nat \<Rightarrow> nat \<Rightarrow> 'b image option option" where
  "resize_image memory input new_s new_t =
     (if new_s > 0 \<and> new_t > 0 \<and> im_format input \<in> {GL_RGBA, GL_RGB, GL_LUMINANCE, GL_LUMINANCE_ALPHA}
      then (let empty = input\<lparr>im_s := new_s, im_t := new_t, im_data := []\<rparr>;
                output = empty\<lparr>im_data := map memory [0..<row_bytes empty * new_t]\<rparr>
            in if im_s input = 0 then None
               else map_option Some (copy_pixels input (row_bytes input div im_s input)
                      (concat (map (\<lambda>row. map (\<lambda>col. (row, col)) [0..<new_s]) [0..<new_t])) output))
      else Some None)"

section \<open>Facts\<close>

text \<open>An image without padding, with all of its bytes.\<close>

definition image_ok :: "'b image \<Rightarrow> bool" where
  "image_ok im \<longleftrightarrow> im_packing im = 1 \<and> 0 < im_pixel im \<and> length (im_data im) = im_t im * (im_s im * im_pixel im)"

lemma row_bytes_tight: "im_packing im = 1 \<Longrightarrow> row_bytes im = im_s im * im_pixel im"
  by (simp add: row_bytes_def)

lemma mem_copy_inside:
  assumes "p + n \<le> length src" "d + n \<le> length dst"
  shows "\<exists>r. mem_copy dst (int d) src (int p) n = Some r \<and> length r = length dst \<and>
    (\<forall>i < length dst. r ! i = (if d \<le> i \<and> i < d + n then src ! (p + (i - d)) else dst ! i))"
proof -
  have x: "length (take n (drop p src)) = n" "length (take d dst) = d" using assms by simp_all
  have "(take d dst @ take n (drop p src) @ drop (d + n) dst) ! i =
      (if d \<le> i \<and> i < d + n then src ! (p + (i - d)) else dst ! i)" if "i < length dst" for i
    using that assms
    by (auto simp: nth_append x less_diff_conv2 not_less simp del: length_take length_drop)
  moreover have "mem_copy dst (int d) src (int p) n = Some (take d dst @ take n (drop p src) @ drop (d + n) dst)"
    using assms by (simp add: mem_copy_def)
  moreover have "length (take d dst @ take n (drop p src) @ drop (d + n) dst) = length dst"
    unfolding length_append x using assms by simp
  ultimately show ?thesis by blast
qed

lemma in_row_iff:
  assumes "off < (R :: nat)" "a + S \<le> R"
  shows "a + k * R \<le> off + row * R \<and> off + row * R < a + k * R + S \<longleftrightarrow> row = k \<and> a \<le> off \<and> off < a + S"
proof -
  consider "row < k" | "row = k" | "k < row" by linarith
  then show ?thesis
  proof cases
    case 1
    then have "(row + 1) * R \<le> k * R" by (intro mult_le_mono1) simp
    with 1 assms show ?thesis by simp
  next
    case 3
    then have "(k + 1) * R \<le> row * R" by (intro mult_le_mono1) simp
    with 3 assms show ?thesis by simp
  qed auto
qed

text \<open>The bytes of the destination after the first rows were copied.\<close>

definition pasted :: "'b image \<Rightarrow> nat \<Rightarrow> nat \<Rightarrow> nat \<Rightarrow> nat \<Rightarrow> 'b image \<Rightarrow> nat \<Rightarrow> 'b" where
  "pasted src col row lo hi dst i =
     (let R = im_s dst * im_pixel dst; S = im_s src * im_pixel src; r = i div R; off = i mod R; a = col * im_pixel dst
      in if row + lo \<le> r \<and> r < row + hi \<and> a \<le> off \<and> off < a + S
         then im_data src ! ((r - row) * S + (off - a)) else im_data dst ! i)"

lemma copy_rows_pasted:
  assumes "image_ok src" "image_ok dst" "im_pixel src = im_pixel dst" "col + im_s src \<le> im_s dst"
    "row + hi \<le> im_t dst" "hi \<le> im_t src" "lo \<le> hi"
  shows "\<exists>out. copy_rows src (int col) (int row) [lo..<hi] dst = Some out \<and>
    length (im_data out) = length (im_data dst) \<and>
    (\<forall>i < length (im_data dst). im_data out ! i = pasted src col row lo hi dst i)"
  using assms(7,2,3,4,5)
proof (induction "hi - lo" arbitrary: lo dst)
  case 0
  then show ?case by (auto simp: pasted_def Let_def)
next
  case (Suc n)
  let ?R = "im_s dst * im_pixel dst" and ?S = "im_s src * im_pixel src" and ?a = "col * im_pixel dst"
  have lo: "lo < hi" using Suc.hyps(2) by simp
  have aS: "?a + ?S \<le> ?R"
    using mult_le_mono1 [OF Suc.prems(4), of "im_pixel dst"] Suc.prems(3) by (simp add: algebra_simps)
  have len: "length (im_data dst) = im_t dst * ?R" "length (im_data src) = im_t src * ?S"
    using Suc.prems(2) assms(1) by (simp_all add: image_ok_def)
  have "(lo + 1) * ?S \<le> im_t src * ?S" "(row + lo + 1) * ?R \<le> im_t dst * ?R"
    using lo assms(6) Suc.prems(5) by (intro mult_le_mono1; simp)+
  then have b: "lo * ?S + ?S \<le> length (im_data src)" "?a + (row + lo) * ?R + ?S \<le> length (im_data dst)"
    using aS len by (simp_all add: algebra_simps)
  obtain r where r: "mem_copy (im_data dst) (int (?a + (row + lo) * ?R)) (im_data src) (int (lo * ?S)) ?S = Some r"
      "length r = length (im_data dst)"
      "\<forall>i < length (im_data dst). r ! i =
         (if ?a + (row + lo) * ?R \<le> i \<and> i < ?a + (row + lo) * ?R + ?S
          then im_data src ! (lo * ?S + (i - (?a + (row + lo) * ?R))) else im_data dst ! i)"
    using mem_copy_inside [OF b] by blast
  let ?d = "dst\<lparr>im_data := r\<rparr>"
  have ok: "image_ok ?d" using Suc.prems(2) r(2) by (simp add: image_ok_def)
  have rb: "row_bytes dst = ?R" "row_bytes src = ?S"
    using Suc.prems(2) assms(1) by (simp_all add: row_bytes_tight image_ok_def)
  have step: "copy_rows src (int col) (int row) [lo..<hi] dst = copy_rows src (int col) (int row) [Suc lo..<hi] ?d"
    using lo r(1) by (simp add: upt_conv_Cons data_at_def rb algebra_simps)
  have "\<exists>out. copy_rows src (int col) (int row) [Suc lo..<hi] ?d = Some out \<and>
      length (im_data out) = length (im_data ?d) \<and>
      (\<forall>i < length (im_data ?d). im_data out ! i = pasted src col row (Suc lo) hi ?d i)"
    by (rule Suc.hyps(1)) (use Suc.hyps(2) Suc.prems lo ok in simp_all)
  then obtain out where out: "copy_rows src (int col) (int row) [Suc lo..<hi] ?d = Some out"
      "length (im_data out) = length r" "\<forall>i < length r. im_data out ! i = pasted src col row (Suc lo) hi ?d i"
    by (elim exE conjE) simp
  have "im_data out ! i = pasted src col row lo hi dst i" if i: "i < length (im_data dst)" for i
  proof -
    have R: "0 < ?R" using i len(1) by (cases "?R") auto
    let ?r = "i div ?R" and ?o = "i mod ?R"
    have o: "?o < ?R" "i = ?o + ?r * ?R" using R by (simp_all add: mod_div_mult_eq)
    have in_row: "?a + (row + lo) * ?R \<le> i \<and> i < ?a + (row + lo) * ?R + ?S \<longleftrightarrow> ?r = row + lo \<and> ?a \<le> ?o \<and> ?o < ?a + ?S"
      using in_row_iff [OF o(1) aS, of "row + lo" ?r] o(2) by simp
    have "r ! i = (if ?r = row + lo \<and> ?a \<le> ?o \<and> ?o < ?a + ?S
        then im_data src ! (lo * ?S + (?o - ?a)) else im_data dst ! i)"
    proof -
      have e: "i - (?a + (row + lo) * ?R) = ?o - ?a" if r: "?r = row + lo"
      proof -
        have "i = ?o + (row + lo) * ?R" using o(2) unfolding r .
        then show ?thesis by (metis add.commute diff_diff_left diff_add_inverse2)
      qed
      from r(3) i have "r ! i = (if ?a + (row + lo) * ?R \<le> i \<and> i < ?a + (row + lo) * ?R + ?S
          then im_data src ! (lo * ?S + (i - (?a + (row + lo) * ?R))) else im_data dst ! i)" by blast
      then show ?thesis unfolding in_row by (rule trans) (rule if_cong, use e in \<open>simp_all only: refl\<close>)
    qed
    with out(3) r(2) i lo show ?thesis by (auto simp: pasted_def Let_def)
  qed
  with step out r(2) show ?case by auto
qed

text \<open>Copying an image into another one changes its window and nothing else.\<close>

lemma sub_image_copied:
  assumes "image_ok src" "image_ok dst" "im_pixel src = im_pixel dst" "im_type src = im_type dst"
    "im_format src = im_format dst" "col + im_s src \<le> im_s dst" "row + im_t src \<le> im_t dst"
  shows "\<exists>out. copy_as_sub_image (Some src) (Some dst) (int col) (int row) = Some (True, Some out) \<and>
    length (im_data out) = length (im_data dst) \<and>
    (\<forall>i < length (im_data dst). im_data out ! i = pasted src col row 0 (im_t src) dst i)"
proof -
  obtain out where "copy_rows src (int col) (int row) [0..<im_t src] dst = Some out"
      "length (im_data out) = length (im_data dst)"
      "\<forall>i < length (im_data dst). im_data out ! i = pasted src col row 0 (im_t src) dst i"
    using copy_rows_pasted [OF assms(1-3,6,7)] by auto
  then show ?thesis using assms by (auto simp: copy_as_sub_image_def image_ok_def)
qed

text \<open>With padding the copied rows run over the pixels next to them.\<close>

lemma padding_overwrites:
  "copy_as_sub_image
     (Some \<lparr>im_s = 1, im_t = 1, im_format = GL_LUMINANCE, im_type = 0, im_packing = 4, im_pixel = 1, im_data = [1, 2, 3, 4 :: nat]\<rparr>)
     (Some \<lparr>im_s = 4, im_t = 1, im_format = GL_LUMINANCE, im_type = 0, im_packing = 4, im_pixel = 1, im_data = [9, 9, 9, 9]\<rparr>) 0 0 =
   Some (True, Some \<lparr>im_s = 4, im_t = 1, im_format = GL_LUMINANCE, im_type = 0, im_packing = 4, im_pixel = 1, im_data = [1, 2, 3, 4]\<rparr>)"
  by (simp add: copy_as_sub_image_def mem_copy_def data_at_def row_bytes_def)

text \<open>The chosen pixel is that of the same place, by whole numbers, and always inside.\<close>

lemma input_index_div:
  assumes "out < size_out" "0 < size_in"
  shows "input_index out size_in size_out = out * size_in div size_out"
proof -
  have "nat \<lfloor>of_nat out / of_nat size_out * of_nat size_in :: real\<rfloor> = out * size_in div size_out"
    by (simp add: floor_divide_of_nat_eq flip: of_nat_mult)
  moreover have "out * size_in div size_out < size_in"
    using assms by (simp add: div_less_iff_less_mult mult.commute)
  ultimately show ?thesis by (simp add: input_index_def)
qed

lemma input_index_bound: "0 < size_in \<Longrightarrow> input_index out size_in size_out < size_in"
  by (simp add: input_index_def Let_def)

lemma same_size_same_pixel: "out < n \<Longrightarrow> input_index out n n = out"
  by (simp add: input_index_div)

text \<open>Resizing an image without padding stays inside of both images.\<close>

lemma pixel_inside:
  assumes "image_ok im" "row < im_t im" "col < im_s im"
  shows "col * im_pixel im + row * row_bytes im + im_pixel im \<le> length (im_data im)"
proof -
  have "(col + 1) * im_pixel im \<le> im_s im * im_pixel im" using assms(3) by (intro mult_le_mono1) simp
  moreover have "(row + 1) * (im_s im * im_pixel im) \<le> im_t im * (im_s im * im_pixel im)"
    using assms(2) by (intro mult_le_mono1) simp
  ultimately show ?thesis using assms(1) by (simp add: image_ok_def row_bytes_tight)
qed

lemma copy_pixels_inside:
  assumes "image_ok input" "0 < im_s input" "0 < im_t input"
  shows "image_ok dst \<Longrightarrow> im_pixel dst = im_pixel input \<Longrightarrow>
     list_all (\<lambda>(row, col). row < im_t dst \<and> col < im_s dst) ks \<Longrightarrow>
     \<exists>bytes. copy_pixels input (im_pixel input) ks dst = Some (dst\<lparr>im_data := bytes\<rparr>) \<and>
       length bytes = length (im_data dst)"
proof (induction ks arbitrary: dst)
  case Nil
  then show ?case by (intro exI [of _ "im_data dst"]) simp
next
  case (Cons k ks)
  obtain row col where k: "k = (row, col)" "row < im_t dst" "col < im_s dst" using Cons.prems(3) by (cases k) auto
  let ?p = "input_index col (im_s input) (im_s dst) * im_pixel input +
    input_index row (im_t input) (im_t dst) * row_bytes input"
  have a: "?p + im_pixel input \<le> length (im_data input)"
    by (intro pixel_inside input_index_bound assms)
  have b: "col * im_pixel dst + row * row_bytes dst + im_pixel input \<le> length (im_data dst)"
    using pixel_inside [OF Cons.prems(1) k(2,3)] Cons.prems(2) by simp
  obtain r where r: "mem_copy (im_data dst) (int (col * im_pixel dst + row * row_bytes dst)) (im_data input) (int ?p)
      (im_pixel input) = Some r" "length r = length (im_data dst)"
    using mem_copy_inside [OF a b] by blast
  have "\<exists>bytes. copy_pixels input (im_pixel input) ks (dst\<lparr>im_data := r\<rparr>) =
      Some (dst\<lparr>im_data := r\<rparr>\<lparr>im_data := bytes\<rparr>) \<and> length bytes = length (im_data (dst\<lparr>im_data := r\<rparr>))"
    by (rule Cons.IH) (use Cons.prems r(2) in \<open>simp_all add: image_ok_def\<close>)
  then show ?case using r by (simp add: k(1) data_at_def)
qed

lemma resize_inside:
  assumes "image_ok input" "0 < im_s input" "0 < im_t input" "0 < new_s" "0 < new_t"
    and "im_format input \<in> {GL_RGBA, GL_RGB, GL_LUMINANCE, GL_LUMINANCE_ALPHA}"
  shows "\<exists>out. resize_image memory input new_s new_t = Some (Some out) \<and> im_s out = new_s \<and> im_t out = new_t"
proof -
  let ?e = "input\<lparr>im_s := new_s, im_t := new_t, im_data := []\<rparr>"
  let ?o = "?e\<lparr>im_data := map memory [0..<row_bytes ?e * new_t]\<rparr>"
  have ok: "image_ok ?o" using assms(1) by (simp add: image_ok_def row_bytes_def mult.commute)
  have n: "row_bytes input div im_s input = im_pixel input"
    using assms(1,2) by (simp add: image_ok_def row_bytes_tight)
  have "list_all (\<lambda>(row, col). row < im_t ?o \<and> col < im_s ?o)
      (concat (map (\<lambda>row. map (\<lambda>col. (row, col)) [0..<new_s]) [0..<new_t]))"
    by (auto simp: list_all_iff)
  from copy_pixels_inside [OF assms(1-3) ok _ this] show ?thesis
    using assms(2,4-6) by (auto simp: resize_image_def n Let_def)
qed

text \<open>With padding the bytes of a pixel are counted wrong: the image made from one of one column is written past its end.\<close>

lemma padded_resize_outside:
  "resize_image (\<lambda>_. 0) \<lparr>im_s = 1, im_t = 1, im_format = GL_RGB, im_type = 0, im_packing = 4, im_pixel = 3,
     im_data = [1, 2, 3, 0 :: nat]\<rparr> 4 1 = None"
proof -
  have u: "[0..<4] = [0, 1, 2, 3]" "[0..<12] = [0, 1, 2, 3, 4, 5, 6, 7, 8, 9, 10, 11]"
    by (simp_all add: upt_rec)
  have i: "input_index c (Suc 0) n = 0" for c n using input_index_bound [of "Suc 0" c n] by simp
  show ?thesis by (simp add: resize_image_def mem_copy_def data_at_def row_bytes_def u i Let_def)
qed

end
