(* ===== verification/Layer_Compiler.thy ===== *)
theory Layer_Compiler
  imports Map_Layer Filter_Graph Builder
begin

text \<open>
  The older compilers of \<^verbatim>\<open>src/osgGIS\<close>, which work on a feature layer: \<^verbatim>\<open>LayerCompiler.cpp\<close>, their settings;
  \<^verbatim>\<open>SimpleLayerCompiler.cpp\<close>, one node for a whole layer; \<^verbatim>\<open>GriddedLayerCompiler.cpp\<close>, one for each tile of a
  grid. Graphs, nodes and files are arguments; fading, overlays, bounding spheres and the optimizer, which
  only touch the scene graph, are left out. \<open>None\<close> is a number that does not fit its type.
\<close>

section \<open>Settings\<close>

text \<open>The least positive \<open>float\<close> and \<open>double\<close> of full precision, which the code takes for the smallest number.\<close>

definition flt_min :: real where "flt_min = 1 / 2 ^ 126"
definition dbl_min :: real where "dbl_min = 1 / 2 ^ 1022"

record 'g layer_settings =
  ls_graphs :: "(real \<times> real \<times> 'g) list"
  ls_render_order :: int
  ls_fade :: bool
  ls_overlay :: bool
  ls_localize :: bool
  ls_compress :: bool
  ls_xmin :: real
  ls_ymin :: real
  ls_xmax :: real
  ls_ymax :: real

definition layer_settings_new :: "'g layer_settings" where
  "layer_settings_new =
     \<lparr>ls_graphs = [], ls_render_order = -1, ls_fade = False, ls_overlay = False, ls_localize = True,
      ls_compress = False, ls_xmin = dbl_max, ls_ymin = dbl_max, ls_xmax = dbl_min, ls_ymax = dbl_min\<rparr>"

definition add_filter_graph :: "real \<Rightarrow> real \<Rightarrow> 'g \<Rightarrow> 'g layer_settings \<Rightarrow> 'g layer_settings" where
  "add_filter_graph mn mx g c = c\<lparr>ls_graphs := ls_graphs c @ [(mn, mx, g)]\<rparr>"

definition set_layer_aoi :: "real \<Rightarrow> real \<Rightarrow> real \<Rightarrow> real \<Rightarrow> 'g layer_settings \<Rightarrow> 'g layer_settings" where
  "set_layer_aoi x0 y0 x1 y1 c = c\<lparr>ls_xmin := x0, ls_ymin := y0, ls_xmax := x1, ls_ymax := y1\<rparr>"

definition layer_aoi :: "('s, 'l) layer_vt \<Rightarrow> 'l \<Rightarrow> 'g layer_settings \<Rightarrow> 's geoextent" where
  "layer_aoi L l c =
     (if ls_xmin c < ls_xmax c \<and> ls_ymin c < ls_ymax c
      then ext_of_bounds (ls_xmin c) (ls_ymin c) (ls_xmax c) (ls_ymax c) (lv_srs L l)
      else lv_extent L l)"

definition layer_set_properties ::
  "(string \<Rightarrow> real) \<Rightarrow> 'o property list \<Rightarrow> 'g layer_settings \<Rightarrow> 'g layer_settings option" where
  "layer_set_properties atof ps c =
     do { order \<leftarrow> props_get_int ps ''render_order'' (ls_render_order c);
          Some (c\<lparr>ls_fade := props_get_bool ps ''fade_lods'' (ls_fade c), ls_render_order := order,
                  ls_localize := props_get_bool ps ''localize_resources'' (ls_localize c),
                  ls_compress := props_get_bool ps ''compress_textures'' (ls_compress c),
                  ls_xmin := props_get_double atof ps ''aoi_xmin'' dbl_max,
                  ls_ymin := props_get_double atof ps ''aoi_ymin'' dbl_max,
                  ls_xmax := props_get_double atof ps ''aoi_xmax'' dbl_min,
                  ls_ymax := props_get_double atof ps ''aoi_ymax'' dbl_min\<rparr>) }"

text \<open>What a compiler shares with its graphs: the terrain and the callback that reads it.\<close>

record ('s, 'o) layer_context =
  lx_new_env :: "('s, 'o) filter_env"
  lx_terrain :: "'o option"
  lx_terrain_srs :: "'s option"
  lx_reader :: 'o

definition layer_env :: "('s, 'l) layer_vt \<Rightarrow> ('s, 'o) layer_context \<Rightarrow> 'l \<Rightarrow> ('s, 'o) filter_env \<Rightarrow> ('s, 'o) filter_env" where
  "layer_env L X l e =
     set_terrain_read_callback (set_terrain_srs (set_terrain_node (set_input_srs e (lv_srs L l)) (lx_terrain X))
       (lx_terrain_srs X)) (Some (lx_reader X))"

section \<open>The simple compiler\<close>

text \<open>
  The run of a graph takes the cursor and leaves it. One cursor is given to all graphs in turn. The node
  of a graph that failed is a pointer without a value, and is not looked at.
\<close>

definition simple_compile_graph ::
  "('s, 'l) layer_vt \<Rightarrow> ('s, 'o) layer_context \<Rightarrow>
     ('g \<Rightarrow> 'c \<Rightarrow> ('s, 'o) filter_env \<Rightarrow> ('s, 'o) graph_result \<times> 'n option \<times> 'c) \<Rightarrow>
     'g layer_settings \<Rightarrow> 'l \<Rightarrow> 'c \<Rightarrow> 'g \<Rightarrow> 'n option \<times> 'c" where
  "simple_compile_graph L X compute c l cur g =
     (let e = layer_env L X l (set_extent (lx_new_env X) (layer_aoi L l c))
      in case compute g cur e of (r, node, cur1) \<Rightarrow> (if graph_ok r then node else None, cur1))"

fun simple_ranges ::
  "('c \<Rightarrow> 'g \<Rightarrow> 'n option \<times> 'c) \<Rightarrow> (real \<times> real \<times> 'g) list \<Rightarrow> 'c \<Rightarrow> ('n \<times> real \<times> real) list \<times> 'c" where
  "simple_ranges run [] cur = ([], cur)"
| "simple_ranges run ((mn, mx, g) # gs) cur =
     (case run cur g of (node, cur1) \<Rightarrow>
        (case simple_ranges run gs cur1 of (kids, cur2) \<Rightarrow>
           ((case node of Some n \<Rightarrow> (n, mn, mx) # kids | None \<Rightarrow> kids), cur2)))"

definition simple_compile ::
  "('s, 'l) layer_vt \<Rightarrow> ('s, 'o) layer_context \<Rightarrow>
     ('g \<Rightarrow> 'c \<Rightarrow> ('s, 'o) filter_env \<Rightarrow> ('s, 'o) graph_result \<times> 'n option \<times> 'c) \<Rightarrow>
     (('n \<times> real \<times> real) list \<Rightarrow> bool) \<Rightarrow> 'g layer_settings \<Rightarrow> 'l option \<Rightarrow> 'c \<Rightarrow> ('n \<times> real \<times> real) list option \<times> 'c" where
  "simple_compile L X compute has_drawables c l cur =
     (case l of
        None \<Rightarrow> (None, cur)
      | Some l \<Rightarrow>
          (case simple_ranges (simple_compile_graph L X compute c l) (ls_graphs c) cur of
             (kids, cur1) \<Rightarrow> (if has_drawables kids then Some kids else None, cur1)))"

section \<open>The gridded compiler\<close>

record 'g gridded_compiler = "'g layer_settings" +
  gl_rows :: int
  gl_cols :: int
  gl_row_size :: real
  gl_col_size :: real
  gl_paged :: bool

definition gridded_new :: "'g gridded_compiler" where
  "gridded_new = layer_settings.extend layer_settings_new
     \<lparr>gl_rows = 10, gl_cols = 10, gl_row_size = 0, gl_col_size = 0, gl_paged = False\<rparr>"

text \<open>Two names are read for the columns and for their size; the second one decides.\<close>

definition gridded_set_properties ::
  "(string \<Rightarrow> real) \<Rightarrow> 'o property list \<Rightarrow> 'g gridded_compiler \<Rightarrow> 'g gridded_compiler option" where
  "gridded_set_properties atof ps c =
     do { rows \<leftarrow> props_get_int ps ''num_rows'' (gl_rows c);
          cols \<leftarrow> props_get_int ps ''num_cols'' (gl_cols c);
          columns \<leftarrow> props_get_int ps ''num_columns'' cols;
          base \<leftarrow> layer_set_properties atof ps (layer_settings.truncate c);
          Some (layer_settings.extend base
            \<lparr>gl_rows = rows, gl_cols = columns, gl_row_size = props_get_double atof ps ''row_size'' (gl_row_size c),
             gl_col_size = props_get_double atof ps ''column_size'' (props_get_double atof ps ''col_size'' (gl_col_size c)),
             gl_paged = props_get_bool ps ''paged'' (gl_paged c)\<rparr>) }"

text \<open>The number of cells, the size of a cell, and that of the last one.\<close>

definition grid_dimension :: "real \<Rightarrow> int \<Rightarrow> real \<Rightarrow> (int \<times> real \<times> real) option" where
  "grid_dimension cell num len =
     (if cell > 0
      then (if - (2 ^ 31) \<le> \<lceil>len / cell\<rceil> \<and> \<lceil>len / cell\<rceil> < 2 ^ 31
            then Some (\<lceil>len / cell\<rceil>, cell, if c_fmod len cell = 0 then cell else c_fmod len cell) else None)
      else Some (num, len / of_int (max num 1), len / of_int (max num 1)))"

text \<open>The loops compare an unsigned counter with a signed number, which is taken for an unsigned one.\<close>

definition unsigned :: "int \<Rightarrow> nat" where
  "unsigned n = nat (n mod 2 ^ 32)"

definition tile_step :: "int \<times> real \<times> real \<Rightarrow> nat \<Rightarrow> real" where
  "tile_step d i = (case d of (num, cell, last_cell) \<Rightarrow> if i + 1 < unsigned num then cell else last_cell)"

definition gridded_tile :: "'s geoextent \<Rightarrow> int \<times> real \<times> real \<Rightarrow> int \<times> real \<times> real \<Rightarrow> nat \<Rightarrow> nat \<Rightarrow> 's geoextent" where
  "gridded_tile aoi cols rows col row =
     (let x = px (sw aoi) + real col * fst (snd cols); y = py (sw aoi) + real row * fst (snd rows)
      in ext_of_bounds x y (x + tile_step cols col) (y + tile_step rows row) (get_srs aoi))"

definition gridded_tiles ::
  "'s geoextent \<Rightarrow> 'g gridded_compiler \<Rightarrow> ((nat \<times> nat \<times> 's geoextent) list \<times> 'g gridded_compiler) option" where
  "gridded_tiles aoi c =
     do { rows \<leftarrow> grid_dimension (gl_row_size c) (gl_rows c) (get_height aoi);
          cols \<leftarrow> grid_dimension (gl_col_size c) (gl_cols c) (get_width aoi);
          Some (concat (map (\<lambda>col. map (\<lambda>row. (row, col, gridded_tile aoi cols rows col row))
                  [0..<unsigned (fst rows)]) [0..<unsigned (fst cols)]),
                c\<lparr>gl_rows := fst rows, gl_cols := fst cols\<rparr>) }"

definition gridded_area ::
  "'s srs_vt \<Rightarrow> ('s, 'l) layer_vt \<Rightarrow> ('s \<Rightarrow> 's option) \<Rightarrow> 'l \<Rightarrow> 'g layer_settings \<Rightarrow> 's geoextent option" where
  "gridded_area V L geo_of l c =
     (let aoi = layer_aoi L l c
      in if is_infinite aoi \<or> \<not> is_valid aoi
         then map_option (\<lambda>s. ext_of_points V (geopoint_2d (-180) (-90) (geo_of s)) (geopoint_2d 180 90 (geo_of s)))
                (lv_srs L l)
         else Some aoi)"

text \<open>A tile is a file that is paged in over a range, or the levels themselves.\<close>

datatype 'n tile_result = Tile_Page string real real | Tile_Levels "('n \<times> real \<times> real) list"

definition tile_env ::
  "('s, 'l) layer_vt \<Rightarrow> ('s, 'o) layer_context \<Rightarrow> 'l \<Rightarrow> nat \<Rightarrow> nat \<Rightarrow> 's geoextent \<Rightarrow> ('s, 'o) filter_env" where
  "tile_env L X l row col area =
     layer_env L X l (set_extent
       (env_set_property (env_set_property (lx_new_env X) (prop_int ''compiler.grid_row'' (int row)))
         (prop_int ''compiler.grid_col'' (int col))) area)"

definition tile_levels ::
  "('g \<Rightarrow> ('s, 'o) filter_env \<Rightarrow> ('s, 'o) graph_result \<times> 'n option) \<Rightarrow> ('s, 'o) filter_env \<Rightarrow> (real \<times> real \<times> 'g) list \<Rightarrow>
     ('n \<times> real \<times> real) list" where
  "tile_levels compute e graphs =
     List.map_filter (\<lambda>(mn, mx, g). map_option (\<lambda>n. (n, mn, mx)) (snd (compute g e))) graphs"

definition tile_range :: "('n \<times> real \<times> real) list \<Rightarrow> real \<times> real" where
  "tile_range levels =
     foldl (\<lambda>(lo, hi) (n, mn, mx). (if mn < lo then mn else lo, if mx > hi then mx else hi)) (flt_max, flt_min) levels"

definition tile_file_name :: "string \<Rightarrow> string \<Rightarrow> nat \<Rightarrow> nat \<Rightarrow> string" where
  "tile_file_name prefix ext col row = prefix @ ''_x'' @ show_nat col @ ''_y'' @ show_nat row @ ''.'' @ ext"

text \<open>The second component is what is written to a file.\<close>

definition run_tile ::
  "(('n \<times> real \<times> real) list \<Rightarrow> bool) \<Rightarrow> bool \<Rightarrow> string \<Rightarrow> string \<Rightarrow> nat \<Rightarrow> nat \<Rightarrow> ('n \<times> real \<times> real) list \<Rightarrow>
     'n tile_result option \<times> (string \<times> ('n \<times> real \<times> real) list) option" where
  "run_tile has_drawables paged prefix ext row col levels =
     (if has_drawables levels
      then (if paged
            then (let file = tile_file_name prefix ext col row; (lo, hi) = tile_range levels
                  in (Some (Tile_Page file lo hi), Some (file, levels)))
            else (Some (Tile_Levels levels), None))
      else (None, None))"

text \<open>Without a task manager the tiles are run one after the other.\<close>

definition gridded_compile ::
  "'s srs_vt \<Rightarrow> ('s, 'l) layer_vt \<Rightarrow> ('s \<Rightarrow> 's option) \<Rightarrow> ('s, 'o) layer_context \<Rightarrow>
     ('g \<Rightarrow> ('s, 'o) filter_env \<Rightarrow> ('s, 'o) graph_result \<times> 'n option) \<Rightarrow> (('n \<times> real \<times> real) list \<Rightarrow> bool) \<Rightarrow>
     string \<Rightarrow> string \<Rightarrow> 'l \<Rightarrow> 'g gridded_compiler \<Rightarrow>
     ('n tile_result list \<times> (string \<times> ('n \<times> real \<times> real) list) list \<times> 'g gridded_compiler) option" where
  "gridded_compile V L geo_of X compute has_drawables prefix ext l c =
     do { aoi \<leftarrow> gridded_area V L geo_of l (layer_settings.truncate c);
          if \<not> is_valid aoi then Some ([], [], c)
          else do { (tiles, c1) \<leftarrow> gridded_tiles aoi c;
                    let runs = map (\<lambda>(row, col, x). run_tile has_drawables (gl_paged c1) prefix ext row col
                          (tile_levels compute (tile_env L X l row col x) (ls_graphs c1))) tiles
                    in Some (List.map_filter fst runs, List.map_filter snd runs, c1) } }"

section \<open>Tiles\<close>

text \<open>A dimension by size is the axis that the map layers use.\<close>

lemma grid_dimension_axis:
  assumes "axis_of_cell len cell = Some a" and "0 < len" and "0 < cell"
  shows "grid_dimension cell num len = Some (int (ax_count a), ax_size a, ax_last a)"
proof -
  have n: "ceil_count (len / cell) = Some (ax_count a)" and s: "ax_size a = cell"
    and l: "ax_last a = (if c_fmod len cell = 0 then cell else c_fmod len cell)"
    using assms(1,3) by (auto simp: axis_of_cell_def Let_def bind_eq_Some_conv)
  have pos: "0 \<le> \<lceil>len / cell\<rceil>" using assms by (intro less_imp_le) simp
  have b: "- (2 ^ 31) \<le> \<lceil>len / cell\<rceil>" "\<lceil>len / cell\<rceil> < 2 ^ 31" "ax_count a = nat (\<lceil>len / cell\<rceil> mod 2 ^ 32)"
    using n by (auto simp only: ceil_count_def split: if_splits)
  have "\<lceil>len / cell\<rceil> mod 2 ^ 32 = \<lceil>len / cell\<rceil>" using pos b(2) by (intro mod_pos_pos_trivial) simp_all
  then have c: "int (ax_count a) = \<lceil>len / cell\<rceil>" using pos by (simp only: b(3) int_nat_eq if_True)
  show ?thesis unfolding c s l grid_dimension_def using b(1,2) assms(3) by simp
qed

lemma tile_step_cell:
  assumes "axis_ok len a"
  shows "i < ax_count a \<Longrightarrow> tile_step (int (ax_count a), ax_size a, ax_last a) i = cell_size a i"
proof -
  have u: "unsigned (int (ax_count a)) = ax_count a" using assms by (simp add: unsigned_def axis_ok_def)
  have w: "(ax_count a + (2 ^ 32 - 1)) mod 2 ^ 32 = ax_count a - 1"
  proof -
    have "ax_count a + (2 ^ 32 - 1) = 2 ^ 32 + (ax_count a - 1)" using assms by (simp add: axis_ok_def)
    then show ?thesis using assms by (simp only: mod_add_self1) (simp add: axis_ok_def)
  qed
  show "i < ax_count a \<Longrightarrow> tile_step (int (ax_count a), ax_size a, ax_last a) i = cell_size a i"
    unfolding tile_step_def cell_size_def w by (auto simp: u)
qed

text \<open>
  With sizes of cells the tiles of the older compiler are those of the grid of a map layer, column by
  column.
\<close>

lemma gridded_tiles_are_grid:
  assumes p: "init_by_cell_size aoi (gl_col_size c) (gl_row_size c) = Some p"
    and pos: "0 < gl_col_size c" "0 < gl_row_size c" "0 < get_width aoi" "0 < get_height aoi"
  shows "\<exists>c1. gridded_tiles aoi c =
    Some (concat (map (\<lambda>col. map (\<lambda>row. (row, col, grid_extent p col row)) [0..<ax_count (gp_rows p)])
      [0..<ax_count (gp_cols p)]), c1)"
proof -
  have a: "axis_of_cell (get_width aoi) (gl_col_size c) = Some (gp_cols p)"
    "axis_of_cell (get_height aoi) (gl_row_size c) = Some (gp_rows p)" "gp_bounds p = aoi"
    using p pos by (auto simp: init_by_cell_size_def profile_axis_def bind_eq_Some_conv)
  have ok: "axis_ok (get_width aoi) (gp_cols p)" "axis_ok (get_height aoi) (gp_rows p)"
    using axis_of_cell_ok [OF a(1)] axis_of_cell_ok [OF a(2)] pos by simp_all
  have u: "unsigned (int (ax_count (gp_cols p))) = ax_count (gp_cols p)"
    "unsigned (int (ax_count (gp_rows p))) = ax_count (gp_rows p)"
    using ok by (simp_all add: unsigned_def axis_ok_def)
  have t: "gridded_tile aoi (int (ax_count (gp_cols p)), ax_size (gp_cols p), ax_last (gp_cols p))
      (int (ax_count (gp_rows p)), ax_size (gp_rows p), ax_last (gp_rows p)) col row = grid_extent p col row"
    if "col < ax_count (gp_cols p)" "row < ax_count (gp_rows p)" for col row
    using that tile_step_cell [OF ok(1)] tile_step_cell [OF ok(2)]
    by (simp add: gridded_tile_def grid_extent_def a(3) mult.commute Let_def)
  show ?thesis
    using grid_dimension_axis [OF a(1)] grid_dimension_axis [OF a(2)] pos
    by (auto simp: gridded_tiles_def u intro!: arg_cong [of _ _ concat] t)
qed

text \<open>Without a size, no columns are no tiles, although the size of a cell is computed for one column.\<close>

lemma no_columns_no_tiles:
  "gl_col_size c \<le> 0 \<Longrightarrow> gl_cols c = 0 \<Longrightarrow> gridded_tiles aoi c = Some (ts, c1) \<Longrightarrow> ts = []"
  by (auto simp: gridded_tiles_def grid_dimension_def unsigned_def bind_eq_Some_conv split: if_splits)

lemma negative_count_is_huge: "unsigned (-1) = 2 ^ 32 - 1"
  by (simp add: unsigned_def)

text \<open>The range of a paged tile has those of its levels, once they go beyond the least positive number.\<close>

lemma tile_range_from:
  "(n, mn, mx) \<in> set levels \<Longrightarrow>
     fst (foldl (\<lambda>(lo, hi) (n, mn, mx). (if mn < lo then mn else lo, if mx > hi then mx else hi)) r levels) \<le> mn \<and>
     mx \<le> snd (foldl (\<lambda>(lo, hi) (n, mn, mx). (if mn < lo then mn else lo, if mx > hi then mx else hi)) (r :: real \<times> real) levels)"
proof (induction levels arbitrary: r)
  case (Cons k levels)
  let ?f = "\<lambda>(lo, hi) (n, mn, mx). (if mn < lo then mn else lo, if mx > hi then mx else (hi :: real))"
  have grow: "fst (foldl ?f r ks) \<le> fst r \<and> snd r \<le> snd (foldl ?f r ks)" for ks :: "('a \<times> real \<times> real) list" and r
  proof (induction ks arbitrary: r)
    case (Cons k ks)
    have "fst (?f r k) \<le> fst r \<and> snd r \<le> snd (?f r k)" by (simp add: split_beta)
    with Cons [of "?f r k"] show ?case by (auto intro: order_trans)
  qed simp
  show ?case
  proof (cases "k = (n, mn, mx)")
    case True
    then have "fst (?f r k) \<le> mn \<and> mx \<le> snd (?f r k)" by (simp add: split_beta)
    with grow [of "?f r k" levels] show ?thesis by (auto intro: order_trans)
  next
    case False
    with Cons show ?thesis by simp
  qed
qed simp

lemma tile_range_covers: "(n, mn, mx) \<in> set levels \<Longrightarrow> fst (tile_range levels) \<le> mn \<and> mx \<le> snd (tile_range levels)"
  unfolding tile_range_def by (rule tile_range_from)

section \<open>One cursor for all graphs\<close>

text \<open>
  Each graph starts from the cursor that the graph before it left. Where a graph makes nothing of a
  cursor that is used up, only the first range gets a node.
\<close>

lemma later_ranges_are_empty:
  assumes "\<And>cur g. used_up (snd (run cur g))" and "\<And>cur g. used_up cur \<Longrightarrow> fst (run cur g) = None"
  shows "fst (simple_ranges run ((mn, mx, g) # gs) cur) =
    (case fst (run cur g) of Some n \<Rightarrow> [(n, mn, mx)] | None \<Rightarrow> [])"
proof -
  have "fst (simple_ranges run gs cur) = []" if "used_up cur" for cur
    using that
  proof (induction gs arbitrary: cur)
    case (Cons k gs)
    obtain a b h where k: "k = (a, b, h)" by (cases k) auto
    have "fst (run cur h) = None" "used_up (snd (run cur h))" using assms Cons.prems by auto
    with Cons.IH show ?case by (simp add: k split_beta)
  qed simp
  with assms(1) show ?thesis by (simp add: split_beta split: option.splits)
qed

end
