(* ===== verification/Spec2Isabelle.thy ===== *)
theory Spec2Isabelle
  imports Units Task_Manager Part_Filters Crop_Samples Project_Sample Buffer_Filter Hull_Filter
    Combine_Lines Map_Sample Grid_Compiler Resource_Library
    Compile_Session Store_Sample Build_Sample Report Image_Size Image_Copy Layer_Compiler
begin

text \<open>
  osgGIS: a verification library.

  osgGIS turns geographic vector data into terrain and scene graphs. A feature layer is read
  through a cursor; a filter graph pushes the features through a chain of filter states, each
  holding one filter, until a node state at the end delivers nodes; compilers cut a map into tiles
  (quad keys), run one filter graph per tile as a task, and hand the tasks to a task manager with
  a pool of threads. Everything that moves through the chain is located by an extent or a shape in
  a spatial reference. This library models the logic of those parts, and proves what they promise
  and, in a few places, what they do not keep.

  Reading order, with the code each theory models (paths under \<^verbatim>\<open>src/src/osgGIS\<close>, and
  \<^verbatim>\<open>osgGISProjects\<close> for the quad keys):

  \<^item> \<^verbatim>\<open>Prelude\<close>: facts on lists, options and finite bounds that the components share, and the
    collections of simplification rules.
  \<^item> \<^verbatim>\<open>Geo_Point\<close> (GeoPoint.cpp): points with a dimension and a reference. Coordinates are
    real numbers; rounding is outside the model, comparisons with a tolerance are kept.
  \<^item> \<^verbatim>\<open>Geo_Extent\<close> (GeoExtent.cpp): validity flags, four stored corners, growing,
    transforming, intersecting. A dereference of a null reference is the value \<^verbatim>\<open>None\<close>. The locale
    \<^verbatim>\<open>srs_interface\<close> is the contract of a spatial reference as the extents use it.
  \<^item> \<^verbatim>\<open>Geo_Shape\<close> (GeoShape.cpp): parts, cached extents, visitors, intersection with extents.
  \<^item> \<^verbatim>\<open>Ellipsoid\<close> (Ellipsoid.cpp): geocentric conversion, both directions.
  \<^item> \<^verbatim>\<open>Ogr_Srs\<close> (OGR_SpatialReference.cpp, GeocentricSpatialReference.cpp): the two
    implementations of a reference; it interprets \<^verbatim>\<open>srs_interface\<close>, so the lemmas about extents hold for
    them. Coordinate transformation by OGR and the matrix products of OSG are the parameter
    \<^verbatim>\<open>lib\<close>, about which nothing is assumed unless a theorem says so.
    \<^verbatim>\<open>Srs_Shapes\<close> transforms whole shapes and extents.
  \<^item> \<^verbatim>\<open>Units\<close> (Units.cpp), \<^verbatim>\<open>Strings_Util\<close> and \<^verbatim>\<open>Geom_Utils\<close> (Utils.cpp),
    \<^verbatim>\<open>Property\<close> (Property.cpp), \<^verbatim>\<open>Attribute\<close> (Attribute.cpp): values, text, polygons.
  \<^item> \<^verbatim>\<open>Feature\<close> (Feature.cpp, SimpleFeature.cpp, OGR_Feature.cpp) and \<^verbatim>\<open>Feature_Cursor\<close>
    (FeatureCursor.cpp): what is read, and the prefetching reader. The locale
    \<^verbatim>\<open>feature_source\<close> is the contract of the layer under the cursor.
  \<^item> \<^verbatim>\<open>Filter_Env\<close> (FilterEnv.cpp), \<^verbatim>\<open>Filter_State\<close> (Filter.cpp, FeatureFilter.cpp and the
    other filter base classes, FilterState.cpp and its subclasses), \<^verbatim>\<open>Checkpoint\<close>
    (CollectionFilterState.cpp) and \<^verbatim>\<open>Filter_Graph\<close> (FilterGraph.cpp): the pipeline. What a
    concrete filter overrides is the parameter \<^verbatim>\<open>filter_vt\<close>, a record of functions; the default
    bodies of the base classes are definitions.
  \<^item> \<^verbatim>\<open>Task_Manager\<close> (TaskManager.cpp, Task.cpp): the client and the worker threads as a step
    relation, one step for each critical section, so that every interleaving is a trace. Blocks and
    mutexes behave as OpenThreads documents them.
  \<^item> \<^verbatim>\<open>Quad_Key\<close> (QuadKey.cpp): keys as digit strings, cells, levels of detail.
  \<^item> \<^verbatim>\<open>R_Tree\<close> (RTree, RTree.cpp.inline): the node table with parent pointers, insertion and
    search; \<^verbatim>\<open>R_Tree_Links\<close>, \<^verbatim>\<open>R_Tree_Steps\<close>, \<^verbatim>\<open>R_Tree_Insert\<close> and \<^verbatim>\<open>R_Tree_Correct\<close> prove that
    every update of an insertion keeps the structure, \<^verbatim>\<open>R_Tree_Search\<close> that the tree refines a bag
    of items (locale \<^verbatim>\<open>spatial_index\<close>), \<^verbatim>\<open>R_Tree_File\<close> models the cache file.
  \<^item> \<^verbatim>\<open>Spatial_Index\<close> (SimpleSpatialIndex.cpp, RTreeSpatialIndex.cpp, FeatureLayer.cpp): both
    indexes over a feature store and the layer.
  \<^item> \<^verbatim>\<open>Part_Filters\<close> (DecimateFilter.cpp, DensifyFilter.cpp, RemoveHolesFilter.cpp,
    ChangeShapeTypeFilter.cpp, RecalculateExtentFilter.cpp): filters that rewrite parts.
  \<^item> \<^verbatim>\<open>Buffer_Filter\<close> (BufferFilter.cpp), \<^verbatim>\<open>Hull_Filter\<close> (ConvexHullFilter.cpp) and
    \<^verbatim>\<open>Combine_Lines\<close> (CombineLinesFilter.cpp): filters that make new geometry of the parts of one
    feature or of all of them. \<^verbatim>\<open>std::sort\<close> is a parameter.
  \<^item> \<^verbatim>\<open>Script_Filters\<close> (SelectFilter.cpp, GroupFilter.cpp, RandomGroupingFilter.cpp,
    TransformFilter.cpp, WriteFeaturesFilter.cpp): filters that ask a script or the session.
    \<^verbatim>\<open>Wall_Extrusion\<close> and \<^verbatim>\<open>Geom_Filters\<close> (ExtrudeGeomFilter.cpp, BuildGeomFilter.cpp):
    vertices, texture coordinates and primitives of shapes, walls and roofs.
  \<^item> \<^verbatim>\<open>Feature_Store\<close> (OGR_FeatureStore.cpp): the store over a layer, and the writing of features;
    \<^verbatim>\<open>Store_Sample\<close> is a library that keeps geometries as trees.
  \<^item> \<^verbatim>\<open>Crop_Line\<close> and \<^verbatim>\<open>Crop_Polygon\<close> (CropFilter.cpp): cropping of lines, points,
    polygons and features. \<^verbatim>\<open>Crop_Correct\<close> proves that crossings alternate and that the walk stays
    on the inner side, \<^verbatim>\<open>Crop_Window\<close> composes the four sides, \<^verbatim>\<open>Crop_Samples\<close> runs it.
  \<^item> \<^verbatim>\<open>Registry\<close> (Registry.cpp): the factories by type name. \<^verbatim>\<open>Xml_Dom\<close> (XmlDOM.cpp,
    XmlDocument.cpp): documents. \<^verbatim>\<open>Project\<close> (Project.cpp, Source.cpp, BuildLayer.cpp and the like):
    the data of a project, in which a pointer to another object is its position.
    \<^verbatim>\<open>Xml_Serializer\<close> and \<^verbatim>\<open>Xml_Writer\<close> (XmlSerializer.cpp) read and write it,
    \<^verbatim>\<open>Project_Refs\<close> proves what reading guarantees, \<^verbatim>\<open>Project_Roundtrip\<close> what saving keeps,
    \<^verbatim>\<open>Project_Sample\<close> is a platform with documents.
  \<^item> \<^verbatim>\<open>Resource_Library\<close> (ResourceLibrary.cpp, ResourceCache.cpp, Session.cpp, queries of
    SkinResource.cpp and ModelResource.cpp): the lists of resources, what was made from them, and
    the session that shares them. The locale \<^verbatim>\<open>object_cache\<close> is the contract of the caches.
  \<^item> \<^verbatim>\<open>Map_Layer\<close> (MapLayer.cpp, MapLayerLevelOfDetail.cpp, GriddedMapLayerCompiler.cpp): the levels
    of a map layer and the grid of its cells. \<^verbatim>\<open>Quad_Compiler\<close> (QuadTreeMapLayerCompiler.cpp,
    MapLayerCompiler.cpp, CellCompiler.cpp): the keys of a layer, their tasks and the index;
    \<^verbatim>\<open>Grid_Compiler\<close> (GriddedMapLayerCompiler.cpp, SimpleMapLayerCompiler.cpp): those of a grid.
    \<^verbatim>\<open>Map_Sample\<close> is a layer of one level. \<^verbatim>\<open>Compile_Session\<close> (CellCompiler.cpp,
    FeatureLayerCompiler.cpp, MapLayerCompiler.cpp) runs the tasks.
  \<^item> \<^verbatim>\<open>Builder\<close> (Builder.cpp, FeatureStoreCompiler.cpp, createFeatureLayer of Registry.cpp): sources
    that are made from others, slices that become levels, the size of cells, and the compilation of
    the layers of a target; \<^verbatim>\<open>Builder_Correct\<close> has its lemmas, \<^verbatim>\<open>Build_Sample\<close> a disk and a project.
    \<^verbatim>\<open>Packager\<close> (ResourcePackager.cpp) copies textures and models and renames the references.
  \<^item> \<^verbatim>\<open>Image_Size\<close> and \<^verbatim>\<open>Image_Copy\<close> (ImageUtils.cpp): sizes that are powers of two, on words of any
    width, and copying and resizing of the bytes of an image. \<^verbatim>\<open>Report\<close> (Report.cpp): states,
    messages and durations. \<^verbatim>\<open>Layer_Compiler\<close> (LayerCompiler.cpp, SimpleLayerCompiler.cpp,
    GriddedLayerCompiler.cpp): the older compilers of feature layers, with their tiles.
  \<^item> \<^verbatim>\<open>Samples\<close>: the concrete library, references, features and filters that the
    witnesses run on.

  Conventions. A C++ object is a record, a class hierarchy a datatype or a record of functions, a
  null pointer \<^verbatim>\<open>None\<close>, and a call through a null pointer makes the whole operation \<^verbatim>\<open>None\<close>.
  References to objects that the code shares and mutates (the current environment of a chain, a
  shape list) are passed and returned. Loops are recursive functions; those that need not end, the
  search for the best level of detail, the loop that waits for the last task, and the loops of the
  R-tree that follow pointers, are partial functions into the option type, and their properties
  say when they return. Reading a project takes the depth of includes as fuel; one more than the
  rank of the document among those it includes is enough, and more changes nothing. Building a source
  takes the depth of parents as fuel; one more than the number of sources is enough (C27). 32 bit and
  unsigned arithmetic of the quad keys is written out where it can wrap.

  What the lemmas show, in the order of the properties below: the spatial indexes (C1 to C4),
  cropping (C5, C6), tasks (C7 to C9), the pipeline and the cursor (C10 to C14), project documents
  (C15 to C17), quad keys (C18, C19), map layers and their compilers (C20 to C25), building
  projects (C26 to C29), filters that rewrite parts (C30, C31), geometry filters (C32 to C36),
  feature stores (C37), extents and references (C38 to C40).

  Not modelled: tessellation, normals, labels, models and other scene graph work, readers and
  writers (GDAL, expat, Lua, images), logging and timing, generated bindings and the applications;
  they are calls into libraries whose source is not in the repository. What OGR does with a layer is
  the parameter \<^verbatim>\<open>store_api\<close>, what a build does with the disk the parameter \<^verbatim>\<open>build_host\<close>. The compilers
  of map layers leave out the centre of a node, which is clamped to the terrain with the help of random
  numbers. Of the older layer compilers the paged one and the copying of resources are left out, as are
  the bounding spheres of tiles and the loop that waits for the tasks of tiles.
\<close>

section \<open>Spatial indexes\<close>

text \<open>
  C1. An R-tree built by inserting extents one after the other never fails, and a search returns
  exactly the data whose stored extents meet the query, each as often as it was inserted: the
  tree is a bag of items, searched by a linear filter.
\<close>

theorem rtree_finds_inserted:
  assumes "srs_usable s" and "\<forall>x \<in> set xs. ext_wf s (fst x)" and "ext_wf s q"
  shows "\<exists>t rs.
    foldl (\<lambda>r x. Option.bind r (rtree_insert (ogr_vt L) (fst x) (snd x))) (Some rtree_new) xs = Some t \<and>
    rtree_find (ogr_vt L) t q = Some rs \<and>
    mset rs = mset (map snd (filter (\<lambda>x. intersects (ogr_vt L) (stored_extent (fst x)) q) xs))"
  using r_tree.built_find [of xs s q L] assms by (auto simp: insert_all_fold)

lemma rtree_finds_inserted_witness:
  "\<exists>t. rtree_insert (ogr_vt sample_lib) (sample_box 0 0 2 2) 7 rtree_new = Some t \<and>
     rtree_find (ogr_vt sample_lib) t (sample_box 1 1 3 3) = Some [7]"
  using rtree_finds_inserted [of sample_srs "[(sample_box 0 0 2 2, 7)]" "sample_box 1 1 3 3" sample_lib]
    sample_boxes_meet by simp





text \<open>
  C4. A layer over a store answers a query the same way through either index: when no feature's
  extent is without area, the cursor over the R-tree index is made from the same feature ids, up
  to their order, as the cursor over the simple index, provided the index is not read from a
  cache file.
\<close>

theorem indexes_agree:
  assumes "srs_usable s" and "store_srs st = Some s" "cursor_ok (store_cursor st)"
    and "\<forall>f \<in> set (store_features (ogr_vt L) st).
      ext_wf s (extent_of_feature (ogr_vt L) f) \<and> get_area (extent_of_feature (ogr_vt L) f) \<noteq> 0"
    and "ext_wf s q" and "cache_file F = None"
  shows "\<exists>c1 l1 c2 l2.
    layer_cursor_extent (ogr_vt L) F u q (feature_layer_new (Some st)) = Some (c1, l1) \<and>
    layer_cursor_extent (ogr_vt L) F u q
      (set_spatial_index (ogr_vt L) None (feature_layer_new (Some st))) = Some (c2, l2) \<and>
    mset (oids c1) = mset (oids c2) \<and> store c1 = store c2 \<and>
    mset (oids c1) = mset (map foid
      (filter (\<lambda>f. intersects (ogr_vt L) (extent_of_feature (ogr_vt L) f) q) (store_features (ogr_vt L) st)))"
  by (rule ogr.layer_indexes_agree [OF assms])

lemma indexes_agree_witness:
  "\<exists>c l. layer_cursor_extent (ogr_vt sample_lib) sample_files (True, 0) (sample_box 1 1 3 3)
       (feature_layer_new (Some sample_store)) = Some (c, l) \<and> oids c = [7]"
  using indexes_agree [of sample_srs sample_store sample_lib "sample_box 1 1 3 3" sample_files "(True, 0)"]
    by auto

section \<open>Cropping\<close>

text \<open>
  C5. Cropping a line to a window with an area is exact: the parts that are left cover what the
  line covers inside the window, nothing more and nothing less, and each has at least two points.
\<close>

theorem cropped_line_is_intersection:
  assumes "ext_wf s w" and "px (sw w) < px (ne w)" and "py (sw w) < py (ne w)"
    and "\<forall>q \<in> set part. point_valid q \<and> spatial_ref q = r"
  shows "covered_all (crop_line_part part w) = covered part \<inter> ext_box w \<and>
    (\<forall>c \<in> set (crop_line_part part w). 2 \<le> length c)"
  using crop_line_part_exact [OF assms] by blast

lemma cropped_line_is_intersection_witness:
  "covered_all (crop_line_part sample_triangle (sample_box 0 0 4 4)) =
     covered sample_triangle \<inter> ext_box (sample_box 0 0 4 4)"
  using cropped_line_is_intersection [OF sample_window, of sample_triangle "Some sample_srs"] sample_valid(1)
  by simp



text \<open>
  The walk takes the first crossing for an entry whatever the direction of the part: of a
  clockwise triangle that reaches out of the window to the east it keeps the corner outside, and
  drops all that lies inside.
\<close>

theorem clockwise_part_keeps_outside:
  "crop_polygon_part (ogr_vt L) (rev sample_triangle) (sample_box 0 0 4 4) = Some [sample_waste] \<and>
    list_all (\<lambda>p. 4 \<le> px p) sample_waste \<and> sample_point 6 1 \<in> set sample_waste"
  by (simp add: sample_cropped, simp add: sample_waste_def)

section \<open>The task manager\<close>




text \<open>
  A task can be reported as completed without having run: the client checks that the thread is
  ready, the thread starts an earlier task, and the client then replaces it.
\<close>

theorem completed_task_can_be_unrun:
  "\<exists>m. reachable 1 m \<and> executed m = [1] \<and> completed_tasks m = [2]"
proof -
  obtain m where m: "exec unrun_trace (task_manager_new 1) = Some m"
    "executed m = [1]" "completed_tasks m = [2]"
    using unrun_trace_exec by (auto simp: map_option_eq_Some)
  with exec_reachable [OF reachable_new m(1)] show ?thesis by blast
qed

text \<open>
  C9. Destroying a manager can hang: when its thread starts late it overwrites the request to exit,
  and then neither the thread nor the client, which waits for it, can take a step.
\<close>

theorem destructor_can_hang:
  "reachable 1 join_state \<and> (\<forall>a. step a join_state = None)"
  using exec_reachable [OF reachable_new join_trace_exec] join_state_stuck by blast

text \<open>
  Without threads the documented loop ends, and takes every task in the order it was queued,
  each run once.
\<close>

theorem single_threaded_loop_ends:
  assumes "num_running_tasks m = 0"
  shows "\<exists>m1. drain_single m [] = Some (completed_tasks m @ pending_tasks m, m1) \<and>
    executed m1 = executed m @ pending_tasks m \<and> get_num_tasks m1 = 0"
  using drain_single_runs [OF assms, of "[]"] by simp

lemma single_threaded_loop_ends_witness:
  "\<exists>m1. drain_single (queue_task (queue_task (task_manager_new 0) 1) 2) [] = Some ([1, 2], m1)"
  using single_threaded_loop_ends [of "queue_task (queue_task (task_manager_new 0) 1) 2"]
  by (auto simp: queue_task_def task_manager_new_def)

section \<open>The filter graph\<close>

text \<open>
  C10. Building nodes from the features of a cursor never ends in the error result: with a node
  filter in the graph the result is OK, and without one the null output state is dereferenced.
\<close>

theorem graph_ok_or_null:
  "if NODE_FILTER \<in> set (map fkind g)
   then \<exists>e out env1 c1.
     compute_nodes T V g (cursor_new V os st ex m) env = Some (graph_result_ok e, out, env1, c1)
   else compute_nodes T V g (cursor_new V os st ex m) env = None"
  by (rule compute_nodes_cases [OF cursor_new_ok])

text \<open>
  C11. Driving any chain of new states with the features of a cursor and signalling the checkpoint
  never calls a filter without an environment: it returns, its result is not an error, and the
  chain keeps its kinds of states.
\<close>

theorem chain_never_without_environment:
  "\<exists>r ss c1. run_chain T V env prepare (cursor_new V os st ex m) (build_chain g []) = Some (r, ss, c1) \<and>
     is_ok r \<and> map kind ss = map fkind g"
  using run_chain_returns [OF cursor_new_ok [of V os st ex m] chain_ready(1) [of g], of T V env prepare]
  by (simp add: build_chain_eq comp_def)

text \<open>
  In a graph of a feature filter and a node filter that process everything they are given,
  the output holds the nodes of the last feature alone: each traversal replaces the output of the
  one before.
\<close>

theorem only_last_feature_survives:
  assumes "cursor_ok c" and "pending V c = fs @ [f]"
    and "fkind p = FEATURE_FILTER" "fkind q = NODE_FILTER"
    and "\<And>x fs e. feature_process T x fs e = (fs, e, x)"
    and "\<And>x fs e. node_process_features T x fs e = (map mk fs, e, x)"
    and "has_shape_data V (wind V f)"
  shows "\<exists>r env1 c1. compute_nodes T V [p, q] c env =
    Some (r, Some [mk (snd (feature_get_extent V (wind V f)))], env1, c1)"
  by (rule last_feature_only [OF assms])

lemma only_last_feature_survives_witness:
  "\<exists>r env1 c1. compute_nodes sample_vt (ogr_vt sample_lib)
     [sample_filter FEATURE_FILTER, sample_filter NODE_FILTER]
     (cursor_new (ogr_vt sample_lib) [1, 2] (Some (\<lambda>i. Some (simple_feature\<lparr>foid := i\<rparr>))) ext_infinite False)
     sample_env = Some (r, Some [2], env1, c1)"
proof -
  let ?V = "ogr_vt sample_lib" and ?f = "simple_feature\<lparr>foid := 2\<rparr> :: unit srs feature"
  let ?c = "cursor_new ?V [1, 2] (Some (\<lambda>i. Some (simple_feature\<lparr>foid := i\<rparr>))) ext_infinite False"
  have w: "wind ?V ?f = ?f"
    by (simp add: wind_def feature_shape_type_def simple_feature_def)
  have e: "feature_get_extent ?V ?f = (ext_default, ?f)"
    by (simp add: feature_get_extent_def simple_feature_def ext_default_def)
  have p: "pending ?V ?c = [simple_feature\<lparr>foid := 1\<rparr>] @ [?f]"
    unfolding cursor_new_pending by (simp add: deliverable_def List.map_filter_simps)
  have d: "has_shape_data ?V (wind ?V ?f)"
    by (simp add: w has_shape_data_def e ext_default_def)
  have k: "fkind (sample_filter FEATURE_FILTER) = FEATURE_FILTER"
    "fkind (sample_filter NODE_FILTER) = NODE_FILTER" by (simp_all add: sample_filter_def)
  from only_last_feature_survives [OF cursor_new_ok p k sample_vt_simps d, of sample_env]
  show ?thesis by (simp add: w e)
qed

text \<open>
  C12. A checkpoint partitions what a collection holds: when the assignment looks at the item only,
  the groups are ordered by name and each holds exactly the items of its name, in their order.
\<close>

theorem groups_partition_items:
  "\<exists>gs. assign_groups (\<lambda>x i e. (key i, e, x)) items [] e x = (gs, e, x) \<and> smap_sorted gs \<and>
     (\<forall>k. map_of gs k = (if filter (\<lambda>i. key i = k) items = [] then None
                         else Some (filter (\<lambda>i. key i = k) items)))"
  using assign_groups_partition [of "\<lambda>x i e. (key i, e, x)" key "[]" items e x]
  by (simp add: Let_def)

text \<open>
  C13. Metering cuts a group into batches that are not empty, hold at most the metering number of
  items and make up the group in order; into a following collection the batches deliver the same
  features as pushing the whole group.
\<close>

theorem metering_keeps_items:
  assumes "kind n = COLLECTION_FILTER"
  shows "concat (batches (Suc k) fs) = fs \<and>
    (\<forall>b \<in> set (batches (Suc k) fs). b \<noteq> [] \<and> length b \<le> Suc k) \<and>
    (\<exists>r n1. meter_data T V Features m e fs (n # rest) = (r, n1 # rest) \<and>
       in_features n1 = in_features n @ taken V fs)"
proof (intro conjI)
  show "concat (batches (Suc k) fs) = fs" by (simp add: concat_batches)
  show "\<forall>b \<in> set (batches (Suc k) fs). b \<noteq> [] \<and> length b \<le> Suc k" using batches_bounds by blast
  show "\<exists>r n1. meter_data T V Features m e fs (n # rest) = (r, n1 # rest) \<and>
      in_features n1 = in_features n @ taken V fs"
    using meter_data_collection [OF assms, of T V m e fs rest] by blast
qed

lemma metering_keeps_items_witness:
  "\<exists>r n1. meter_data sample_vt (ogr_vt sample_lib) Features 2 sample_env [sample_feature]
     [new_state (sample_filter COLLECTION_FILTER)] = (r, [n1]) \<and>
     in_features n1 = taken (ogr_vt sample_lib) [sample_feature]"
  using metering_keeps_items [of "new_state (sample_filter COLLECTION_FILTER)" 1 "[sample_feature]"
      sample_vt "ogr_vt sample_lib" 2 sample_env "[]"]
  by (simp add: sample_filter_def new_state_def kind_def)

text \<open>
  C14. A loop over a new cursor sees the stored features of its ids in order, without those that
  are missing and, for an exact search, without those that do not meet the search extent; the
  prefetching is invisible.
\<close>

theorem cursor_delivers_matches:
  "fst (cursor_fold V (\<lambda>_. True) (\<lambda>f fs. fs @ [f]) (cursor_new V os (Some g) ex m) []) =
     deliverable V g ex m os"
proof -
  have "foldl (\<lambda>b f. b @ [f]) acc fs = acc @ fs" for acc fs :: "'a feature list"
    by (induction fs arbitrary: acc) simp_all
  then show ?thesis
    by (simp add: cursor_fold_pending cursor_new_ok list_loop_always cursor_new_pending)
qed

text \<open>
  A prefetch size changes how a cursor reads but not what it delivers: with any size set, a
  cursor still has a next feature exactly when one is left, and delivers it first.
\<close>

theorem cursor_any_prefetch_size:
  assumes "cursor_ok c" and "pending V c = f # fs"
  shows "has_next (set_prefetch_size c n) \<and>
    fst (cursor_next V (set_prefetch_size c n)) = Some f \<and>
    pending V (snd (cursor_next V (set_prefetch_size c n))) = fs"
proof -
  have ok: "cursor_ok (set_prefetch_size c n)"
    using assms(1) by (auto simp: cursor_ok_def set_prefetch_size_def)
  have "deliver V g (set_prefetch_size c n) = deliver V g c" for g
    by (simp add: deliver_def fetch_match_def set_prefetch_size_def fun_eq_iff split: option.split)
  then have p: "pending V (set_prefetch_size c n) = f # fs"
    using assms(2) by (simp add: pending_def match_list_def set_prefetch_size_def split: option.splits)
  show ?thesis
    using cursor_source.more_left [OF ok, of V] cursor_source.pull_left [OF ok p] p by simp
qed

lemma cursor_any_prefetch_size_witness:
  "has_next (set_prefetch_size
     (cursor_new (ogr_vt sample_lib) [7] (Some (\<lambda>i. Some simple_feature)) ext_infinite False) 1)"
  using cursor_any_prefetch_size [OF cursor_new_ok [of "ogr_vt sample_lib" "[7]"
      "Some (\<lambda>i. Some simple_feature)" ext_infinite False], of "ogr_vt sample_lib" simple_feature "[]" 1]
  by (simp add: cursor_new_pending deliverable_def List.map_filter_simps)

section \<open>Project documents\<close>



text \<open>
  C16. In a project that was loaded every reference is null or refers to an object of the project: the
  graphs and parents of sources, the sources and terrains of layers, the graphs and sources of slices at
  any depth, the layers of targets and maps. This holds through included projects, whose objects are
  merged in.
\<close>

theorem loaded_references_resolve:
  assumes "load_project n F uri = Some (Some p)"
  shows "refs_ok p"
  using assms decode_project_ok unfolding load_project_def by (rule load_project_with_ok [rotated])

lemma loaded_references_resolve_witness:
  "refs_ok (the (the (load_project 2 sample_platform ''outer'')))"
  by (rule loaded_references_resolve [of 2 sample_platform "''outer''"]) (rule sample_outer)

text \<open>
  C17. Loading a project follows no null pointer and comes to an end when the type of feature layer
  resources is registered, every document has balanced tags, and documents do not include each other
  in a circle: the fuel needed is one more than the rank of the document.
\<close>

theorem project_loading_ends:
  assumes "\<forall>u. load_uri F u \<noteq> None"
    and "create_resource_by_type (pf_registry F) ''FeatureLayerResource'' \<noteq> None"
    and "\<forall>u. \<forall>v \<in> set (includes_of F u). rank v < (rank u :: nat)"
  shows "load_project (Suc (rank uri)) F uri \<noteq> None"
  using assms by (intro load_project_total [of F rank]) simp_all

lemma project_loading_ends_witness: "load_project 2 finite_platform ''outer'' \<noteq> None"
  using project_loading_ends [of finite_platform sample_rank "''outer''"]
    finite_load_some finite_feature_resource finite_rank
  by (simp add: sample_rank_def numeral_2_eq_2)

text \<open>
  Documents that include each other in a circle, a document that includes itself among them, are
  never loaded: nothing remembers what is being loaded, and no depth of recursion is enough.
\<close>

theorem circular_includes_never_load:
  assumes "\<forall>u \<in> S. \<exists>v \<in> set (includes_of F u). v \<in> S" and "u \<in> S"
  shows "load_project n F u = None"
  using assms by (intro load_project_cycle [of S F]) simp_all

lemma circular_includes_never_load_witness: "load_project 7 sample_platform ''loop'' = None"
  by (rule circular_includes_never_load [of "{''loop''}"]) (simp_all add: sample_loop)

text \<open>
  The tags of a resource never come back as they were: the attribute that lists them is added as
  one more tag when it is read, and a resource without tags comes back with an empty one.
\<close>

theorem resource_tags_change:
  assumes "decode_resource F p (resource_element F r) = Some r'"
  shows "set (get_tags r') \<noteq> set (get_tags r)"
  using assms by (rule reread_tags_differ)

lemma resource_tags_change_witness:
  "set (get_tags (the (decode_resource sample_platform sample_project (resource_element sample_platform
     (hd (prj_resources sample_project)))))) \<noteq> {''tree''}"
  using resource_tags_change [of sample_platform sample_project "hd (prj_resources sample_project)"] sample_reread
  by (simp add: sample_project_def get_tags_def)

text \<open>
  The handlers of the parser rebuild a document from its events: when the parser reports the events
  of a list of nodes in normal form, the document that is loaded holds exactly these nodes.
\<close>

theorem handlers_rebuild_document:
  assumes "sax s = Some (concat (map node_events xs))" and "list_all normal_node xs"
  shows "load_document sax s = Some (Some (XmlElement ''Document'' [] xs))"
  using assms by (rule load_normal_document)

lemma handlers_rebuild_document_witness:
  "load_document sample_expat ''inner'' = Some (Some (XmlElement ''Document'' [] inner_document))"
  by (rule handlers_rebuild_document) (simp_all add: sample_expat_def inner_document_normal)

section \<open>Resources\<close>

text \<open>
  A cache hands out one object for a resource: whatever was asked for in between, and whatever
  the creation would give by then, every later request for a resource returns the state set or the
  node that an earlier one got; only where the creation failed is it tried again.
\<close>

theorem cached_object_is_kept:
  assumes "i < j" and "j < length qs" and "snd (qs ! i) = snd (qs ! j)"
  shows "(served get_state_set qs c ! i = Some n \<longrightarrow> served get_state_set qs c ! j = Some n) \<and>
    (served get_node qs c ! i = Some n \<longrightarrow> served get_node qs c ! j = Some n)"
  using state_sets.same_object [OF assms] nodes.same_object [OF assms] by blast

lemma cached_object_is_kept_witness:
  "served get_state_set [(\<lambda>_. Some 1, True), (\<lambda>_. None, False), (\<lambda>_. Some 2, True)] resource_cache_new ! 2 =
     Some (1 :: nat)"
proof -
  have "served get_state_set [(\<lambda>_. Some 1, True), (\<lambda>_. None, False), (\<lambda>_. Some 2, True)] resource_cache_new ! 0 =
      Some (1 :: nat)"
    by (simp add: get_state_set_def resource_cache_new_def)
  then show ?thesis
    using cached_object_is_kept [of 0 2 "[(\<lambda>_. Some 1, True), (\<lambda>_. None, False), (\<lambda>_. Some 2, True)]"
        resource_cache_new "1 :: nat"] by simp
qed

text \<open>
  The lists of a library hold resources of their class whatever is added and removed, and a lookup
  finds the resource of a name that was added first.
\<close>

theorem library_lists_typed:
  "library_ok obj (foldl (\<lambda>lib op. run_op obj dir_of op lib) library_new ops) \<and>
   lib_find obj k name (add_resource obj dir_of (Some r) lib) =
     (case lib_find obj k name lib of
        Some x \<Rightarrow> Some x
      | None \<Rightarrow> if list_of_data (res_own (obj r)) = Some k \<and> res_name (obj r) = name then Some r else None)"
  by (rule conjI [OF run_ops_ok [OF library_new_ok] lib_find_add])

section \<open>Quad keys\<close>


text \<open>
  The level chosen for a cell size is the first one whose cells are narrower than the width or
  lower than the height; the search does not return exactly when there is no such level.
\<close>

theorem best_lod_is_first:
  "(get_best_lod_for_cells_of_size m w h = None) =
     (\<forall>n. w \<le> fst (get_cell_size m n) \<and> h \<le> snd (get_cell_size m n)) \<and>
   (case get_best_lod_for_cells_of_size m w h of
      None \<Rightarrow> True
    | Some lod \<Rightarrow> (w > fst (get_cell_size m lod) \<or> h > snd (get_cell_size m lod)) \<and>
        (\<forall>k < lod. w \<le> fst (get_cell_size m k) \<and> h \<le> snd (get_cell_size m k)))"
proof (cases "best_lod_loop m w h 1")
  case None
  have "w \<le> fst (get_cell_size m n) \<and> h \<le> snd (get_cell_size m n)" for n
  proof (rule ccontr)
    assume "\<not> ?thesis"
    then have "w > fst (get_cell_size m (n + 1 - 1)) \<or> h > snd (get_cell_size m (n + 1 - 1))" by auto
    from best_lod_loop_total [OF this, of 1] None show False by simp
  qed
  moreover have "get_best_lod_for_cells_of_size m w h = None"
    using None by (simp add: get_best_lod_for_cells_of_size_def)
  ultimately show ?thesis by simp
next
  case (Some r)
  note l = best_lod_loop_Some [OF this]
  have "\<forall>k < r - 1. w \<le> fst (get_cell_size m k) \<and> h \<le> snd (get_cell_size m k)"
  proof (intro allI impI)
    fix k assume "k < r - 1"
    with l show "w \<le> fst (get_cell_size m k) \<and> h \<le> snd (get_cell_size m k)"
      by (metis One_nat_def add_diff_cancel_left' le_add1 less_diff_conv plus_1_eq_Suc add.commute)
  qed
  moreover have "get_best_lod_for_cells_of_size m w h = Some (r - 1)"
    using Some by (simp add: get_best_lod_for_cells_of_size_def)
  ultimately show ?thesis using l by (auto simp: not_le)
qed

lemma best_lod_is_first_witness:
  "get_best_lod_for_cells_of_size sample_map 3 3 \<noteq> None"
proof -
  have "\<not> (\<forall>n. 3 \<le> fst (get_cell_size sample_map n) \<and> 3 \<le> snd (get_cell_size sample_map n))"
    by (intro notI) (drule spec [of _ 2], simp)
  with conjunct1 [OF best_lod_is_first [of sample_map 3 3]] show ?thesis by blast
qed

text \<open>
  C19. For an area of interest inside the bounds of the map the range of cells that is returned
  holds exactly the columns and the rows whose cells overlap the area in more than an edge.
\<close>

theorem cells_of_area_exact:
  assumes "ext_wf s (bounds m)" and "ext_wf s aoi" and "srs_usable s" and "lod \<le> 32"
    and "ext_box aoi \<subseteq> ext_box (bounds m)"
    and "px (sw aoi) < px (ne aoi)" and "py (sw aoi) < py (ne aoi)"
    and "get_cell_size m lod = (cw, ch)"
  shows "\<exists>x0 y0 x1 y1. get_cells (ogr_vt L) m aoi lod = Some (Some (x0, y0, x1, y1)) \<and>
    (\<forall>i. x0 \<le> i \<and> i \<le> x1 \<longleftrightarrow>
       px (sw (bounds m)) + real i * cw < px (ne aoi) \<and>
       px (sw aoi) < px (sw (bounds m)) + (real i + 1) * cw) \<and>
    (\<forall>j. y0 \<le> j \<and> j \<le> y1 \<longleftrightarrow>
       py (sw (bounds m)) + real j * ch < py (ne aoi) \<and>
       py (sw aoi) < py (sw (bounds m)) + (real j + 1) * ch)"
  by (rule ogr.get_cells_overlap [OF assms])

lemma cells_of_area_exact_witness:
  "\<exists>x0 y0 x1 y1. get_cells (ogr_vt sample_lib) sample_map (sample_box 1 1 5 3) 1 =
     Some (Some (x0, y0, x1, y1))"
proof -
  have "ext_box (sample_box 1 1 5 3) \<subseteq> ext_box (sample_box 0 0 8 8)" by (auto simp: ext_box_def)
  then show ?thesis
    using cells_of_area_exact [of sample_srs sample_map "sample_box 1 1 5 3" 1 4 4 sample_lib]
    by simp blast
qed

section \<open>Map layers\<close>



text \<open>
  C21. A loop over the cursor of a grid ends, but after the first row of the first level: the column
  counts up to the number of columns, where there is no next cell, and is reset only beyond it.
\<close>

theorem grid_cursor_stops_after_first_row:
  assumes "0 < num_levels" and "0 < ax_count (gp_rows p)"
  shows "grid_loop p num_levels grid_cursor_new = Some (map (\<lambda>col. (col, 0, 0)) [0..<ax_count (gp_cols p)])"
  using grid_loop_row [OF assms, of 0] by (simp add: grid_cursor_new_def)

lemma grid_cursor_stops_after_first_row_witness:
  "grid_loop (init_by_cell_count (sample_box 0 0 4 2) 2 3) 4 grid_cursor_new = Some [(0, 0, 0), (1, 0, 0)]"
  by (subst grid_cursor_stops_after_first_row)
    (simp_all add: init_by_cell_count_def count_axis_def Let_def upt_conv_Cons)

text \<open>
  Both orders of the keys of a grid have the same keys, each of them once when the depths of the
  levels differ; when the depth of a level is its position every key finds its level.
\<close>

theorem grid_keys_once:
  assumes "map ll_depth levels = [0..<length levels]"
  shows "mset (grid_keys p levels True) = mset (grid_keys p levels False) \<and>
    (\<forall>(col, row, d) \<in> set (grid_keys p levels df). lod_for_key levels (col, row, d) = Some (levels ! d) \<and>
       ll_depth (levels ! d) = d)"
  by (rule grid_keys_ok [OF assms])

text \<open>
  C22. The keys for which geometry is built cover the area of interest at every level: for a map that
  is not geocentric, and no deeper than 31 levels, the collection of the keys succeeds, and every
  point of the area lies in the extent of a key one level below each level of the layer.
\<close>

theorem quad_keys_cover_area:
  assumes "quad_profile (ogr_vt L) geocentric wgs84 (Some t) layer = Some m" and "\<not> geocentric t"
    and "ext_wf s (area_of_interest layer)" and "srs_usable s"
    and "px (sw (area_of_interest layer)) < px (ne (area_of_interest layer))"
    and "py (sw (area_of_interest layer)) < py (ne (area_of_interest layer))"
    and "get_top_lod m layer = Some top_lod"
    and "list_all (\<lambda>lv. top_lod + ll_depth lv \<le> 31) (tl_levels layer)"
  shows "\<exists>keys. collect_geometry_keys (ogr_vt L) m layer = Some keys \<and>
    (\<forall>lv \<in> set (tl_levels layer). \<forall>p \<in> ext_box (area_of_interest layer).
       \<exists>k \<in> set keys. get_lod k = Suc (top_lod + ll_depth lv) \<and> p \<in> ext_box (fst (key_get_extent k)))"
  using ogr.quad_profile_square [OF assms(1) refl assms(2-4)] ogr.quad_keys_cover [OF _ assms(3,4) _ assms(5-8)] by blast

lemma quad_keys_cover_area_witness:
  "\<exists>keys. collect_geometry_keys (ogr_vt sample_lib) sample_profile sample_tiled = Some keys \<and>
     (\<exists>k \<in> set keys. (2, 2) \<in> ext_box (fst (key_get_extent k)))"
proof -
  have "(2, 2) \<in> ext_box (area_of_interest sample_tiled)" by (simp add: ext_box_def)
  with quad_keys_cover_area [OF sample_profile_eq _ sample_tiled_ok(1-4) sample_top_lod sample_tiled_ok(5)]
  show ?thesis by (simp del: sample_tiled_simps(2)) blast
qed

text \<open>
  C23. No null task is queued: every key that was collected finds a level, so each key that is
  selected has a task under its name that reads the feature layer of a level.
\<close>

theorem quad_tasks_never_null:
  assumes "ext_wf s (bounds m)" and "collect_geometry_keys V m layer = Some keys"
    and "get_srs (area_of_interest layer) = Some t"
    and "list_all (\<lambda>lv. ll_depth lv < 2 ^ 32) (tl_levels layer)"
  shows "\<exists>tasks. quad_queue_tasks V L C layer (Some m) = Some (map Some tasks, length keys) \<and>
    map cc_cell_id tasks = map key_to_string (filter (selected C) keys) \<and>
    list_all (\<lambda>tsk. cc_layer tsk \<in> ll_layer ` set (tl_levels layer)) tasks"
  by (rule quad_tasks [OF assms])

lemma quad_tasks_never_null_witness:
  "\<exists>tasks n. quad_queue_tasks (ogr_vt sample_lib) sample_layers sample_compiler sample_tiled
     (Some sample_profile) = Some (map Some tasks, n)"
proof -
  obtain keys where "collect_geometry_keys (ogr_vt sample_lib) sample_profile sample_tiled = Some keys"
    using sample_keys by blast
  from quad_tasks_never_null [OF sample_profile_wf(1) this sample_tiled_ok(7,6)] show ?thesis by blast
qed

text \<open>
  C24. The index is built exactly when the keys can be collected, and its nodes refer to exactly the
  geometry files of those keys that exist.
\<close>

theorem index_refers_to_geometry:
  "rel_option (\<lambda>ib keys. index_refs ib = geometry_file C ` {k. k \<in> set keys \<and> was_built C exists_file k})
     (build_index V C exists_file layer (Some m)) (collect_geometry_keys V m layer)"
proof -
  have "built_files C exists_file keys = geometry_file C ` {k. k \<in> set keys \<and> was_built C exists_file k}" for keys
    by (simp add: built_files_def)
  with build_index_refs [of C exists_file V layer m] show ?thesis by simp
qed

text \<open>
  C25. Compiling a layer without threads ends: every task that was queued is run once, in the order of
  the queue, exactly the tasks that ended well are processed, and none is left.
\<close>

theorem compilation_ends:
  "\<exists>cs. compile_layer outcome built_index None tasks n = Some (built_index, cs) \<and>
     executed (cs_manager cs) = tasks \<and> cs_processed cs = filter (\<lambda>k. outcome k = Completed_OK) tasks \<and>
     get_num_tasks (cs_manager cs) = 0"
  by (rule compile_layer_runs)

section \<open>Building projects\<close>

text \<open>
  C26. Building a source is running a plan that the times of the files decide before anything is made:
  the source and its parents as far up as no file is newer than its parent's, made again from the
  uppermost down, each from its parent through its graph, up to the first that fails.
\<close>

theorem sources_built_by_plan:
  "build_source H p sn n i w = map_option (\<lambda>c. rebuild_all H p sn (rev c) w) (rebuild_chain H p w n i)"
  by (rule build_source_is_plan)

text \<open>
  C27. Building a source of a project whose references resolve ends, with at most one call more than there
  are sources, unless sources that are made from each other in a circle have files of one time.
\<close>

theorem source_building_ends:
  assumes "refs_ok p" and "i < length (prj_sources p)" and "acyclic (same_time_parents H p w)"
  shows "\<exists>r. build_source H p sn (Suc (length (prj_sources p))) i w = Some r"
  using build_source_ends [OF assms] by blast

theorem source_building_ends_witness:
  "\<exists>r. build_source sample_host sample_build sample_session 3 1 sample_disk = Some r"
  using source_building_ends [OF sample_build_ok(1) _ sample_acyclic, of 1 sample_session]
  by (simp add: sample_build_ok(2) numeral_3_eq_3 numeral_2_eq_2 del: build_source.simps)

text \<open>
  C28. When the slices of a layer were added, the map layer has, after the levels that it had, one level
  for each slice that has a source of its own or of a slice around it: a slice before its parts, parts
  one deeper, with the ranges and the graph of the slice.
\<close>

theorem slices_become_levels:
  assumes "add_slices H p sn fuel props packager depth parent slices m w = Some (True, m1, w1)"
  shows "map level_view (tl_levels m1) = map level_view (tl_levels m) @ slice_plan depth parent slices"
  using assms by (rule add_slices_levels)

theorem slices_become_levels_witness:
  "\<exists>m w. add_slices sample_host sample_build sample_session 3 [] (Some packager_new) 0 None sample_slices
       (tiled_layer_new 0 0) sample_disk = Some (True, m, w) \<and>
     map level_view (tl_levels m) = [(0, 0, 100, Some 0), (1, 0, 50, Some 0)]"
proof -
  obtain m w where a: "add_slices sample_host sample_build sample_session 3 [] (Some packager_new) 0 None sample_slices
       (tiled_layer_new 0 0) sample_disk = Some (True, m, w)"
    using sample_slices_added by (elim exE)
  from slices_become_levels [OF this] have "map level_view (tl_levels m) = [(0, 0, 100, Some 0), (1, 0, 50, Some 0)]"
    by (simp add: tiled_layer_new_def sample_slices_def or_source_def)
  with a show ?thesis by (intro exI conjI)
qed



section \<open>Filters on parts\<close>





section \<open>Geometry filters\<close>

text \<open>
  C32. The buffer of a level polygon is the polygon moved sideways: every vertex of it lies at the
  distance of the buffer to the right of the lines through two consecutive edges of the part.
\<close>

theorem buffered_polygon_at_distance:
  assumes "list_all (\<lambda>p. pz p = h) part"
    and "new_part \<in> set (buffer_polygon_part b part)" and "v \<in> set new_part"
  shows "\<exists>k < length part.
    let vertex = (\<lambda>i. part ! (i mod length part)) in
    right_distance (vertex k) (vertex (k + 1)) v = b \<and> right_distance (vertex (k + 1)) (vertex (k + 2)) v = b"
  using buffered_polygon_distance [OF _ assms(2,3)] assms(1) by (auto simp: list_all_iff)

lemma buffered_polygon_at_distance_witness:
  "\<exists>k < length sample_square. 
    right_distance (sample_square ! k) (sample_square ! (Suc k mod length sample_square)) (sample_point 5 (-1)) = 1"
proof -
  have seg: "polygon_segments 1 sample_square =
     [((0, -1, 0), (4, -1, 0)), ((5, 0, 0), (5, 4, 0)), ((4, 5, 0), (0, 5, 0)), ((-1, 4, 0), (-1, 0, 0))]"
    by (simp add: polygon_segments_def ring_pairs_def sample_square_def shifted_def direction_def normalized_def
        Let_def xyz_def sample_point_def)
  have "\<exists>p \<in> set (buffer_polygon_part 1 sample_square). sample_point 5 (-1) \<in> set p"
    by (simp add: buffer_polygon_part_def seg ring_pairs_def intersections_def line_intersection_def
       List.map_filter_simps Let_def)
     (simp add: sample_square_def vertex_like_def set_dim_def sample_point_def)
  then obtain p where p: "p \<in> set (buffer_polygon_part 1 sample_square)" "sample_point 5 (-1) \<in> set p" by blast
  have "list_all (\<lambda>p. pz p = 0) sample_square" by (simp add: sample_square_def) (simp add: sample_point_def)
  from buffered_polygon_at_distance [OF this p] show ?thesis
    by (auto simp: Let_def sample_square_def)
qed



text \<open>
  The comparison that sorts the points of the hull is the order by angle around the lowest
  point for all points that are not straight above it; one that is compares equal to every other.
\<close>

theorem comparison_is_angle_order:
  assumes "above p a" and "above p b" and "px a \<noteq> px p" and "px b \<noteq> px p"
  shows "(lesser_angle p a b \<longleftrightarrow> cross2d p a b > 0) \<and>
    (px v = px p \<longrightarrow> \<not> lesser_angle p v a \<and> \<not> lesser_angle p a v)"
  using lesser_angle_cross [OF assms] vertical_incomparable [of v p a] by blast

lemma comparison_is_angle_order_witness:
  "lesser_angle (sample_point 0 0) (sample_point 4 1) (sample_point (-1) 4) =
     (cross2d (sample_point 0 0) (sample_point 4 1) (sample_point (-1) 4) > 0)"
  by (rule conjunct1 [OF comparison_is_angle_order]) (simp_all add: above_def)

text \<open>
  C34. Combining lines keeps their edges: as long as equality of points is that of their
  coordinates, the lines that come out have the edges that went in, each as often as before.
\<close>

theorem combined_lines_keep_edges:
  assumes "coordinates_decide V (\<Union> (set ` set ps))" and "list_all (\<lambda>p. p \<noteq> []) ps"
  shows "(\<Sum>p \<leftarrow> combined_segs V ps. line_edges p) = (\<Sum>p \<leftarrow> ps. line_edges p)"
  by (rule combined_edges [OF assms])

lemma combined_lines_keep_edges_witness:
  "(\<Sum>p \<leftarrow> combined_segs (ogr_vt sample_lib) [[sample_point 0 0, sample_point 4 2], [sample_point 6 0, sample_point 4 2]].
      line_edges p) = {#{(0, 0, 0), (4, 2, 0)}, {(6, 0, 0), (4, 2, 0)}#}"
proof -
  have "point_eq (ogr_vt sample_lib) (sample_point a b) (sample_point c d) \<longleftrightarrow>
      xyz (sample_point a b) = xyz (sample_point c d)" for a b c d
    by (simp add: point_eq_def srs_equivalent_def xyz_def) (auto simp add: sample_point_def)
  then show ?thesis
    by (subst combined_lines_keep_edges)
      (auto simp: coordinates_decide_def line_edges_def xyz_def sample_point_def)
qed



text \<open>
  C36. With a uniform height all points of the roof line are at one level, that of the highest raised
  point: the height above a projected or geographic reference, the distance from the centre of a
  geocentric one. The frame of the reference and its inverse have to cancel.
\<close>

theorem uniform_roof_is_level:
  assumes "ws_uniform W" and "[] \<notin> set (parts sh)" and "concat (parts sh) \<noteq> []"
    and "sum_list (map length (parts sh)) < 2 ^ 32"
    and "\<forall>v. mat_mult L (mat_mult L v (get_frame s)) (get_inv_frame s) = v"
    and "\<forall>p \<in> set (concat (parts sh)). - dbl_max \<le> raised s (ws_height W) (to_world L s p) \<and>
      (is_geocentric s \<longrightarrow> 0 < v_length (to_world L s p))"
    and "extrude_walls_up V L c0 sh (Some s) W True base = Some x"
  shows "\<forall>v \<in> set (map fst (written (the (ex_top x)))).
    level s (mat_mult L v (get_inv_frame s)) = Max ((\<lambda>p. raised s (ws_height W) (to_world L s p)) ` set (concat (parts sh)))"
proof -
  let ?t = "fst (measure_shape L s (ws_height W) sh)"
  have t: "?t = Max ((\<lambda>p. raised s (ws_height W) (to_world L s p)) ` set (concat (parts sh)))"
    by (rule target_is_max [OF assms(3)]) (use assms(6) in blast)
  from extrusion_spec [OF assms(2,4), of V L c0 s W True base] assms(7)
  have top: "map fst (written (the (ex_top x))) = map (extrude_vec L s W ?t) (concat (parts sh))"
    by (auto simp: roof_line_def)
  have "level s (mat_mult L (extrude_vec L s W ?t p) (get_inv_frame s)) = ?t" if p: "p \<in> set (concat (parts sh))" for p
  proof (rule uniform_level [OF assms(1,5)])
    show "is_geocentric s \<longrightarrow> 0 \<le> ?t \<and> 0 < v_length (to_world L s p)"
      using bspec [OF assms(6) p] target_nonneg [OF assms(3), of s L] by blast
  qed
  then show ?thesis unfolding top t by auto
qed

lemma uniform_roof_is_level_witness:
  "\<exists>x. extrude_walls_up (ogr_vt sample_lib) sample_lib 0 sample_house (Some sample_srs) sample_style True False = Some x \<and>
    list_all (\<lambda>v. v_z v = 3) (map fst (written (the (ex_top x))))"
proof -
  have parts: "[] \<notin> set (parts sample_house)" "sum_list (map length (parts sample_house)) < 2 ^ 32"
    "concat (parts sample_house) \<noteq> []"
    by (simp_all add: sample_square_def)
  from extrusion_spec [OF parts(1,2), of "ogr_vt sample_lib" sample_lib 0 sample_srs sample_style True False]
  obtain x where x: "extrude_walls_up (ogr_vt sample_lib) sample_lib 0 sample_house (Some sample_srs) sample_style True False = Some x"
    by blast
  have z: "raised sample_srs (ws_height sample_style) (to_world sample_lib sample_srs p) = pz p + 3" for p
    by (simp add: raised_def sample_srs_def to_world_def sample_lib_def xyz_def v_z_def sample_style_def wall_style_def)
  have "(\<lambda>p. raised sample_srs (ws_height sample_style) (to_world sample_lib sample_srs p)) ` set (concat (parts sample_house)) = {3}"
    unfolding z by (auto simp: sample_square_def sample_point_def)
  moreover have "\<forall>p \<in> set (concat (parts sample_house)). - dbl_max \<le> raised sample_srs (ws_height sample_style) (to_world sample_lib sample_srs p) \<and>
      (is_geocentric sample_srs \<longrightarrow> 0 < v_length (to_world sample_lib sample_srs p))"
    unfolding z by (simp add: sample_square_def sample_point_def dbl_max_def sample_srs_def)
  ultimately have "\<forall>v \<in> set (map fst (written (the (ex_top x)))). level sample_srs (mat_mult sample_lib v (get_inv_frame sample_srs)) = 3"
    using uniform_roof_is_level [OF _ parts(1,3,2) _ _ x] by (simp add: sample_style_def wall_style_def sample_lib_def)
  then have "\<forall>v \<in> set (map fst (written (the (ex_top x)))). v_z v = 3"
    by (simp add: level_def sample_srs_def sample_lib_def)
  with x show ?thesis by (auto simp: list_all_iff)
qed

section \<open>Feature stores\<close>



section \<open>Spatial references and extents\<close>

text \<open>
  C38. Growing an extent from a default one over a list of points gives the smallest box around
  their images: after the first point fixes the reference, the corners are the least and greatest
  coordinates of the points that can be transformed, and the extent is well-formed.
\<close>

theorem extent_is_hull:
  assumes "point_valid p" and "spatial_ref p = Some s"
  shows "ext_wf s (expand_to_include_points (ogr_vt L) ext_default (p # ps)) \<and>
    px (sw (expand_to_include_points (ogr_vt L) ext_default (p # ps))) =
      Min (px ` set (p # usable_images (ogr_vt L) s ps)) \<and>
    py (sw (expand_to_include_points (ogr_vt L) ext_default (p # ps))) =
      Min (py ` set (p # usable_images (ogr_vt L) s ps)) \<and>
    px (ne (expand_to_include_points (ogr_vt L) ext_default (p # ps))) =
      Max (px ` set (p # usable_images (ogr_vt L) s ps)) \<and>
    py (ne (expand_to_include_points (ogr_vt L) ext_default (p # ps))) =
      Max (py ` set (p # usable_images (ogr_vt L) s ps))"
  using ogr.points_extent_wf [OF assms] ogr.points_extent_hull [OF assms] by blast

lemma extent_is_hull_witness:
  "ext_wf sample_srs (expand_to_include_points (ogr_vt sample_lib) ext_default [sample_point 1 2])"
  using extent_is_hull [of "sample_point 1 2" sample_srs sample_lib "[]"] by simp

text \<open>
  C39. Two extents in one reference intersect exactly when their boxes share a point, whichever is
  asked.
\<close>

theorem intersects_iff_boxes_meet:
  assumes "srs_usable s" and "ext_wf s e" and "ext_wf s f"
  shows "intersects (ogr_vt L) e f = (ext_box e \<inter> ext_box f \<noteq> {}) \<and>
    intersects (ogr_vt L) f e = (ext_box e \<inter> ext_box f \<noteq> {})"
  using ogr.intersects_wf [OF assms(2,3,1)] ogr.intersects_commute [OF assms(2,3,1)] by blast

lemma intersects_iff_boxes_meet_witness:
  "intersects (ogr_vt sample_lib) (sample_box 0 0 2 2) (sample_box 1 1 3 3) =
     (ext_box (sample_box 0 0 2 2) \<inter> ext_box (sample_box 1 1 3 3) \<noteq> {})"
  using intersects_iff_boxes_meet [of sample_srs "sample_box 0 0 2 2" "sample_box 1 1 3 3" sample_lib]
  by simp

text \<open>
  The intersection of two extents in one reference is the extent of the common box when the
  boxes overlap in an area, and the empty extent when they do not.
\<close>

theorem intersection_is_common_box:
  assumes "srs_usable s" and "ext_wf s e" and "ext_wf s f"
  shows "if px (sw f) < px (ne e) \<and> px (sw e) < px (ne f) \<and> py (sw f) < py (ne e) \<and> py (sw e) < py (ne f)
    then (\<exists>g. get_intersection (ogr_vt L) e f = Some g \<and> ext_wf s g \<and> ext_box g = ext_box e \<inter> ext_box f)
    else get_intersection (ogr_vt L) e f = Some ext_empty"
  using ogr.get_intersection_overlap [OF assms(2,3,1)] ogr.get_intersection_disjoint [OF assms(2,3,1)]
  by (simp add: not_less)

lemma intersection_is_common_box_witness:
  "\<exists>g. get_intersection (ogr_vt sample_lib) (sample_box 0 0 2 2) (sample_box 1 1 3 3) = Some g \<and>
     ext_wf sample_srs g \<and> ext_box g = ext_box (sample_box 0 0 2 2) \<inter> ext_box (sample_box 1 1 3 3)"
  using intersection_is_common_box [of sample_srs "sample_box 0 0 2 2" "sample_box 1 1 3 3" sample_lib]
  by simp

text \<open>
  Asking whether an extent contains a point dereferences a null reference exactly for a valid
  point and an extent that is valid, finite and has an invalid southwest corner, such as a default
  constructed one.
\<close>

theorem contains_null_reference:
  "contains_point (ogr_vt L) e p = None \<longleftrightarrow>
     is_valid e \<and> \<not> is_infinite e \<and> point_valid p \<and> \<not> point_valid (sw e)"
  by (rule contains_point_null_iff)

text \<open>
  Expanding an extent by a margin moves its southwest and northeast corners and leaves the
  other two behind; a copy of the result has all four corners right again.
\<close>

theorem expand_leaves_corners:
  assumes "ext_wf s e" and "0 \<le> x" and "0 \<le> y"
  shows "se (expand e x y) = se e \<and> nw (expand e x y) = nw e \<and>
    ext_wf s (ext_copy (expand e x y)) \<and> ext_box e \<subseteq> ext_box (ext_copy (expand e x y))"
  using expand_copy_wf [OF assms] assms(2,3)
  by (auto simp: ext_copy_def ext_box_def)

lemma expand_leaves_corners_witness:
  "se (expand (sample_box 0 0 2 2) 1 1) = se (sample_box 0 0 2 2)"
  using expand_leaves_corners [of sample_srs "sample_box 0 0 2 2" 1 1] by simp

text \<open>
  A transformation never changes a valid point that is already in the target reference, and a
  valid result is always in the target reference, so transforming twice is transforming once.
\<close>

theorem transform_into_own_reference:
  assumes "srs_usable s" and "point_valid (srs_transform L s p)"
  shows "spatial_ref (srs_transform L s p) = Some s \<and>
    srs_transform L s (srs_transform L s p) = srs_transform L s p"
  using srs_transform_srs [OF assms(2)] srs_transform_same [OF assms(1) assms(2)] by blast

lemma transform_into_own_reference_witness:
  "srs_transform sample_lib sample_srs (srs_transform sample_lib sample_srs (sample_point 1 2)) =
     srs_transform sample_lib sample_srs (sample_point 1 2)"
  using transform_into_own_reference [of sample_srs sample_lib "sample_point 1 2"]
    srs_transform_same [of sample_srs "sample_point 1 2" sample_lib] by simp

text \<open>
  On the surface of the ellipsoid the conversion to geocentric coordinates and back returns
  the longitude and latitude it started with, away from the poles, and the geocentric point
  satisfies the equation of the ellipsoid.
\<close>

theorem geocentric_roundtrip:
  assumes "0 < b" "b \<le> a" and "\<And>d. deg2rad d = d * (pi / 180)" and "\<And>r. rad2deg r = r * (180 / pi)"
    and "-90 < lat" "lat < 90" "-180 < lon" "lon \<le> 180"
  shows "geocentric_to_lat_long rad2deg (ellipsoid_new a b)
      (lat_long_to_geocentric deg2rad (ellipsoid_new a b) (lon, lat, 0)) = (lon, lat, 0) \<and>
    (case lat_long_to_geocentric deg2rad (ellipsoid_new a b) (lon, lat, 0) of
       (X, Y, Z) \<Rightarrow> X\<^sup>2 / a\<^sup>2 + Y\<^sup>2 / a\<^sup>2 + Z\<^sup>2 / b\<^sup>2 = 1)"
  using geocentric_roundtrip_surface [OF assms(1-8)] geocentric_on_surface [OF assms(1,2)]
  by (auto split: prod.split)

lemma geocentric_roundtrip_witness:
  "geocentric_to_lat_long (\<lambda>r. r * (180 / pi)) (ellipsoid_new 2 1)
     (lat_long_to_geocentric (\<lambda>d. d * (pi / 180)) (ellipsoid_new 2 1) (30, 45, 0)) = (30, 45, 0)"
  using geocentric_roundtrip [of 1 2 "\<lambda>d. d * (pi / 180)" "\<lambda>r. r * (180 / pi)" 45 30] by simp



section \<open>Shapes and features\<close>

text \<open>
  The extent of a shape whose points are in one reference covers every valid point of it,
  whether it comes from the cache or is computed.
\<close>

theorem shape_extent_covers_points:
  assumes "cache_ok (ogr_vt L) sh" and "srs_usable s"
    and "\<forall>p \<in> set (concat (parts sh)). point_valid p \<longrightarrow> spatial_ref p = Some s"
    and "p \<in> set (concat (parts sh))" and "point_valid p"
  shows "ext_wf s (fst (get_extent (ogr_vt L) sh)) \<and>
    pt_xy p \<in> ext_box (fst (get_extent (ogr_vt L) sh)) \<and>
    cache_ok (ogr_vt L) (snd (get_extent (ogr_vt L) sh))"
  using ogr.shape_extent_covers [OF assms] get_extent_cache_ok(1) [OF assms(1)] by blast

lemma shape_extent_covers_points_witness:
  "pt_xy (sample_point 4 2) \<in> ext_box (fst (get_extent (ogr_vt sample_lib) sample_shape))"
  using shape_extent_covers_points [of sample_lib sample_shape sample_srs "sample_point 4 2"] by simp

text \<open>
  A feature whose first shape has no valid point has no shape data, whatever the other shapes
  hold, so no filter state accepts it.
\<close>

theorem empty_first_shape_hides_feature:
  assumes "cache_ok V sh" and "\<forall>p \<in> set (concat (parts sh)). \<not> point_valid p"
    and "fshapes f = sh # shs" and "\<not> is_valid (fextent f)"
  shows "\<not> has_shape_data V f \<and> push_features V [f] st = push_features V [] st"
  using first_shape_hides [OF assms] by (simp add: push_features_def)

lemma empty_first_shape_hides_feature_witness:
  "\<not> has_shape_data (ogr_vt sample_lib)
       (modify_shapes simple_feature (\<lambda>_. [shape_new shape_type.TYPE_LINE None, sample_shape]))"
  by (rule conjunct1 [OF empty_first_shape_hides_feature [of "ogr_vt sample_lib"
        "shape_new shape_type.TYPE_LINE None" _ "[sample_shape]"]])
    (simp_all add: shape_ops_cache_ok, simp_all add: shape_new_def modify_shapes_def invalid_unusable)

text \<open>
  When the first shape has a valid point and all shapes are in one reference, the extent of
  the feature covers every valid point of every shape.
\<close>

theorem feature_extent_covers_points:
  assumes "srs_usable s" and "fshapes f = sh # shs" and "\<not> is_valid (fextent f)"
    and "\<forall>x \<in> set (fshapes f). shape_in (ogr_vt L) s x"
    and "\<exists>p \<in> set (concat (parts sh)). point_valid p"
    and "x \<in> set (fshapes f)" "p \<in> set (concat (parts x))" "point_valid p"
  shows "has_shape_data (ogr_vt L) f \<and> pt_xy p \<in> ext_box (fst (feature_get_extent (ogr_vt L) f))"
  using ogr.feature_extent_covers [OF assms] .

lemma feature_extent_covers_points_witness:
  "has_shape_data (ogr_vt sample_lib) sample_feature"
  using feature_extent_covers_points [of sample_srs sample_feature sample_shape "[]" sample_lib
      sample_shape "sample_point 0 0"]
  by (simp add: invalid_unusable)

text \<open>
  The even-odd test of a point against a polygon does not depend on the direction in which
  its vertices are listed, nor does it ever hold for a polygon without vertices.
\<close>

theorem point_in_polygon_direction:
  "point_in_polygon (rev ps) q = point_in_polygon ps q \<and> \<not> point_in_polygon [] q"
proof
  show "\<not> point_in_polygon [] q" by (simp add: point_in_polygon_def polygon_edges_def)
qed (rule point_in_polygon_rev_eq)

text \<open>
  Winding a part opens it and makes it counter-clockwise: its signed area is not negative,
  its vertices are those of the opened part, and reversing any part negates the signed area.
\<close>

theorem wind_makes_ccw:
  "shoelace_sum (wind_part V ps) \<ge> 0 \<and> set (wind_part V ps) = set (open_polygon V ps) \<and>
     shoelace_sum (rev ps) = - shoelace_sum ps"
  by (simp add: wind_part_positive wind_part_set shoelace_sum_rev)

section \<open>Units, properties, attributes, strings\<close>

text \<open>
  A conversion between units succeeds exactly between units of one type, and converting back
  returns the value.
\<close>

theorem unit_conversion_roundtrip:
  assumes "to_baseline src \<noteq> 0" and "to_baseline dst \<noteq> 0"
  shows "(convert v src dst = None) = (unit_type src \<noteq> unit_type dst) \<and>
    (case convert v src dst of None \<Rightarrow> True | Some w \<Rightarrow> convert w dst src = Some v)"
  using convert_inverse [OF assms] by (auto simp: convert_def split: option.split)

lemma unit_conversion_roundtrip_witness:
  "(case convert 5 MILES FEET of None \<Rightarrow> True | Some w \<Rightarrow> convert w FEET MILES = Some 5)"
  using unit_conversion_roundtrip [of MILES FEET 5] by (simp add: MILES_def FEET_def)

text \<open>
  The conversion of an angular to a linear vector scales the eastward part by the sine of the
  latitude where its inverse divides by the cosine, so an eastward vector on the equator becomes
  zero although the inverse turns the length of a degree into one degree.
\<close>

theorem equator_vector_lost:
  assumes "deg2rad 0 = 0"
  shows "convert_angular_to_linear_vector deg2rad (x0, 0) (x1, 0) DEGREES METERS = (0, 0) \<and>
    convert_linear_to_angular_vector deg2rad (meters_in_one_deg_of_lat, 0) METERS DEGREES (x0, 0) =
      (x0 + 1, 0)"
  using angular_to_linear_equator [of deg2rad x0 x1] linear_to_angular_equator [of deg2rad x0] assms by simp

lemma equator_vector_lost_witness:
  "convert_angular_to_linear_vector (\<lambda>d. d * (pi / 180)) (10, 0) (11, 0) DEGREES METERS = (0, 0)"
  using equator_vector_lost [of "\<lambda>d. d * (pi / 180)" 10 11] by simp

text \<open>
  A list of properties is a map under normalised names: after any sequence of settings a name
  gives the last property set under it, or what was there before, and names stay unique.
\<close>

theorem properties_last_writer_wins:
  assumes "props_ok ps" and "list_all prop_normal vs"
  shows "props_ok (foldl props_set ps vs) \<and>
    props_get (foldl props_set ps vs) key =
      (case find (\<lambda>v. normalize key = normalize (pname v)) (rev vs) of
         Some v \<Rightarrow> v | None \<Rightarrow> props_get ps key)"
  using props.last_writer_wins [OF assms, of key] props.invar_stores [OF assms]
  by (simp add: props_get_lookup split: option.split)

lemma properties_last_writer_wins_witness:
  "props_get (foldl props_set [] [prop_string ''a-b'' ''1'', prop_string ''a_b'' ''2'']) ''a-b'' =
     (prop_string ''a_b'' ''2'' :: unit property)"
  using properties_last_writer_wins [of "[]"
      "[prop_string ''a-b'' ''1'', prop_string ''a_b'' ''2''] :: unit property list" "''a-b''"]
  by (simp add: props_ok_def constructors_normal)
    (simp add: prop_string_def normalize_def replace_char_def)

text \<open>
  An integer stored as a property or as an attribute comes back as it was, also when the
  attribute was read as text first.
\<close>

theorem integer_values_roundtrip:
  assumes "in_int_range i"
  shows "get_int_value (prop_int n i) d = Some i \<and> attr_as_int (attr_int g k i) = Some i \<and>
    attr_as_int (attr_string g k (fst (attr_as_string pd (attr_int g k i)))) = Some i"
  using prop_int_roundtrip [OF assms, of n d] attr_int_roundtrip(1) [of g k i] scan_show_int [OF assms]
  by (simp add: attr_as_string_def attr_int_def attr_string_def attr_as_int_def Let_def)

lemma integer_values_roundtrip_witness:
  "get_int_value (prop_int ''n'' (-7)) 0 = Some (-7)"
  by (rule conjunct1 [OF integer_values_roundtrip]) (simp add: in_int_range_def)

text \<open>
  The attributes of a feature read from a store are those of the store overridden by those the
  user set, in the order of their names, and looking one up by name gives the same attribute.
\<close>

theorem user_attributes_override:
  assumes "smap_sorted (store_attrs f)" and "smap_sorted (user_attrs f)" and "store_attrs_loaded f"
  shows "ogr_get_attributes A gb h f = (map snd (merged_attrs f), f) \<and> smap_sorted (merged_attrs f) \<and>
    ogr_get_attribute gb f key =
      (case map_of (merged_attrs f) (to_lower key) of Some a \<Rightarrow> a | None \<Rightarrow> attr_invalid gb)"
  using merged_attrs_lookup [OF assms(1,2)] assms(3)
  by (auto simp: ogr_get_attributes_def ogr_get_attribute_def Let_def split: option.split)

lemma user_attributes_override_witness:
  "ogr_get_attribute sample_attribute sample_attributed ''X'' = attr_int sample_attribute ''x'' 2"
proof -
  have "to_lower ''X'' = ''x''" by code_simp
  then show ?thesis
    using conjunct2 [OF conjunct2 [OF user_attributes_override
          [of sample_attributed _ sample_attribute _ "''X''"]]] by simp
qed

text \<open>
  Trimming leaves a string with no space at either end, or nothing, and is idempotent.
\<close>

theorem trim_strips_ends:
  "trim (trim s) = trim s \<and>
     (trim s = [] \<or> trim_space (hd (trim s)) = False \<and> trim_space (last (trim s)) = False)"
  using trim_idem [of s] trim_ends [of s] by blast

text \<open>
  The environment handed to the next filter has the output reference of the previous one as
  its input and output, keeps its properties and extents, and advancing it again changes nothing;
  the cell extent is the first finite extent that was set.
\<close>

theorem advanced_environment:
  assumes "\<not> is_infinite x"
  shows "in_srs (advance e) = out_srs e \<and> out_srs (advance e) = out_srs e \<and>
    env_props (advance e) = env_props e \<and> feature_extent (advance e) = feature_extent e \<and>
    cell_extent (advance e) = cell_extent e \<and> advance (advance e) = advance e \<and>
    cell_extent (set_extent (set_extent e x) y) =
      (if is_infinite (cell_extent e) then x else cell_extent e)"
  using set_extent_twice [OF assms, of e y] by (simp add: advance_fields advance_idem)

lemma advanced_environment_witness:
  "cell_extent (set_extent (set_extent sample_env (sample_box 0 0 1 1)) (sample_box 2 2 3 3)) =
     sample_box 0 0 1 1"
  using advanced_environment [of "sample_box 0 0 1 1" sample_env "sample_box 2 2 3 3"]
  by (simp add: sample_env_def env_new_def ext_infinite_def sample_box_def)

end
